(* ===== verification/CFloat.thy ===== *)
theory CFloat
  imports Complex_Main "HOL-Library.Log_Nat"
begin

text \<open>
  C's \<open>float\<close> and \<open>double\<close>, as the link controller computes with them.

  A finite floating-point value is the rational number it denotes, and every C operation is the
  exact rational operation followed by one rounding to the nearest representable value, ties to
  even: \<open>fl32\<close> for \<open>float\<close> (24 bit significand, least exponent -149) and \<open>fl64\<close> for \<open>double\<close>
  (53 bits, -1074).  That is what IEEE~754 binary32/binary64 and the target's hard-float unit do;
  overflow to an infinity is the one thing left out: a result is never clipped at the largest
  finite value (about 3.4e38 for a \<open>float\<close>), which no quantity of this program approaches.

  The laws the clients use (monotone, odd, exact on small integers, the half-ulp error below 1)
  are the assumptions of the locale \<open>fp_rounding\<close>, interpreted below by \<open>fl32\<close> and by \<open>fl64\<close>.
\<close>

section \<open>Rounding to nearest, ties to even\<close>

text \<open>The binary exponent of a positive rational: \<open>2 ^ e \<le> x < 2 ^ (e + 1)\<close>.\<close>

definition flog2 :: "rat \<Rightarrow> int" where
  "flog2 x = (let (a, b) = quotient_of x; l = bitlen a - bitlen b
              in if 2 powi l \<le> x then l else l - 1)"

definition rne :: "rat \<Rightarrow> int" where
  "rne y = (let f = \<lfloor>y\<rfloor>; d = y - of_int f
            in if d < 1 / 2 then f else if d > 1 / 2 then f + 1
               else if even f then f else f + 1)"

definition fround :: "nat \<Rightarrow> int \<Rightarrow> rat \<Rightarrow> rat" where
  "fround p emin x =
     (if x = 0 then 0
      else let e = max (flog2 \<bar>x\<bar> + 1 - int p) emin
           in sgn x * of_int (rne (\<bar>x\<bar> / 2 powi e)) * 2 powi e)"

definition fl32 :: "rat \<Rightarrow> rat" where
  "fl32 = fround 24 (- 149)"

definition fl64 :: "rat \<Rightarrow> rat" where
  "fl64 = fround 53 (- 1074)"

text \<open>C's conversion of a floating-point value to an integer type truncates towards zero.\<close>

definition c_trunc :: "rat \<Rightarrow> int" where
  "c_trunc x = (if 0 \<le> x then \<lfloor>x\<rfloor> else \<lceil>x\<rceil>)"

section \<open>Facts about the rounding\<close>

lemma rne_int [simp]: "rne (of_int n) = n"
  by (simp add: rne_def)

lemma rne_bounds: "\<bar>of_int (rne y) - y\<bar> \<le> 1 / 2"
proof -
  have "of_int \<lfloor>y\<rfloor> \<le> y" "y < of_int \<lfloor>y\<rfloor> + 1"
    by (auto simp: algebra_simps) linarith
  then show ?thesis by (auto simp: rne_def Let_def abs_le_iff)
qed

lemma rne_mono: "x \<le> y \<Longrightarrow> rne x \<le> rne y"
proof -
  assume xy: "x \<le> y"
  show ?thesis
  proof (cases "\<lfloor>x\<rfloor> = \<lfloor>y\<rfloor>")
    case True
    with xy show ?thesis by (auto simp: rne_def Let_def)
  next
    case False
    with xy have "\<lfloor>x\<rfloor> + 1 \<le> \<lfloor>y\<rfloor>" using floor_mono [OF xy] by linarith
    then show ?thesis by (auto simp: rne_def Let_def)
  qed
qed

lemma rne_nonneg: "0 \<le> y \<Longrightarrow> 0 \<le> rne y"
  using rne_mono [of 0 y] rne_int [of 0] by simp

lemma bitlen_powi_bounds:
  assumes "0 < a"
  shows "2 powi (bitlen a - 1) \<le> (of_int a :: rat)" "(of_int a :: rat) < 2 powi (bitlen a)"
proof -
  from assms have b: "1 \<le> bitlen a"
    by (metis bitlen_eq_zero_iff bitlen_nonneg int_one_le_iff_zero_less not_le order_le_less)
  from bitlen_bounds [OF assms]
  have l: "2 ^ nat (bitlen a - 1) \<le> a" and u: "a < 2 ^ nat (bitlen a)" by auto
  from l have "(2 :: rat) ^ nat (bitlen a - 1) \<le> of_int a"
    by (metis of_int_le_iff of_int_numeral of_int_power)
  with b show "2 powi (bitlen a - 1) \<le> (of_int a :: rat)"
    by (simp add: power_int_def)
  from u have "of_int a < (2 :: rat) ^ nat (bitlen a)"
    by (metis of_int_less_iff of_int_numeral of_int_power)
  with b show "(of_int a :: rat) < 2 powi (bitlen a)"
    by (simp add: power_int_def)
qed

lemma flog2_bounds:
  assumes "0 < x"
  shows "2 powi (flog2 x) \<le> x" "x < 2 powi (flog2 x + 1)"
proof -
  obtain a b where q: "quotient_of x = (a, b)" by (cases "quotient_of x")
  then have b: "0 < b" and x: "x = of_int a / of_int b"
    by (auto simp: quotient_of_denom_pos quotient_of_div)
  with assms have a: "0 < a" by (simp add: zero_less_divide_iff)
  let ?l = "bitlen a - bitlen b"
  have xu: "x < 2 powi (?l + 1)"
  proof -
    have "x < 2 powi (bitlen a) / of_int b"
      using x b bitlen_powi_bounds(2) [OF a] by (simp add: divide_strict_right_mono)
    also have "\<dots> \<le> 2 powi (bitlen a) / 2 powi (bitlen b - 1)"
      using bitlen_powi_bounds(1) [OF b] by (intro divide_left_mono) (auto simp: b)
    also have "\<dots> = 2 powi (?l + 1)"
      by (simp add: power_int_diff [symmetric] algebra_simps)
    finally show ?thesis .
  qed
  have xl: "2 powi (?l - 1) \<le> x"
  proof -
    have "2 powi (?l - 1) = 2 powi (bitlen a - 1) / (2 powi (bitlen b) :: rat)"
      by (simp add: power_int_diff [symmetric] algebra_simps)
    also have "\<dots> \<le> of_int a / 2 powi (bitlen b)"
      using bitlen_powi_bounds(1) [OF a] by (intro divide_right_mono) auto
    also have "\<dots> \<le> x"
      using x a b bitlen_powi_bounds(2) [OF b] by (auto intro!: divide_left_mono)
    finally show ?thesis .
  qed
  from xu xl q show "2 powi (flog2 x) \<le> x" "x < 2 powi (flog2 x + 1)"
    by (auto simp: flog2_def Let_def)
qed

lemma powi_less_iff [simp]: "(2 :: rat) powi m < 2 powi n \<longleftrightarrow> m < n"
  by (metis linorder_neqE_linordered_idom not_less_iff_gr_or_eq one_less_numeral_iff
      power_int_strict_increasing semiring_norm(76))

lemma powi_mono_iff [simp]: "(2 :: rat) powi m \<le> 2 powi n \<longleftrightarrow> m \<le> n"
  by (simp flip: not_less)

lemma powi_split: "(2 :: rat) powi (m + int n) = 2 ^ n * 2 powi m"
  by (simp add: power_int_add)

lemma flog2_unique:
  assumes "2 powi e \<le> x" "x < 2 powi (e + 1)"
  shows "flog2 x = e"
proof -
  have x: "0 < x" using assms(1) by (rule less_le_trans [rotated]) simp
  have "2 powi (flog2 x) < (2 :: rat) powi (e + 1)"
    using flog2_bounds(1) [OF x] assms(2) by (rule le_less_trans)
  moreover have "2 powi e < (2 :: rat) powi (flog2 x + 1)"
    using assms(1) flog2_bounds(2) [OF x] by (rule le_less_trans)
  ultimately show ?thesis by simp
qed

lemma flog2_mono: "0 < x \<Longrightarrow> x \<le> y \<Longrightarrow> flog2 x \<le> flog2 y"
proof -
  assume x: "0 < x" and xy: "x \<le> y"
  then have "2 powi (flog2 x) < (2 :: rat) powi (flog2 y + 1)"
    using flog2_bounds [of x] flog2_bounds [of y] by linarith
  then show ?thesis by simp
qed

text \<open>The magnitude of the rounding and the exponent of its last place.\<close>

definition fexp :: "nat \<Rightarrow> int \<Rightarrow> rat \<Rightarrow> int" where
  "fexp p emin x = max (flog2 x + 1 - int p) emin"

lemma fround_pos:
  "0 < x \<Longrightarrow> fround p emin x = of_int (rne (x / 2 powi (fexp p emin x))) * 2 powi (fexp p emin x)"
  by (simp add: fround_def fexp_def Let_def)

lemma fround_0 [simp]: "fround p emin 0 = 0"
  by (simp add: fround_def)

lemma fround_minus [simp]: "fround p emin (- x) = - fround p emin x"
  by (simp add: fround_def Let_def)

lemma fround_nonneg: "0 \<le> x \<Longrightarrow> 0 \<le> fround p emin x"
  by (cases "x = 0") (auto simp: fround_pos intro!: mult_nonneg_nonneg rne_nonneg)

lemma fexp_mono: "0 < x \<Longrightarrow> x \<le> y \<Longrightarrow> fexp p emin x \<le> fexp p emin y"
  using flog2_mono [of x y] by (simp add: fexp_def)

text \<open>A value on the grid of its own exponent is kept exactly.\<close>

lemma rne_scaled: "0 < m \<Longrightarrow> of_int m = (y :: rat) \<Longrightarrow> rne y = m"
  by (metis rne_int)

lemma fround_grid:
  assumes "x = of_int m * 2 powi e" "fexp p emin x \<le> e" "0 < x"
  shows "fround p emin x = x"
proof -
  let ?f = "fexp p emin x"
  have "x / 2 powi ?f = of_int m * 2 powi (e - ?f)"
    by (simp add: assms(1) power_int_diff)
  also have "\<dots> = of_int (m * 2 ^ nat (e - ?f))"
    using assms(2) by (simp add: power_int_def)
  finally have "x / 2 powi ?f = of_int (m * 2 ^ nat (e - ?f))" .
  then have r: "of_int (rne (x / 2 powi ?f)) = x / 2 powi ?f" by (simp only: rne_int)
  show ?thesis unfolding fround_pos [OF assms(3)] r by simp
qed

lemma fround_power:
  assumes "emin \<le> e" "0 < p"
  shows "fround p emin (2 powi e) = 2 powi e"
proof (rule fround_grid [of _ 1 e])
  have "flog2 (2 powi e) = e"
    by (rule flog2_unique) auto
  with assms show "fexp p emin (2 powi e) \<le> e" by (simp add: fexp_def)
qed auto

lemma fround_upper:
  assumes x: "0 < x" and p: "0 < p"
  shows "fround p emin x \<le> 2 powi (fexp p emin x + int p)"
proof -
  let ?f = "fexp p emin x"
  have "x < 2 powi (flog2 x + 1)" by (rule flog2_bounds(2) [OF x])
  also have "\<dots> \<le> 2 powi (?f + int p)" by (simp add: fexp_def)
  finally have "x / 2 powi ?f \<le> of_int (2 ^ p)"
    by (simp add: power_int_add divide_le_eq mult.commute)
  then have "rne (x / 2 powi ?f) \<le> 2 ^ p"
    using rne_mono rne_int by metis
  then have "(of_int (rne (x / 2 powi ?f)) :: rat) \<le> of_int (2 ^ p)"
    by (simp only: of_int_le_iff)
  with x show ?thesis
    by (simp add: fround_pos power_int_add mult.commute)
qed

lemma fround_lower:
  assumes y: "0 < y" and e: "emin < fexp p emin y" and p: "0 < p"
  shows "2 powi (fexp p emin y + int p - 1) \<le> fround p emin y"
proof -
  let ?f = "fexp p emin y"
  from e have f: "?f = flog2 y + 1 - int p" by (auto simp: fexp_def)
  have eq: "2 powi (?f + int p - 1) = of_int (2 ^ (p - 1)) * (2 powi ?f :: rat)"
    using p powi_split [of ?f "p - 1"] by (simp add: of_nat_diff algebra_simps)
  have "2 powi (?f + int p - 1) \<le> y"
    using flog2_bounds(1) [OF y] by (simp add: f)
  then have "of_int (2 ^ (p - 1)) \<le> y / 2 powi ?f"
    by (simp add: eq le_divide_eq)
  then have "2 ^ (p - 1) \<le> rne (y / 2 powi ?f)"
    using rne_mono rne_int by metis
  then have "(of_int (2 ^ (p - 1)) :: rat) \<le> of_int (rne (y / 2 powi ?f))"
    by (simp only: of_int_le_iff)
  then show ?thesis unfolding eq fround_pos [OF y] by (rule mult_right_mono) simp
qed

lemma fround_mono_pos:
  assumes x: "0 < x" and xy: "x \<le> y" and p: "0 < p"
  shows "fround p emin x \<le> fround p emin y"
proof (cases "fexp p emin x = fexp p emin y")
  case True
  have "rne (x / 2 powi (fexp p emin x)) \<le> rne (y / 2 powi (fexp p emin x))"
    using xy by (intro rne_mono divide_right_mono) auto
  with x xy True show ?thesis by (simp add: fround_pos)
next
  case False
  with fexp_mono [OF x xy, of p emin] have lt: "fexp p emin x < fexp p emin y" by simp
  moreover have "emin \<le> fexp p emin x" by (simp add: fexp_def)
  ultimately have "2 powi (fexp p emin y + int p - 1) \<le> fround p emin y"
    using x xy p by (intro fround_lower) auto
  moreover have "fround p emin x \<le> 2 powi (fexp p emin x + int p)"
    using x p by (rule fround_upper)
  moreover have "(2 :: rat) powi (fexp p emin x + int p) \<le> 2 powi (fexp p emin y + int p - 1)"
    using lt by simp
  ultimately show ?thesis by linarith
qed

lemma fround_mono:
  assumes "x \<le> y" "0 < p"
  shows "fround p emin x \<le> fround p emin y"
proof -
  consider "0 < x" | "x \<le> 0" "0 \<le> y" | "y < 0" using assms(1) by linarith
  then show ?thesis
  proof cases
    case 1
    with assms show ?thesis by (simp add: fround_mono_pos)
  next
    case 2
    have "0 \<le> fround p emin (- x)" using 2 by (intro fround_nonneg) simp
    moreover have "0 \<le> fround p emin y" using 2 by (intro fround_nonneg) simp
    ultimately show ?thesis by simp
  next
    case 3
    have "fround p emin (- y) \<le> fround p emin (- x)"
      using 3 assms by (intro fround_mono_pos) auto
    then show ?thesis by simp
  qed
qed

text \<open>Every value \<open>m * 2 ^ e\<close> with at most \<open>p\<close> significant bits is representable.\<close>

lemma fround_repr_pos:
  assumes m: "0 < m" "m \<le> 2 ^ p" and e: "emin \<le> e" and p: "0 < p"
  shows "fround p emin (of_int m * 2 powi e) = of_int m * 2 powi e"
proof (cases "m = 2 ^ p")
  case True
  have "of_int m * 2 powi e = (2 powi (e + int p) :: rat)"
    by (simp add: True powi_split)
  with e p show ?thesis by (simp add: fround_power)
next
  case False
  with m have "of_int m < (of_int (2 ^ p) :: rat)" by (simp only: of_int_less_iff)
  then have lt: "of_int m * 2 powi e < (2 powi (e + int p) :: rat)"
    by (simp add: powi_split)
  have pos: "0 < (of_int m * 2 powi e :: rat)" using m by simp
  have "2 powi (flog2 (of_int m * 2 powi e)) < (2 powi (e + int p) :: rat)"
    using flog2_bounds(1) [OF pos] lt by (rule le_less_trans)
  with e have "fexp p emin (of_int m * 2 powi e) \<le> e" by (simp add: fexp_def)
  with pos show ?thesis by (intro fround_grid [OF refl])
qed

lemma fround_repr:
  assumes m: "\<bar>m\<bar> \<le> 2 ^ p" and e: "emin \<le> e" and p: "0 < p"
  shows "fround p emin (of_int m * 2 powi e) = of_int m * 2 powi e"
proof -
  consider "m = 0" | "0 < m" | "m < 0" by linarith
  then show ?thesis
  proof cases
    case 3
    have "fround p emin (of_int (- m) * 2 powi e) = of_int (- m) * 2 powi e"
      using 3 assms by (intro fround_repr_pos) auto
    then show ?thesis by simp
  qed (use assms in \<open>auto intro: fround_repr_pos\<close>)
qed

lemma fround_int:
  assumes "\<bar>m\<bar> \<le> 2 ^ p" "emin \<le> 0" "0 < p"
  shows "fround p emin (of_int m) = of_int m"
  using fround_repr [of m p emin 0] assms by simp

lemma fround_form:
  assumes x: "0 < x" and p: "0 < p"
  obtains m e where "fround p emin x = of_int m * 2 powi e" "0 \<le> m" "m \<le> 2 ^ p" "emin \<le> e"
proof
  let ?e = "fexp p emin x"
  let ?m = "rne (x / 2 powi ?e)"
  show "fround p emin x = of_int ?m * 2 powi ?e" by (rule fround_pos [OF x])
  then have "of_int ?m * 2 powi ?e \<le> (of_int (2 ^ p) * 2 powi ?e :: rat)"
    using fround_upper [OF x p, of emin] by (simp add: powi_split)
  then have "(of_int ?m :: rat) \<le> of_int (2 ^ p)" by simp
  then show "?m \<le> 2 ^ p" by (simp only: of_int_le_iff)
  show "0 \<le> ?m" using x by (intro rne_nonneg) simp
  show "emin \<le> ?e" by (simp add: fexp_def)
qed

lemma fround_idem:
  assumes p: "0 < p"
  shows "fround p emin (fround p emin x) = fround p emin x"
proof -
  have pos: "fround p emin (fround p emin y) = fround p emin y" if y: "0 < y" for y
  proof (rule fround_form [OF y p, of emin])
    fix m e
    assume "fround p emin y = of_int m * 2 powi e" "0 \<le> m" "m \<le> 2 ^ p" "emin \<le> e"
    with p show ?thesis using fround_repr [of m p emin e] by simp
  qed
  consider "x = 0" | "0 < x" | "x < 0" by linarith
  then show ?thesis
  proof cases
    case 3
    with pos [of "- x"] show ?thesis by simp
  qed (auto simp: pos)
qed

lemma fround_error_pos:
  assumes x: "0 < x" "x < 1" and e: "emin \<le> - int p"
  shows "\<bar>fround p emin x - x\<bar> \<le> 1 / 2 ^ (p + 1)"
proof -
  let ?e = "fexp p emin x"
  have "(2 :: rat) powi (flog2 x) < 2 powi 0" using flog2_bounds(1) [OF x(1)] x(2) by simp
  then have ep: "?e \<le> - int p" unfolding powi_less_iff using e by (simp add: fexp_def)
  have "fround p emin x - x = (of_int (rne (x / 2 powi ?e)) - x / 2 powi ?e) * 2 powi ?e"
    unfolding fround_pos [OF x(1)] by (simp add: left_diff_distrib)
  then have "\<bar>fround p emin x - x\<bar> = \<bar>of_int (rne (x / 2 powi ?e)) - x / 2 powi ?e\<bar> * 2 powi ?e"
    by (simp add: abs_mult)
  also have "\<dots> \<le> 1 / 2 * 2 powi ?e"
    by (intro mult_right_mono rne_bounds) simp
  also have "\<dots> \<le> 1 / 2 * 2 powi (- int p)"
    using ep by simp
  also have "\<dots> = 1 / 2 ^ (p + 1)" by (simp add: power_int_minus field_simps)
  finally show ?thesis .
qed

lemma fround_error:
  assumes "\<bar>x\<bar> \<le> 1" "emin \<le> - int p" "0 < p"
  shows "\<bar>fround p emin x - x\<bar> \<le> 1 / 2 ^ (p + 1)"
proof -
  have nn: "\<bar>fround p emin y - y\<bar> \<le> 1 / 2 ^ (p + 1)" if "0 \<le> y" "y \<le> 1" for y
  proof (cases "y = 0 \<or> y = 1")
    case True
    have "fround p emin 1 = 1" using fround_int [of 1 p emin] assms(2,3) by simp
    with True show ?thesis by auto
  next
    case False
    with that assms show ?thesis by (intro fround_error_pos) auto
  qed
  show ?thesis
  proof (cases "0 \<le> x")
    case True
    with nn assms(1) show ?thesis by simp
  next
    case False
    have "fround p emin x - x = - (fround p emin (- x) - - x)" by simp
    then have "\<bar>fround p emin x - x\<bar> = \<bar>fround p emin (- x) - - x\<bar>" by (metis abs_minus_cancel)
    with nn [of "- x"] False assms(1) show ?thesis by simp
  qed
qed

lemma fround_le_one:
  assumes x: "x \<le> 1 + 1 / 2 ^ p" and p: "1 < p" and e: "emin \<le> - int p"
  shows "fround p emin x \<le> 1"
proof -
  let ?y = "1 + 1 / 2 ^ p :: rat"
  have p1: "2 ^ p = 2 * (2 ^ (p - 1) :: rat)" using p by (simp flip: power_Suc)
  have "(1 :: rat) / 2 ^ p \<le> 1 / 2" using p by (simp add: field_simps self_le_power)
  then have "flog2 ?y = 0" by (intro flog2_unique) (auto simp: add_pos_pos)
  then have f: "fexp p emin ?y = 1 - int p" using e p by (simp add: fexp_def)
  have sc: "?y / 2 powi (1 - int p) = of_int (2 ^ (p - 1)) + 1 / 2"
    using p by (simp add: power_int_diff field_simps p1)
  have fl: "\<lfloor>of_int n + 1 / 2 :: rat\<rfloor> = n" for n by (rule floor_unique) auto
  have "even ((2 :: int) ^ (p - 1))" using p by simp
  then have r: "rne (?y / 2 powi (1 - int p)) = 2 ^ (p - 1)"
    unfolding sc rne_def Let_def fl by simp
  have "fround p emin ?y = of_int (2 ^ (p - 1)) * 2 powi (1 - int p)"
    using f r by (simp add: fround_pos add_pos_pos)
  also have "\<dots> = 1" using p by (simp add: power_int_diff p1)
  finally show ?thesis using fround_mono [OF x, of p emin] p by simp
qed

section \<open>The interface of a rounding mode\<close>

locale fp_rounding =
  fixes rnd :: "rat \<Rightarrow> rat" and prec :: nat
  assumes rnd_mono: "x \<le> y \<Longrightarrow> rnd x \<le> rnd y"
    and rnd_minus: "rnd (- x) = - rnd x"
    and rnd_idem: "rnd (rnd x) = rnd x"
    and rnd_of_int: "\<bar>m\<bar> \<le> 2 ^ prec \<Longrightarrow> rnd (of_int m) = of_int m"
    and rnd_err: "\<bar>x\<bar> \<le> 1 \<Longrightarrow> \<bar>rnd x - x\<bar> \<le> 1 / 2 ^ (prec + 1)"
    and rnd_near_one: "x \<le> 1 + 1 / 2 ^ prec \<Longrightarrow> rnd x \<le> 1"
begin

lemma rnd_zero: "rnd 0 = 0"
  using rnd_of_int [of 0] by simp

lemma rnd_one: "rnd 1 = 1"
  using rnd_of_int [of 1] by simp

lemma rnd_nonneg: "0 \<le> x \<Longrightarrow> 0 \<le> rnd x"
  using rnd_mono [of 0 x] by (simp add: rnd_zero)

lemma rnd_nonpos: "x \<le> 0 \<Longrightarrow> rnd x \<le> 0"
  using rnd_mono [of x 0] by (simp add: rnd_zero)

lemma rnd_le_int: "x \<le> of_int m \<Longrightarrow> \<bar>m\<bar> \<le> 2 ^ prec \<Longrightarrow> rnd x \<le> of_int m"
  using rnd_mono [of x "of_int m"] by (simp add: rnd_of_int)

lemma rnd_ge_int: "of_int m \<le> x \<Longrightarrow> \<bar>m\<bar> \<le> 2 ^ prec \<Longrightarrow> of_int m \<le> rnd x"
  using rnd_mono [of "of_int m" x] by (simp add: rnd_of_int)

lemma rnd_le_repr: "x \<le> c \<Longrightarrow> rnd c = c \<Longrightarrow> rnd x \<le> c"
  using rnd_mono [of x c] by simp

lemma rnd_ge_repr: "c \<le> x \<Longrightarrow> rnd c = c \<Longrightarrow> c \<le> rnd x"
  using rnd_mono [of c x] by simp

lemma rnd_ge_one: "1 \<le> x \<Longrightarrow> 1 \<le> rnd x"
  using rnd_ge_repr rnd_one by blast

text \<open>
  An exponentially weighted mean \<open>a * x + (1 - a) * y\<close> of two values in the unit interval,
  rounded after every operation the way C computes it, stays in the unit interval: the rounding
  of \<open>1 - a\<close> may push the sum above 1, but never by as much as the last rounding takes back.
\<close>

lemma ewma_unit:
  assumes a: "0 \<le> a" "a \<le> 1" "rnd a = a" and x: "0 \<le> x" "x \<le> 1" and y: "0 \<le> y" "y \<le> 1"
  shows "0 \<le> rnd (rnd (a * x) + rnd (rnd (1 - a) * y))"
    and "rnd (rnd (a * x) + rnd (rnd (1 - a) * y)) \<le> 1"
proof -
  have b: "0 \<le> rnd (1 - a)" using a by (simp add: rnd_nonneg)
  have ax: "rnd (a * x) \<le> a" using a x by (intro rnd_le_repr) (auto simp: mult_left_le)
  have "rnd (rnd (1 - a) * y) \<le> rnd (1 - a)"
    using b y by (intro rnd_le_repr) (auto simp: mult_left_le rnd_idem)
  moreover have "rnd (1 - a) \<le> 1 - a + 1 / 2 ^ (prec + 1)"
    using rnd_err [of "1 - a"] a by (simp add: abs_le_iff)
  moreover have "(1 :: rat) / 2 ^ (prec + 1) \<le> 1 / 2 ^ prec" by (simp add: field_simps)
  ultimately have "rnd (a * x) + rnd (rnd (1 - a) * y) \<le> 1 + 1 / 2 ^ prec"
    using ax by linarith
  then show "rnd (rnd (a * x) + rnd (rnd (1 - a) * y)) \<le> 1" by (rule rnd_near_one)
  show "0 \<le> rnd (rnd (a * x) + rnd (rnd (1 - a) * y))"
    using a x y b by (auto intro!: rnd_nonneg add_nonneg_nonneg mult_nonneg_nonneg)
qed

end

lemma fround_rounding:
  assumes "1 < p" "emin \<le> - int p"
  shows "fp_rounding (fround p emin) p"
proof
  fix x y :: rat and m :: int
  show "x \<le> y \<Longrightarrow> fround p emin x \<le> fround p emin y" using assms by (simp add: fround_mono)
  show "fround p emin (- x) = - fround p emin x" by simp
  show "fround p emin (fround p emin x) = fround p emin x" using assms by (simp add: fround_idem)
  show "\<bar>m\<bar> \<le> 2 ^ p \<Longrightarrow> fround p emin (of_int m) = of_int m" using assms by (simp add: fround_int)
  show "\<bar>x\<bar> \<le> 1 \<Longrightarrow> \<bar>fround p emin x - x\<bar> \<le> 1 / 2 ^ (p + 1)"
    using assms by (intro fround_error) auto
  show "x \<le> 1 + 1 / 2 ^ p \<Longrightarrow> fround p emin x \<le> 1" using assms by (intro fround_le_one) auto
qed

interpretation f32: fp_rounding fl32 24
  unfolding fl32_def by (rule fround_rounding) simp_all

interpretation f64: fp_rounding fl64 53
  unfolding fl64_def by (rule fround_rounding) simp_all

lemmas fl32_simps [simp] = f32.rnd_zero f32.rnd_one f32.rnd_minus f32.rnd_idem
lemmas fl64_simps [simp] = f64.rnd_zero f64.rnd_one f64.rnd_minus f64.rnd_idem

lemma fl32_of_int: "\<bar>m\<bar> \<le> 16777216 \<Longrightarrow> fl32 (of_int m) = of_int m"
  by (rule f32.rnd_of_int) simp

section \<open>Truncation\<close>

lemma c_trunc_of_int [simp]: "c_trunc (of_int n) = n"
  by (simp add: c_trunc_def)

lemma c_trunc_nonneg: "0 \<le> x \<Longrightarrow> 0 \<le> c_trunc x"
  by (simp add: c_trunc_def)

lemma c_trunc_le: "0 \<le> x \<Longrightarrow> of_int (c_trunc x) \<le> x"
  by (simp add: c_trunc_def)

lemma c_trunc_mono: "x \<le> y \<Longrightarrow> c_trunc x \<le> c_trunc y"
proof -
  assume "x \<le> y"
  then consider "0 \<le> x" "0 \<le> y" | "x < 0" "0 \<le> y" | "x < 0" "y < 0" by linarith
  then show ?thesis
    using \<open>x \<le> y\<close> by cases (auto simp: c_trunc_def floor_mono ceiling_mono ceiling_le_zero
      intro: order_trans [of _ 0])
qed

lemma c_trunc_le_int: "x \<le> of_int n \<Longrightarrow> c_trunc x \<le> n"
  using c_trunc_mono [of x "of_int n"] by simp

lemma fl32_numeral [simp]: "(numeral n :: int) \<le> 16777216 \<Longrightarrow> fl32 (numeral n) = numeral n"
  using fl32_of_int [of "numeral n"] by simp

lemma fl64_numeral [simp]: "(numeral n :: int) \<le> 9007199254740992 \<Longrightarrow> fl64 (numeral n) = numeral n"
  using f64.rnd_of_int [of "numeral n"] by simp

lemma c_trunc_numeral [simp]: "c_trunc (numeral n) = numeral n" "c_trunc 0 = 0" "c_trunc 1 = 1"
  using c_trunc_of_int [of "numeral n"] c_trunc_of_int [of 0] c_trunc_of_int [of 1] by simp_all

text \<open>Relative error: above the subnormal range a rounding moves a value by at most half an ulp.\<close>

lemma fround_relative:
  assumes x: "2 powi (emin + int p - 1) \<le> x"
  shows "\<bar>fround p emin x - x\<bar> \<le> x / 2 ^ p"
proof -
  have pos: "0 < x" using x by (rule less_le_trans [rotated]) simp
  let ?e = "fexp p emin x"
  have "2 powi (emin + int p - 1) < (2 :: rat) powi (flog2 x + 1)"
    by (rule le_less_trans [OF x flog2_bounds(2) [OF pos]])
  then have e: "?e = flog2 x + - int p + 1" by (simp add: fexp_def)
  have "fround p emin x - x = (of_int (rne (x / 2 powi ?e)) - x / 2 powi ?e) * 2 powi ?e"
    unfolding fround_pos [OF pos] by (simp add: left_diff_distrib)
  then have "\<bar>fround p emin x - x\<bar> \<le> 1 / 2 * 2 powi ?e"
    using rne_bounds [of "x / 2 powi ?e"] by (simp add: abs_mult mult_right_mono)
  also have "\<dots> = 2 powi (flog2 x) / 2 ^ p"
    using powi_split [of "flog2 x - int p" p] powi_split [of "flog2 x - int p" 1]
    by (simp add: e add.commute)
  also have "\<dots> \<le> x / 2 ^ p" using flog2_bounds(1) [OF pos] by (simp add: divide_right_mono)
  finally show ?thesis .
qed

lemma fl64_relative:
  assumes "x = 0 \<or> 1 / 2 ^ 100 \<le> x"
  shows "x * (1 - 1 / 2 ^ 53) \<le> fl64 x" "fl64 x \<le> x * (1 + 1 / 2 ^ 53)"
proof -
  have "\<bar>fl64 x - x\<bar> \<le> x / 2 ^ 53"
  proof (cases "x = 0")
    case False
    have "(2 :: rat) powi (- 1074 + int 53 - 1) \<le> 2 powi (- 100)" by (simp only: powi_mono_iff)
    also have "\<dots> = 1 / 2 ^ 100" by code_simp
    also have "\<dots> \<le> x" using assms False by simp
    finally show ?thesis unfolding fl64_def by (rule fround_relative)
  qed simp
  then have "fl64 x - x \<le> x / 2 ^ 53" "x - fl64 x \<le> x / 2 ^ 53"
    by (simp_all only: abs_le_iff minus_diff_eq)
  moreover have "x * (1 - c) = x - x * c" "x * (1 + c) = x + x * c" for c :: rat
    by (simp_all only: right_diff_distrib distrib_left mult_1_right)
  ultimately show "x * (1 - 1 / 2 ^ 53) \<le> fl64 x" "fl64 x \<le> x * (1 + 1 / 2 ^ 53)"
    by simp_all
qed

end
