(* ===== verification/Prelude.thy ===== *)
theory Prelude
  imports CFloat "HOL-Library.Word"
begin

unbundle bit_operations_syntax

text \<open>
  The vocabulary the components share: the C integer types as words, the conversions between
  seconds (\<open>float\<close>) and microsecond timestamps (\<open>uint64_t\<close>), big-endian byte order, the clamp
  idiom, and ring buffers (an array, a head index and a fill count) seen as the list of their
  entries, oldest first.  The locale \<open>ring_shape\<close> carries the index arithmetic of both rings of
  the program; \<open>headroom_shape\<close> (512 slots) and \<open>osc_shape\<close> (16 slots) are its interpretations.
\<close>

type_synonym u8 = "8 word"
type_synonym u16 = "16 word"
type_synonym u32 = "32 word"
type_synonym u64 = "64 word"

named_theorems cbounds
named_theorems framed

section \<open>C arithmetic\<close>

text \<open>Division and remainder of C's signed integers: truncation towards zero.\<close>

definition c_div :: "int \<Rightarrow> int \<Rightarrow> int" where
  "c_div a b = sgn a * sgn b * (\<bar>a\<bar> div \<bar>b\<bar>)"

text \<open>
  \<open>long\<close> is 32 bit on the vehicle's armv7l target, \<open>long long\<close> and \<open>int64_t\<close> are 64 bit;
  \<open>strtol\<close> saturates at these bounds.
\<close>

definition LONG_MAX :: int where
  "LONG_MAX = 2147483647"

definition LONG_MIN :: int where
  "LONG_MIN = - 2147483648"

definition INT_MAX :: int where
  "INT_MAX = 2147483647"

definition INT_MIN :: int where
  "INT_MIN = - 2147483648"

definition LLONG_MAX :: int where
  "LLONG_MAX = 9223372036854775807"

definition LLONG_MIN :: int where
  "LLONG_MIN = - 9223372036854775808"

text \<open>\<open>(int32_t)\<close> or \<open>(int)\<close> of a wider integer.\<close>

definition to_i32 :: "int \<Rightarrow> int" where
  "to_i32 v = sint (word_of_int v :: u32)"

text \<open>\<open>(uint64_t)(s * 1e6f)\<close>: a duration in seconds, a \<open>float\<close>, as microseconds.\<close>

definition us_of :: "rat \<Rightarrow> u64" where
  "us_of s = word_of_int (c_trunc (fl32 (s * 1000000)))"

text \<open>\<open>(uint64_t)(s * 1e6)\<close>: the same product computed in \<open>double\<close>.\<close>

definition us_of_d :: "rat \<Rightarrow> u64" where
  "us_of_d s = word_of_int (c_trunc (fl64 (s * 1000000)))"

text \<open>\<open>(float)d\<close> of a \<open>uint64_t\<close>, and \<open>(float)d / 1e6f\<close>: a microsecond difference as seconds.\<close>

definition f32_of_u64 :: "u64 \<Rightarrow> rat" where
  "f32_of_u64 d = fl32 (of_nat (unat d))"

definition s_of :: "u64 \<Rightarrow> rat" where
  "s_of d = fl32 (f32_of_u64 d / 1000000)"

text \<open>The clamp idiom \<open>if (v < lo) v = lo; if (v > hi) v = hi;\<close>: the upper bound wins.\<close>

definition clamp :: "'a::linorder \<Rightarrow> 'a \<Rightarrow> 'a \<Rightarrow> 'a" where
  "clamp lo hi v = (let v1 = (if v < lo then lo else v) in if v1 > hi then hi else v1)"

lemma clamp_le_hi [simp]: "clamp lo hi v \<le> hi"
  by (auto simp: clamp_def Let_def)

lemma clamp_ge_lo: "lo \<le> hi \<Longrightarrow> lo \<le> clamp lo hi v"
  by (auto simp: clamp_def Let_def)

lemma clamp_ge_min: "min lo hi \<le> clamp lo hi v"
  by (auto simp: clamp_def Let_def)

lemma clamp_id: "lo \<le> v \<Longrightarrow> v \<le> hi \<Longrightarrow> clamp lo hi v = v"
  by (auto simp: clamp_def Let_def)

lemma clamp_cases: "clamp lo hi v = v \<or> clamp lo hi v = lo \<or> clamp lo hi v = hi"
  by (auto simp: clamp_def Let_def)

lemma clamp_mono: "v \<le> w \<Longrightarrow> clamp lo hi v \<le> clamp lo hi w"
  by (auto simp: clamp_def Let_def)

lemma f32_of_u64_mono: "d \<le> e \<Longrightarrow> f32_of_u64 d \<le> f32_of_u64 e"
  unfolding f32_of_u64_def by (intro f32.rnd_mono) (simp only: of_nat_le_iff word_le_nat_alt)

lemma f32_of_u64_nonneg [simp]: "0 \<le> f32_of_u64 d"
  unfolding f32_of_u64_def by (intro f32.rnd_nonneg of_nat_0_le_iff)

lemma s_of_nonneg [simp]: "0 \<le> s_of d"
  by (simp add: s_of_def f32.rnd_nonneg)

lemma s_of_mono: "d \<le> e \<Longrightarrow> s_of d \<le> s_of e"
  unfolding s_of_def by (intro f32.rnd_mono divide_right_mono f32_of_u64_mono) simp_all

lemma us_of_nonneg_exact:
  assumes "0 \<le> s" "fl32 (s * 1000000) < 18446744073709551616"
  shows "unat (us_of s) = nat (c_trunc (fl32 (s * 1000000)))"
proof -
  let ?x = "fl32 (s * 1000000)"
  have x: "0 \<le> ?x" using assms(1) by (simp add: f32.rnd_nonneg)
  then have t: "0 \<le> c_trunc ?x" by (rule c_trunc_nonneg)
  have "of_int (c_trunc ?x) < (18446744073709551616 :: rat)"
    using c_trunc_le [OF x] assms(2) by linarith
  then have "c_trunc ?x < 18446744073709551616" by linarith
  with t show ?thesis
    by (simp add: us_of_def unat_eq_nat_uint uint_word_of_int take_bit_eq_mod)
qed

section \<open>Big-endian byte order\<close>

text \<open>
  \<open>htons\<close>/\<open>htonl\<close> on a field of a packed struct, followed by sending the struct, puts the value's
  bytes on the wire most significant first; \<open>be_enc n v\<close> is that run of \<open>n\<close> bytes and \<open>be_dec\<close>
  what \<open>ntohs\<close>/\<open>ntohl\<close> of the overlaid field reads.
\<close>

fun be_enc :: "nat \<Rightarrow> nat \<Rightarrow> u8 list" where
  "be_enc 0 v = []"
| "be_enc (Suc n) v = word_of_nat (v div 256 ^ n) # be_enc n (v mod 256 ^ n)"

fun be_dec :: "u8 list \<Rightarrow> nat" where
  "be_dec [] = 0"
| "be_dec (b # bs) = unat b * 256 ^ length bs + be_dec bs"

lemma length_be_enc [simp]: "length (be_enc n v) = n"
  by (induction n arbitrary: v) auto

lemma be_dec_bound: "be_dec bs < 256 ^ length bs"
proof (induction bs)
  case (Cons b bs)
  have "Suc (unat b) \<le> 256" using unsigned_less [of b, where ?'a = nat] by simp
  then have "Suc (unat b) * 256 ^ length bs \<le> 256 * 256 ^ length bs" by (rule mult_le_mono1)
  then have "unat b * 256 ^ length bs + 256 ^ length bs \<le> 256 * 256 ^ length bs"
    by (simp only: mult_Suc add.commute)
  then have "unat b * 256 ^ length bs + be_dec bs < 256 * 256 ^ length bs"
    using Cons.IH by linarith
  then show ?case by simp
qed simp

lemma be_dec_enc: "v < 256 ^ n \<Longrightarrow> be_dec (be_enc n v) = v"
proof (induction n arbitrary: v)
  case (Suc n)
  have "v div 256 ^ n < 256" using Suc.prems by (simp add: less_mult_imp_div_less)
  moreover have "be_dec (be_enc n (v mod 256 ^ n)) = v mod 256 ^ n"
    by (rule Suc.IH) simp
  moreover have "v div 256 ^ n * 256 ^ n + v mod 256 ^ n = v" by (rule div_mult_mod_eq)
  ultimately show ?case by (simp add: unat_of_nat take_bit_eq_mod)
qed simp

lemma be_enc_dec: "be_enc (length bs) (be_dec bs) = bs"
proof (induction bs)
  case (Cons b bs)
  have "be_dec bs < 256 ^ length bs" by (rule be_dec_bound)
  then have "(unat b * 256 ^ length bs + be_dec bs) div 256 ^ length bs = unat b"
    and "(unat b * 256 ^ length bs + be_dec bs) mod 256 ^ length bs = be_dec bs"
    by simp_all
  with Cons.IH show ?case by simp
qed simp

lemma be_enc_inj: "v < 256 ^ n \<Longrightarrow> w < 256 ^ n \<Longrightarrow> be_enc n v = be_enc n w \<Longrightarrow> v = w"
  by (metis be_dec_enc)

text \<open>Bytes \<open>o .. o + n - 1\<close> of a datagram, where a packed struct's field lies.\<close>

definition field_at :: "nat \<Rightarrow> nat \<Rightarrow> u8 list \<Rightarrow> u8 list" where
  "field_at off n bs = take n (drop off bs)"

definition be_at :: "nat \<Rightarrow> nat \<Rightarrow> u8 list \<Rightarrow> nat" where
  "be_at off n bs = be_dec (field_at off n bs)"

definition byte_at :: "nat \<Rightarrow> u8 list \<Rightarrow> u8" where
  "byte_at off bs = (if off < length bs then bs ! off else 0)"

lemma be_at_bound: "off + n \<le> length bs \<Longrightarrow> be_at off n bs < 256 ^ n"
  using be_dec_bound [of "field_at off n bs"] by (simp add: be_at_def field_at_def)

lemma be_at_skip: "length xs \<le> off \<Longrightarrow> be_at off n (xs @ ys) = be_at (off - length xs) n ys"
  by (simp add: be_at_def field_at_def)

lemma be_at_here: "v < 256 ^ n \<Longrightarrow> be_at 0 n (be_enc n v @ ys) = v"
  by (simp add: be_at_def field_at_def be_dec_enc)

lemma be_at_here_end: "v < 256 ^ n \<Longrightarrow> be_at 0 n (be_enc n v) = v"
  by (simp add: be_at_def field_at_def be_dec_enc)

lemma length_field_at: "off + n \<le> length bs \<Longrightarrow> length (field_at off n bs) = n"
  by (simp add: field_at_def)

lemma be_enc_be_at: "off + n \<le> length bs \<Longrightarrow> be_enc n (be_at off n bs) = field_at off n bs"
  using be_enc_dec [of "field_at off n bs"] by (simp add: be_at_def length_field_at)

lemma field_at_split: "field_at off (m + n) bs = field_at off m bs @ field_at (off + m) n bs"
  by (simp add: field_at_def take_add add.commute)

lemma unat_word_of_nat_be_at:
  assumes "off + n \<le> length bs" "256 ^ n \<le> (2::nat) ^ LENGTH('a::len)"
  shows "unat (word_of_nat (be_at off n bs) :: 'a word) = be_at off n bs"
  using be_at_bound [OF assms(1)] assms(2) by (simp add: unat_of_nat take_bit_eq_mod)

section \<open>Ring buffers\<close>

text \<open>
  \<open>ring_oldest\<close> is the code's \<open>(head - count + CAP) % CAP\<close> and \<open>ring_view\<close> the live entries,
  oldest first.
\<close>

definition ring_oldest :: "nat \<Rightarrow> nat \<Rightarrow> nat \<Rightarrow> nat" where
  "ring_oldest cap head count = (head + cap - count) mod cap"

definition ring_view :: "nat \<Rightarrow> 'a list \<Rightarrow> nat \<Rightarrow> nat \<Rightarrow> 'a list" where
  "ring_view cap arr head count =
     map (\<lambda>i. arr ! ((head + cap - count + i) mod cap)) [0..<count]"

lemma length_ring_view [simp]: "length (ring_view cap arr head count) = count"
  by (simp add: ring_view_def)

lemma nth_ring_view:
  "i < count \<Longrightarrow> ring_view cap arr head count ! i = arr ! ((head + cap - count + i) mod cap)"
  by (simp add: ring_view_def)

locale ring_shape =
  fixes cap :: nat
  assumes cap_pos: "0 < cap"
begin

lemma view_hd:
  assumes "0 < count" "count \<le> cap"
  shows "hd (ring_view cap arr head count) = arr ! ring_oldest cap head count"
  using assms by (simp add: ring_view_def ring_oldest_def hd_map)

lemma view_pop:
  assumes "0 < count" "count \<le> cap"
  shows "ring_view cap arr head (count - 1) = tl (ring_view cap arr head count)"
proof (rule nth_equalityI)
  fix i
  assume "i < length (ring_view cap arr head (count - 1))"
  then have i: "i < count - 1" "Suc i < count" by simp_all
  have "head + cap - (count - 1) + i = head + cap - count + Suc i" using assms by simp
  then show "ring_view cap arr head (count - 1) ! i = tl (ring_view cap arr head count) ! i"
    using i by (simp only: nth_ring_view nth_tl length_tl length_ring_view)
qed simp

lemma oldest_bound: "ring_oldest cap head count < cap"
  using cap_pos by (simp add: ring_oldest_def)

lemma fresh_index:
  assumes "head < cap" "head < v" "v < head + cap"
  shows "v mod cap \<noteq> head"
proof (cases "v < cap")
  case False
  with assms have "v mod cap = v - cap" by (simp add: mod_if [of v])
  with assms False show ?thesis by simp
qed (use assms in simp)

lemma view_push:
  assumes "length arr = cap" "head < cap" "count \<le> cap"
  shows "ring_view cap (arr[head := x]) ((head + 1) mod cap) (if count < cap then count + 1 else count)
       = (if count < cap then ring_view cap arr head count
          else tl (ring_view cap arr head count)) @ [x]"
    (is "?new = ?old @ [x]")
proof (rule nth_equalityI)
  define c where "c = (if count < cap then count + 1 else count)"
  have c: "0 < c" "c \<le> cap" using assms cap_pos by (auto simp: c_def)
  show len: "length ?new = length (?old @ [x])" using assms cap_pos by simp
  fix i
  assume "i < length ?new"
  then have i: "i < c" by (simp add: c_def)
  define v where "v = head + 1 + (cap - c + i)"
  have "(head + 1) mod cap + cap - c + i = (head + 1) mod cap + (cap - c + i)" using c by simp
  then have "((head + 1) mod cap + cap - c + i) mod cap = v mod cap"
    unfolding v_def by (simp only: mod_add_left_eq)
  then have n: "?new ! i = (arr[head := x]) ! (v mod cap)"
    using i unfolding c_def [symmetric] by (simp only: nth_ring_view)
  show "?new ! i = (?old @ [x]) ! i"
  proof (cases "i = c - 1")
    case True
    with c have "v = head + cap" by (simp add: v_def)
    then have v: "v mod cap = head" using assms by simp
    have l: "i = length ?old" using True by (simp add: c_def split: if_splits)
    have "?new ! i = x" unfolding n v using assms by simp
    with l show ?thesis by (metis nth_append_length)
  next
    case False
    with i have i': "Suc i < c" by simp
    then have "v mod cap \<noteq> head" using assms c by (intro fresh_index) (auto simp: v_def)
    then have "?new ! i = arr ! (v mod cap)" unfolding n by (metis nth_list_update_neq)
    moreover have "?old ! i = arr ! (v mod cap)"
    proof (cases "count < cap")
      case True
      then have "head + cap - count + i = v" by (simp add: v_def c_def)
      with True i' show ?thesis by (simp add: nth_ring_view c_def)
    next
      case False
      then have "head + cap - count + Suc i = v" using assms by (simp add: v_def c_def)
      with False i' show ?thesis by (simp add: nth_ring_view nth_tl c_def)
    qed
    moreover have "i < length ?old" using i' by (simp add: c_def split: if_splits)
    ultimately show ?thesis by (simp only: nth_append if_True)
  qed
qed

end

interpretation headroom_shape: ring_shape 512
  by unfold_locales simp

interpretation osc_shape: ring_shape 16
  by unfold_locales simp

end
