(* ===== verification/CString.thy ===== *)
theory CString
  imports Prelude
begin

text \<open>
  The C string functions the sources scrape their datagrams with (\<open>strstr\<close>, \<open>strchr\<close>, \<open>strtol\<close>,
  the decimal conversions of \<open>snprintf\<close>) on strings as character lists without the terminating
  NUL, and the JSON field scrapers built from them: \<open>json_get_int\<close> and \<open>json_get_int_in\<close> of
  \<open>vehicle/link_controller.c\<close>, and \<open>find_key\<close>, \<open>get_str\<close>, \<open>get_int\<close> of \<open>vehicle/csa/csa.c\<close>.
  A pointer into a string is the suffix it points at; a failed scrape, which leaves the caller's
  variable alone, is \<open>None\<close>.
\<close>

section \<open>Library functions\<close>

fun strstr :: "string \<Rightarrow> string \<Rightarrow> string option" where
  "strstr [] pat = (if pat = [] then Some [] else None)"
| "strstr (c # s) pat = (if take (length pat) (c # s) = pat then Some (c # s) else strstr s pat)"

definition has_sub :: "string \<Rightarrow> string \<Rightarrow> bool" where
  "has_sub s pat = (strstr s pat \<noteq> None)"

definition strchr :: "string \<Rightarrow> char \<Rightarrow> string option" where
  "strchr s c = (case dropWhile (\<lambda>d. d \<noteq> c) s of [] \<Rightarrow> None | t \<Rightarrow> Some t)"

definition c_isspace :: "char \<Rightarrow> bool" where
  "c_isspace c = (c \<in> {CHR 0x20, CHR 0x09, CHR 0x0A, CHR 0x0B, CHR 0x0C, CHR 0x0D})"

definition c_isdigit :: "char \<Rightarrow> bool" where
  "c_isdigit c = (48 \<le> (of_char c :: nat) \<and> (of_char c :: nat) \<le> 57)"

definition digit_val :: "char \<Rightarrow> nat" where
  "digit_val c = of_char c - 48"

definition digit_char :: "nat \<Rightarrow> char" where
  "digit_char d = char_of (48 + d)"

definition digits_val :: "string \<Rightarrow> nat" where
  "digits_val ds = foldl (\<lambda>a c. 10 * a + digit_val c) 0 ds"

text \<open>
  \<open>strtol(s, &end, 10)\<close>: the value, saturated at the type's bounds, and the rest of the string;
  \<open>None\<close> when no digit was read, where C leaves \<open>end == s\<close>.
\<close>

definition strto :: "int \<Rightarrow> int \<Rightarrow> string \<Rightarrow> (int \<times> string) option" where
  "strto lo hi s =
     (let t = dropWhile c_isspace s;
          neg = (t \<noteq> [] \<and> hd t = CHR ''-'');
          u = (if t \<noteq> [] \<and> (hd t = CHR ''-'' \<or> hd t = CHR ''+'') then tl t else t);
          ds = takeWhile c_isdigit u;
          v = (if neg then - int (digits_val ds) else int (digits_val ds))
      in if ds = [] then None else Some (max lo (min hi v), dropWhile c_isdigit u))"

definition strtol :: "string \<Rightarrow> (int \<times> string) option" where
  "strtol = strto LONG_MIN LONG_MAX"

definition strtoll :: "string \<Rightarrow> (int \<times> string) option" where
  "strtoll = strto LLONG_MIN LLONG_MAX"

text \<open>The decimal conversions \<open>%u\<close> and \<open>%d\<close>/\<open>%ld\<close> of \<open>snprintf\<close>.\<close>

fun show_nat :: "nat \<Rightarrow> string" where
  "show_nat n = (if n < 10 then [digit_char n] else show_nat (n div 10) @ [digit_char (n mod 10)])"

definition show_int :: "int \<Rightarrow> string" where
  "show_int i = (if i < 0 then CHR ''-'' # show_nat (nat (- i)) else show_nat (nat i))"

definition quoted :: "string \<Rightarrow> string" where
  "quoted k = CHR 0x22 # k @ [CHR 0x22]"

section \<open>Scrapers of link\_controller.c\<close>

text \<open>
  \<open>char pat[64]\<close> must hold the quoted key and its NUL; the value follows the first occurrence of
  the quoted key after blanks, tabs and colons.
\<close>

definition json_get_int :: "string \<Rightarrow> string \<Rightarrow> int option" where
  "json_get_int s key =
     (if 64 \<le> length (quoted key) then None
      else case strstr s (quoted key) of
        None \<Rightarrow> None
      | Some p \<Rightarrow>
          map_option fst (strtol (dropWhile (\<lambda>c. c \<in> {CHR 0x20, CHR 0x09, CHR '':''})
                                            (drop (length (quoted key)) p))))"

text \<open>The same inside the next brace block, of which at most 511 characters are looked at.\<close>

definition json_get_int_in :: "string \<Rightarrow> string \<Rightarrow> int option" where
  "json_get_int_in block inner =
     (case strchr block (CHR ''{'') of
        None \<Rightarrow> None
      | Some brace \<Rightarrow>
          (case strchr brace (CHR ''}'') of
             None \<Rightarrow> None
           | Some end' \<Rightarrow>
               (let wlen = length brace - length end' + 1;
                    wlen' = (if 512 \<le> wlen then 511 else wlen)
                in json_get_int (take wlen' brace) inner)))"

text \<open>The call pattern \<open>long v = d; (void)json_get_int(s, key, &v);\<close>.\<close>

definition json_int_or :: "int \<Rightarrow> string \<Rightarrow> string \<Rightarrow> int" where
  "json_int_or d s key = (case json_get_int s key of None \<Rightarrow> d | Some v \<Rightarrow> v)"

definition json_int_in_or :: "int \<Rightarrow> string \<Rightarrow> string \<Rightarrow> int" where
  "json_int_in_or d s key = (case json_get_int_in s key of None \<Rightarrow> d | Some v \<Rightarrow> v)"

section \<open>Scrapers of csa.c\<close>

text \<open>
  \<open>find_key\<close> walks the occurrences of \<open>key\<close>, resuming after each one, and takes the first that
  is quoted and followed by a colon.  \<open>prev\<close> is the character before the scan position.
\<close>

function find_key_from :: "char option \<Rightarrow> string \<Rightarrow> string \<Rightarrow> string option" where
  "find_key_from prev s key =
     (if s = [] \<or> key = [] then None
      else if take (length key) s = key then
        (let r = drop (length key) s in
         if prev = Some (CHR 0x22) \<and> r \<noteq> [] \<and> hd r = CHR 0x22
            \<and> (let q = dropWhile (\<lambda>c. c = CHR 0x20) (tl r) in q \<noteq> [] \<and> hd q = CHR '':'')
         then Some (tl (dropWhile (\<lambda>c. c = CHR 0x20) (tl r)))
         else find_key_from (Some (last key)) r key)
      else find_key_from (Some (hd s)) (tl s) key)"
  by pat_completeness auto
termination
  by (relation "measure (\<lambda>(p, s, k). length s)") (auto simp: neq_Nil_conv)

declare find_key_from.simps [simp del]

definition find_key :: "string \<Rightarrow> string \<Rightarrow> string option" where
  "find_key buf key = find_key_from None buf key"

text \<open>\<open>get_str\<close> copies at most \<open>outlen - 1\<close> characters up to the closing quote.\<close>

definition get_str :: "string \<Rightarrow> string \<Rightarrow> nat \<Rightarrow> string option" where
  "get_str buf key outlen =
     (case find_key buf key of
        None \<Rightarrow> None
      | Some p \<Rightarrow>
          (let q = dropWhile (\<lambda>c. c = CHR 0x20) p in
           if q = [] \<or> hd q \<noteq> CHR 0x22 then None
           else Some (take (outlen - 1) (takeWhile (\<lambda>c. c \<noteq> CHR 0x22) (tl q)))))"

definition get_int :: "string \<Rightarrow> string \<Rightarrow> int option" where
  "get_int buf key =
     (case find_key buf key of
        None \<Rightarrow> None
      | Some p \<Rightarrow> map_option fst (strtoll (dropWhile (\<lambda>c. c = CHR 0x20) p)))"

section \<open>Printing and reading numbers\<close>

declare show_nat.simps [simp del]

lemma digit_char_digit [simp]: "d < 10 \<Longrightarrow> c_isdigit (digit_char d)"
  by (simp add: c_isdigit_def digit_char_def)

lemma digit_val_char [simp]: "d < 10 \<Longrightarrow> digit_val (digit_char d) = d"
  by (simp add: digit_val_def digit_char_def)

lemma digits_val_snoc [simp]: "digits_val (ds @ [c]) = 10 * digits_val ds + digit_val c"
  by (simp add: digits_val_def)

lemma show_nat_digits: "\<forall>c \<in> set (show_nat n). c_isdigit c"
proof (induction n rule: show_nat.induct)
  case (1 n)
  then show ?case by (subst show_nat.simps) auto
qed

lemma show_nat_nonempty [simp]: "show_nat n \<noteq> []"
  by (subst show_nat.simps) simp

lemma digits_val_show_nat [simp]: "digits_val (show_nat n) = n"
proof (induction n rule: show_nat.induct)
  case (1 n)
  then show ?case
    by (subst show_nat.simps) (simp add: digits_val_def [of "[_]"])
qed

lemma takeWhile_show_nat:
  assumes "rest = [] \<or> \<not> c_isdigit (hd rest)"
  shows "takeWhile c_isdigit (show_nat n @ rest) = show_nat n"
    and "dropWhile c_isdigit (show_nat n @ rest) = rest"
proof -
  have "takeWhile c_isdigit rest = []" "dropWhile c_isdigit rest = rest"
    using assms by (cases rest; simp)+
  with show_nat_digits [of n]
  show "takeWhile c_isdigit (show_nat n @ rest) = show_nat n"
    and "dropWhile c_isdigit (show_nat n @ rest) = rest"
    by (simp_all add: takeWhile_append2 dropWhile_append2)
qed

lemma hd_show_nat: "c_isdigit (hd (show_nat n))"
  using show_nat_digits [of n] by (metis list.set_sel(1) show_nat_nonempty)

lemma digit_not_special:
  assumes "c_isdigit c"
  shows "\<not> c_isspace c" "c \<noteq> CHR ''-''" "c \<noteq> CHR ''+''" "c \<noteq> CHR 0x20" "c \<noteq> CHR 0x09" "c \<noteq> CHR '':''"
  using assms by (auto simp: c_isdigit_def c_isspace_def)

text \<open>Reading back a printed integer gives the integer, for every value the type can hold.\<close>

lemma strto_show_int:
  assumes "lo \<le> i" "i \<le> hi" and rest: "rest = [] \<or> \<not> c_isdigit (hd rest)"
  shows "strto lo hi (show_int i @ rest) = Some (i, rest)"
proof (cases "i < 0")
  case True
  with assms show ?thesis
    by (simp add: strto_def show_int_def Let_def takeWhile_show_nat [OF rest] c_isspace_def)
next
  case False
  obtain d ds where s: "show_nat (nat i) = d # ds" by (cases "show_nat (nat i)") auto
  with hd_show_nat [of "nat i"] have d: "c_isdigit d" by simp
  have "strto lo hi (show_nat (nat i) @ rest) = Some (i, rest)"
    using False assms takeWhile_show_nat [OF rest, of "nat i"] digits_val_show_nat [of "nat i"]
      digit_not_special [OF d]
    by (simp add: strto_def Let_def s)
  with False show ?thesis by (simp add: show_int_def)
qed

lemma strstr_here: "strstr (pat @ rest) pat = Some (pat @ rest)"
proof (cases "pat @ rest")
  case (Cons c s)
  then have "take (length pat) (c # s) = pat" by (metis append_eq_conv_conj)
  with Cons show ?thesis by simp
qed simp

lemma strstr_skip:
  assumes "c \<notin> set pre"
  shows "strstr (pre @ c # s) (c # pat) = strstr (c # s) (c # pat)"
  using assms by (induction pre) auto

lemma strstr_Some_suffix: "strstr s pat = Some t \<Longrightarrow> \<exists>u. s = u @ t \<and> take (length pat) t = pat"
proof (induction s)
  case (Cons c s)
  then show ?case by (cases "take (length pat) (c # s) = pat") (auto intro: exI [of _ "c # _"])
qed (auto split: if_splits)

lemma hd_show_int_not: "hd (show_int i @ r) \<notin> {CHR 0x20, CHR 0x09, CHR '':''}"
  using digit_not_special [OF hd_show_nat]
  by (auto simp: show_int_def hd_append)

lemma show_int_nonempty [simp]: "show_int i \<noteq> []"
  by (simp add: show_int_def)

lemma dropWhile_show_int:
  "(\<And>c. P c \<Longrightarrow> c \<in> {CHR 0x20, CHR 0x09, CHR '':''}) \<Longrightarrow>
   dropWhile P (show_int i @ r) = show_int i @ r"
  using hd_show_int_not [of i r] by (cases "show_int i") auto

text \<open>
  A field \<open>"key":value\<close> printed into a datagram is what the scraper reads, when nothing before it
  contains the quoted key.
\<close>

lemma json_get_int_field:
  assumes "strstr (pre @ quoted key @ CHR '':'' # show_int v @ rest) (quoted key)
           = Some (quoted key @ CHR '':'' # show_int v @ rest)"
    and "length key < 62" "LONG_MIN \<le> v" "v \<le> LONG_MAX"
    and "rest = [] \<or> \<not> c_isdigit (hd rest)"
  shows "json_get_int (pre @ quoted key @ CHR '':'' # show_int v @ rest) key = Some v"
  using assms
  by (simp add: json_get_int_def dropWhile_show_int strtol_def strto_show_int)
    (simp add: quoted_def)

end
