(* ===== verification/WireProto.thy ===== *)
theory WireProto
  imports Prelude
begin

text \<open>
  The binary wire formats: WCMD requests and responses (\<open>shared/wcmd_proto.h\<close>), the wfb\_tx
  control datagrams (\<open>shared/wfb_control.h\<close> and the packed structs of
  \<open>vehicle/link_controller.c\<close>), and the RTP sidecar frames the FEC controller subscribes to.
  All multi-byte fields are big-endian in packed structs, so a datagram is the concatenation of
  its fields' byte runs.  The locale \<open>frame_codec\<close> is the contract between a sender and the
  receiver's demultiplexer (what was encoded is decoded, trailing bytes are ignored); the WCMD
  request, written by the ground station and read by the vehicle, is an interpretation.
\<close>

named_theorems proto_consts

section \<open>Constants\<close>

definition WCMD_MAGIC :: nat where [proto_consts]:
  "WCMD_MAGIC = 0x57434D44"

definition WCMD_VERSION :: nat where [proto_consts]:
  "WCMD_VERSION = 1"

definition WCMD_MSG_REQ :: nat where [proto_consts]:
  "WCMD_MSG_REQ = 1"

definition WCMD_MSG_RESP :: nat where [proto_consts]:
  "WCMD_MSG_RESP = 2"

definition WCMD_KEY_BITRATE_KBPS :: int where [proto_consts]:
  "WCMD_KEY_BITRATE_KBPS = 1"

definition WCMD_KEY_FPS :: int where [proto_consts]:
  "WCMD_KEY_FPS = 2"

definition WCMD_KEY_PAYLOAD_BYTES :: int where [proto_consts]:
  "WCMD_KEY_PAYLOAD_BYTES = 3"

definition WCMD_KEY_FORCE_IDR :: int where [proto_consts]:
  "WCMD_KEY_FORCE_IDR = 4"

definition WCMD_KEY_WFB_FEC_K :: int where [proto_consts]:
  "WCMD_KEY_WFB_FEC_K = 5"

definition WCMD_KEY_WFB_FEC_N :: int where [proto_consts]:
  "WCMD_KEY_WFB_FEC_N = 6"

definition WCMD_KEY_WFB_MCS :: int where [proto_consts]:
  "WCMD_KEY_WFB_MCS = 7"

definition WCMD_KEY_WFB_BANDWIDTH :: int where [proto_consts]:
  "WCMD_KEY_WFB_BANDWIDTH = 8"

definition WCMD_KEY_WFB_LDPC :: int where [proto_consts]:
  "WCMD_KEY_WFB_LDPC = 9"

definition WCMD_KEY_WFB_STBC :: int where [proto_consts]:
  "WCMD_KEY_WFB_STBC = 10"

definition WCMD_KEY_WFB_SHORT_GI :: int where [proto_consts]:
  "WCMD_KEY_WFB_SHORT_GI = 11"

definition WCMD_KEY_FEC_ENABLED :: int where [proto_consts]:
  "WCMD_KEY_FEC_ENABLED = 12"

definition WCMD_KEY_MCS_ENABLED :: int where [proto_consts]:
  "WCMD_KEY_MCS_ENABLED = 13"

definition WCMD_KEY_WFB_TXPOWER :: int where [proto_consts]:
  "WCMD_KEY_WFB_TXPOWER = 14"

definition WCMD_KEY_RECORD :: int where [proto_consts]:
  "WCMD_KEY_RECORD = 15"

definition WCMD_KEY_PEEK_ENABLED :: int where [proto_consts]:
  "WCMD_KEY_PEEK_ENABLED = 16"

definition WCMD_KEY_LOG_SYNC :: int where [proto_consts]:
  "WCMD_KEY_LOG_SYNC = 18"

definition WCMD_KEY_LOG_CONTROL :: int where [proto_consts]:
  "WCMD_KEY_LOG_CONTROL = 19"

definition WCMD_KEY_RETURN_APFPV :: int where [proto_consts]:
  "WCMD_KEY_RETURN_APFPV = 20"

definition WCMD_KEY_RECOVERY_APFPV :: int where [proto_consts]:
  "WCMD_KEY_RECOVERY_APFPV = 64"

definition WCMD_STATUS_OK :: int where [proto_consts]:
  "WCMD_STATUS_OK = 0"

definition WCMD_STATUS_DISABLED :: int where [proto_consts]:
  "WCMD_STATUS_DISABLED = 1"

definition WCMD_STATUS_UNKNOWN_KEY :: int where [proto_consts]:
  "WCMD_STATUS_UNKNOWN_KEY = 2"

definition WCMD_STATUS_KEY_BLOCKED :: int where [proto_consts]:
  "WCMD_STATUS_KEY_BLOCKED = 3"

definition WCMD_STATUS_OUT_OF_RANGE :: int where [proto_consts]:
  "WCMD_STATUS_OUT_OF_RANGE = 4"

definition WCMD_STATUS_RATE_LIMITED :: int where [proto_consts]:
  "WCMD_STATUS_RATE_LIMITED = 5"

definition WCMD_STATUS_HTTP_ERROR :: int where [proto_consts]:
  "WCMD_STATUS_HTTP_ERROR = 6"

definition WCMD_STATUS_NOT_PERMITTED :: int where [proto_consts]:
  "WCMD_STATUS_NOT_PERMITTED = 8"

section \<open>WCMD frames\<close>

text \<open>
  \<open>WcmdReq\<close> and \<open>WcmdResp\<close> without the constant header fields; \<open>value\<close> is the \<open>int32_t\<close> read
  after \<open>ntohl\<close>.
\<close>

record wcmd_req =
  rq_seq :: u16
  rq_key :: u8
  rq_flags :: u8
  rq_pad :: u16
  rq_value :: int

record wcmd_resp =
  rs_seq :: u16
  rs_status :: int
  rs_key :: u8
  rs_http_status :: int
  rs_applied_value :: int

definition int32_bytes :: "int \<Rightarrow> u8 list" where
  "int32_bytes v = be_enc 4 (unat (word_of_int v :: u32))"

definition int32_at :: "nat \<Rightarrow> u8 list \<Rightarrow> int" where
  "int32_at off bs = sint (word_of_nat (be_at off 4 bs) :: u32)"

definition wcmd_req_bytes :: "wcmd_req \<Rightarrow> u8 list" where
  "wcmd_req_bytes r =
     be_enc 4 WCMD_MAGIC @ be_enc 1 WCMD_VERSION @ be_enc 1 WCMD_MSG_REQ
     @ be_enc 2 (unat (rq_seq r)) @ be_enc 1 (unat (rq_key r)) @ be_enc 1 (unat (rq_flags r))
     @ be_enc 2 (unat (rq_pad r)) @ int32_bytes (rq_value r)"

text \<open>
  The demultiplexer's test on the rx\_ant socket (main loop, also on the recovery socket): at
  least \<open>sizeof(WcmdReq)\<close> bytes, magic, version and message type; anything after the 16 bytes is
  ignored.
\<close>

definition wcmd_req_parse :: "u8 list \<Rightarrow> wcmd_req option" where
  "wcmd_req_parse bs =
     (if 16 \<le> length bs \<and> be_at 0 4 bs = WCMD_MAGIC \<and> be_at 4 1 bs = WCMD_VERSION
         \<and> be_at 5 1 bs = WCMD_MSG_REQ
      then Some \<lparr> rq_seq = word_of_nat (be_at 6 2 bs), rq_key = word_of_nat (be_at 8 1 bs),
                  rq_flags = word_of_nat (be_at 9 1 bs), rq_pad = word_of_nat (be_at 10 2 bs),
                  rq_value = int32_at 12 bs \<rparr>
      else None)"

definition wcmd_resp_bytes :: "wcmd_resp \<Rightarrow> u8 list" where
  "wcmd_resp_bytes r =
     be_enc 4 WCMD_MAGIC @ be_enc 1 WCMD_VERSION @ be_enc 1 WCMD_MSG_RESP
     @ be_enc 2 (unat (rs_seq r)) @ be_enc 1 (unat (word_of_int (rs_status r) :: u8))
     @ be_enc 1 (unat (rs_key r)) @ be_enc 2 (unat (word_of_int (rs_http_status r) :: u16))
     @ int32_bytes (rs_applied_value r)"

section \<open>wfb\_tx control datagrams\<close>

record radio_body =
  rb_stbc :: u8
  rb_ldpc :: u8
  rb_short_gi :: u8
  rb_bandwidth :: u8
  rb_mcs_index :: u8
  rb_vht_mode :: u8
  rb_vht_nss :: u8

text \<open>\<open>CmdReq\<close>: the union's constructors, each sent with its own length.\<close>

datatype cmd_body =
    SetFec u8 u8 u16
  | SetRadio radio_body
  | GetFec
  | GetRadio
  | SetPeek u8
  | GetPeek

fun cmd_id :: "cmd_body \<Rightarrow> nat" where
  "cmd_id (SetFec k n t) = 1"
| "cmd_id (SetRadio r) = 2"
| "cmd_id GetFec = 3"
| "cmd_id GetRadio = 4"
| "cmd_id (SetPeek e) = 5"
| "cmd_id GetPeek = 6"

definition radio_bytes :: "radio_body \<Rightarrow> u8 list" where
  "radio_bytes r = [rb_stbc r, rb_ldpc r, rb_short_gi r, rb_bandwidth r, rb_mcs_index r,
                    rb_vht_mode r, rb_vht_nss r]"

fun cmd_payload :: "cmd_body \<Rightarrow> u8 list" where
  "cmd_payload (SetFec k n t) = [k, n] @ be_enc 2 (unat t)"
| "cmd_payload (SetRadio r) = radio_bytes r"
| "cmd_payload (SetPeek e) = [e]"
| "cmd_payload _ = []"

definition cmd_req_bytes :: "u32 \<Rightarrow> cmd_body \<Rightarrow> u8 list" where
  "cmd_req_bytes rid b = be_enc 4 (unat rid) @ be_enc 1 (cmd_id b) @ cmd_payload b"

text \<open>
  The checks every reply passes: at least \<open>need\<close> bytes beyond the 8-byte header, the request's
  id echoed, and \<open>rc == 0\<close>; the body is returned.
\<close>

definition cmd_resp_body :: "u32 \<Rightarrow> nat \<Rightarrow> u8 list \<Rightarrow> u8 list option" where
  "cmd_resp_body rid need bs =
     (if length bs < 8 + need then None
      else if be_at 0 4 bs \<noteq> unat rid then None
      else if be_at 4 4 bs \<noteq> 0 then None
      else Some (drop 8 bs))"

definition radio_of_bytes :: "u8 list \<Rightarrow> radio_body" where
  "radio_of_bytes bs =
     \<lparr> rb_stbc = byte_at 0 bs, rb_ldpc = byte_at 1 bs, rb_short_gi = byte_at 2 bs,
       rb_bandwidth = byte_at 3 bs, rb_mcs_index = byte_at 4 bs, rb_vht_mode = byte_at 5 bs,
       rb_vht_nss = byte_at 6 bs \<rparr>"

definition WFB_FEC_TIMEOUT_KEEP :: u16 where
  "WFB_FEC_TIMEOUT_KEEP = 0xFFFF"

section \<open>Sidecar frames\<close>

text \<open>\<open>be64_read\<close>, written with the source's shifts and ors.\<close>

definition be64_read :: "u8 list \<Rightarrow> u64" where
  "be64_read b =
     (push_bit 56 (ucast (b ! 0)) OR push_bit 48 (ucast (b ! 1)) OR
      push_bit 40 (ucast (b ! 2)) OR push_bit 32 (ucast (b ! 3)) OR
      push_bit 24 (ucast (b ! 4)) OR push_bit 16 (ucast (b ! 5)) OR
      push_bit 8 (ucast (b ! 6)) OR ucast (b ! 7))"

record sidecar_transport =
  st_fill_pct :: int
  st_in_pressure :: int
  st_transport_drops :: u32
  st_pressure_drops :: u32
  st_packets_sent :: u32

record sidecar_frame =
  sf_frame_ready_us :: u64
  sf_transport :: "sidecar_transport option"
  sf_frame_size :: "nat option"

text \<open>
  The parse of the sidecar handler: a 52-byte \<open>SidecarFrame\<close>, then \<open>SidecarEncInfo\<close> (12 bytes)
  when \<open>SC_FLAG_ENC_INFO\<close> is set, then \<open>SidecarTransportInfo\<close> (16 bytes) when
  \<open>SC_FLAG_TRANSPORT_INFO\<close> is.  A trailer that does not fit in the datagram is skipped.
\<close>

definition sidecar_parse :: "u8 list \<Rightarrow> sidecar_frame option" where
  "sidecar_parse bs =
     (if length bs < 52 \<or> be_at 0 4 bs \<noteq> 0x52545053 \<or> byte_at 4 bs \<noteq> 1 \<or> byte_at 5 bs \<noteq> 2
      then None
      else (let enc = bit (byte_at 7 bs) 1; tr = bit (byte_at 7 bs) 2;
                t_off = 52 + (if enc then 12 else 0) in
        Some \<lparr> sf_frame_ready_us = be64_read (field_at 24 8 bs),
               sf_transport =
                 (if tr \<and> t_off + 16 \<le> length bs
                  then Some \<lparr> st_fill_pct = uint (byte_at t_off bs),
                              st_in_pressure = (if byte_at (t_off + 1) bs \<noteq> 0 then 1 else 0),
                              st_transport_drops = word_of_nat (be_at (t_off + 4) 4 bs),
                              st_pressure_drops = word_of_nat (be_at (t_off + 8) 4 bs),
                              st_packets_sent = word_of_nat (be_at (t_off + 12) 4 bs) \<rparr>
                  else None),
               sf_frame_size =
                 (if enc \<and> 64 \<le> length bs then Some (be_at 52 4 bs) else None) \<rparr>))"

definition sidecar_subscribe_bytes :: "u8 list" where
  "sidecar_subscribe_bytes = be_enc 4 0x52545053 @ [1, 1, 0, 0]"

section \<open>The codec contract\<close>

locale frame_codec =
  fixes enc :: "'a \<Rightarrow> u8 list" and dec :: "u8 list \<Rightarrow> 'a option" and ok :: "'a \<Rightarrow> bool"
    and size :: nat
  assumes dec_enc: "ok x \<Longrightarrow> dec (enc x @ trailing) = Some x"
    and enc_dec: "dec bs = Some x \<Longrightarrow> enc x = take size bs \<and> ok x"
begin

lemma enc_inj: "ok x \<Longrightarrow> ok y \<Longrightarrow> enc x = enc y \<Longrightarrow> x = y"
  by (metis append_Nil2 dec_enc option.inject)

lemma dec_prefix: "dec bs = Some x \<Longrightarrow> dec (take size bs @ trailing) = Some x"
  by (metis dec_enc enc_dec)

lemma burst_same: "ok x \<Longrightarrow> map dec (replicate n (enc x)) = replicate n (Some x)"
  using dec_enc [of x "[]"] by simp

end

section \<open>Facts\<close>

lemma length_int32_bytes [simp]: "length (int32_bytes v) = 4"
  by (simp add: int32_bytes_def)

lemma length_wcmd_req_bytes [simp]: "length (wcmd_req_bytes r) = 16"
  by (simp add: wcmd_req_bytes_def)

lemma length_wcmd_resp_bytes [simp]: "length (wcmd_resp_bytes r) = 16"
  by (simp add: wcmd_resp_bytes_def)

lemma int32_at_skip: "length xs \<le> off \<Longrightarrow> int32_at off (xs @ ys) = int32_at (off - length xs) ys"
  by (simp add: int32_at_def be_at_skip)

lemma int32_at_here:
  assumes "- (2 ^ 31) \<le> v" "v < 2 ^ 31"
  shows "int32_at 0 (int32_bytes v @ ys) = v"
proof -
  have "unat (word_of_int v :: u32) < 256 ^ 4"
    using unsigned_less [of "word_of_int v :: u32", where ?'a = nat] by simp
  then have "int32_at 0 (int32_bytes v @ ys) = sint (word_of_int v :: u32)"
    by (simp add: int32_at_def int32_bytes_def be_at_here del: be_enc.simps)
  also have "\<dots> = v"
    using assms by (simp add: signed_of_int signed_take_bit_int_eq_self)
  finally show ?thesis .
qed

lemma int32_bytes_at: "off + 4 \<le> length bs \<Longrightarrow> int32_bytes (int32_at off bs) = field_at off 4 bs"
  by (simp add: int32_bytes_def int32_at_def unat_word_of_nat_be_at be_enc_be_at)

lemma int32_at_range: "- (2 ^ 31) \<le> int32_at off bs \<and> int32_at off bs < 2 ^ 31"
  using sint_range_size [of "word_of_nat (be_at off 4 bs) :: u32"]
  by (simp add: int32_at_def word_size)

lemma u_bounds:
  "unat (w1 :: u8) < 256 ^ 1" "unat (w2 :: u16) < 256 ^ 2" "unat (w4 :: u32) < 256 ^ 4"
  using unsigned_less [of w1, where ?'a = nat] unsigned_less [of w2, where ?'a = nat]
    unsigned_less [of w4, where ?'a = nat]
  by simp_all

lemma wcmd_req_dec_enc:
  assumes "- (2 ^ 31) \<le> rq_value r" "rq_value r < 2 ^ 31"
  shows "wcmd_req_parse (wcmd_req_bytes r @ trailing) = Some r"
proof -
  have m: "WCMD_MAGIC < 256 ^ 4" "WCMD_VERSION < 256 ^ 1" "WCMD_MSG_REQ < 256 ^ 1"
    by (simp_all add: proto_consts)
  have "16 \<le> length (wcmd_req_bytes r @ trailing)" by simp
  moreover have "be_at 0 4 (wcmd_req_bytes r @ trailing) = WCMD_MAGIC"
    "be_at 4 1 (wcmd_req_bytes r @ trailing) = WCMD_VERSION"
    "be_at 5 1 (wcmd_req_bytes r @ trailing) = WCMD_MSG_REQ"
    "be_at 6 2 (wcmd_req_bytes r @ trailing) = unat (rq_seq r)"
    "be_at 8 1 (wcmd_req_bytes r @ trailing) = unat (rq_key r)"
    "be_at 9 1 (wcmd_req_bytes r @ trailing) = unat (rq_flags r)"
    "be_at 10 2 (wcmd_req_bytes r @ trailing) = unat (rq_pad r)"
    unfolding wcmd_req_bytes_def append_assoc
    by (simp_all add: be_at_skip be_at_here [OF m(1)] be_at_here [OF m(2)] be_at_here [OF m(3)]
        be_at_here [OF u_bounds(1)] be_at_here [OF u_bounds(2)] del: be_enc.simps One_nat_def)
  moreover have "int32_at 12 (wcmd_req_bytes r @ trailing) = rq_value r"
    unfolding wcmd_req_bytes_def append_assoc
    by (simp add: int32_at_skip int32_at_here assms [simplified] del: be_enc.simps)
  ultimately show ?thesis by (simp add: wcmd_req_parse_def)
qed

lemma field_at_whole: "take 16 bs = field_at 0 4 bs @ field_at 4 1 bs @ field_at 5 1 bs @ field_at 6 2 bs
    @ field_at 8 1 bs @ field_at 9 1 bs @ field_at 10 2 bs @ field_at 12 4 bs"
proof -
  have "take 16 bs = field_at 0 (4 + (1 + (1 + (2 + (1 + (1 + (2 + 4))))))) bs"
    by (simp add: field_at_def)
  then show ?thesis by (simp only: field_at_split) simp
qed

lemma wcmd_req_enc_dec:
  assumes "wcmd_req_parse bs = Some r"
  shows "wcmd_req_bytes r = take 16 bs"
proof -
  from assms have l: "16 \<le> length bs" and h: "WCMD_MAGIC = be_at 0 4 bs" "WCMD_VERSION = be_at 4 1 bs"
      "WCMD_MSG_REQ = be_at 5 1 bs"
    and r: "r = \<lparr> rq_seq = word_of_nat (be_at 6 2 bs), rq_key = word_of_nat (be_at 8 1 bs),
                  rq_flags = word_of_nat (be_at 9 1 bs), rq_pad = word_of_nat (be_at 10 2 bs),
                  rq_value = int32_at 12 bs \<rparr>"
    by (auto simp: wcmd_req_parse_def split: if_splits)
  show ?thesis
    unfolding wcmd_req_bytes_def h field_at_whole r
    using l by (simp add: unat_word_of_nat_be_at be_enc_be_at int32_bytes_at
        del: be_enc.simps One_nat_def)
qed

lemma wcmd_req_parse_range:
  "wcmd_req_parse bs = Some r \<Longrightarrow> - (2 ^ 31) \<le> rq_value r \<and> rq_value r < 2 ^ 31"
  using int32_at_range [of 12 bs] by (auto simp: wcmd_req_parse_def split: if_splits)

interpretation wcmd_codec: frame_codec wcmd_req_bytes wcmd_req_parse
    "\<lambda>r. - (2 ^ 31) \<le> rq_value r \<and> rq_value r < 2 ^ 31" 16
  by unfold_locales (use wcmd_req_dec_enc wcmd_req_enc_dec wcmd_req_parse_range in auto)

section \<open>Big-endian 64-bit reads\<close>

text \<open>
  One step of the or-chain: the byte shifted above a value of \<open>n\<close> bits adds to it.
\<close>

lemma be64_step:
  fixes b :: u64 and c :: u8
  assumes b: "unat b < 2 ^ n" and m: "n + 8 = m" "m \<le> 64"
  shows "unat (push_bit n (ucast c) OR b) = unat c * 2 ^ n + unat b"
    and "unat (push_bit n (ucast c) OR b) < 2 ^ m"
proof -
  have tb: "take_bit n b = b"
    using b by (simp add: word_unat_eq_iff unsigned_take_bit_eq take_bit_nat_eq_self)
  then have nb: "bit b i \<Longrightarrow> i < n" for i by (metis bit_take_bit_iff)
  have "push_bit n (ucast c) AND b = 0"
    by (rule bit_eqI) (auto simp: bit_simps dest: nb)
  then have "push_bit n (ucast c) OR b = push_bit n (ucast c) + b"
    by (simp add: disjunctive_add_eq_or)
  also have "\<dots> = word_of_nat (unat c * 2 ^ n + unat b)"
    by (simp add: push_bit_eq_mult)
  finally have w: "push_bit n (ucast c) OR b = word_of_nat (unat c * 2 ^ n + unat b)" .
  have "Suc (unat c) \<le> 2 ^ 8" using unsigned_less [of c, where ?'a = nat] by simp
  then have "Suc (unat c) * 2 ^ n \<le> 2 ^ 8 * 2 ^ n" by (rule mult_le_mono1)
  then have "unat c * 2 ^ n + 2 ^ n \<le> 2 ^ m" by (simp only: mult_Suc power_add m(1) [symmetric] ac_simps)
  then have lt: "unat c * 2 ^ n + unat b < 2 ^ m" using b by simp
  also have "\<dots> \<le> (2 :: nat) ^ 64" using m by (intro power_increasing) simp_all
  finally show eq: "unat (push_bit n (ucast c) OR b) = unat c * 2 ^ n + unat b"
    unfolding w unat_of_nat by (simp add: take_bit_nat_eq_self)
  with lt show "unat (push_bit n (ucast c) OR b) < 2 ^ m" by simp
qed

lemma be64_read_be_dec:
  assumes "length bs = 8"
  shows "unat (be64_read bs) = be_dec bs"
proof -
  obtain b0 b1 b2 b3 b4 b5 b6 b7 where bs: "bs = [b0, b1, b2, b3, b4, b5, b6, b7]"
    using assms by (auto simp: length_Suc_conv eval_nat_numeral)
  have s0: "unat (ucast b7 :: u64) < 2 ^ 8" "unat (ucast b7 :: u64) = unat b7"
    using unsigned_less [of b7, where ?'a = nat] by (simp_all add: unsigned_ucast_eq take_bit_nat_eq_self)
  have ar: "8 + 8 = (16::nat)" "16 + 8 = (24::nat)" "24 + 8 = (32::nat)" "32 + 8 = (40::nat)"
    "40 + 8 = (48::nat)" "48 + 8 = (56::nat)" "56 + 8 = (64::nat)"
    "(16::nat) \<le> 64" "(24::nat) \<le> 64" "(32::nat) \<le> 64" "(40::nat) \<le> 64" "(48::nat) \<le> 64"
    "(56::nat) \<le> 64" "(64::nat) \<le> 64"
    by simp_all
  note s1 = be64_step [of _ 8 16 b6, OF s0(1) ar(1) ar(8)]
  note s2 = be64_step [of _ 16 24 b5, OF s1(2) ar(2) ar(9)]
  note s3 = be64_step [of _ 24 32 b4, OF s2(2) ar(3) ar(10)]
  note s4 = be64_step [of _ 32 40 b3, OF s3(2) ar(4) ar(11)]
  note s5 = be64_step [of _ 40 48 b2, OF s4(2) ar(5) ar(12)]
  note s6 = be64_step [of _ 48 56 b1, OF s5(2) ar(6) ar(13)]
  note s7 = be64_step [of _ 56 64 b0, OF s6(2) ar(7) ar(14)]
  show ?thesis
    unfolding be64_read_def bs
    by (simp add: s1(1) s2(1) s3(1) s4(1) s5(1) s6(1) s7(1) s0(2))
qed

end
