(* ===== verification/LinkConfig.thy ===== *)
theory LinkConfig
  imports CString
begin

text \<open>
  The configuration of the link controller (\<open>Config\<close> of \<open>vehicle/link_controller.c\<close>): one record
  per sub-struct with the fields prefixed by its name, the defaults of \<open>config_defaults\<close>, the
  cross-field warnings of \<open>cfg_validate_warnings\<close> and the \<open>HOST:PORT\<close> argument parser.
  \<open>float\<close> fields are rationals; a default written \<open>0.05f\<close> in the source is \<open>fl32 (5/100)\<close>, the
  binary32 number the literal denotes.
\<close>

datatype rssi_agg = AGG_BEST_AVG | AGG_BEST_MAX | AGG_MEAN_AVG

record fec_cfg =
  fec_sidecar_host :: string
  fec_sidecar_port :: int
  fec_venc_host :: string
  fec_venc_port :: int
  fec_mtu :: int
  fec_min_k :: int
  fec_max_k :: int
  fec_min_n :: int
  fec_max_n :: int
  fec_ewma_alpha :: rat
  fec_headroom_min :: rat
  fec_headroom_max :: rat
  fec_headroom_margin :: rat
  fec_headroom_window_s :: rat
  fec_ppf_deadband_frac :: rat
  fec_k_hyst_up :: int
  fec_cooldown_up_s :: rat
  fec_k_down_dwell_s :: rat
  fec_k_up_dwell_s :: rat
  fec_startup_grace_s :: rat
  fec_safety_margin :: rat
  fec_bitrate_min_kbps :: int
  fec_bitrate_max_kbps :: int
  fec_bitrate_tolerance :: rat
  fec_bitrate_grace_s :: rat
  fec_mcs_settle_s :: rat
  fec_bitrate_lead_s :: rat
  fec_mcs_up_grace_s :: rat
  fec_subscribe_s :: rat
  fec_radio_poll_s :: rat
  fec_wfb_stats_port :: int
  fec_on :: bool
  fec_payload_max :: int
  fec_payload_min :: int
  fec_airtime_max_pct :: int
  fec_airtime_preamble_us :: int
  fec_safe_startup_enabled :: bool
  fec_safe_startup_bitrate_kbps :: int
  fec_safe_startup_payload :: int
  fec_skip_on_backpressure :: bool
  fec_backpressure_fill_pct :: int
  fec_desync_probe :: bool
  fec_blocksize_feedforward :: bool
  fec_ff_cooldown_s :: rat
  fec_backpressure_recover_s :: rat

record mcs_cfg =
  mcs_stats_host :: string
  mcs_stats_port :: int
  mcs_rssi_ewma_alpha :: rat
  mcs_loss_ewma_alpha :: rat
  mcs_rssi_aggregator :: rssi_agg
  mcs_down_cooldown_s :: rat
  mcs_failsafe_timeout_s :: rat
  mcs_oscillation_window_s :: rat
  mcs_min :: int
  mcs_max :: int
  mcs_on :: bool
  mcs_probe_clean_milli :: int
  mcs_probe_fail_milli :: int
  mcs_demote_per_milli :: int
  mcs_promote_dwell_s :: rat
  mcs_probe_window_s :: rat
  mcs_probe_stale_age_s :: rat
  mcs_rssi_floor_dbm :: rat
  mcs_rssi_fade_db_per_s :: rat
  mcs_rssi_fade_arm_dbm :: rat
  mcs_rssi_floor_hyst_db :: rat
  mcs_pressure_demote_block :: bool
  mcs_pressure_escape_s :: rat
  mcs_reentry_backoff_s :: rat
  mcs_reentry_dwell_s :: rat
  mcs_flap_freeze_count :: int
  mcs_flap_freeze_window_s :: rat
  mcs_flap_freeze_s :: rat
  mcs_probe_feed_pps :: int
  mcs_probe_feed_bytes :: int

record csa_sub_cfg =
  csa_on :: bool
  csa_sub_iface :: string
  csa_allow_chan :: string
  csa_allow_bw :: string
  csa_sub_cooldown_ms :: int
  csa_sub_no_revert :: bool

record cmd_cfg =
  cmd_on :: bool
  cmd_loopback_only :: bool
  cmd_rate_limit_ms :: int
  cmd_allow_keys_mask :: int
  cmd_bitrate_min_kbps :: int
  cmd_bitrate_max_kbps :: int
  cmd_fps_min :: int
  cmd_fps_max :: int
  cmd_payload_min :: int
  cmd_payload_max :: int
  cmd_wfb_fec_k_min :: int
  cmd_wfb_fec_k_max :: int
  cmd_wfb_fec_n_min :: int
  cmd_wfb_fec_n_max :: int
  cmd_wfb_mcs_min :: int
  cmd_wfb_mcs_max :: int
  cmd_wfb_bandwidth_min :: int
  cmd_wfb_bandwidth_max :: int
  cmd_wfb_txpower_min :: int
  cmd_wfb_txpower_max :: int
  cmd_wfb_iface :: string
  cmd_tx_pwr_by_rate :: bool

record recovery_cfg =
  rec_enabled :: bool
  rec_listen_port :: int
  rec_arm_count :: int
  rec_arm_window_ms :: int
  rec_cooldown_ms :: int
  rec_apfpv_cmd :: string

record lc_config =
  cfg_fec :: fec_cfg
  cfg_mcs :: mcs_cfg
  cfg_csa :: csa_sub_cfg
  cfg_cmd :: cmd_cfg
  cfg_recovery :: recovery_cfg
  cfg_wfb_host :: string
  cfg_wfb_port :: int
  cfg_probe_host :: string
  cfg_probe_port :: int
  cfg_probe_feed_host :: string
  cfg_probe_feed_port :: int
  cfg_uplink_stats_port :: int
  cfg_api_port :: int
  cfg_iface_mtu :: int
  cfg_dry_run :: bool
  cfg_verbose :: int
  cfg_key_file :: string

section \<open>Defaults\<close>

definition fec_defaults :: fec_cfg where
  "fec_defaults = \<lparr>
     fec_sidecar_host = ''127.0.0.1'', fec_sidecar_port = 5602,
     fec_venc_host = ''127.0.0.1'', fec_venc_port = 80,
     fec_mtu = 1446, fec_min_k = 4, fec_max_k = 48, fec_min_n = 6, fec_max_n = 72,
     fec_ewma_alpha = fl32 (5/100), fec_headroom_min = fl32 (105/100),
     fec_headroom_max = fl32 (140/100), fec_headroom_margin = fl32 (105/100),
     fec_headroom_window_s = 5/2, fec_ppf_deadband_frac = fl32 (15/100),
     fec_k_hyst_up = 2, fec_cooldown_up_s = 1, fec_k_down_dwell_s = 8, fec_k_up_dwell_s = 2,
     fec_startup_grace_s = 2, fec_safety_margin = 1/2, fec_bitrate_min_kbps = 2200,
     fec_bitrate_max_kbps = 0, fec_bitrate_tolerance = fl32 (15/100), fec_bitrate_grace_s = 2,
     fec_mcs_settle_s = 5, fec_bitrate_lead_s = 1/2, fec_mcs_up_grace_s = 1/4,
     fec_subscribe_s = 2, fec_radio_poll_s = 1, fec_wfb_stats_port = 0, fec_on = True,
     fec_payload_max = 0, fec_payload_min = 576, fec_airtime_max_pct = 80,
     fec_airtime_preamble_us = 40, fec_safe_startup_enabled = True,
     fec_safe_startup_bitrate_kbps = 1500, fec_safe_startup_payload = 1400,
     fec_skip_on_backpressure = True, fec_backpressure_fill_pct = 80,
     fec_desync_probe = False, fec_blocksize_feedforward = True,
     fec_ff_cooldown_s = fl32 (15/100), fec_backpressure_recover_s = 3 \<rparr>"

definition mcs_defaults :: mcs_cfg where
  "mcs_defaults = \<lparr>
     mcs_stats_host = ''127.0.0.1'', mcs_stats_port = 5801,
     mcs_rssi_ewma_alpha = fl32 (3/10), mcs_loss_ewma_alpha = fl32 (3/10),
     mcs_rssi_aggregator = AGG_BEST_AVG, mcs_down_cooldown_s = fl32 (2/10),
     mcs_failsafe_timeout_s = 1/2, mcs_oscillation_window_s = 5,
     mcs_min = 0, mcs_max = 5, mcs_on = True,
     mcs_probe_clean_milli = 20, mcs_probe_fail_milli = 200, mcs_demote_per_milli = 80,
     mcs_promote_dwell_s = 1/2, mcs_probe_window_s = 1/2,
     mcs_probe_stale_age_s = 1, mcs_rssi_floor_dbm = - 85, mcs_rssi_fade_db_per_s = 10,
     mcs_rssi_fade_arm_dbm = - 65, mcs_rssi_floor_hyst_db = 6,
     mcs_pressure_demote_block = True, mcs_pressure_escape_s = 2,
     mcs_reentry_backoff_s = 5, mcs_reentry_dwell_s = 2,
     mcs_flap_freeze_count = 3, mcs_flap_freeze_window_s = 10, mcs_flap_freeze_s = 10,
     mcs_probe_feed_pps = 40, mcs_probe_feed_bytes = 1400 \<rparr>"

definition csa_sub_defaults :: csa_sub_cfg where
  "csa_sub_defaults = \<lparr> csa_on = False, csa_sub_iface = [], csa_allow_chan = [],
     csa_allow_bw = [], csa_sub_cooldown_ms = 2000, csa_sub_no_revert = False \<rparr>"

definition cmd_defaults :: cmd_cfg where
  "cmd_defaults = \<lparr>
     cmd_on = True, cmd_loopback_only = False, cmd_rate_limit_ms = 100,
     cmd_allow_keys_mask = 0x8FFFF, cmd_bitrate_min_kbps = 100, cmd_bitrate_max_kbps = 25000,
     cmd_fps_min = 1, cmd_fps_max = 240, cmd_payload_min = 576, cmd_payload_max = 1474,
     cmd_wfb_fec_k_min = 1, cmd_wfb_fec_k_max = 64, cmd_wfb_fec_n_min = 1,
     cmd_wfb_fec_n_max = 96, cmd_wfb_mcs_min = 0, cmd_wfb_mcs_max = 11,
     cmd_wfb_bandwidth_min = 5, cmd_wfb_bandwidth_max = 80, cmd_wfb_txpower_min = 50,
     cmd_wfb_txpower_max = 3000, cmd_wfb_iface = [], cmd_tx_pwr_by_rate = False \<rparr>"

definition recovery_defaults :: recovery_cfg where
  "recovery_defaults = \<lparr> rec_enabled = True, rec_listen_port = 5802, rec_arm_count = 1,
     rec_arm_window_ms = 2000, rec_cooldown_ms = 10000,
     rec_apfpv_cmd = ''/etc/wfb/recovery-apfpv.sh'' \<rparr>"

definition config_defaults :: lc_config where
  "config_defaults = \<lparr>
     cfg_fec = fec_defaults, cfg_mcs = mcs_defaults, cfg_csa = csa_sub_defaults,
     cfg_cmd = cmd_defaults, cfg_recovery = recovery_defaults,
     cfg_wfb_host = ''127.0.0.1'', cfg_wfb_port = 8000,
     cfg_probe_host = ''127.0.0.1'', cfg_probe_port = 0,
     cfg_probe_feed_host = ''127.0.0.1'', cfg_probe_feed_port = 0,
     cfg_uplink_stats_port = 0, cfg_api_port = 8765, cfg_iface_mtu = 0,
     cfg_dry_run = False, cfg_verbose = 0, cfg_key_file = ''/etc/drone.key'' \<rparr>"

text \<open>The fields of the defaults, for the simplifier.\<close>

lemma fec_defaults_fields [simp]:
  "fec_sidecar_host fec_defaults = ''127.0.0.1''"
  "fec_sidecar_port fec_defaults = 5602"
  "fec_venc_host fec_defaults = ''127.0.0.1''"
  "fec_venc_port fec_defaults = 80"
  "fec_mtu fec_defaults = 1446"
  "fec_min_k fec_defaults = 4"
  "fec_max_k fec_defaults = 48"
  "fec_min_n fec_defaults = 6"
  "fec_max_n fec_defaults = 72"
  "fec_ewma_alpha fec_defaults = fl32 (5/100)"
  "fec_headroom_min fec_defaults = fl32 (105/100)"
  "fec_headroom_max fec_defaults = fl32 (140/100)"
  "fec_headroom_margin fec_defaults = fl32 (105/100)"
  "fec_headroom_window_s fec_defaults = 5/2"
  "fec_ppf_deadband_frac fec_defaults = fl32 (15/100)"
  "fec_k_hyst_up fec_defaults = 2"
  "fec_cooldown_up_s fec_defaults = 1"
  "fec_k_down_dwell_s fec_defaults = 8"
  "fec_k_up_dwell_s fec_defaults = 2"
  "fec_startup_grace_s fec_defaults = 2"
  "fec_safety_margin fec_defaults = 1/2"
  "fec_bitrate_min_kbps fec_defaults = 2200"
  "fec_bitrate_max_kbps fec_defaults = 0"
  "fec_bitrate_tolerance fec_defaults = fl32 (15/100)"
  "fec_bitrate_grace_s fec_defaults = 2"
  "fec_mcs_settle_s fec_defaults = 5"
  "fec_bitrate_lead_s fec_defaults = 1/2"
  "fec_mcs_up_grace_s fec_defaults = 1/4"
  "fec_subscribe_s fec_defaults = 2"
  "fec_radio_poll_s fec_defaults = 1"
  "fec_wfb_stats_port fec_defaults = 0"
  "fec_on fec_defaults = True"
  "fec_payload_max fec_defaults = 0"
  "fec_payload_min fec_defaults = 576"
  "fec_airtime_max_pct fec_defaults = 80"
  "fec_airtime_preamble_us fec_defaults = 40"
  "fec_safe_startup_enabled fec_defaults = True"
  "fec_safe_startup_bitrate_kbps fec_defaults = 1500"
  "fec_safe_startup_payload fec_defaults = 1400"
  "fec_skip_on_backpressure fec_defaults = True"
  "fec_backpressure_fill_pct fec_defaults = 80"
  "fec_desync_probe fec_defaults = False"
  "fec_blocksize_feedforward fec_defaults = True"
  "fec_ff_cooldown_s fec_defaults = fl32 (15/100)"
  "fec_backpressure_recover_s fec_defaults = 3"
  by (simp_all add: fec_defaults_def)

lemma mcs_defaults_fields [simp]:
  "mcs_stats_host mcs_defaults = ''127.0.0.1''"
  "mcs_stats_port mcs_defaults = 5801"
  "mcs_rssi_ewma_alpha mcs_defaults = fl32 (3/10)"
  "mcs_loss_ewma_alpha mcs_defaults = fl32 (3/10)"
  "mcs_rssi_aggregator mcs_defaults = AGG_BEST_AVG"
  "mcs_down_cooldown_s mcs_defaults = fl32 (2/10)"
  "mcs_failsafe_timeout_s mcs_defaults = 1/2"
  "mcs_oscillation_window_s mcs_defaults = 5"
  "mcs_min mcs_defaults = 0"
  "mcs_max mcs_defaults = 5"
  "mcs_on mcs_defaults = True"
  "mcs_probe_clean_milli mcs_defaults = 20"
  "mcs_probe_fail_milli mcs_defaults = 200"
  "mcs_demote_per_milli mcs_defaults = 80"
  "mcs_promote_dwell_s mcs_defaults = 1/2"
  "mcs_probe_window_s mcs_defaults = 1/2"
  "mcs_probe_stale_age_s mcs_defaults = 1"
  "mcs_rssi_floor_dbm mcs_defaults = - 85"
  "mcs_rssi_fade_db_per_s mcs_defaults = 10"
  "mcs_rssi_fade_arm_dbm mcs_defaults = - 65"
  "mcs_rssi_floor_hyst_db mcs_defaults = 6"
  "mcs_pressure_demote_block mcs_defaults = True"
  "mcs_pressure_escape_s mcs_defaults = 2"
  "mcs_reentry_backoff_s mcs_defaults = 5"
  "mcs_reentry_dwell_s mcs_defaults = 2"
  "mcs_flap_freeze_count mcs_defaults = 3"
  "mcs_flap_freeze_window_s mcs_defaults = 10"
  "mcs_flap_freeze_s mcs_defaults = 10"
  "mcs_probe_feed_pps mcs_defaults = 40"
  "mcs_probe_feed_bytes mcs_defaults = 1400"
  by (simp_all add: mcs_defaults_def)

lemma csa_sub_defaults_fields [simp]:
  "csa_on csa_sub_defaults = False"
  "csa_sub_iface csa_sub_defaults = []"
  "csa_allow_chan csa_sub_defaults = []"
  "csa_allow_bw csa_sub_defaults = []"
  "csa_sub_cooldown_ms csa_sub_defaults = 2000"
  "csa_sub_no_revert csa_sub_defaults = False"
  by (simp_all add: csa_sub_defaults_def)

lemma cmd_defaults_fields [simp]:
  "cmd_on cmd_defaults = True"
  "cmd_loopback_only cmd_defaults = False"
  "cmd_rate_limit_ms cmd_defaults = 100"
  "cmd_allow_keys_mask cmd_defaults = 0x8FFFF"
  "cmd_bitrate_min_kbps cmd_defaults = 100"
  "cmd_bitrate_max_kbps cmd_defaults = 25000"
  "cmd_fps_min cmd_defaults = 1"
  "cmd_fps_max cmd_defaults = 240"
  "cmd_payload_min cmd_defaults = 576"
  "cmd_payload_max cmd_defaults = 1474"
  "cmd_wfb_fec_k_min cmd_defaults = 1"
  "cmd_wfb_fec_k_max cmd_defaults = 64"
  "cmd_wfb_fec_n_min cmd_defaults = 1"
  "cmd_wfb_fec_n_max cmd_defaults = 96"
  "cmd_wfb_mcs_min cmd_defaults = 0"
  "cmd_wfb_mcs_max cmd_defaults = 11"
  "cmd_wfb_bandwidth_min cmd_defaults = 5"
  "cmd_wfb_bandwidth_max cmd_defaults = 80"
  "cmd_wfb_txpower_min cmd_defaults = 50"
  "cmd_wfb_txpower_max cmd_defaults = 3000"
  "cmd_wfb_iface cmd_defaults = []"
  "cmd_tx_pwr_by_rate cmd_defaults = False"
  by (simp_all add: cmd_defaults_def)

lemma recovery_defaults_fields [simp]:
  "rec_enabled recovery_defaults = True"
  "rec_listen_port recovery_defaults = 5802"
  "rec_arm_count recovery_defaults = 1"
  "rec_arm_window_ms recovery_defaults = 2000"
  "rec_cooldown_ms recovery_defaults = 10000"
  "rec_apfpv_cmd recovery_defaults = ''/etc/wfb/recovery-apfpv.sh''"
  by (simp_all add: recovery_defaults_def)

lemma config_defaults_fields [simp]:
  "cfg_fec config_defaults = fec_defaults"
  "cfg_mcs config_defaults = mcs_defaults"
  "cfg_csa config_defaults = csa_sub_defaults"
  "cfg_cmd config_defaults = cmd_defaults"
  "cfg_recovery config_defaults = recovery_defaults"
  "cfg_wfb_host config_defaults = ''127.0.0.1''"
  "cfg_wfb_port config_defaults = 8000"
  "cfg_probe_host config_defaults = ''127.0.0.1''"
  "cfg_probe_port config_defaults = 0"
  "cfg_probe_feed_host config_defaults = ''127.0.0.1''"
  "cfg_probe_feed_port config_defaults = 0"
  "cfg_uplink_stats_port config_defaults = 0"
  "cfg_api_port config_defaults = 8765"
  "cfg_iface_mtu config_defaults = 0"
  "cfg_dry_run config_defaults = False"
  "cfg_verbose config_defaults = 0"
  "cfg_key_file config_defaults = ''/etc/drone.key''"
  by (simp_all add: config_defaults_def)

section \<open>Cross-field warnings\<close>

datatype cfg_warning =
    WFadeArm | WMcsRange | WProbeBand | WProbeReactive | WReentry
  | WKRange | WNRange | WNoParity | WHeadroom | WBitrate

text \<open>The number the C function returns is the length of this list.\<close>

definition cfg_validate_warnings :: "lc_config \<Rightarrow> cfg_warning list" where
  "cfg_validate_warnings c =
     (let m = cfg_mcs c; f = cfg_fec c in
      (if mcs_on m \<and> mcs_rssi_fade_arm_dbm m \<le> mcs_rssi_floor_dbm m then [WFadeArm] else [])
      @ (if mcs_on m \<and> mcs_min m > mcs_max m then [WMcsRange] else [])
      @ (if mcs_on m \<and> mcs_probe_clean_milli m \<ge> mcs_probe_fail_milli m then [WProbeBand] else [])
      @ (if mcs_on m \<and> mcs_probe_fail_milli m \<le> mcs_demote_per_milli m then [WProbeReactive] else [])
      @ (if mcs_on m \<and> mcs_reentry_backoff_s m > 0 \<and> mcs_reentry_dwell_s m \<le> mcs_promote_dwell_s m
         then [WReentry] else [])
      @ (if fec_on f \<and> fec_min_k f > fec_max_k f then [WKRange] else [])
      @ (if fec_on f \<and> fec_min_n f > fec_max_n f then [WNRange] else [])
      @ (if fec_on f \<and> fec_min_n f \<le> fec_min_k f then [WNoParity] else [])
      @ (if fec_on f \<and> fec_headroom_min f > fec_headroom_max f then [WHeadroom] else [])
      @ (if fec_on f \<and> fec_bitrate_max_kbps f > 0 \<and> fec_bitrate_max_kbps f < fec_bitrate_min_kbps f
         then [WBitrate] else []))"

section \<open>HOST:PORT\<close>

text \<open>\<open>atoi\<close> is \<open>(int)strtol(s, NULL, 10)\<close>: 0 when there is no number.\<close>

definition atoi :: "string \<Rightarrow> int" where
  "atoi s = (case strtol s of None \<Rightarrow> 0 | Some (v, r) \<Rightarrow> v)"

definition parse_hostport :: "string \<Rightarrow> nat \<Rightarrow> (string \<times> int) option" where
  "parse_hostport s host_sz =
     (if CHR '':'' \<notin> set s then None
      else (let port = rev (takeWhile (\<lambda>c. c \<noteq> CHR '':'') (rev s));
                host = take (length s - length port - 1) s;
                p = atoi port
            in if host_sz \<le> length host then None
               else if p \<le> 0 \<or> 65535 < p then None
               else Some (host, p)))"

text \<open>A host, a colon and a printed port number read back as that host and port.\<close>

lemma parse_hostport_print:
  assumes "length h < host_sz" "0 < p" "p \<le> 65535"
  shows "parse_hostport (h @ CHR '':'' # show_int p) host_sz = Some (h, p)"
proof -
  have "CHR '':'' \<notin> set (show_int p)"
    using assms show_nat_digits [of "nat p"] by (auto simp: show_int_def c_isdigit_def)
  then have "takeWhile (\<lambda>c. c \<noteq> CHR '':'') (rev (h @ CHR '':'' # show_int p)) = rev (show_int p)"
    by (auto simp: takeWhile_append)
  moreover have "atoi (show_int p) = p"
    using assms strto_show_int [of LONG_MIN p LONG_MAX "[]"]
    by (simp add: atoi_def strtol_def LONG_MIN_def LONG_MAX_def)
  ultimately show ?thesis using assms by (simp add: parse_hostport_def Let_def)
qed

lemma config_defaults_no_warnings: "cfg_validate_warnings config_defaults = []"
  by code_simp

end
