(* ===== verification/Logger.thy ===== *)
theory Logger
  imports LinkConfig
begin

text \<open>
  The SD-card telemetry logger of \<open>vehicle/link_controller.c\<close>: the \<open>g_logger\<close> state, the session
  index that survives clock resets, the pruning of old sessions, opening, stopping and the 1 Hz
  sample.  The file system is a parameter, the record \<open>'w fsys\<close> of its calls on a world \<open>'w\<close>; what
  the program decides from their answers is the model.
\<close>

section \<open>The file system\<close>

text \<open>
  \<open>fs_mounts\<close>: the lines \<open>fgets\<close> returns from \<open>/proc/mounts\<close>, \<open>None\<close> when it cannot be opened.
  \<open>fs_is_dir\<close>: \<open>stat\<close> succeeds and says directory.  \<open>fs_mkdir\<close>: created or already there.
  \<open>fs_entries\<close>: the names \<open>readdir\<close> gives, with \<open>lstat\<close>'s directory flag, \<open>None\<close> when \<open>opendir\<close>
  fails.  \<open>fs_read\<close>: the contents of a readable file.  \<open>fs_write\<close>: overwrite, when it can be opened.
  \<open>fs_append\<close>: \<open>fopen(path, "a")\<close> gave a handle.  \<open>fs_unlink\<close>, \<open>fs_rmdir\<close>: the calls, their result
  ignored.  \<open>fs_stamp\<close>: the local time printed by \<open>strftime\<close>, or the zero stamp.
\<close>

record 'w fsys =
  fs_mounts :: "'w \<Rightarrow> string list option"
  fs_is_dir :: "string \<Rightarrow> 'w \<Rightarrow> bool"
  fs_mkdir :: "string \<Rightarrow> 'w \<Rightarrow> bool \<times> 'w"
  fs_entries :: "string \<Rightarrow> 'w \<Rightarrow> (string \<times> bool) list option"
  fs_read :: "string \<Rightarrow> 'w \<Rightarrow> string option"
  fs_write :: "string \<Rightarrow> string \<Rightarrow> 'w \<Rightarrow> 'w"
  fs_append :: "string \<Rightarrow> 'w \<Rightarrow> bool \<times> 'w"
  fs_unlink :: "string \<Rightarrow> 'w \<Rightarrow> 'w"
  fs_rmdir :: "string \<Rightarrow> 'w \<Rightarrow> 'w"
  fs_stamp :: "'w \<Rightarrow> string"
  fs_pid :: "'w \<Rightarrow> int"

section \<open>State\<close>

definition LOGGER_KEEP_SESSIONS :: nat where
  "LOGGER_KEEP_SESSIONS = 10"

definition LOGGER_MAX_MB :: nat where
  "LOGGER_MAX_MB = 100"

record logger =
  lg_enabled :: bool
  lg_active :: bool
  lg_sampling :: bool
  lg_sd_dir :: string
  lg_session_dir :: string
  lg_jsonl :: bool
  lg_lclog :: bool
  lg_records :: u64
  lg_bytes :: u64
  lg_seq :: int
  lg_start_us :: u64

definition logger_init :: logger where
  "logger_init = \<lparr> lg_enabled = True, lg_active = False, lg_sampling = False,
     lg_sd_dir = ''/mnt/mmcblk0p1'', lg_session_dir = [], lg_jsonl = False, lg_lclog = False,
     lg_records = 0, lg_bytes = 0, lg_seq = 0, lg_start_us = 0 \<rparr>"

section \<open>Directories\<close>

text \<open>
  \<open>logger_rm_rf\<close>: every recursion lengthens the path and a path of \<open>PATH_MAX\<close> characters is
  skipped, so it ends however deep the tree is.
\<close>

definition PATH_MAX :: nat where
  "PATH_MAX = 4096"

function logger_rm_rf :: "'w fsys \<Rightarrow> string \<Rightarrow> 'w \<Rightarrow> 'w"
  and rm_entries :: "'w fsys \<Rightarrow> string \<Rightarrow> (string \<times> bool) list \<Rightarrow> 'w \<Rightarrow> 'w" where
  "logger_rm_rf fs path w =
     fs_rmdir fs path
       (case fs_entries fs path w of None \<Rightarrow> w | Some es \<Rightarrow> rm_entries fs path es w)"
| "rm_entries fs path [] w = w"
| "rm_entries fs path ((name, is_dir) # es) w =
     (let child = path @ CHR ''/'' # name in
      if name = ''.'' \<or> name = ''..'' \<or> PATH_MAX \<le> length child then rm_entries fs path es w
      else rm_entries fs path es
             (if is_dir then logger_rm_rf fs child w else fs_unlink fs child w))"
  by pat_completeness auto
termination
  by (relation "measures [\<lambda>x. case x of Inl (f, p, w) \<Rightarrow> PATH_MAX - length p
                                      | Inr (f, p, es, w) \<Rightarrow> PATH_MAX - length p,
                          \<lambda>x. case x of Inl _ \<Rightarrow> 1 | Inr _ \<Rightarrow> 0,
                          \<lambda>x. case x of Inl _ \<Rightarrow> 0 | Inr (f, p, es, w) \<Rightarrow> length es]") auto

text \<open>The mount point is the second blank-separated field of a \<open>/proc/mounts\<close> line.\<close>

definition mounted_at :: "string \<Rightarrow> string \<Rightarrow> bool" where
  "mounted_at dir line =
     (case strchr line (CHR '' '') of
        None \<Rightarrow> False
      | Some p \<Rightarrow> (case strchr (tl p) (CHR '' '') of
                    None \<Rightarrow> False
                  | Some e \<Rightarrow> take (length (tl p) - length e) (tl p) = dir))"

definition logger_sd_ready :: "'w fsys \<Rightarrow> string \<Rightarrow> 'w \<Rightarrow> bool" where
  "logger_sd_ready fs dir w =
     (if take 5 dir = ''/mnt/''
      then (case fs_mounts fs w of None \<Rightarrow> False | Some ls \<Rightarrow> list_ex (mounted_at dir) ls)
      else fs_is_dir fs dir w)"

definition logger_is_indexed :: "string \<Rightarrow> bool" where
  "logger_is_indexed name =
     (7 \<le> length name \<and> name ! 6 = CHR ''_''
      \<and> list_all (\<lambda>i. c_isdigit (name ! i)) [0, 1, 2, 3, 4, 5])"

section \<open>Session index\<close>

text \<open>\<open>printf("%06d")\<close> for a non-negative number.\<close>

definition pad6 :: "int \<Rightarrow> string" where
  "pad6 n = (let ds = show_int n in replicate (6 - length ds) (CHR ''0'') @ ds)"

definition dir_entries :: "'w fsys \<Rightarrow> string \<Rightarrow> 'w \<Rightarrow> (string \<times> bool) list" where
  "dir_entries fs base w = (case fs_entries fs base w of None \<Rightarrow> [] | Some es \<Rightarrow> es)"

definition stored_seq :: "'w fsys \<Rightarrow> string \<Rightarrow> 'w \<Rightarrow> int" where
  "stored_seq fs base w =
     (case fs_read fs (base @ ''/.seq'') w of
        None \<Rightarrow> 0
      | Some t \<Rightarrow> (case strtol t of None \<Rightarrow> 0 | Some (v, _) \<Rightarrow> max 0 v))"

definition logger_next_seq :: "'w fsys \<Rightarrow> string \<Rightarrow> 'w \<Rightarrow> int \<times> 'w" where
  "logger_next_seq fs base w =
     (let names = filter logger_is_indexed (map fst (dir_entries fs base w));
          hi = fold (\<lambda>n hi. if atoi n > hi then atoi n else hi) names (stored_seq fs base w)
      in (hi + 1, fs_write fs (base @ ''/.seq'') (pad6 (hi + 1) @ [CHR 0x0A]) w))"

section \<open>Pruning\<close>

text \<open>\<open>strcmp(a, b) < 0\<close>.\<close>

fun strcmp_less :: "string \<Rightarrow> string \<Rightarrow> bool" where
  "strcmp_less _ [] = False"
| "strcmp_less [] (_ # _) = True"
| "strcmp_less (a # as) (b # bs) =
     ((of_char a :: nat) < of_char b \<or> a = b \<and> strcmp_less as bs)"

text \<open>One scan of the directory: the sessions counted, the first legacy name, the lowest index.\<close>

definition prune_scan_step ::
  "string \<times> bool \<Rightarrow> nat \<times> string \<times> string \<Rightarrow> nat \<times> string \<times> string" where
  "prune_scan_step e acc =
     (case (e, acc) of ((name, is_dir), (count, legacy, oldest)) \<Rightarrow>
        if name = ''.'' \<or> name = ''..'' \<or> \<not> is_dir then acc
        else if \<not> logger_is_indexed name
        then (count + 1, if legacy = [] then name else legacy, oldest)
        else (count + 1, legacy, if oldest = [] \<or> strcmp_less name oldest then name else oldest))"

definition prune_scan :: "(string \<times> bool) list \<Rightarrow> nat \<times> string \<times> string" where
  "prune_scan es = fold prune_scan_step es (0, [], [])"

fun prune_loop :: "nat \<Rightarrow> 'w fsys \<Rightarrow> string \<Rightarrow> string \<Rightarrow> 'w \<Rightarrow> 'w" where
  "prune_loop 0 fs base last_victim w = w"
| "prune_loop (Suc guard) fs base last_victim w =
     (case fs_entries fs base w of
        None \<Rightarrow> w
      | Some es \<Rightarrow>
          (let (count, legacy, oldest) = prune_scan es;
               victim = (if legacy \<noteq> [] then legacy else oldest) in
           if count < LOGGER_KEEP_SESSIONS then w
           else if victim = [] \<or> victim = last_victim then w
           else prune_loop guard fs base victim
                  (logger_rm_rf fs (base @ CHR ''/'' # victim) w)))"

definition logger_prune :: "'w fsys \<Rightarrow> string \<Rightarrow> 'w \<Rightarrow> 'w" where
  "logger_prune fs base w = prune_loop (LOGGER_KEEP_SESSIONS + 4) fs base [] w"

section \<open>Sessions\<close>

definition logger_close_session :: "logger \<Rightarrow> logger" where
  "logger_close_session l = l\<lparr>lg_jsonl := False, lg_lclog := False, lg_active := False\<rparr>"

definition logger_open_session :: "'w fsys \<Rightarrow> u64 \<Rightarrow> logger \<Rightarrow> 'w \<Rightarrow> bool \<times> logger \<times> 'w" where
  "logger_open_session fs now l0 w =
     (let l = logger_close_session l0 in
      if \<not> lg_enabled l then (False, l, w)
      else if \<not> logger_sd_ready fs (lg_sd_dir l) w then (False, l, w)
      else let base = lg_sd_dir l @ ''/walkout''; (made, w1) = fs_mkdir fs base w in
      if \<not> made then (False, l, w1)
      else let (seq, w2) = logger_next_seq fs base w1;
               w3 = logger_prune fs base w2;
               dir = base @ CHR ''/'' # pad6 seq @ CHR ''_'' # fs_stamp fs w3
                     @ CHR ''_'' # show_int (fs_pid fs w3);
               l1 = l\<lparr>lg_session_dir := dir\<rparr>;
               (made2, w4) = fs_mkdir fs dir w3 in
      if \<not> made2 then (False, l1, w4)
      else let (j, w5) = fs_append fs (dir @ ''/status.jsonl'') w4;
               (c, w6) = fs_append fs (dir @ ''/lc.log'') w5;
               l2 = l1\<lparr>lg_jsonl := j, lg_lclog := c\<rparr> in
      if \<not> j then (False, logger_close_session l2, w6)
      else (True, l2\<lparr>lg_seq := seq, lg_records := 0, lg_bytes := 0, lg_sampling := True,
                     lg_active := True, lg_start_us := now\<rparr>, w6))"

definition logger_stop :: "logger \<Rightarrow> logger" where
  "logger_stop l = logger_close_session l"

text \<open>
  The 1 Hz sample: \<open>written\<close> is \<open>fprintf\<close>'s result, \<open>None\<close> when \<open>status_to_json\<close> had no room.
\<close>

definition logger_tick :: "int option \<Rightarrow> logger \<Rightarrow> logger" where
  "logger_tick written l =
     (if lg_active l \<and> lg_sampling l \<and> lg_jsonl l
      then (case written of
              None \<Rightarrow> l
            | Some w \<Rightarrow>
                (let l1 = l\<lparr>lg_bytes := (if w > 0 then lg_bytes l + word_of_int w else lg_bytes l),
                            lg_records := lg_records l + 1\<rparr>
                 in if lg_records l1 mod 120 = 0
                       \<and> lg_bytes l1 \<ge> word_of_nat LOGGER_MAX_MB * 1024 * 1024
                    then l1\<lparr>lg_sampling := False\<rparr> else l1))
      else l)"

section \<open>The session index is fresh\<close>

lemma fold_max_ge:
  "h \<le> fold (\<lambda>n hi. if f n > hi then f n else hi) ns (h :: int)
   \<and> (\<forall>n\<in>set ns. f n \<le> fold (\<lambda>n hi. if f n > hi then f n else hi) ns h)"
proof (induction ns arbitrary: h)
  case (Cons a ns)
  show ?case using Cons [of "if f a > h then f a else h"] by (auto split: if_splits)
qed simp

text \<open>Session indices grow.  The index of a new session is above the persisted counter and above
  the index of every session directory present, so a clock that went backwards can never make a new
  session sort below an old one or reuse its name.\<close>

theorem logger_seq_fresh:
  "stored_seq fs base w < fst (logger_next_seq fs base w)
   \<and> list_all (\<lambda>n. atoi n < fst (logger_next_seq fs base w))
       (filter logger_is_indexed (map fst (dir_entries fs base w)))"
proof -
  note f = fold_max_ge [of "stored_seq fs base w" atoi
      "filter logger_is_indexed (map fst (dir_entries fs base w))"]
  show ?thesis
    unfolding logger_next_seq_def Let_def fst_conv list_all_iff
    using f by (meson le_less_trans less_add_one order_le_less_trans zless_add1_eq)
qed

end
