(* ===== verification/SysEnv.thy ===== *)
theory SysEnv
  imports LinkConfig WireProto Logger
begin

text \<open>
  The outside world of the link controller and the calls that reach it: the blocking HTTP client
  \<open>http_get\<close>, the venc write \<open>venc_apply\<close>, the wfb\_tx control round trips and the forked \<open>iw\<close> and
  recovery commands of \<open>vehicle/link_controller.c\<close>.

  The encoder's HTTP server, wfb\_tx and the kernel are not part of the repository's program: they
  are the record \<open>'w sysenv\<close>, a parameter of every definition that uses it.  Each field answers a
  call in the world \<open>'w\<close> and returns the next world.  \<open>'w io\<close> threads that world with the program's
  request counter \<open>g_req_id\<close>; \<open>io_trace\<close> records what the program sends, in order, so that
  ordering properties can be stated.
\<close>

datatype event =
    EvHttp string int string
  | EvUdp string int cmd_body
  | EvExec "string list"
  | EvLogger bool

record 'w io =
  io_req_id :: u32
  io_world :: 'w
  io_trace :: "event list"

text \<open>
  \<open>sys_socket\<close>: a socket could be created.  \<open>sys_tcp\<close>: connect to host and port, send the request,
  read until the peer closes; \<open>None\<close> when connect or send fails.  \<open>sys_udp\<close>: \<open>sendto\<close> sent the
  whole datagram.  \<open>sys_reply\<close>: what \<open>poll\<close> and \<open>recv\<close> return on that socket, \<open>None\<close> on a timeout.
  \<open>sys_exec\<close>: fork, exec and wait; the exit status, or -1.
  \<open>sys_fs\<close>: the file system of the logger.
\<close>

record 'w sysenv =
  sys_socket :: "'w \<Rightarrow> bool \<times> 'w"
  sys_tcp :: "string \<Rightarrow> int \<Rightarrow> string \<Rightarrow> 'w \<Rightarrow> string option \<times> 'w"
  sys_udp :: "string \<Rightarrow> int \<Rightarrow> u8 list \<Rightarrow> 'w \<Rightarrow> bool \<times> 'w"
  sys_reply :: "'w \<Rightarrow> u8 list option \<times> 'w"
  sys_exec :: "string list \<Rightarrow> 'w \<Rightarrow> int \<times> 'w"
  sys_fs :: "'w fsys"

definition io_log :: "event \<Rightarrow> 'w io \<Rightarrow> 'w io" where
  "io_log e s = s\<lparr>io_trace := io_trace s @ [e]\<rparr>"

section \<open>Dotted-quad addresses\<close>

text \<open>\<open>inet_pton(AF_INET, ...)\<close>: four decimal octets without leading zeros.\<close>

definition octet_ok :: "string \<Rightarrow> bool" where
  "octet_ok ds = (ds \<noteq> [] \<and> length ds \<le> 3 \<and> list_all c_isdigit ds \<and> digits_val ds \<le> 255
                  \<and> (hd ds = CHR ''0'' \<longrightarrow> length ds = 1))"

fun split_on :: "char \<Rightarrow> string \<Rightarrow> string list" where
  "split_on c [] = [[]]"
| "split_on c (x # xs) =
     (if x = c then [] # split_on c xs
      else (case split_on c xs of [] \<Rightarrow> [[x]] | w # ws \<Rightarrow> (x # w) # ws))"

definition inet_pton4 :: "string \<Rightarrow> bool" where
  "inet_pton4 s = (let ws = split_on (CHR ''.'') s in length ws = 4 \<and> list_all octet_ok ws)"

section \<open>HTTP\<close>

text \<open>\<open>sscanf(buf, "HTTP/%*d.%*d %d", &code)\<close> with \<open>code > 0\<close>, else 0.\<close>

definition http_status_of :: "string \<Rightarrow> int" where
  "http_status_of buf =
     (if take 5 buf \<noteq> ''HTTP/'' then 0
      else case strtol (drop 5 buf) of
        None \<Rightarrow> 0
      | Some (_, r) \<Rightarrow>
          (if r = [] \<or> hd r \<noteq> CHR ''.'' then 0
           else case strtol (tl r) of
             None \<Rightarrow> 0
           | Some (_, r2) \<Rightarrow>
               (case strtol (dropWhile c_isspace r2) of
                  None \<Rightarrow> 0
                | Some (code, _) \<Rightarrow> (if code > 0 then code else 0))))"

definition crlf :: string where
  "crlf = [CHR 0x0D, CHR 0x0A]"

definition http_request :: "string \<Rightarrow> string \<Rightarrow> int \<Rightarrow> string" where
  "http_request path host port =
     ''GET '' @ path @ '' HTTP/1.0'' @ crlf @ ''Host: '' @ host @ CHR '':'' # show_int port @ crlf
     @ ''User-Agent: link_controller/0.1'' @ crlf @ ''Connection: close'' @ crlf @ crlf"

text \<open>
  \<open>http_get\<close>: the body cut to \<open>out_sz - 1\<close> characters and the status code, \<open>None\<close> where the C
  function returns -1.  The status is reported even when there is no body separator.  The reply
  buffer holds 2047 bytes.
\<close>

definition http_get ::
  "'w sysenv \<Rightarrow> string \<Rightarrow> int \<Rightarrow> string \<Rightarrow> nat \<Rightarrow> 'w io \<Rightarrow> (string option \<times> int) \<times> 'w io" where
  "http_get env host port path out_sz s =
     (let (opened, w1) = sys_socket env (io_world s); s1 = s\<lparr>io_world := w1\<rparr> in
      if \<not> opened \<or> \<not> inet_pton4 host then ((None, 0), s1)
      else let req = http_request path host port in
      if 512 \<le> length req then ((None, 0), s1)
      else let (r, w2) = sys_tcp env host port req w1;
               s2 = io_log (EvHttp host port path) (s1\<lparr>io_world := w2\<rparr>) in
        (case r of
           None \<Rightarrow> ((None, 0), s2)
         | Some raw \<Rightarrow>
             (let buf = take 2047 raw in
              if buf = [] then ((None, 0), s2)
              else (case strstr buf (crlf @ crlf) of
                      None \<Rightarrow> ((None, http_status_of buf), s2)
                    | Some p \<Rightarrow> ((Some (take (out_sz - 1) (drop 4 p)), http_status_of buf), s2)))))"

definition ok_true :: "string \<Rightarrow> bool" where
  "ok_true body = (has_sub body (quoted ''ok'' @ '':true'') \<or> has_sub body (quoted ''ok'' @ '': true''))"

text \<open>\<open>snprintf\<close> into \<open>char path[160]\<close> of \<open>venc_apply\<close>.\<close>

definition venc_path :: "int \<Rightarrow> int \<Rightarrow> string option" where
  "venc_path br pl =
     (let br' = (if br > 200000 then 200000 else br);
          p = (if br > 0 \<and> pl > 0
               then Some (''/api/v1/set?video0.bitrate='' @ show_int br'
                          @ ''&outgoing.maxPayloadSize='' @ show_int pl)
               else if br > 0 then Some (''/api/v1/set?video0.bitrate='' @ show_int br')
               else if pl > 0 then Some (''/api/v1/set?outgoing.maxPayloadSize='' @ show_int pl)
               else None)
      in case p of None \<Rightarrow> None | Some q \<Rightarrow> (if 160 \<le> length q then None else Some q))"

definition venc_apply ::
  "'w sysenv \<Rightarrow> lc_config \<Rightarrow> int \<Rightarrow> int \<Rightarrow> 'w io \<Rightarrow> bool \<times> 'w io" where
  "venc_apply env c br pl s =
     (case venc_path br pl of
        None \<Rightarrow> (False, s)
      | Some path \<Rightarrow>
          (let ((body, _), s1) =
             http_get env (fec_venc_host (cfg_fec c)) (fec_venc_port (cfg_fec c)) path 1024 s in
           case body of
             None \<Rightarrow> (False, s1)
           | Some b \<Rightarrow> (b \<noteq> [] \<and> ok_true b, s1)))"

section \<open>Forked commands\<close>

definition run_cmd :: "'w sysenv \<Rightarrow> string list \<Rightarrow> 'w io \<Rightarrow> int \<times> 'w io" where
  "run_cmd env argv s =
     (let (rc, w) = sys_exec env argv (io_world s) in (rc, io_log (EvExec argv) (s\<lparr>io_world := w\<rparr>)))"

definition wfb_run_iw_txpower :: "'w sysenv \<Rightarrow> string \<Rightarrow> int \<Rightarrow> 'w io \<Rightarrow> int \<times> 'w io" where
  "wfb_run_iw_txpower env iface mbm s =
     (if iface = [] then (- 1, s)
      else run_cmd env [''iw'', ''dev'', iface, ''set'', ''txpower'', ''fixed'', show_int mbm] s)"

definition wfb_run_ip_link_mtu :: "'w sysenv \<Rightarrow> string \<Rightarrow> int \<Rightarrow> 'w io \<Rightarrow> int \<times> 'w io" where
  "wfb_run_ip_link_mtu env iface mtu s =
     (if iface = [] \<or> mtu \<le> 0 then (- 1, s)
      else run_cmd env [''ip'', ''link'', ''set'', ''dev'', iface, ''mtu'', show_int mtu] s)"

definition wfb_run_recovery_cmd :: "'w sysenv \<Rightarrow> string \<Rightarrow> 'w io \<Rightarrow> int \<times> 'w io" where
  "wfb_run_recovery_cmd env c s =
     (if c = [] then (- 1, s) else run_cmd env [''sh'', ''-c'', c] s)"

section \<open>Logger control\<close>

definition logger_ctl :: "'w sysenv \<Rightarrow> bool \<Rightarrow> u64 \<Rightarrow> logger \<Rightarrow> 'w io \<Rightarrow> logger \<times> 'w io" where
  "logger_ctl env start now l s =
     (if start
      then (let (ok, l1, w) = logger_open_session (sys_fs env) now l (io_world s)
            in (l1, io_log (EvLogger True) (s\<lparr>io_world := w\<rparr>)))
      else (logger_stop l, io_log (EvLogger False) s))"

section \<open>wfb\_tx control\<close>

text \<open>
  Every request resolves the host and opens a socket before it takes the next \<open>g_req_id\<close>.
  \<open>wfb_roundtrip\<close> is the body the five acknowledged calls share: send, wait for the reply, check
  it.  The reply is received into a 15-byte \<open>CmdResp\<close>.
\<close>

definition wfb_open :: "'w sysenv \<Rightarrow> string \<Rightarrow> 'w io \<Rightarrow> bool \<times> 'w io" where
  "wfb_open env host s =
     (if \<not> inet_pton4 host then (False, s)
      else (let (ok, w) = sys_socket env (io_world s) in (ok, s\<lparr>io_world := w\<rparr>)))"

definition wfb_transmit ::
  "'w sysenv \<Rightarrow> string \<Rightarrow> int \<Rightarrow> cmd_body \<Rightarrow> 'w io \<Rightarrow> bool \<times> 'w io" where
  "wfb_transmit env host port b s =
     (let rid = io_req_id s;
          (ok, w) = sys_udp env host port (cmd_req_bytes rid b) (io_world s)
      in (ok, io_log (EvUdp host port b) (s\<lparr>io_req_id := rid + 1, io_world := w\<rparr>)))"

definition wfb_roundtrip ::
  "'w sysenv \<Rightarrow> string \<Rightarrow> int \<Rightarrow> cmd_body \<Rightarrow> nat \<Rightarrow> 'w io \<Rightarrow> u8 list option \<times> 'w io" where
  "wfb_roundtrip env host port b need s =
     (let (opened, s1) = wfb_open env host s in
      if \<not> opened then (None, s1)
      else let (sent, s2) = wfb_transmit env host port b s1 in
      if \<not> sent then (None, s2)
      else let (r, w) = sys_reply env (io_world s2); s3 = s2\<lparr>io_world := w\<rparr> in
        (case r of
           None \<Rightarrow> (None, s3)
         | Some bs \<Rightarrow> (cmd_resp_body (io_req_id s1) need (take 15 bs), s3)))"

text \<open>\<open>k\<close> and \<open>n\<close> are cast to \<open>uint8_t\<close>; the send is not acknowledged.\<close>

definition wfb_send_set_fec ::
  "'w sysenv \<Rightarrow> lc_config \<Rightarrow> int \<Rightarrow> int \<Rightarrow> 'w io \<Rightarrow> bool \<times> 'w io" where
  "wfb_send_set_fec env c k n s =
     (let (opened, s1) = wfb_open env (cfg_wfb_host c) s in
      if \<not> opened then (False, s1)
      else wfb_transmit env (cfg_wfb_host c) (cfg_wfb_port c)
             (SetFec (word_of_int k) (word_of_int n) WFB_FEC_TIMEOUT_KEEP) s1)"

definition wfb_get_fec ::
  "'w sysenv \<Rightarrow> lc_config \<Rightarrow> 'w io \<Rightarrow> (int \<times> int \<times> int) option \<times> 'w io" where
  "wfb_get_fec env c s =
     (let (r, s1) = wfb_roundtrip env (cfg_wfb_host c) (cfg_wfb_port c) GetFec 4 s in
      (map_option (\<lambda>b. (uint (byte_at 0 b), uint (byte_at 1 b), int (be_at 2 2 b))) r, s1))"

definition wfb_get_radio ::
  "'w sysenv \<Rightarrow> lc_config \<Rightarrow> 'w io \<Rightarrow> radio_body option \<times> 'w io" where
  "wfb_get_radio env c s =
     (let (r, s1) = wfb_roundtrip env (cfg_wfb_host c) (cfg_wfb_port c) GetRadio 7 s in
      (map_option radio_of_bytes r, s1))"

definition bool_byte :: "u8 \<Rightarrow> u8" where
  "bool_byte b = (if b \<noteq> 0 then 1 else 0)"

definition norm_radio :: "radio_body \<Rightarrow> radio_body" where
  "norm_radio r = r\<lparr>rb_ldpc := bool_byte (rb_ldpc r), rb_short_gi := bool_byte (rb_short_gi r),
                    rb_vht_mode := bool_byte (rb_vht_mode r)\<rparr>"

definition wfb_set_radio_at ::
  "'w sysenv \<Rightarrow> string \<Rightarrow> int \<Rightarrow> radio_body \<Rightarrow> 'w io \<Rightarrow> bool \<times> 'w io" where
  "wfb_set_radio_at env host port r s =
     (let (b, s1) = wfb_roundtrip env host port (SetRadio (norm_radio r)) 0 s in (b \<noteq> None, s1))"

definition wfb_set_radio ::
  "'w sysenv \<Rightarrow> lc_config \<Rightarrow> radio_body \<Rightarrow> 'w io \<Rightarrow> bool \<times> 'w io" where
  "wfb_set_radio env c r s = wfb_set_radio_at env (cfg_wfb_host c) (cfg_wfb_port c) r s"

definition wfb_set_peek ::
  "'w sysenv \<Rightarrow> lc_config \<Rightarrow> u8 \<Rightarrow> 'w io \<Rightarrow> bool \<times> 'w io" where
  "wfb_set_peek env c e s =
     (let (b, s1) = wfb_roundtrip env (cfg_wfb_host c) (cfg_wfb_port c) (SetPeek e) 0 s in
      (b \<noteq> None, s1))"

definition wfb_get_peek :: "'w sysenv \<Rightarrow> lc_config \<Rightarrow> 'w io \<Rightarrow> int option \<times> 'w io" where
  "wfb_get_peek env c s =
     (let (r, s1) = wfb_roundtrip env (cfg_wfb_host c) (cfg_wfb_port c) GetPeek 1 s in
      (map_option (\<lambda>b. uint (byte_at 0 b)) r, s1))"

section \<open>What the calls leave in the trace\<close>

text \<open>
  \<open>emits s t P\<close>: from \<open>s\<close> to \<open>t\<close> only events satisfying \<open>P\<close> were appended to the trace.  The
  collection \<open>emitted\<close> holds the law of each call; \<open>emits_trans\<close> composes them.
\<close>

named_theorems emitted

definition emits :: "'w io \<Rightarrow> 'w io \<Rightarrow> (event \<Rightarrow> bool) \<Rightarrow> bool" where
  "emits s t P = (\<exists>es. io_trace t = io_trace s @ es \<and> list_all P es)"

lemma emits_refl [simp]: "emits s s P"
  by (simp add: emits_def)

lemma emits_trans: "emits s t P \<Longrightarrow> emits t u P \<Longrightarrow> emits s u P"
  by (auto simp: emits_def)

lemma emits_mono: "emits s t P \<Longrightarrow> (\<And>e. P e \<Longrightarrow> Q e) \<Longrightarrow> emits s t Q"
  unfolding emits_def by (metis list.pred_mono_strong)

lemma emits_world [simp]: "emits s (t\<lparr>io_world := w\<rparr>) P = emits s t P"
  by (simp add: emits_def)

lemma emits_req_id [simp]: "emits s (t\<lparr>io_req_id := r\<rparr>) P = emits s t P"
  by (simp add: emits_def)

lemma emits_log: "P e \<Longrightarrow> emits s t P \<Longrightarrow> emits s (io_log e t) P"
  by (auto simp: emits_def io_log_def)

fun is_http :: "event \<Rightarrow> bool" where
  "is_http (EvHttp h p u) = True"
| "is_http _ = False"

lemma http_get_emits [emitted]:
  "http_get env host port path n s = (r, t) \<Longrightarrow> emits s t (\<lambda>e. e = EvHttp host port path)"
  by (auto simp: http_get_def Let_def intro!: emits_log split: prod.splits if_splits option.splits)

lemma venc_apply_emits [emitted]:
  assumes "venc_apply env c br pl s = (ok, t)"
  shows "emits s t (\<lambda>e. \<exists>path. venc_path br pl = Some path \<and>
           e = EvHttp (fec_venc_host (cfg_fec c)) (fec_venc_port (cfg_fec c)) path)"
  using assms
  by (auto simp: venc_apply_def split: option.splits prod.splits dest!: http_get_emits)

lemma run_cmd_emits [emitted]: "run_cmd env argv s = (rc, t) \<Longrightarrow> emits s t (\<lambda>e. e = EvExec argv)"
  by (auto simp: run_cmd_def Let_def intro!: emits_log split: prod.splits)

lemma logger_ctl_emits [emitted]:
  "logger_ctl env b now l s = (l', t) \<Longrightarrow> emits s t (\<lambda>e. e = EvLogger b)"
  by (auto simp: logger_ctl_def Let_def intro!: emits_log split: prod.splits if_splits)

lemma wfb_open_quiet: "wfb_open env host s = (ok, t) \<Longrightarrow> io_trace t = io_trace s"
  by (auto simp: wfb_open_def split: if_splits prod.splits)

lemma emits_nothing: "io_trace t = io_trace s \<Longrightarrow> emits s t P"
  by (simp add: emits_def)

lemma wfb_transmit_emits [emitted]:
  "wfb_transmit env host port b s = (ok, t) \<Longrightarrow> emits s t (\<lambda>e. e = EvUdp host port b)"
  by (auto simp: wfb_transmit_def Let_def intro!: emits_log split: prod.splits)

lemma wfb_roundtrip_emits [emitted]:
  assumes "wfb_roundtrip env host port b need s = (r, t)"
  shows "emits s t (\<lambda>e. e = EvUdp host port b)"
  using assms
  by (auto simp: wfb_roundtrip_def Let_def emits_def
      split: prod.splits if_splits option.splits dest!: wfb_open_quiet wfb_transmit_emits)

lemma wfb_send_set_fec_emits [emitted]:
  "wfb_send_set_fec env c k n s = (ok, t) \<Longrightarrow>
   emits s t (\<lambda>e. e = EvUdp (cfg_wfb_host c) (cfg_wfb_port c)
                        (SetFec (word_of_int k) (word_of_int n) WFB_FEC_TIMEOUT_KEEP))"
  by (auto simp: wfb_send_set_fec_def emits_def
      split: prod.splits if_splits dest!: wfb_open_quiet wfb_transmit_emits)

lemma wfb_set_radio_at_emits [emitted]:
  "wfb_set_radio_at env h p r s = (ok, t) \<Longrightarrow>
   emits s t (\<lambda>e. e = EvUdp h p (SetRadio (norm_radio r)))"
  by (auto simp: wfb_set_radio_at_def split: prod.splits dest!: wfb_roundtrip_emits)

lemma wfb_set_radio_emits [emitted]:
  "wfb_set_radio env c r s = (ok, t) \<Longrightarrow>
   emits s t (\<lambda>e. e = EvUdp (cfg_wfb_host c) (cfg_wfb_port c) (SetRadio (norm_radio r)))"
  by (auto simp: wfb_set_radio_def dest: wfb_set_radio_at_emits)

section \<open>A concrete environment\<close>

text \<open>
  The parameter instantiated: sockets open, the encoder answers 200 with \<open>"ok":true\<close>, wfb\_tx
  acknowledges every request with its id, \<open>rc\<close> 0 and a seven byte body, commands exit 0.  The world
  is the last datagram sent.  The witnesses of the properties run in it.
\<close>

definition ok_reply :: string where
  "ok_reply = ''HTTP/1.0 200 OK'' @ crlf @ crlf @ CHR ''{'' # quoted ''ok'' @ '':true}''"

definition demo_fs :: "u8 list fsys" where
  "demo_fs = \<lparr> fs_mounts = (\<lambda>_. Some [''dev /mnt/mmcblk0p1 vfat'']), fs_is_dir = (\<lambda>_ _. True),
     fs_mkdir = (\<lambda>_ w. (True, w)), fs_entries = (\<lambda>_ _. Some []), fs_read = (\<lambda>_ _. None),
     fs_write = (\<lambda>_ _ w. w), fs_append = (\<lambda>_ w. (True, w)), fs_unlink = (\<lambda>_ w. w),
     fs_rmdir = (\<lambda>_ w. w), fs_stamp = (\<lambda>_. ''20260101_000000''), fs_pid = (\<lambda>_. 1) \<rparr>"

definition demo_env :: "u8 list sysenv" where
  "demo_env = \<lparr> sys_socket = (\<lambda>w. (True, w)), sys_tcp = (\<lambda>_ _ _ w. (Some ok_reply, w)),
     sys_udp = (\<lambda>_ _ bs _. (True, bs)),
     sys_reply = (\<lambda>w. (Some (take 4 w @ [0, 0, 0, 0, 4, 6, 0, 20, 3, 0, 1]), w)),
     sys_exec = (\<lambda>_ w. (0, w)), sys_fs = demo_fs \<rparr>"

definition demo_io :: "u8 list io" where
  "demo_io = \<lparr> io_req_id = 1, io_world = [], io_trace = [] \<rparr>"

definition ok_body :: string where
  "ok_body = CHR ''{'' # quoted ''ok'' @ '':true}''"

lemma demo_reply_parse: "strstr ok_reply (crlf @ crlf) = Some (crlf @ crlf @ ok_body)"
    "http_status_of ok_reply = 200" "ok_true ok_body" "length ok_reply = 30" "ok_body \<noteq> []"
    "length ok_body = 11"
  by code_simp+

lemma demo_host [simp]: "inet_pton4 ''127.0.0.1''"
  by code_simp

lemma demo_http_get:
  assumes "inet_pton4 host" "length (http_request path host port) < 512" "12 \<le> n"
  shows "http_get demo_env host port path n s
         = ((Some ok_body, 200), io_log (EvHttp host port path) s)"
proof -
  have "take 2047 ok_reply = ok_reply" "ok_reply \<noteq> []" "take (n - 1) ok_body = ok_body"
    using demo_reply_parse(4,6) assms(3) by auto
  with assms demo_reply_parse show ?thesis
    by (simp add: http_get_def Let_def demo_env_def crlf_def)
qed

lemma demo_venc_apply:
  assumes "venc_path br pl = Some path" "inet_pton4 (fec_venc_host (cfg_fec c))"
    "length (http_request path (fec_venc_host (cfg_fec c)) (fec_venc_port (cfg_fec c))) < 512"
  shows "venc_apply demo_env c br pl s
         = (True, io_log (EvHttp (fec_venc_host (cfg_fec c)) (fec_venc_port (cfg_fec c)) path) s)"
  using assms demo_reply_parse by (simp add: venc_apply_def demo_http_get)

end
