(* ===== verification/FecController.thy ===== *)
theory FecController
  imports SysEnv
begin

text \<open>
  The FEC controller of \<open>vehicle/link_controller.c\<close>: the redundancy curve, the ring of recent
  frame sizes and its headroom ratio, the block sizing \<open>fec_compute\<close>, the gating state machine
  \<open>controller_update\<close> and the frame-rate estimator.  \<open>ring_list\<close> is the abstract specification of
  the ring, a bounded queue of (timestamp, size) pairs.
\<close>

section \<open>Redundancy curve\<close>

definition REDUNDANCY_CURVE :: "(int \<times> rat) list" where
  "REDUNDANCY_CURVE = [(1, fl32 (50/100)), (4, fl32 (33/100)), (8, fl32 (33/100)),
                       (16, fl32 (30/100)), (32, fl32 (27/100)), (48, fl32 (25/100))]"

fun interp_segments :: "int \<Rightarrow> (int \<times> rat) list \<Rightarrow> rat" where
  "interp_segments k ((k0, r0) # (k1, r1) # ps) =
     (if k0 \<le> k \<and> k \<le> k1
      then (let t = fl32 (fl32 (of_int (k - k0)) / fl32 (of_int (k1 - k0)))
            in fl32 (r0 + fl32 (t * fl32 (r1 - r0))))
      else interp_segments k ((k1, r1) # ps))"
| "interp_segments k [(k0, r0)] = r0"
| "interp_segments k [] = 0"

definition interpolate_redundancy :: "int \<Rightarrow> rat" where
  "interpolate_redundancy k =
     (if k \<le> fst (hd REDUNDANCY_CURVE) then snd (hd REDUNDANCY_CURVE)
      else if k \<ge> fst (last REDUNDANCY_CURVE) then snd (last REDUNDANCY_CURVE)
      else interp_segments k REDUNDANCY_CURVE)"

section \<open>Headroom ring\<close>

definition RING_MAX :: nat where
  "RING_MAX = 512"

record headroom_ring =
  hr_ts_us :: "u64 list"
  hr_size :: "u32 list"
  hr_head :: nat
  hr_count :: nat

definition ring_init :: headroom_ring where
  "ring_init = \<lparr> hr_ts_us = replicate RING_MAX 0, hr_size = replicate RING_MAX 0,
                 hr_head = 0, hr_count = 0 \<rparr>"

definition ring_push :: "headroom_ring \<Rightarrow> u64 \<Rightarrow> u32 \<Rightarrow> headroom_ring" where
  "ring_push r ts sz =
     r\<lparr>hr_ts_us := (hr_ts_us r)[hr_head r := ts], hr_size := (hr_size r)[hr_head r := sz],
       hr_head := (hr_head r + 1) mod RING_MAX,
       hr_count := (if hr_count r < RING_MAX then hr_count r + 1 else hr_count r)\<rparr>"

function ring_expire :: "headroom_ring \<Rightarrow> u64 \<Rightarrow> headroom_ring" where
  "ring_expire r cutoff =
     (if hr_count r = 0 then r
      else if hr_ts_us r ! ring_oldest RING_MAX (hr_head r) (hr_count r) \<ge> cutoff then r
      else ring_expire (r\<lparr>hr_count := hr_count r - 1\<rparr>) cutoff)"
  by pat_completeness auto
termination
  by (relation "measure (\<lambda>(r, c). hr_count r)") auto

declare ring_expire.simps [simp del]

text \<open>The loop of \<open>compute_headroom\<close>: sum and maximum over the live slots, newest first.\<close>

definition ring_newest_first :: "headroom_ring \<Rightarrow> u32 list" where
  "ring_newest_first r =
     map (\<lambda>i. hr_size r ! ((hr_head r + RING_MAX - 1 - i) mod RING_MAX)) [0..<hr_count r]"

definition compute_headroom :: "headroom_ring \<Rightarrow> rat \<Rightarrow> rat \<Rightarrow> rat \<Rightarrow> rat" where
  "compute_headroom r margin lo hi =
     (if hr_count r < 2 then lo
      else let sum = sum_list (map unat (ring_newest_first r));
               mx = foldl (\<lambda>m v. if v > m then v else m) 0 (ring_newest_first r);
               avg = fl32 (fl32 (of_nat sum) / fl32 (of_nat (hr_count r)))
           in if avg \<le> 0 then lo
              else clamp lo hi (fl32 (fl32 (fl32 (of_nat (unat mx)) / avg) * margin)))"

section \<open>Block sizing\<close>

record fec_params =
  fp_k :: int
  fp_n :: int
  fp_redundancy :: rat
  fp_packets_per_frame :: int
  fp_avg_frame_size :: rat
  fp_headroom :: rat

text \<open>The hysteresis band around the current packets-per-frame count.\<close>

definition ppf_deadband :: "fec_cfg \<Rightarrow> rat \<Rightarrow> int \<Rightarrow> int \<Rightarrow> int" where
  "ppf_deadband f target current_ppf ppf =
     (if current_ppf > 0 \<and> fec_ppf_deadband_frac f > 0
      then let mtu = fl32 (of_int (fec_mtu f));
               slack = fl32 (mtu * fec_ppf_deadband_frac f);
               up_edge = fl32 (fl32 (fl32 (of_int (current_ppf + 1)) * mtu) + slack);
               down_edge = fl32 (fl32 (fl32 (of_int (current_ppf - 1)) * mtu) - slack)
           in if ppf > current_ppf \<and> target < up_edge then current_ppf
              else if ppf < current_ppf \<and> target > down_edge then current_ppf
              else ppf
      else ppf)"

definition fec_k_of :: "fec_cfg \<Rightarrow> int \<Rightarrow> int" where
  "fec_k_of f ppf =
     (let k = clamp (fec_min_k f) (fec_max_k f) ppf
      in if fec_max_n f > fec_min_k f \<and> k \<ge> fec_max_n f then fec_max_n f - 1 else k)"

definition fec_n_of :: "fec_cfg \<Rightarrow> int \<Rightarrow> rat \<Rightarrow> int" where
  "fec_n_of f k r =
     (let n = clamp (fec_min_n f) (fec_max_n f) \<lceil>fl32 (fl32 (of_int k) / fl32 (1 - r))\<rceil>
      in if n \<le> k then k + 1 else n)"

definition fec_compute :: "rat \<Rightarrow> rat \<Rightarrow> fec_cfg \<Rightarrow> int \<Rightarrow> fec_params" where
  "fec_compute avg_size headroom f current_ppf =
     (let target = fl32 (avg_size * headroom);
          ppf0 = \<lceil>fl32 (target / fl32 (of_int (fec_mtu f)))\<rceil>;
          ppf = ppf_deadband f target current_ppf (if ppf0 < 1 then 1 else ppf0);
          k = fec_k_of f ppf;
          r0 = interpolate_redundancy k;
          r = (if r0 > fl32 (99/100) then fl32 (99/100) else r0)
      in \<lparr> fp_k = k, fp_n = fec_n_of f k r, fp_redundancy = r, fp_packets_per_frame = ppf,
           fp_avg_frame_size = avg_size, fp_headroom = headroom \<rparr>)"

section \<open>Controller\<close>

record controller =
  fc_avg_frame_size :: rat
  fc_current :: fec_params
  fc_have_current :: bool
  fc_last_update_us :: u64
  fc_start_us :: u64
  fc_update_count :: u32
  fc_bitrate_grace_until_us :: u64
  fc_was_in_grace :: bool
  fc_k_down_pending_since_us :: u64
  fc_k_down_pending_target :: int
  fc_k_up_pending_since_us :: u64
  fc_k_up_pending_target :: int
  fc_bitrate_up_lock_until_us :: u64
  fc_ff_last_commit_us :: u64
  fc_last_committed_kbps :: int

definition controller_init :: controller where
  "controller_init = \<lparr>
     fc_avg_frame_size = 0,
     fc_current = \<lparr> fp_k = 0, fp_n = 0, fp_redundancy = 0, fp_packets_per_frame = 0,
                    fp_avg_frame_size = 0, fp_headroom = 0 \<rparr>,
     fc_have_current = False, fc_last_update_us = 0, fc_start_us = 0, fc_update_count = 0,
     fc_bitrate_grace_until_us = 0, fc_was_in_grace = False,
     fc_k_down_pending_since_us = 0, fc_k_down_pending_target = 0,
     fc_k_up_pending_since_us = 0, fc_k_up_pending_target = 0,
     fc_bitrate_up_lock_until_us = 0, fc_ff_last_commit_us = 0, fc_last_committed_kbps = 0 \<rparr>"

definition controller_arm_settle :: "controller \<Rightarrow> u64 \<Rightarrow> rat \<Rightarrow> controller" where
  "controller_arm_settle c now secs =
     (let new_end = now + us_of secs
      in if new_end > fc_bitrate_grace_until_us c
         then c\<lparr>fc_bitrate_grace_until_us := new_end\<rparr> else c)"

definition controller_commit :: "controller \<Rightarrow> fec_params \<Rightarrow> u64 \<Rightarrow> controller \<times> fec_params option" where
  "controller_commit c cand now =
     (c\<lparr>fc_current := cand, fc_last_update_us := now, fc_update_count := fc_update_count c + 1,
        fc_k_down_pending_since_us := 0, fc_k_down_pending_target := 0,
        fc_k_up_pending_since_us := 0, fc_k_up_pending_target := 0\<rparr>, Some cand)"

text \<open>
  \<open>controller_update\<close> in its four stages: the EWMA and the sizing basis, then the gates.  The
  first element of a result is the new state, the second what is emitted (\<open>*out\<close> when the C
  function returns true).
\<close>

definition ewma_frame :: "fec_cfg \<Rightarrow> rat \<Rightarrow> u32 \<Rightarrow> rat" where
  "ewma_frame f avg sz =
     (if avg \<le> 0 then fl32 (of_nat (unat sz))
      else fl32 (fl32 (fec_ewma_alpha f * fl32 (of_nat (unat sz)))
                 + fl32 (fl32 (1 - fec_ewma_alpha f) * avg)))"

text \<open>The feed-forward mean frame size, \<open>None\<close> when the feed-forward path is inactive.\<close>

definition ff_bytes :: "fec_cfg \<Rightarrow> int \<Rightarrow> rat \<Rightarrow> rat option" where
  "ff_bytes f committed_kbps fps =
     (if fec_blocksize_feedforward f \<and> committed_kbps > 0 \<and> fps > fl32 (1/10)
      then let b = fl32 (fl32 (fl32 (fl32 (of_int committed_kbps) * 1000) / 8) / fps)
           in if b > 0 then Some b else None
      else None)"

definition in_startup_grace :: "fec_cfg \<Rightarrow> controller \<Rightarrow> u64 \<Rightarrow> bool" where
  "in_startup_grace f c now = (now - fc_start_us c < us_of (fec_startup_grace_s f))"

definition in_settle_grace :: "controller \<Rightarrow> u64 \<Rightarrow> bool" where
  "in_settle_grace c now = (fc_bitrate_grace_until_us c \<noteq> 0 \<and> now < fc_bitrate_grace_until_us c)"

definition op_point_moved :: "fec_cfg \<Rightarrow> controller \<Rightarrow> int \<Rightarrow> bool" where
  "op_point_moved f c committed_kbps =
     (fc_last_committed_kbps c \<le> 0
      \<or> \<bar>fl32 (of_int (committed_kbps - fc_last_committed_kbps c))\<bar>
         > fl32 (fec_bitrate_tolerance f * fl32 (of_int committed_kbps)))"

text \<open>The hysteresis path: dwell before a decrease, dwell, step size and cooldown before an increase.\<close>

definition hysteresis_step ::
  "fec_cfg \<Rightarrow> u64 \<Rightarrow> fec_params \<Rightarrow> controller \<Rightarrow> controller \<times> fec_params option" where
  "hysteresis_step f now cand c =
     (let k_delta = fp_k cand - fp_k (fc_current c) in
      if k_delta < 0 then
        (let c1 = c\<lparr>fc_k_up_pending_since_us := 0, fc_k_up_pending_target := 0,
                    fc_k_down_pending_since_us :=
                      (if fc_k_down_pending_since_us c = 0 then now else fc_k_down_pending_since_us c),
                    fc_k_down_pending_target := fp_k cand\<rparr>;
             held_s = s_of (now - fc_k_down_pending_since_us c1)
         in if held_s < fec_k_down_dwell_s f then (c1, None) else controller_commit c1 cand now)
      else
        (let c1 = c\<lparr>fc_k_down_pending_since_us := 0, fc_k_down_pending_target := 0\<rparr> in
         if k_delta = 0 then
           (let c2 = c1\<lparr>fc_k_up_pending_since_us := 0, fc_k_up_pending_target := 0\<rparr>
            in if fp_n cand \<noteq> fp_n (fc_current c) then controller_commit c2 cand now else (c2, None))
         else
           (let c2 = c1\<lparr>fc_k_up_pending_since_us :=
                          (if fc_k_up_pending_since_us c1 = 0 then now else fc_k_up_pending_since_us c1),
                        fc_k_up_pending_target := fp_k cand\<rparr>;
                up_held_s = s_of (now - fc_k_up_pending_since_us c2)
            in if up_held_s < fec_k_up_dwell_s f then (c2, None)
               else if k_delta < fec_k_hyst_up f then (c2, None)
               else if s_of (now - fc_last_update_us c2) < fec_cooldown_up_s f then (c2, None)
               else controller_commit c2 cand now)))"

definition controller_gate ::
  "fec_cfg \<Rightarrow> u64 \<Rightarrow> int \<Rightarrow> bool \<Rightarrow> fec_params \<Rightarrow> controller \<Rightarrow> controller \<times> fec_params option" where
  "controller_gate f now committed_kbps ff_active cand c0 =
     (let in_startup = in_startup_grace f c0 now;
          in_settle = in_settle_grace c0 now;
          in_grace = (in_startup \<or> in_settle);
          settle_just_ended = (fc_was_in_grace c0 \<and> \<not> in_settle);
          c = c0\<lparr>fc_was_in_grace := in_settle\<rparr>
      in if \<not> fc_have_current c then
           (if in_grace then (c, None) else controller_commit (c\<lparr>fc_have_current := True\<rparr>) cand now)
         else let moved = op_point_moved f c committed_kbps;
                  c1 = (if committed_kbps > 0 then c\<lparr>fc_last_committed_kbps := committed_kbps\<rparr> else c)
           in if ff_active \<and> \<not> in_startup \<and> fp_k cand \<noteq> fp_k (fc_current c1) \<and> moved then
                (let ff_cd = us_of (fec_ff_cooldown_s f)
                 in if fc_ff_last_commit_us c1 = 0 \<or> ff_cd = 0 \<or> now - fc_ff_last_commit_us c1 \<ge> ff_cd
                    then controller_commit (c1\<lparr>fc_ff_last_commit_us := now\<rparr>) cand now
                    else (c1, None))
              else if in_grace then (c1, None)
              else if settle_just_ended then
                (if fp_k cand = fp_k (fc_current c1) \<and> fp_n cand = fp_n (fc_current c1) then (c1, None)
                 else controller_commit c1 cand now)
              else hysteresis_step f now cand c1)"

text \<open>The candidate block of this tick, and whether it came from the feed-forward path.\<close>

definition controller_candidate ::
  "fec_cfg \<Rightarrow> controller \<Rightarrow> rat \<Rightarrow> int \<Rightarrow> rat \<Rightarrow> fec_params \<times> bool" where
  "controller_candidate f c headroom committed_kbps fps =
     (let cur_ppf = (if fc_have_current c then fp_packets_per_frame (fc_current c) else 0) in
      case ff_bytes f committed_kbps fps of
        Some b \<Rightarrow> (fec_compute b headroom f cur_ppf, True)
      | None \<Rightarrow> (fec_compute (fc_avg_frame_size c) headroom f cur_ppf, False))"

definition controller_update ::
  "controller \<Rightarrow> lc_config \<Rightarrow> u32 \<Rightarrow> headroom_ring \<Rightarrow> u64 \<Rightarrow> rat \<Rightarrow> int
   \<Rightarrow> (controller \<times> fec_params option) \<times> headroom_ring" where
  "controller_update c cfg frame_size ring now fps committed_kbps =
     (let f = cfg_fec cfg;
          c0 = (if fc_start_us c = 0 then c\<lparr>fc_start_us := now\<rparr> else c);
          cutoff = now - us_of_d (fec_headroom_window_s f);
          ring' = ring_expire (ring_push ring now frame_size) cutoff;
          c1 = c0\<lparr>fc_avg_frame_size := ewma_frame f (fc_avg_frame_size c0) frame_size\<rparr>;
          headroom = compute_headroom ring' (fec_headroom_margin f) (fec_headroom_min f)
                                      (fec_headroom_max f);
          (cand, ff_active) = controller_candidate f c1 headroom committed_kbps fps
      in (controller_gate f now committed_kbps ff_active cand c1, ring'))"

section \<open>Frame-rate estimator\<close>

record fps_est =
  fe_prev_ready_us :: u64
  fe_ewma_period_us :: rat
  fe_have_prev :: bool

definition fps_init :: fps_est where
  "fps_init = \<lparr> fe_prev_ready_us = 0, fe_ewma_period_us = 0, fe_have_prev = False \<rparr>"

definition fps_feed :: "fps_est \<Rightarrow> u64 \<Rightarrow> fps_est" where
  "fps_feed e ready =
     (if \<not> fe_have_prev e then e\<lparr>fe_prev_ready_us := ready, fe_have_prev := True\<rparr>
      else let dt = ready - fe_prev_ready_us e in
      if dt = 0 \<or> dt > 1000000 then e\<lparr>fe_prev_ready_us := ready\<rparr>
      else e\<lparr>fe_ewma_period_us :=
               (if fe_ewma_period_us e \<le> 0 then f32_of_u64 dt
                else fl32 (fl32 (fl32 (1/10) * f32_of_u64 dt)
                           + fl32 (fl32 (9/10) * fe_ewma_period_us e))),
             fe_prev_ready_us := ready\<rparr>)"

definition fps_get :: "fps_est \<Rightarrow> rat" where
  "fps_get e = (if fe_ewma_period_us e \<le> 0 then 0 else fl32 (1000000 / fe_ewma_period_us e))"

section \<open>The ring is a bounded queue\<close>

definition ring_wf :: "headroom_ring \<Rightarrow> bool" where
  "ring_wf r = (length (hr_ts_us r) = RING_MAX \<and> length (hr_size r) = RING_MAX
                \<and> hr_head r < RING_MAX \<and> hr_count r \<le> RING_MAX)"

definition ring_list :: "headroom_ring \<Rightarrow> (u64 \<times> u32) list" where
  "ring_list r = zip (ring_view RING_MAX (hr_ts_us r) (hr_head r) (hr_count r))
                     (ring_view RING_MAX (hr_size r) (hr_head r) (hr_count r))"

lemma length_ring_list [simp]: "length (ring_list r) = hr_count r"
  by (simp add: ring_list_def)

lemma ring_wf_init: "ring_wf ring_init"
  by (simp add: ring_wf_def ring_init_def RING_MAX_def)

lemma ring_list_init: "ring_list ring_init = []"
  by (simp add: ring_list_def ring_init_def ring_view_def)

lemma ring_wf_push: "ring_wf r \<Longrightarrow> ring_wf (ring_push r t z)"
  by (auto simp: ring_wf_def ring_push_def RING_MAX_def)

lemma tl_zip: "length xs = length ys \<Longrightarrow> tl (zip xs ys) = zip (tl xs) (tl ys)"
  by (cases xs; cases ys) auto

lemma zip_uncons: "xs \<noteq> [] \<Longrightarrow> ys \<noteq> [] \<Longrightarrow> zip xs ys = (hd xs, hd ys) # zip (tl xs) (tl ys)"
  by (cases xs; cases ys) auto

lemma ring_list_push:
  assumes "ring_wf r"
  shows "ring_list (ring_push r t z)
       = (if length (ring_list r) < RING_MAX then ring_list r else tl (ring_list r)) @ [(t, z)]"
proof -
  have v: "ring_view 512 (arr[hr_head r := x]) ((hr_head r + 1) mod 512)
             (if hr_count r < 512 then hr_count r + 1 else hr_count r)
         = (if hr_count r < 512 then ring_view 512 arr (hr_head r) (hr_count r)
            else tl (ring_view 512 arr (hr_head r) (hr_count r))) @ [x]"
    if "length arr = 512" for arr :: "'b list" and x
    using assms that by (intro headroom_shape.view_push) (simp_all add: ring_wf_def RING_MAX_def)
  show ?thesis
    using assms unfolding ring_list_def ring_push_def ring_wf_def RING_MAX_def
    by (simp add: v tl_zip del: One_nat_def)
qed

lemma ring_expire_wf: "ring_wf r \<Longrightarrow> ring_wf (ring_expire r c)"
proof (induction r c rule: ring_expire.induct)
  case (1 r c)
  then show ?case by (subst ring_expire.simps) (auto simp: ring_wf_def)
qed

lemma ring_list_pop:
  assumes "ring_wf r" "hr_count r \<noteq> 0"
  shows "ring_list r = (hr_ts_us r ! ring_oldest RING_MAX (hr_head r) (hr_count r),
                        hd (ring_view RING_MAX (hr_size r) (hr_head r) (hr_count r)))
                       # ring_list (r\<lparr>hr_count := hr_count r - 1\<rparr>)"
proof -
  let ?t = "ring_view RING_MAX (hr_ts_us r) (hr_head r) (hr_count r)"
  let ?z = "ring_view RING_MAX (hr_size r) (hr_head r) (hr_count r)"
  have c: "0 < hr_count r" "hr_count r \<le> RING_MAX" using assms by (auto simp: ring_wf_def)
  then have n: "?t \<noteq> []" "?z \<noteq> []" by (metis length_0_conv length_ring_view less_irrefl)+
  note pop = headroom_shape.view_pop [folded RING_MAX_def, OF c]
  have "ring_list r = (hd ?t, hd ?z) # zip (tl ?t) (tl ?z)"
    unfolding ring_list_def using n by (rule zip_uncons)
  also have "zip (tl ?t) (tl ?z) = ring_list (r\<lparr>hr_count := hr_count r - 1\<rparr>)"
    by (simp add: ring_list_def pop [symmetric])
  finally show ?thesis
    by (simp only: headroom_shape.view_hd [folded RING_MAX_def, OF c])
qed

lemma ring_list_expire:
  "ring_wf r \<Longrightarrow> ring_list (ring_expire r c) = dropWhile (\<lambda>(t, z). t < c) (ring_list r)"
proof (induction r c rule: ring_expire.induct)
  case (1 r c)
  show ?case
  proof (cases "hr_count r = 0")
    case True
    then have "ring_list r = []" by (metis length_0_conv length_ring_list)
    with True show ?thesis by (simp add: ring_expire.simps)
  next
    case False
    let ?r = "r\<lparr>hr_count := hr_count r - 1\<rparr>"
    let ?o = "hr_ts_us r ! ring_oldest RING_MAX (hr_head r) (hr_count r)"
    have w: "ring_wf ?r" using 1(2) by (auto simp: ring_wf_def)
    note pop = ring_list_pop [OF 1(2) False]
    show ?thesis
    proof (cases "c \<le> ?o")
      case True
      then have e: "ring_expire r c = r" using False by (simp add: ring_expire.simps)
      show ?thesis unfolding e pop using True by (simp add: not_less)
    next
      case lt: False
      then have "ring_expire r c = ring_expire ?r c" using False by (subst ring_expire.simps) simp
      moreover have "ring_list (ring_expire ?r c) = dropWhile (\<lambda>(t, z). t < c) (ring_list ?r)"
        using False lt w by (intro 1(1)) auto
      ultimately show ?thesis unfolding pop using lt by (simp add: not_le)
    qed
  qed
qed

text \<open>
  The contract between the controller and its window of frames: what the two operations do to the
  abstract queue.  Inside the locale, a controller tick keeps exactly the frames that are recent
  enough, provided the clock does not run backwards.
\<close>

locale frame_window =
  fixes view :: "'r \<Rightarrow> (u64 \<times> u32) list" and push :: "'r \<Rightarrow> u64 \<Rightarrow> u32 \<Rightarrow> 'r"
    and expire :: "'r \<Rightarrow> u64 \<Rightarrow> 'r" and wf :: "'r \<Rightarrow> bool" and cap :: nat
  assumes view_push: "wf r \<Longrightarrow>
      view (push r t z) = (if length (view r) < cap then view r else tl (view r)) @ [(t, z)]"
    and view_expire: "wf r \<Longrightarrow> view (expire r c) = dropWhile (\<lambda>(t, z). t < c) (view r)"
    and wf_push: "wf r \<Longrightarrow> wf (push r t z)"
    and wf_expire: "wf r \<Longrightarrow> wf (expire r c)"
begin

lemma slide:
  assumes "wf r" "sorted (map fst (view r))" "\<forall>p \<in> set (view r). fst p \<le> now"
  shows "view (expire (push r now z) c)
       = filter (\<lambda>p. c \<le> fst p) ((if length (view r) < cap then view r else tl (view r)) @ [(now, z)])"
    and "sorted (map fst (view (expire (push r now z) c)))"
proof -
  let ?w = "(if length (view r) < cap then view r else tl (view r)) @ [(now, z)]"
  have s: "sorted (map fst ?w)"
    using assms(2,3) by (cases "view r") (auto simp: sorted_append)
  have "dropWhile (\<lambda>(t, y). t < c) xs = filter (\<lambda>p. c \<le> fst p) xs"
    if "sorted (map fst xs)" for xs :: "(u64 \<times> u32) list"
    using that
  proof (induction xs)
    case (Cons x xs)
    show ?case
    proof (cases "fst x < c")
      case True
      with Cons show ?thesis by (cases x) auto
    next
      case False
      with Cons have "\<forall>p \<in> set (x # xs). c \<le> fst p" by auto
      then have "filter (\<lambda>p. c \<le> fst p) (x # xs) = x # xs" by (rule filter_True)
      with False show ?thesis by (cases x) (auto simp: not_less)
    qed
  qed simp
  from this [OF s] show v: "view (expire (push r now z) c) = filter (\<lambda>p. c \<le> fst p) ?w"
    using assms(1) by (simp only: view_expire wf_push view_push)
  show "sorted (map fst (view (expire (push r now z) c)))"
    unfolding v using s by (rule sorted_filter)
qed

end

interpretation fw: frame_window ring_list ring_push ring_expire ring_wf RING_MAX
  by unfold_locales (auto simp: ring_list_push ring_list_expire ring_wf_push ring_expire_wf)

section \<open>Redundancy and block size\<close>

text \<open>
  A piecewise linear curve falls from point to point when the differences of its values are
  representable, so that rounding cannot carry an interpolated value across a corner.
\<close>

fun curve_ok :: "(int \<times> rat) list \<Rightarrow> bool" where
  "curve_ok ((k0, r0) # (k1, r1) # ps) =
     (k0 < k1 \<and> r1 \<le> r0 \<and> fl32 (r1 - r0) = r1 - r0 \<and> fl32 r0 = r0 \<and> fl32 r1 = r1
      \<and> curve_ok ((k1, r1) # ps))"
| "curve_ok _ = True"

lemma seg_t_bounds:
  assumes "k0 \<le> k" "k \<le> k1"
  shows "0 \<le> fl32 (fl32 (of_int (k - k0)) / fl32 (of_int (k1 - k0)))"
    and "fl32 (fl32 (of_int (k - k0)) / fl32 (of_int (k1 - k0))) \<le> 1"
proof -
  have n: "0 \<le> fl32 (of_int (k - k0))" using assms by (intro f32.rnd_nonneg) simp
  have le: "fl32 (of_int (k - k0)) \<le> fl32 (of_int (k1 - k0))"
    using assms by (intro f32.rnd_mono) simp
  show "0 \<le> fl32 (fl32 (of_int (k - k0)) / fl32 (of_int (k1 - k0)))"
    using n order_trans [OF n le] by (intro f32.rnd_nonneg [OF divide_nonneg_nonneg])
  have "fl32 (of_int (k - k0)) / fl32 (of_int (k1 - k0)) \<le> 1"
    using n le by (cases "fl32 (of_int (k1 - k0)) = 0") (auto simp: divide_le_eq)
  then show "fl32 (fl32 (of_int (k - k0)) / fl32 (of_int (k1 - k0))) \<le> 1"
    by (intro f32.rnd_le_repr) simp_all
qed

lemma seg_bounds:
  assumes r: "r1 \<le> r0" "fl32 (r1 - r0) = r1 - r0" "fl32 r0 = r0" "fl32 r1 = r1"
    and t: "0 \<le> t" "t \<le> 1"
  shows "r1 \<le> fl32 (r0 + fl32 (t * fl32 (r1 - r0)))" "fl32 (r0 + fl32 (t * fl32 (r1 - r0))) \<le> r0"
proof -
  have "t * (r1 - r0) \<le> 0" using r(1) t by (simp add: mult_nonneg_nonpos)
  then have u: "fl32 (t * (r1 - r0)) \<le> 0" by (rule f32.rnd_nonpos)
  have "1 * (r1 - r0) \<le> t * (r1 - r0)" using r(1) t by (intro mult_right_mono_neg) auto
  then have l: "r1 - r0 \<le> fl32 (t * (r1 - r0))" using r(2) by (intro f32.rnd_ge_repr) auto
  show "r1 \<le> fl32 (r0 + fl32 (t * fl32 (r1 - r0)))"
    using l r by (intro f32.rnd_ge_repr) auto
  show "fl32 (r0 + fl32 (t * fl32 (r1 - r0))) \<le> r0"
    using u r by (intro f32.rnd_le_repr) auto
qed

lemma seg_antimono:
  assumes "j \<le> k" "k0 < k1" "r1 \<le> r0"
  shows "fl32 (r0 + fl32 (fl32 (fl32 (of_int (k - k0)) / fl32 (of_int (k1 - k0))) * fl32 (r1 - r0)))
       \<le> fl32 (r0 + fl32 (fl32 (fl32 (of_int (j - k0)) / fl32 (of_int (k1 - k0))) * fl32 (r1 - r0)))"
proof -
  have "0 \<le> fl32 (of_int (k1 - k0))" using assms by (intro f32.rnd_nonneg) simp
  then have "fl32 (fl32 (of_int (j - k0)) / fl32 (of_int (k1 - k0)))
      \<le> fl32 (fl32 (of_int (k - k0)) / fl32 (of_int (k1 - k0)))"
    using assms(1) by (intro f32.rnd_mono divide_right_mono) simp_all
  moreover have "fl32 (r1 - r0) \<le> 0" using assms(3) by (intro f32.rnd_nonpos) simp
  ultimately show ?thesis
    by (intro f32.rnd_mono add_left_mono) (rule mult_right_mono_neg)
qed

lemma curve_last_le: "curve_ok ((k1, r1) # ps) \<Longrightarrow> snd (last ((k1, r1) # ps)) \<le> r1"
proof (induction ps arbitrary: k1 r1)
  case (Cons p ps)
  then show ?case by (cases p) (fastforce intro: order_trans)
qed simp

lemma interp_bounds:
  "curve_ok ps \<Longrightarrow> ps \<noteq> [] \<Longrightarrow>
   snd (last ps) \<le> interp_segments k ps \<and> interp_segments k ps \<le> snd (hd ps)"
proof (induction k ps rule: interp_segments.induct)
  case (1 k k0 r0 k1 r1 ps)
  from 1(2) have r: "r1 \<le> r0" "fl32 (r1 - r0) = r1 - r0" "fl32 r0 = r0" "fl32 r1 = r1"
    and ok: "curve_ok ((k1, r1) # ps)" by simp_all
  note below = curve_last_le [OF ok]
  show ?case
  proof (cases "k0 \<le> k \<and> k \<le> k1")
    case True
    then show ?thesis
      using seg_bounds [OF r seg_t_bounds [of k0 k k1]] below by (auto simp: Let_def)
  next
    case False
    with 1(1) [OF False ok] r(1) show ?thesis by auto
  qed
qed auto

lemma interp_antimono:
  "curve_ok ps \<Longrightarrow> ps \<noteq> [] \<Longrightarrow> fst (hd ps) \<le> j \<Longrightarrow> j \<le> k \<Longrightarrow>
   interp_segments k ps \<le> interp_segments j ps"
proof (induction k ps rule: interp_segments.induct)
  case (1 k k0 r0 k1 r1 ps)
  from 1(2) have r: "k0 < k1" "r1 \<le> r0" "fl32 (r1 - r0) = r1 - r0" "fl32 r0 = r0" "fl32 r1 = r1"
    and ok: "curve_ok ((k1, r1) # ps)" by simp_all
  from 1(4) have j: "k0 \<le> j" by simp
  show ?case
  proof (cases "k \<le> k1")
    case True
    then show ?thesis using j 1(5) seg_antimono [OF 1(5) r(1,2)] by (simp add: Let_def)
  next
    case False
    then have k: "interp_segments k ((k0, r0) # (k1, r1) # ps) = interp_segments k ((k1, r1) # ps)"
      by simp
    show ?thesis
    proof (cases "j \<le> k1")
      case True
      then have "r1 \<le> interp_segments j ((k0, r0) # (k1, r1) # ps)"
        using j seg_bounds(1) [OF r(2-5) seg_t_bounds [OF j True]] by (simp add: Let_def)
      with k show ?thesis using interp_bounds [OF ok, of k] by simp
    next
      case F: False
      with False k show ?thesis using 1(1) [OF _ ok] 1(5) by simp
    qed
  qed
qed auto

lemma redundancy_curve_ok: "curve_ok REDUNDANCY_CURVE"
  by code_simp

lemma fl32_consts: "fl32 (25/100) = 1/4" "fl32 (50/100) = 1/2" "fl32 (5/10) = 1/2"
    "fl32 (99/100) = 8304722 / 8388608"
  by code_simp+

lemma curve_ends: "fst (hd REDUNDANCY_CURVE) = 1" "snd (hd REDUNDANCY_CURVE) = 1/2"
    "fst (last REDUNDANCY_CURVE) = 48" "snd (last REDUNDANCY_CURVE) = 1/4" "REDUNDANCY_CURVE \<noteq> []"
  by code_simp+

lemma redundancy_cases:
  "interpolate_redundancy k = (if k \<le> 1 then 1/2 else if 48 \<le> k then 1/4
                               else interp_segments k REDUNDANCY_CURVE)"
  by (simp only: interpolate_redundancy_def curve_ends)

lemma redundancy_bounds: "1/4 \<le> interpolate_redundancy k \<and> interpolate_redundancy k \<le> 1/2"
  using interp_bounds [OF redundancy_curve_ok curve_ends(5), of k]
  by (simp add: redundancy_cases curve_ends)

lemma redundancy_antimono: "j \<le> k \<Longrightarrow> interpolate_redundancy k \<le> interpolate_redundancy j"
proof -
  assume jk: "j \<le> k"
  consider "j \<le> 1" | "48 \<le> k" | "1 < j" "k < 48" by linarith
  then show ?thesis
  proof cases
    case 3
    have "interp_segments k REDUNDANCY_CURVE \<le> interp_segments j REDUNDANCY_CURVE"
      by (rule interp_antimono [OF redundancy_curve_ok])
        (use 3 jk in \<open>simp_all add: curve_ends\<close>)
    with 3 jk show ?thesis by (simp add: redundancy_cases)
  qed (use redundancy_bounds [of k] redundancy_bounds [of j] in \<open>simp_all add: redundancy_cases\<close>)
qed

lemma fec_k_of_range:
  assumes "fec_min_k f \<le> fec_max_k f"
  shows "fec_min_k f \<le> fec_k_of f ppf \<and> fec_k_of f ppf \<le> fec_max_k f"
  using assms by (auto simp: fec_k_of_def Let_def clamp_def)

lemma fec_k_of_below_n:
  assumes "fec_min_k f < fec_max_n f"
  shows "fec_k_of f ppf < fec_max_n f"
  using assms by (auto simp: fec_k_of_def Let_def)

lemma fec_n_of_range:
  assumes "fec_min_n f \<le> fec_max_n f" "k < fec_max_n f"
  shows "k < fec_n_of f k r \<and> fec_min_n f \<le> fec_n_of f k r \<and> fec_n_of f k r \<le> fec_max_n f"
  using assms by (auto simp: fec_n_of_def Let_def clamp_def)

lemma fec_n_of_gt: "k < fec_n_of f k r"
  by (auto simp: fec_n_of_def Let_def)

lemma fec_compute_k: "fp_k (fec_compute a h f c) = fec_k_of f (fp_packets_per_frame (fec_compute a h f c))"
  by (simp add: fec_compute_def Let_def)

lemma fec_compute_n:
  "fp_n (fec_compute a h f c) = fec_n_of f (fp_k (fec_compute a h f c)) (fp_redundancy (fec_compute a h f c))"
  by (simp add: fec_compute_def Let_def)

lemma redundancy_below_cap: "\<not> fl32 (99/100) < interpolate_redundancy k"
  using redundancy_bounds [of k] unfolding fl32_consts by linarith

lemma fec_compute_redundancy:
  "fp_redundancy (fec_compute a h f c) = interpolate_redundancy (fp_k (fec_compute a h f c))"
  by (simp add: fec_compute_def Let_def redundancy_below_cap)

section \<open>Headroom\<close>

lemma compute_headroom_range:
  assumes "lo \<le> hi"
  shows "lo \<le> compute_headroom r m lo hi \<and> compute_headroom r m lo hi \<le> hi"
  using assms by (auto simp: compute_headroom_def Let_def clamp_ge_lo)

text \<open>The loop walks the live entries of the queue, so headroom is a function of the queue.\<close>

lemma ring_newest_first_rev:
  assumes "ring_wf r"
  shows "ring_newest_first r = rev (map snd (ring_list r))"
proof (rule nth_equalityI)
  show l: "length (ring_newest_first r) = length (rev (map snd (ring_list r)))"
    by (simp add: ring_newest_first_def)
  fix i
  assume "i < length (ring_newest_first r)"
  then have i: "i < hr_count r" by (simp add: ring_newest_first_def)
  have c: "hr_count r \<le> RING_MAX" using assms by (simp add: ring_wf_def)
  have e: "hr_head r + RING_MAX - hr_count r + (hr_count r - Suc i) = hr_head r + RING_MAX - 1 - i"
    using i c by (simp add: RING_MAX_def)
  have "rev (map snd (ring_list r)) ! i = snd (ring_list r ! (hr_count r - Suc i))"
    using i by (simp add: rev_nth)
  also have "\<dots> = hr_size r ! ((hr_head r + RING_MAX - 1 - i) mod RING_MAX)"
    using i e by (simp add: ring_list_def nth_ring_view)
  finally show "ring_newest_first r ! i = rev (map snd (ring_list r)) ! i"
    using i by (simp add: ring_newest_first_def)
qed

text \<open>The \<open>uint64_t\<close> sum of at most 512 sizes cannot wrap, so the model's sum is the code's.\<close>

lemma ring_sum_no_wrap:
  assumes "ring_wf r"
  shows "sum_list (map unat (ring_newest_first r)) < 2 ^ 64"
proof -
  have "sum_list (map unat xs) \<le> length xs * 2 ^ 32" for xs :: "u32 list"
  proof (induction xs)
    case (Cons x xs)
    have "unat x \<le> 2 ^ 32" using unsigned_less [of x, where ?'a = nat] by simp
    with Cons show ?case by simp
  qed simp
  from this [of "ring_newest_first r"] show ?thesis
    using assms by (simp add: ring_newest_first_def ring_wf_def RING_MAX_def)
qed

section \<open>Gates\<close>

lemma controller_commit_eq [simp]:
  "snd (controller_commit c cand now) = Some cand"
  "fc_current (fst (controller_commit c cand now)) = cand"
  "fc_update_count (fst (controller_commit c cand now)) = fc_update_count c + 1"
  "fc_last_update_us (fst (controller_commit c cand now)) = now"
  "fc_k_down_pending_since_us (fst (controller_commit c cand now)) = 0"
  "fc_k_up_pending_since_us (fst (controller_commit c cand now)) = 0"
  by (simp_all add: controller_commit_def)

text \<open>What a step may do: emit its candidate and record it, or leave the committed block alone.\<close>

definition emits_candidate ::
  "controller \<Rightarrow> fec_params \<Rightarrow> u64 \<Rightarrow> controller \<times> fec_params option \<Rightarrow> bool" where
  "emits_candidate c cand now res =
     (case snd res of
        Some p \<Rightarrow> p = cand \<and> fc_current (fst res) = cand \<and> fc_last_update_us (fst res) = now
                  \<and> fc_update_count (fst res) = fc_update_count c + 1
      | None \<Rightarrow> fc_current (fst res) = fc_current c \<and> fc_last_update_us (fst res) = fc_last_update_us c
                \<and> fc_update_count (fst res) = fc_update_count c)"

lemma hysteresis_emits: "emits_candidate c cand now (hysteresis_step f now cand c)"
  by (simp add: hysteresis_step_def emits_candidate_def controller_commit_def Let_def)

lemma emits_candidate_intros:
  assumes "fc_current c' = fc_current c" "fc_last_update_us c' = fc_last_update_us c"
    "fc_update_count c' = fc_update_count c"
  shows "emits_candidate c cand now (c', None)"
    and "emits_candidate c cand now (controller_commit c' cand now)"
    and "emits_candidate c cand now (hysteresis_step f now cand c')"
  using assms hysteresis_emits [of c' cand now f]
  by (simp_all add: emits_candidate_def controller_commit_def split: option.splits)

lemma gate_emits: "emits_candidate c cand now (controller_gate f now kbps ff cand c)"
  unfolding controller_gate_def Let_def by (simp add: emits_candidate_intros)

text \<open>Nothing is emitted in the start-up grace, and in the settle grace only an operating-point step.\<close>

lemma gate_grace:
  assumes "snd (controller_gate f now kbps ff cand c) = Some p"
  shows "\<not> in_startup_grace f c now"
    and "in_settle_grace c now \<Longrightarrow>
         fc_have_current c \<and> ff \<and> op_point_moved f c kbps \<and> fp_k cand \<noteq> fp_k (fc_current c)"
  using assms by (auto simp: controller_gate_def Let_def op_point_moved_def split: if_splits)

lemma gate_silent:
  assumes "fc_have_current c" "fp_k cand = fp_k (fc_current c)" "fp_n cand = fp_n (fc_current c)"
  shows "snd (controller_gate f now kbps ff cand c) = None"
  using assms by (simp add: controller_gate_def hysteresis_step_def Let_def)

lemma gate_settle_cooldown:
  assumes "snd (controller_gate f now kbps ff cand c) = Some p" "in_settle_grace c now"
  shows "fc_ff_last_commit_us (fst (controller_gate f now kbps ff cand c)) = now"
    and "fc_ff_last_commit_us c = 0 \<or> us_of (fec_ff_cooldown_s f) = 0
         \<or> us_of (fec_ff_cooldown_s f) \<le> now - fc_ff_last_commit_us c"
  using assms by (auto simp: controller_gate_def controller_commit_def Let_def split: if_splits)

lemma candidate_is_compute:
  "\<exists>a h cur. fst (controller_candidate f c headroom kbps fps) = fec_compute a h f cur"
  by (auto simp: controller_candidate_def Let_def split: option.splits)

text \<open>A tick is the gate applied to some computed candidate, in a state with a start time.\<close>

definition started :: "controller \<Rightarrow> u64 \<Rightarrow> rat \<Rightarrow> controller" where
  "started c now avg = c\<lparr>fc_start_us := (if fc_start_us c = 0 then now else fc_start_us c),
                         fc_avg_frame_size := avg\<rparr>"

lemma update_gate:
  "\<exists>cand ff avg a h cur.
     fst (controller_update c cfg sz ring now fps kbps)
       = controller_gate (cfg_fec cfg) now kbps ff cand (started c now avg)
   \<and> cand = fec_compute a h (cfg_fec cfg) cur
   \<and> (ff \<longrightarrow> fec_blocksize_feedforward (cfg_fec cfg) \<and> 0 < kbps)"
proof -
  let ?f = "cfg_fec cfg"
  define avg where "avg = ewma_frame ?f (fc_avg_frame_size c) sz"
  define h where "h = compute_headroom (ring_expire (ring_push ring now sz)
      (now - us_of_d (fec_headroom_window_s ?f))) (fec_headroom_margin ?f) (fec_headroom_min ?f)
      (fec_headroom_max ?f)"
  have s0: "(if fc_start_us c = 0 then c\<lparr>fc_start_us := now\<rparr> else c)\<lparr>fc_avg_frame_size := a\<rparr>
      = started c now a" for a
    by (cases c) (simp add: started_def)
  have s1: "fc_avg_frame_size (if fc_start_us c = 0 then c\<lparr>fc_start_us := now\<rparr> else c)
      = fc_avg_frame_size c" by simp
  obtain cand ff where cf: "controller_candidate ?f (started c now avg) h kbps fps = (cand, ff)"
    by fastforce
  have "fst (controller_update c cfg sz ring now fps kbps) = controller_gate ?f now kbps ff cand (started c now avg)"
    unfolding controller_update_def Let_def s1 avg_def [symmetric] h_def [symmetric] s0 cf by simp
  moreover have "\<exists>a h cur. cand = fec_compute a h ?f cur"
    using candidate_is_compute [of ?f "started c now avg" h kbps fps] cf by simp
  moreover have "ff \<longrightarrow> fec_blocksize_feedforward ?f \<and> 0 < kbps"
    using cf by (auto simp: controller_candidate_def ff_bytes_def Let_def split: option.splits if_splits)
  ultimately show ?thesis by blast
qed

lemma update_emits_compute:
  assumes "snd (fst (controller_update c cfg sz ring now fps kbps)) = Some p"
  shows "\<exists>a h cur. p = fec_compute a h (cfg_fec cfg) cur"
proof -
  obtain cand ff avg where
    g: "fst (controller_update c cfg sz ring now fps kbps)
        = controller_gate (cfg_fec cfg) now kbps ff cand (started c now avg)"
    and "\<exists>a h cur. cand = fec_compute a h (cfg_fec cfg) cur"
    using update_gate [of c cfg sz ring now fps kbps] by blast
  moreover have "p = cand"
    using gate_emits [of "started c now avg" cand now "cfg_fec cfg" kbps ff] assms g
    by (simp add: emits_candidate_def)
  ultimately show ?thesis by blast
qed

lemma started_simps [simp]:
  "in_settle_grace (started c now avg) t = in_settle_grace c t"
  "op_point_moved f (started c now avg) k = op_point_moved f c k"
  "fc_have_current (started c now avg) = fc_have_current c"
  "fc_current (started c now avg) = fc_current c"
  "fc_ff_last_commit_us (started c now avg) = fc_ff_last_commit_us c"
  "fc_was_in_grace (started c now avg) = fc_was_in_grace c"
  by (simp_all add: started_def in_settle_grace_def op_point_moved_def)

section \<open>Parity\<close>

lemma fl32_quarters:
  assumes "\<bar>m\<bar> \<le> 16777216"
  shows "fl32 (of_int m / 4) = of_int m / 4"
proof -
  have e: "(2 :: rat) powi (- 2) = 1 / 4" by code_simp
  have "fround 24 (- 149) (of_int m * 2 powi (- 2)) = of_int m * 2 powi (- 2)"
    by (rule fround_repr) (use assms in simp_all)
  then show ?thesis unfolding e fl32_def by (simp only: times_divide_eq_right mult_1_right)
qed

lemma ceiling_fl32_ge:
  assumes "of_int m - 3/4 \<le> y" "\<bar>4 * m - 3\<bar> \<le> 16777216"
  shows "m \<le> \<lceil>fl32 y\<rceil>"
proof -
  have "of_int (4 * m - 3) / 4 \<le> fl32 y"
    using assms by (intro f32.rnd_ge_repr fl32_quarters) (auto simp: field_simps)
  then show ?thesis by (simp add: le_ceiling_iff field_simps)
qed

lemma fec_n_parity:
  assumes k: "1 \<le> k" "k \<le> 1000000" and r: "1/4 \<le> r" "r \<le> 1/2"
  shows "fec_max_n f \<le> fec_n_of f k r \<or> 4 * k \<le> 3 * fec_n_of f k r"
proof -
  have "fl32 (3/4) = 3/4" using fl32_quarters [of 3] by simp
  then have d: "fl32 (1 - r) \<le> 3/4" using r by (intro f32.rnd_le_repr) auto
  have "fl32 (1/2) = 1/2" using fl32_quarters [of 2] by simp
  then have d0: "1/2 \<le> fl32 (1 - r)" using r by (intro f32.rnd_ge_repr) auto
  define m where "m = (4 * k + 2) div 3"
  have m: "4 * k \<le> 3 * m" "3 * m \<le> 4 * k + 2" by (simp_all add: m_def)
  have "of_int m - 3/4 \<le> (of_int (4 * k + 2) / 3 :: rat) - 3/4"
    using m(2) by (simp add: le_divide_eq flip: of_int_le_iff [where ?'a = rat])
  also have "\<dots> \<le> of_int k / (3/4)" by (simp add: field_simps)
  also have "\<dots> \<le> of_int k / fl32 (1 - r)" using k d d0 by (intro divide_left_mono) auto
  finally have "m \<le> \<lceil>fl32 (of_int k / fl32 (1 - r))\<rceil>"
    using k m by (intro ceiling_fl32_ge) auto
  moreover have "fl32 (of_int k) = of_int k" using k by (intro fl32_of_int) auto
  ultimately have "4 * k \<le> 3 * \<lceil>fl32 (fl32 (of_int k) / fl32 (1 - r))\<rceil>" using m by simp
  then show ?thesis by (auto simp: fec_n_of_def Let_def clamp_def)
qed

section \<open>The hysteresis path over time\<close>

definition hyst_run :: "fec_cfg \<Rightarrow> controller \<Rightarrow> (u64 \<times> fec_params) list \<Rightarrow> controller" where
  "hyst_run f c ticks = foldl (\<lambda>c (now, cand). fst (hysteresis_step f now cand c)) c ticks"

lemma hyst_run_snoc [simp]:
  "hyst_run f c (ts @ [(now, cand)]) = fst (hysteresis_step f now cand (hyst_run f c ts))"
  by (simp add: hyst_run_def)

text \<open>\<open>low_since c suf\<close>: every tick of \<open>suf\<close> asked for less than the committed \<open>k\<close>.\<close>

definition low_since :: "controller \<Rightarrow> (u64 \<times> fec_params) list \<Rightarrow> bool" where
  "low_since c suf = (suf \<noteq> [] \<and> list_all (\<lambda>(t, p). fp_k p < fp_k (fc_current c)) suf)"

lemma hyst_pending_cases:
  "hysteresis_step f now cand c = (c', e) \<Longrightarrow>
   fc_k_down_pending_since_us c' = 0
   \<or> (e = None \<and> fp_k cand < fp_k (fc_current c) \<and> fc_current c' = fc_current c
      \<and> fc_k_down_pending_since_us c' =
          (if fc_k_down_pending_since_us c = 0 then now else fc_k_down_pending_since_us c))"
  by (auto simp: hysteresis_step_def controller_commit_def Let_def split: if_splits)

lemma hyst_run_pending:
  assumes "fc_k_down_pending_since_us c = 0"
  shows "fc_k_down_pending_since_us (hyst_run f c ts) \<noteq> 0 \<Longrightarrow>
    \<exists>pre suf. ts = pre @ suf \<and> low_since (hyst_run f c ts) suf
              \<and> fst (hd suf) = fc_k_down_pending_since_us (hyst_run f c ts)"
proof (induction ts rule: rev_induct)
  case Nil
  then show ?case using assms by (simp add: hyst_run_def)
next
  case (snoc x ts)
  obtain now cand where x: "x = (now, cand)" by (cases x)
  let ?c = "hyst_run f c ts"
  obtain c' e where st: "hysteresis_step f now cand ?c = (c', e)" by fastforce
  from hyst_pending_cases [OF st] snoc.prems
  have low: "fp_k cand < fp_k (fc_current ?c)" and cur: "fc_current c' = fc_current ?c"
    and since: "fc_k_down_pending_since_us c' =
      (if fc_k_down_pending_since_us ?c = 0 then now else fc_k_down_pending_since_us ?c)"
    by (auto simp: x st)
  show ?case
  proof (cases "fc_k_down_pending_since_us ?c = 0")
    case True
    then have "low_since c' [(now, cand)] \<and> fst (hd [(now, cand)]) = fc_k_down_pending_since_us c'"
      using low cur since by (simp add: low_since_def)
    then show ?thesis unfolding x hyst_run_snoc st fst_conv by blast
  next
    case False
    with snoc.IH obtain pre suf where "ts = pre @ suf" "low_since ?c suf"
      "fst (hd suf) = fc_k_down_pending_since_us ?c" by blast
    then have "ts @ [x] = pre @ (suf @ [x]) \<and> low_since c' (suf @ [x])
        \<and> fst (hd (suf @ [x])) = fc_k_down_pending_since_us c'"
      using low cur since False by (simp add: low_since_def x)
    then show ?thesis unfolding x hyst_run_snoc st fst_conv by blast
  qed
qed

section \<open>Properties\<close>

definition low_block :: "int \<Rightarrow> int \<Rightarrow> fec_params" where
  "low_block k n = \<lparr> fp_k = k, fp_n = n, fp_redundancy = 0, fp_packets_per_frame = k,
                     fp_avg_frame_size = 0, fp_headroom = 1 \<rparr>"

lemma update_ring: "snd (controller_update c cfg sz ring now fps kbps)
    = ring_expire (ring_push ring now sz) (now - us_of_d (fec_headroom_window_s (cfg_fec cfg)))"
  by (simp add: controller_update_def Let_def split: prod.split)

text \<open>C30: the headroom window.  With a clock that does not run backwards, a controller tick leaves
  in the ring exactly the frames, of the last 512 including the new one, that are not older than
  the window, in arrival order; the ring's representation invariant is kept.\<close>

theorem frame_window_exact:
  assumes "ring_wf r" "sorted (map fst (ring_list r))" "\<forall>p \<in> set (ring_list r). fst p \<le> now"
  shows "ring_list (snd (controller_update c cfg sz r now fps kbps))
       = filter (\<lambda>p. now - us_of_d (fec_headroom_window_s (cfg_fec cfg)) \<le> fst p)
           ((if length (ring_list r) < RING_MAX then ring_list r else tl (ring_list r)) @ [(now, sz)])
     \<and> sorted (map fst (ring_list (snd (controller_update c cfg sz r now fps kbps))))
     \<and> ring_wf (snd (controller_update c cfg sz r now fps kbps))"
  using fw.slide [OF assms] assms(1) by (simp add: update_ring fw.wf_push fw.wf_expire)

theorem frame_window_exact_witness:
  "ring_list (snd (controller_update controller_init config_defaults 1000
      (ring_push ring_init 1000000 700) 5000000 30 0)) = [(5000000, 1000)]"
proof -
  have l: "ring_list (ring_push ring_init 1000000 700) = [(1000000, 700)]"
    by (simp add: ring_list_push ring_wf_init ring_list_init RING_MAX_def)
  show ?thesis
    using frame_window_exact [of "ring_push ring_init 1000000 700" 5000000 controller_init
        config_defaults 1000 30 0]
    by (simp add: l us_of_d_def ring_wf_push ring_wf_init RING_MAX_def)
qed

text \<open>C26: every FEC block the controller emits is one the configuration allows: \<open>k\<close> and \<open>n\<close> inside
  their bounds, at least one parity packet, redundancy read off the curve for that \<open>k\<close>, and at
  least a quarter of the block's packets parity unless \<open>n\<close> is at its maximum.\<close>

theorem fec_block_valid:
  assumes "snd (fst (controller_update c cfg sz ring now fps kbps)) = Some p"
    and "1 \<le> fec_min_k (cfg_fec cfg)" "fec_min_k (cfg_fec cfg) \<le> fec_max_k (cfg_fec cfg)"
    and "fec_max_k (cfg_fec cfg) \<le> 1000000" "fec_min_k (cfg_fec cfg) < fec_max_n (cfg_fec cfg)"
    and "fec_min_n (cfg_fec cfg) \<le> fec_max_n (cfg_fec cfg)"
  shows "fec_min_k (cfg_fec cfg) \<le> fp_k p \<and> fp_k p \<le> fec_max_k (cfg_fec cfg)
       \<and> fec_min_n (cfg_fec cfg) \<le> fp_n p \<and> fp_n p \<le> fec_max_n (cfg_fec cfg) \<and> fp_k p < fp_n p
       \<and> fp_redundancy p = interpolate_redundancy (fp_k p)
       \<and> (fp_n p = fec_max_n (cfg_fec cfg) \<or> 4 * fp_k p \<le> 3 * fp_n p)"
proof -
  let ?f = "cfg_fec cfg"
  from assms(1) obtain a h cur where p: "p = fec_compute a h ?f cur"
    using update_emits_compute by blast
  have k: "fec_min_k ?f \<le> fp_k p" "fp_k p \<le> fec_max_k ?f" "fp_k p < fec_max_n ?f"
    using fec_k_of_range fec_k_of_below_n assms(3,5) by (simp_all add: p fec_compute_k)
  have n: "fp_k p < fp_n p" "fec_min_n ?f \<le> fp_n p" "fp_n p \<le> fec_max_n ?f"
    using fec_n_of_range [OF assms(6), of "fp_k p" "fp_redundancy p"] k(3)
    by (simp_all add: p flip: fec_compute_n)
  have "fec_max_n ?f \<le> fp_n p \<or> 4 * fp_k p \<le> 3 * fp_n p"
    using fec_n_parity [of "fp_k p" "interpolate_redundancy (fp_k p)" ?f] k assms(2,4)
      redundancy_bounds [of "fp_k p"]
    by (simp add: p fec_compute_n [of a h ?f cur] fec_compute_redundancy)
  with k n show ?thesis by (auto simp: p fec_compute_redundancy)
qed

lemma first_emission:
  assumes "\<not> fc_have_current c" "fc_start_us c \<noteq> 0" "\<not> in_startup_grace (cfg_fec cfg) c now"
    "fc_bitrate_grace_until_us c = 0"
  shows "snd (fst (controller_update c cfg sz ring now fps kbps)) \<noteq> None"
  using assms
  by (simp add: controller_update_def controller_gate_def in_startup_grace_def in_settle_grace_def
      Let_def split: prod.split)

theorem fec_block_valid_witness:
  "\<exists>p. snd (fst (controller_update (controller_init\<lparr>fc_start_us := 1\<rparr>) config_defaults 6000 ring_init
          10000000 30 0)) = Some p \<and> 4 \<le> fp_k p \<and> fp_k p \<le> 48 \<and> fp_n p \<le> 72"
proof -
  let ?c = "controller_init\<lparr>fc_start_us := 1\<rparr>"
  have "\<not> in_startup_grace (cfg_fec config_defaults) ?c 10000000"
    by (simp add: in_startup_grace_def us_of_def)
  then obtain p where p: "snd (fst (controller_update ?c config_defaults 6000 ring_init 10000000 30 0)) = Some p"
    using first_emission [of ?c config_defaults 10000000 6000 ring_init 30 0]
    by (auto simp: controller_init_def)
  from fec_block_valid [OF this] show ?thesis
    using p by (simp add: config_defaults_def fec_defaults_def)
qed


text \<open>Stable-link silence.  Once a block is committed, an emission always changes it: a tick
  whose candidate has the committed \<open>k\<close> and \<open>n\<close> writes nothing to wfb\_tx.\<close>

theorem fec_emission_changes_block:
  assumes "snd (fst (controller_update c cfg sz ring now fps kbps)) = Some p" "fc_have_current c"
  shows "(fp_k p, fp_n p) \<noteq> (fp_k (fc_current c), fp_n (fc_current c))
       \<and> fc_current (fst (fst (controller_update c cfg sz ring now fps kbps))) = p
       \<and> fc_last_update_us (fst (fst (controller_update c cfg sz ring now fps kbps))) = now"
proof -
  let ?f = "cfg_fec cfg"
  obtain cand ff avg where
    g: "fst (controller_update c cfg sz ring now fps kbps)
        = controller_gate ?f now kbps ff cand (started c now avg)"
    using update_gate [of c cfg sz ring now fps kbps] by blast
  have e: "snd (controller_gate ?f now kbps ff cand (started c now avg)) = Some p"
    using assms(1) g by simp
  with gate_emits [of "started c now avg" cand now ?f kbps ff] have p: "p = cand"
    "fc_current (fst (controller_gate ?f now kbps ff cand (started c now avg))) = p"
    "fc_last_update_us (fst (controller_gate ?f now kbps ff cand (started c now avg))) = now"
    by (simp_all add: emits_candidate_def)
  have "(fp_k p, fp_n p) \<noteq> (fp_k (fc_current c), fp_n (fc_current c))"
    using gate_silent [of "started c now avg" cand ?f now kbps ff] e assms(2) p(1) by auto
  with p show ?thesis by (simp add: g)
qed

text \<open>Decrease dwell.  On the hysteresis path the controller shrinks the block only when every
  tick over the last \<open>k_down_dwell_s\<close> seconds asked for less than the committed \<open>k\<close>; one tick
  that does not starts the wait again.\<close>

theorem fec_decrease_dwell:
  assumes "fc_k_down_pending_since_us c = 0"
    and "hysteresis_step f now cand (hyst_run f c ts) = (c', Some p)"
    and "fp_k p < fp_k (fc_current (hyst_run f c ts))"
  shows "\<exists>pre suf. ts @ [(now, cand)] = pre @ suf \<and> low_since (hyst_run f c ts) suf
       \<and> fec_k_down_dwell_s f \<le> s_of (now - fst (hd suf))"
proof -
  let ?c = "hyst_run f c ts"
  have p: "p = cand"
    using hysteresis_emits [of ?c cand now f] assms(2) by (simp add: emits_candidate_def)
  have held: "fec_k_down_dwell_s f \<le> s_of (now - (if fc_k_down_pending_since_us ?c = 0 then now
        else fc_k_down_pending_since_us ?c))"
    using assms(2,3) p by (simp add: hysteresis_step_def Let_def split: if_splits)
  have last: "low_since ?c [(now, cand)]" using assms(3) p by (simp add: low_since_def)
  show ?thesis
  proof (cases "fc_k_down_pending_since_us ?c = 0")
    case True
    then show ?thesis using held last by (intro exI [of _ ts] exI [of _ "[(now, cand)]"]) simp
  next
    case False
    from hyst_run_pending [OF assms(1) False] obtain pre suf where
      s: "ts = pre @ suf" "low_since ?c suf" "fst (hd suf) = fc_k_down_pending_since_us ?c" by blast
    then have "ts @ [(now, cand)] = pre @ (suf @ [(now, cand)]) \<and> low_since ?c (suf @ [(now, cand)])
        \<and> fec_k_down_dwell_s f \<le> s_of (now - fst (hd (suf @ [(now, cand)])))"
      using last held False by (simp add: low_since_def)
    then show ?thesis by blast
  qed
qed

lemma tenth_products: "fl32 (1/10) = 13421773/134217728" "fl32 (9/10) = 15099494/16777216"
    "fl32 (13421773/134217728 * 1000000) = 100000" "fl32 (15099494/16777216 * 1000000) = 900000"
  by code_simp+

lemma fps_feed_period:
  assumes "0 \<le> fe_ewma_period_us e \<and> fe_ewma_period_us e \<le> 1000000"
  shows "0 \<le> fe_ewma_period_us (fps_feed e t) \<and> fe_ewma_period_us (fps_feed e t) \<le> 1000000"
proof -
  let ?p = "fe_ewma_period_us e"
  have "f32_of_u64 dt \<le> 1000000 \<and>
      fl32 (fl32 (fl32 (1/10) * f32_of_u64 dt) + fl32 (fl32 (9/10) * ?p)) \<le> 1000000"
    if "dt \<le> 1000000" for dt
  proof -
    have "f32_of_u64 dt \<le> f32_of_u64 1000000" using that by (rule f32_of_u64_mono)
    also have "\<dots> = 1000000" using fl32_of_int [of 1000000] by (simp add: f32_of_u64_def)
    finally have d: "f32_of_u64 dt \<le> 1000000" .
    then have "fl32 (fl32 (1/10) * f32_of_u64 dt) \<le> fl32 (13421773/134217728 * 1000000)"
      unfolding tenth_products(1,2) by (intro f32.rnd_mono mult_left_mono) auto
    moreover have "fl32 (fl32 (9/10) * ?p) \<le> fl32 (15099494/16777216 * 1000000)"
      unfolding tenth_products(1,2) using assms by (intro f32.rnd_mono mult_left_mono) auto
    ultimately have "fl32 (fl32 (1/10) * f32_of_u64 dt) + fl32 (fl32 (9/10) * ?p) \<le> of_int 1000000"
      by (simp only: tenth_products)
    then have "fl32 (fl32 (fl32 (1/10) * f32_of_u64 dt) + fl32 (fl32 (9/10) * ?p)) \<le> of_int 1000000"
      by (rule f32.rnd_le_int) simp
    with d show ?thesis by simp
  qed
  moreover have "0 \<le> fl32 (fl32 (fl32 (1/10) * f32_of_u64 dt) + fl32 (fl32 (9/10) * ?p))" for dt
    unfolding tenth_products using assms
    by (intro f32.rnd_nonneg add_nonneg_nonneg mult_nonneg_nonneg) auto
  ultimately show ?thesis using assms by (auto simp: fps_feed_def Let_def not_less)
qed

text \<open>The frame-rate estimate.  Whatever timestamps arrive, the smoothed period lies between 0
  and one second, so the estimate is either 0 (not known yet) or at least one frame per second.\<close>

theorem fps_estimate_range:
  "0 \<le> fe_ewma_period_us (foldl fps_feed fps_init ts) \<and> fe_ewma_period_us (foldl fps_feed fps_init ts) \<le> 1000000
   \<and> (fps_get (foldl fps_feed fps_init ts) = 0 \<or> 1 \<le> fps_get (foldl fps_feed fps_init ts))"
proof -
  have p: "0 \<le> fe_ewma_period_us (foldl fps_feed fps_init ts) \<and> fe_ewma_period_us (foldl fps_feed fps_init ts) \<le> 1000000"
    by (induction ts rule: rev_induct) (simp_all add: fps_init_def fps_feed_period)
  then have "1 \<le> fps_get (foldl fps_feed fps_init ts)" if "0 < fe_ewma_period_us (foldl fps_feed fps_init ts)"
    using that by (auto simp: fps_get_def le_divide_eq intro!: f32.rnd_ge_one)
  with p show ?thesis by (auto simp: fps_get_def not_le)
qed

text \<open>A committed link in its settle grace: 40/50 committed, the bitrate falls from 8 to 2 Mbit/s.\<close>

definition settling :: controller where
  "settling = controller_init\<lparr>fc_start_us := 1, fc_have_current := True,
     fc_current := low_block 40 50, fc_bitrate_grace_until_us := 20000000,
     fc_last_committed_kbps := 8000\<rparr>"

lemma ring_expire_count: "hr_count (ring_expire r c) \<le> hr_count r"
proof (induction r c rule: ring_expire.induct)
  case (1 r c)
  then show ?case by (subst ring_expire.simps) auto
qed

lemma settling_floats:
  "fl32 (21 / 20) = 4404019 / 4194304" "fl32 (3 / 20) = 5033165 / 33554432"
  "fl32 (37580960665327 / 4294967296) = 8959999 / 1024" "fl32 (8959999 / 1480704) = 6345117 / 1048576"
  "fl32 (3638978295 / 16777216) = 14214759 / 65536" "fl32 (3681622425 / 65536) = 7190669 / 128"
  by code_simp+

lemma settling_k: "fp_k (fec_compute (8533333 / 1024) (fl32 (105/100)) fec_defaults 40) = 7"
proof -
  have "fp_packets_per_frame (fec_compute (8533333 / 1024) (fl32 (105/100)) fec_defaults 40) = 7"
    by (simp add: settling_floats fec_compute_def ppf_deadband_def Let_def ceiling_eq_iff)
  then show ?thesis unfolding fec_compute_k by (simp add: fec_k_of_def Let_def clamp_def)
qed

lemma settling_bytes: "ff_bytes fec_defaults 2000 30 = Some (8533333 / 1024)"
  by code_simp

lemma settling_emits:
  "\<exists>p. snd (fst (controller_update settling config_defaults 6000 ring_init 10000000 30 2000)) = Some p
       \<and> fp_k p = 7"
proof -
  let ?r = "ring_expire (ring_push ring_init 10000000 6000) (10000000 - us_of_d (fec_headroom_window_s fec_defaults))"
  have "hr_count ?r \<le> 1"
    using ring_expire_count [of "ring_push ring_init 10000000 6000"]
    by (simp add: ring_push_def ring_init_def RING_MAX_def)
  then have h: "compute_headroom ?r m lo hi = lo" for m lo hi by (simp add: compute_headroom_def)
  have f: "cfg_fec config_defaults = fec_defaults" by (simp add: config_defaults_def)
  define cand where "cand = fec_compute (8533333 / 1024) (fl32 (105/100)) fec_defaults 40"
  have cd: "controller_candidate fec_defaults (settling\<lparr>fc_avg_frame_size := a\<rparr>) (fl32 (105/100)) 2000 30 = (cand, True)" for a
    by (simp add: controller_candidate_def settling_bytes cand_def settling_def low_block_def)
  have k: "fp_k cand = 7" using settling_k by (simp add: cand_def)
  have "\<not> in_startup_grace fec_defaults settling 10000000"
    by (simp add: in_startup_grace_def settling_def us_of_def)
  moreover have "op_point_moved fec_defaults settling 2000"
  proof -
    have "fl32 (2000 * fl32 (15/100)) < 6000" by code_simp
    then show ?thesis by (simp add: op_point_moved_def settling_def mult.commute)
  qed
  ultimately have g: "snd (controller_gate fec_defaults 10000000 2000 True cand (settling\<lparr>fc_avg_frame_size := a\<rparr>)) = Some cand" for a
    using k by (simp add: controller_gate_def Let_def in_startup_grace_def op_point_moved_def)
      (simp add: settling_def low_block_def controller_init_def controller_commit_def)
  have hm: "fec_headroom_min fec_defaults = fl32 (105/100)" by (simp add: fec_defaults_def)
  have st: "fc_start_us settling \<noteq> 0" by (simp add: settling_def)
  have "snd (fst (controller_update settling config_defaults 6000 ring_init 10000000 30 2000)) = Some cand"
    unfolding controller_update_def Let_def f h hm using st cd g by simp
  with k show ?thesis by blast
qed


theorem fec_emission_changes_block_witness:
  "\<exists>p. snd (fst (controller_update settling config_defaults 6000 ring_init 10000000 30 2000)) = Some p
       \<and> (fp_k p, fp_n p) \<noteq> (40, 50)"
proof -
  from settling_emits obtain p where
    p: "snd (fst (controller_update settling config_defaults 6000 ring_init 10000000 30 2000)) = Some p"
    by blast
  have "fc_have_current settling" by (simp add: settling_def)
  from fec_emission_changes_block [OF p this] p show ?thesis
    by (simp add: settling_def low_block_def)
qed

definition dwell_start :: controller where
  "dwell_start = controller_init\<lparr>fc_have_current := True, fc_current := low_block 10 14\<rparr>"

lemma dwell_first: "hysteresis_step fec_defaults 1000000 (low_block 6 9) dwell_start
   = (dwell_start\<lparr>fc_k_down_pending_since_us := 1000000, fc_k_down_pending_target := 6\<rparr>, None)"
proof -
  have "s_of 0 = 0" by (simp add: s_of_def f32_of_u64_def)
  then show ?thesis
    by (simp add: hysteresis_step_def Let_def dwell_start_def low_block_def fec_defaults_def controller_init_def)
qed

theorem fec_decrease_dwell_witness:
  "\<exists>pre suf. [(1000000, low_block 6 9), (9000000, low_block 6 9)] = pre @ suf
     \<and> low_since (hyst_run fec_defaults dwell_start [(1000000, low_block 6 9)]) suf
     \<and> 8 \<le> s_of (9000000 - fst (hd suf))"
proof -
  have r: "hyst_run fec_defaults dwell_start [(1000000, low_block 6 9)]
      = dwell_start\<lparr>fc_k_down_pending_since_us := 1000000, fc_k_down_pending_target := 6\<rparr>"
    by (simp add: hyst_run_def dwell_first)
  have h: "s_of 8000000 = 8" using fl32_of_int [of 8000000] fl32_of_int [of 8]
    by (simp add: s_of_def f32_of_u64_def)
  have d: "fec_k_down_dwell_s fec_defaults = 8" by (simp add: fec_defaults_def)
  let ?c = "hyst_run fec_defaults dwell_start [(1000000, low_block 6 9)]"
  have "\<exists>c'. hysteresis_step fec_defaults 9000000 (low_block 6 9) ?c = (c', Some (low_block 6 9))"
    unfolding r
    by (simp add: hysteresis_step_def Let_def h d)
      (simp add: dwell_start_def low_block_def controller_commit_def)
  then obtain c' where
    s: "hysteresis_step fec_defaults 9000000 (low_block 6 9) ?c = (c', Some (low_block 6 9))" by blast
  have "fp_k (low_block 6 9) < fp_k (fc_current ?c)" unfolding r by (simp add: dwell_start_def low_block_def)
  from fec_decrease_dwell [OF _ s this] show ?thesis
    by (simp add: d) (simp add: dwell_start_def controller_init_def)
qed
end
