(* ===== verification/RadioBudget.thy ===== *)
theory RadioBudget
  imports FecController
begin

text \<open>
  The link budget of \<open>vehicle/link_controller.c\<close>: the PHY rate tables, the observed radio state,
  the payload tiers and the airtime ceiling, and \<open>bitrate_assert\<close>, which turns them into one venc
  write; then the handler of wfb\_tx's statistics datagrams.  \<open>bitrate_target\<close> is the
  computation of the target pair and \<open>bitrate_assert\<close> the decision to write it.
\<close>

section \<open>PHY rate\<close>

definition HT_20L :: "rat list" where
  "HT_20L = [13/2, 13, 39/2, 26, 39, 52, 117/2, 65]"

definition VHT_20L_EXT :: "rat list" where
  "VHT_20L_EXT = [13/2, 13, 39/2, 26, 39, 52, 117/2, 65, 78, fl32 (867/10)]"

definition phy_mbps :: "int \<Rightarrow> int \<Rightarrow> int \<Rightarrow> int \<Rightarrow> int \<Rightarrow> rat" where
  "phy_mbps mcs bw short_gi vht_mode vht_nss =
     (let vht = (vht_mode \<noteq> 0);
          i = nat (clamp 0 (if vht then 9 else 7) mcs);
          base = (if vht then VHT_20L_EXT ! i else HT_20L ! i);
          bw_scale = (if bw = 40 then fl32 (21/10) else if bw = 80 then 9/2
                      else if bw = 160 then 9 else 1);
          gi_scale = (if short_gi \<noteq> 0 then fl32 (10/9) else 1);
          nss = (if vht \<and> vht_nss > 0 then vht_nss else 1)
      in fl32 (fl32 (fl32 (base * bw_scale) * gi_scale) * fl32 (of_int nss)))"

record radio_state =
  rd_valid :: bool
  rd_short_gi :: int
  rd_bandwidth :: int
  rd_mcs :: int
  rd_vht_mode :: int
  rd_vht_nss :: int
  rd_stbc :: int
  rd_ldpc :: int
  rd_phy_mbps :: rat

definition radio_init :: radio_state where
  "radio_init = \<lparr> rd_valid = False, rd_short_gi = 0, rd_bandwidth = 0, rd_mcs = 0, rd_vht_mode = 0,
                  rd_vht_nss = 0, rd_stbc = 0, rd_ldpc = 0, rd_phy_mbps = 0 \<rparr>"

text \<open>\<open>radio_apply_observation\<close>; the logging-only flag \<open>from_self\<close> is dropped.\<close>

definition radio_apply_observation ::
  "radio_state \<Rightarrow> controller \<Rightarrow> lc_config \<Rightarrow> int \<Rightarrow> int \<Rightarrow> int \<Rightarrow> int \<Rightarrow> int \<Rightarrow> int \<Rightarrow> int \<Rightarrow> u64
   \<Rightarrow> radio_state \<times> controller" where
  "radio_apply_observation radio ctrl cfg mcs bw gi stbc ldpc vht_mode vht_nss now =
     (let radio' = \<lparr> rd_valid = True, rd_short_gi = gi, rd_bandwidth = bw, rd_mcs = mcs,
                     rd_vht_mode = vht_mode, rd_vht_nss = vht_nss, rd_stbc = stbc, rd_ldpc = ldpc,
                     rd_phy_mbps = phy_mbps mcs bw gi vht_mode vht_nss \<rparr>;
          any_changed = (mcs \<noteq> rd_mcs radio \<or> bw \<noteq> rd_bandwidth radio \<or> gi \<noteq> rd_short_gi radio
                         \<or> vht_mode \<noteq> rd_vht_mode radio \<or> vht_nss \<noteq> rd_vht_nss radio)
      in (radio', if rd_valid radio \<and> any_changed \<and> fec_on (cfg_fec cfg)
                  then controller_arm_settle ctrl now (fec_mcs_settle_s (cfg_fec cfg)) else ctrl))"

text \<open>\<open>radio_track_external_fec\<close> on the pair \<open>(last_written_fec_k, last_written_fec_n)\<close>.\<close>

definition radio_track_external_fec :: "int \<Rightarrow> int \<Rightarrow> int \<times> int \<Rightarrow> int \<times> int" where
  "radio_track_external_fec obs_k obs_n lw = (if obs_k \<le> 0 \<or> obs_n \<le> 0 then lw else (obs_k, obs_n))"

section \<open>Payload tiers\<close>

definition PAYLOAD_TABLE :: "(int \<times> int) list" where
  "PAYLOAD_TABLE = [(2000, 800), (4000, 1000), (8000, 1200), (12000, 1400), (18000, 2000),
                    (25000, 2800), (LONG_MAX, 3200)]"

fun tier_payload :: "int \<Rightarrow> (int \<times> int) list \<Rightarrow> int option" where
  "tier_payload b [] = None"
| "tier_payload b ((lt, p) # ts) = (if b < lt then Some p else tier_payload b ts)"

definition payload_table_lookup :: "int \<Rightarrow> int" where
  "payload_table_lookup b =
     (case tier_payload b PAYLOAD_TABLE of Some p \<Rightarrow> p | None \<Rightarrow> snd (last PAYLOAD_TABLE))"

definition payload_safe_bitrate_kbps :: "int \<Rightarrow> int" where
  "payload_safe_bitrate_kbps payload =
     (let best = foldl (\<lambda>best (lt, p). if p \<le> payload \<and> lt > best then lt else best) (- 1) PAYLOAD_TABLE
      in if best < 0 then fst (hd PAYLOAD_TABLE) else best)"

text \<open>\<open>payload_select\<close>: the size and whether the table wanted more than the operator allows.\<close>

definition payload_select :: "fec_cfg \<Rightarrow> int \<Rightarrow> int \<times> bool" where
  "payload_select f target =
     (if fec_payload_max f \<le> 0 \<or> target \<le> 0 then (0, False)
      else let max_p0 = (if fec_payload_max f > 4000 then 4000 else fec_payload_max f);
               max_p = (if max_p0 < 576 then 576 else max_p0);
               min_p1 = clamp 576 4000 (fec_payload_min f);
               min_p = (if min_p1 > max_p then max_p else min_p1);
               pick = payload_table_lookup target;
               clipped = (pick > max_p);
               r = (if clipped then max_p else pick)
           in (if r < min_p then min_p else r, clipped))"

section \<open>Airtime\<close>

text \<open>All in \<open>double\<close>; \<open>1e-6\<close> is the literal's nearest binary64 value.\<close>

definition airtime_safe_bitrate_kbps :: "rat \<Rightarrow> int \<Rightarrow> int \<Rightarrow> int \<Rightarrow> int \<Rightarrow> int \<Rightarrow> int" where
  "airtime_safe_bitrate_kbps phy payload k n pct preamble_us =
     (if pct \<le> 0 \<or> phy \<le> 0 \<or> k \<le> 0 \<or> n \<le> 0 then - 1
      else let pl = (if payload < 1 then 1400 else payload);
               A = fl64 (of_int pct / 100);
               r = fl64 (of_int n / of_int k);
               phy_bps = fl64 (phy * 1000000);
               t_pre = fl64 (of_int preamble_us * fl64 (1 / 1000000));
               cost = fl64 (r * fl64 (fl64 (1 / phy_bps) + fl64 (t_pre / fl64 (8 * of_int pl))))
           in if cost \<le> 0 then - 1
              else let kbps = c_trunc (fl64 (fl64 (A / cost) / 1000)) in if kbps > 0 then kbps else 1)"

section \<open>The bitrate target\<close>

definition safe_kbps :: "fec_cfg \<Rightarrow> rat \<Rightarrow> int \<Rightarrow> int \<Rightarrow> int" where
  "safe_kbps f phy k n =
     (let post_fec = fl32 (fl32 (phy * 1000) * fl32 (fl32 (of_int k) / fl32 (of_int n)))
      in c_trunc (fl32 (post_fec * fec_safety_margin f)))"

definition envelope_kbps :: "fec_cfg \<Rightarrow> int \<Rightarrow> int" where
  "envelope_kbps f safe =
     (let t = (if fec_bitrate_max_kbps f > 0 \<and> safe > fec_bitrate_max_kbps f
               then fec_bitrate_max_kbps f else safe)
      in if t < fec_bitrate_min_kbps f then fec_bitrate_min_kbps f else t)"

definition pps_capped :: "fec_cfg \<Rightarrow> int \<Rightarrow> int \<times> int" where
  "pps_capped f target =
     (if fec_payload_max f > 0
      then let (pl, clipped) = payload_select f target;
               safe_pl = payload_safe_bitrate_kbps pl
           in if clipped \<and> pl > 0 \<and> safe_pl > 0 \<and> target > safe_pl
              then (if safe_pl < fec_bitrate_min_kbps f then fec_bitrate_min_kbps f else safe_pl, pl)
              else (target, pl)
      else (target, 0))"

definition airtime_capped :: "fec_cfg \<Rightarrow> rat \<Rightarrow> int \<Rightarrow> int \<Rightarrow> int \<Rightarrow> int \<Rightarrow> int" where
  "airtime_capped f phy k n pl target =
     (if fec_airtime_max_pct f > 0
      then let ac = airtime_safe_bitrate_kbps phy pl k n (fec_airtime_max_pct f)
                      (fec_airtime_preamble_us f)
           in if ac > 0 \<and> target > ac then ac else target
      else target)"

definition bitrate_target :: "fec_cfg \<Rightarrow> rat \<Rightarrow> int \<Rightarrow> int \<Rightarrow> int \<times> int" where
  "bitrate_target f phy k n =
     (let (t, pl) = pps_capped f (envelope_kbps f (safe_kbps f phy k n))
      in (airtime_capped f phy k n pl t, pl))"

section \<open>The write\<close>

text \<open>What was last written to venc; -1 before the first write.\<close>

record venc_written =
  vw_kbps :: int
  vw_payload :: int

definition up_locked :: "controller \<Rightarrow> u64 \<Rightarrow> bool" where
  "up_locked ctrl now = (fc_bitrate_up_lock_until_us ctrl \<noteq> 0 \<and> now < fc_bitrate_up_lock_until_us ctrl)"

text \<open>The deviation test against the tolerance band and the up-lock.\<close>

definition bitrate_changed :: "fec_cfg \<Rightarrow> controller \<Rightarrow> int \<Rightarrow> int \<Rightarrow> u64 \<Rightarrow> bool" where
  "bitrate_changed f ctrl target prev now =
     (let ref = (if prev > 0 then prev else 0);
          adev = \<bar>ref - target\<bar>;
          tol0 = c_trunc (fl64 (of_int target * fec_bitrate_tolerance f));
          tol = (if tol0 < 1 then 1 else tol0);
          changed = (prev < 0 \<or> adev > tol);
          would_increase = (prev > 0 \<and> target > prev)
      in changed \<and> \<not> (would_increase \<and> up_locked ctrl now))"

definition payload_changed :: "venc_written \<Rightarrow> int \<Rightarrow> bool" where
  "payload_changed vw pl = (pl > 0 \<and> pl \<noteq> vw_payload vw)"

definition mark_written :: "venc_written \<Rightarrow> int \<Rightarrow> int \<Rightarrow> venc_written" where
  "mark_written vw target pl =
     \<lparr> vw_kbps = target, vw_payload = (if payload_changed vw pl then pl else vw_payload vw) \<rparr>"

definition bitrate_assert ::
  "'w sysenv \<Rightarrow> radio_state \<Rightarrow> controller \<Rightarrow> lc_config \<Rightarrow> venc_written \<Rightarrow> u64 \<Rightarrow> 'w io
   \<Rightarrow> (controller \<times> venc_written) \<times> 'w io" where
  "bitrate_assert env radio ctrl cfg vw now s =
     (let f = cfg_fec cfg in
      if \<not> fec_on f \<or> \<not> rd_valid radio \<or> \<not> fc_have_current ctrl then ((ctrl, vw), s)
      else
        let (target, pl) = bitrate_target f (rd_phy_mbps radio)
                (fp_k (fc_current ctrl)) (fp_n (fc_current ctrl))
        in if bitrate_changed f ctrl target (vw_kbps vw) now then
             (let (vw', s') =
                    (if cfg_dry_run cfg then (mark_written vw target pl, s)
                     else let (ok, s1) = venc_apply env cfg target
                                           (if payload_changed vw pl then pl else - 1) s
                          in (if ok then mark_written vw target pl else vw, s1));
                  ctrl' = (if fec_bitrate_grace_s f > 0
                           then controller_arm_settle ctrl now (fec_bitrate_grace_s f) else ctrl)
              in ((ctrl', vw'), s'))
           else ((ctrl, vw), s))"

section \<open>Statistics datagrams\<close>

definition wfb_stats_handle_datagram ::
  "'w sysenv \<Rightarrow> lc_config \<Rightarrow> string \<Rightarrow> u64 \<Rightarrow>
   radio_state \<times> controller \<times> (int \<times> int) \<times> venc_written \<times> int \<Rightarrow> 'w io \<Rightarrow>
   bool \<times> (radio_state \<times> controller \<times> (int \<times> int) \<times> venc_written \<times> int) \<times> 'w io" where
  "wfb_stats_handle_datagram env cfg body now st s =
     (let (radio, ctrl, fec_kn, vw, last_seq) = st;
          get = json_get_int body
      in if \<not> has_sub body (quoted ''tx_stats'') then (False, st, s)
         else case (get ''mcs'', get ''bw'', get ''short_gi'', get ''stbc'', get ''ldpc'',
                    get ''vht_mode'', get ''vht_nss'') of
           (Some mcs, Some bw, Some gi, Some stbc, Some ldpc, Some vm, Some vn) \<Rightarrow>
             (let (radio1, ctrl1) = radio_apply_observation radio ctrl cfg mcs bw gi stbc ldpc vm vn now;
                  fec_kn1 = radio_track_external_fec (json_int_or (- 1) body ''fec_k'')
                              (json_int_or (- 1) body ''fec_n'') fec_kn;
                  ((ctrl2, vw1), s1) = bitrate_assert env radio1 ctrl1 cfg vw now s;
                  seq = json_int_or (- 1) body ''seq''
              in (True, (radio1, ctrl2, fec_kn1, vw1, if seq \<ge> 0 then seq else last_seq), s1))
         | _ \<Rightarrow> (False, st, s))"

section \<open>Payload facts\<close>

lemma tier_cases:
  "payload_table_lookup b = (if b < 2000 then 800 else if b < 4000 then 1000 else if b < 8000 then 1200
     else if b < 12000 then 1400 else if b < 18000 then 2000 else if b < 25000 then 2800 else 3200)"
  by (simp add: payload_table_lookup_def PAYLOAD_TABLE_def LONG_MAX_def)

lemma safe_bitrate_cases:
  "payload_safe_bitrate_kbps p = (if 3200 \<le> p then LONG_MAX else if 2800 \<le> p then 25000
     else if 2000 \<le> p then 18000 else if 1400 \<le> p then 12000 else if 1200 \<le> p then 8000
     else if 1000 \<le> p then 4000 else 2000)"
  by (simp add: payload_safe_bitrate_kbps_def PAYLOAD_TABLE_def LONG_MAX_def)

lemma payload_select_range:
  "fst (payload_select f t) = 0 \<and> snd (payload_select f t) = False
   \<or> 0 < fec_payload_max f \<and> 0 < t \<and> 576 \<le> fst (payload_select f t)
     \<and> fst (payload_select f t) \<le> max 576 (min 4000 (fec_payload_max f))"
  by (auto simp: payload_select_def clamp_def tier_cases Let_def)

lemma payload_select_unclipped:
  "0 < fec_payload_max f \<Longrightarrow> 0 < t \<Longrightarrow> \<not> snd (payload_select f t) \<Longrightarrow>
   payload_table_lookup t \<le> fst (payload_select f t)"
  by (auto simp: payload_select_def Let_def split: if_splits)

lemma pps_of_tier: "t \<le> 25000 \<Longrightarrow> payload_table_lookup t \<le> p \<Longrightarrow> t * 125 \<le> 1125 * p"
  by (auto simp: tier_cases split: if_splits)

lemma pps_of_safe: "576 \<le> p \<Longrightarrow> t \<le> 25000 \<Longrightarrow> t \<le> payload_safe_bitrate_kbps p \<Longrightarrow> t * 125 \<le> 1125 * p"
  by (auto simp: safe_bitrate_cases split: if_splits)

text \<open>
  The packet-rate budget: below the last tier, the pair chosen needs at most 1125 packets per
  second (\<open>kbps * 1000 / 8 / bytes\<close>), unless the operator's bitrate floor overrides it.
\<close>

lemma pps_capped_budget:
  assumes "pps_capped f t = (t', pl)" "0 < pl" "t' \<le> 25000" "fec_bitrate_min_kbps f < t'"
  shows "t' * 125 \<le> 1125 * pl"
proof -
  obtain c where sel: "payload_select f t = (pl, c)" and pos: "0 < fec_payload_max f"
    using assms(1,2) by (auto simp: pps_capped_def Let_def split: if_splits prod.splits)
  from payload_select_range [of f t] sel assms(2) have r: "0 < t" "576 \<le> pl" by auto
  show ?thesis
  proof (cases c)
    case True
    then have "t' \<le> payload_safe_bitrate_kbps pl"
      using assms(1,2,4) sel pos by (auto simp: pps_capped_def Let_def safe_bitrate_cases LONG_MAX_def split: if_splits)
    with assms(3) r show ?thesis by (intro pps_of_safe)
  next
    case False
    then have "t' = t" using assms(1) sel pos by (simp add: pps_capped_def)
    moreover have "payload_table_lookup t \<le> pl"
      using payload_select_unclipped [OF pos r(1)] sel False by simp
    ultimately show ?thesis using assms(3) by (intro pps_of_tier) auto
  qed
qed

section \<open>Target facts\<close>

lemma envelope_range:
  "fec_bitrate_min_kbps f \<le> envelope_kbps f s"
  "0 < fec_bitrate_max_kbps f \<Longrightarrow> fec_bitrate_min_kbps f \<le> fec_bitrate_max_kbps f \<Longrightarrow>
   envelope_kbps f s \<le> fec_bitrate_max_kbps f"
  "fec_bitrate_min_kbps f \<le> s \<Longrightarrow> envelope_kbps f s \<le> s"
  by (auto simp: envelope_kbps_def Let_def)

lemma pps_capped_range:
  assumes "fec_bitrate_min_kbps f \<le> t"
  shows "fec_bitrate_min_kbps f \<le> fst (pps_capped f t) \<and> fst (pps_capped f t) \<le> t"
  using assms by (auto simp: pps_capped_def Let_def split: prod.splits)

lemma airtime_capped_le: "airtime_capped f phy k n pl t \<le> t"
  by (auto simp: airtime_capped_def Let_def)

lemma airtime_capped_cap:
  "0 < fec_airtime_max_pct f \<Longrightarrow>
   0 < airtime_safe_bitrate_kbps phy pl k n (fec_airtime_max_pct f) (fec_airtime_preamble_us f) \<Longrightarrow>
   airtime_capped f phy k n pl t
     \<le> airtime_safe_bitrate_kbps phy pl k n (fec_airtime_max_pct f) (fec_airtime_preamble_us f)"
  by (simp add: airtime_capped_def Let_def)

lemma airtime_capped_cases:
  "airtime_capped f phy k n pl t = t \<or>
   airtime_capped f phy k n pl t
     = airtime_safe_bitrate_kbps phy pl k n (fec_airtime_max_pct f) (fec_airtime_preamble_us f)"
  by (simp add: airtime_capped_def Let_def)

lemma bitrate_assert_emits [emitted]:
  assumes "bitrate_assert env radio ctrl cfg vw now s = ((ctrl', vw'), t)"
  shows "emits s t (\<lambda>e. \<exists>path. e = EvHttp (fec_venc_host (cfg_fec cfg)) (fec_venc_port (cfg_fec cfg)) path)"
  using assms
  by (auto simp: bitrate_assert_def Let_def split: prod.splits if_splits dest!: venc_apply_emits elim!: emits_mono)

section \<open>The airtime ceiling is sound\<close>

lemma airtime_cost_lower:
  fixes phy :: rat
  defines "l \<equiv> 1 - 1 / 2 ^ 53 :: rat"
  assumes phy: "1 \<le> phy" "phy \<le> 1000000" and kn: "1 \<le> k" "k \<le> 1000000" "1 \<le> n" "n \<le> 1000000"
    and pl: "1 \<le> pl" "pl \<le> 1000000" and pre: "0 \<le> pre" "pre \<le> 1000000"
  shows "of_int n / of_int k * (1 / (phy * 1000000) + of_int pre / 1000000 / of_int (8 * pl)) * l ^ 6
      \<le> fl64 (fl64 (of_int n / of_int k)
           * fl64 (fl64 (1 / fl64 (phy * 1000000))
                   + fl64 (fl64 (of_int pre * fl64 (1 / 1000000)) / fl64 (8 * of_int pl))))"
proof -
  have l: "1/2 \<le> l" "l \<le> 1" "0 < l" by (simp_all add: l_def)
  have dn: "x * l \<le> fl64 x" if "1 / 2 ^ 100 \<le> x" for x
    using fl64_relative(1) [of x] that by (simp add: l_def)
  have big: "1 / 2 ^ 100 \<le> x" if "1 / 10 ^ 24 \<le> x" for x :: rat
    using that by (rule order_trans [rotated]) simp
  let ?r = "of_int n / of_int k :: rat" and ?d = "1 / (phy * 1000000)"
  let ?q = "of_int pre / 1000000 / of_int (8 * pl) :: rat"
  have k': "1 \<le> (of_int k :: rat)" "(of_int k :: rat) \<le> 1000000" "1 \<le> (of_int n :: rat)"
    "1 \<le> (of_int pl :: rat)" "(of_int pl :: rat) \<le> 1000000" "0 \<le> (of_int pre :: rat)"
    using kn pl pre by simp_all
  have r: "?r * l \<le> fl64 ?r"
  proof (intro dn big)
    have "1 / 10 ^ 24 \<le> (1 :: rat) / 1000000" by simp
    also have "\<dots> \<le> ?r" using k' by (intro frac_le) auto
    finally show "1 / 10 ^ 24 \<le> ?r" .
  qed
  have ph: "1 \<le> fl64 (phy * 1000000)" using phy by (intro f64.rnd_ge_one) simp
  have phu: "fl64 (phy * 1000000) \<le> phy * 1000000 / l"
  proof -
    have "fl64 (phy * 1000000) \<le> phy * 1000000 * (1 + 1 / 2 ^ 53)"
    proof (intro fl64_relative(2) disjI2 big)
      have "1 / 10 ^ 24 \<le> (1 :: rat)" by simp
      then show "1 / 10 ^ 24 \<le> phy * 1000000" using phy by linarith
    qed
    also have "\<dots> \<le> phy * 1000000 * (1 / l)"
      using phy by (intro mult_left_mono) (simp_all add: l_def)
    finally show ?thesis by simp
  qed
  have d0: "1 / 10 ^ 24 \<le> ?d * l"
  proof -
    have "1 / 10 ^ 24 \<le> (1 / (1000000 * 1000000)) * (1/2 :: rat)" by simp
    also have "\<dots> \<le> ?d * l" using phy l by (intro mult_mono frac_le) auto
    finally show ?thesis .
  qed
  have d1: "?d * l \<le> 1 / fl64 (phy * 1000000)"
    using phu ph phy l by (simp add: field_simps)
  then have "?d * l * l \<le> fl64 (1 / fl64 (phy * 1000000))"
    using dn [OF big [OF order_trans [OF d0 d1]]] l mult_right_mono [OF d1, of l] by simp
  note d = this
  have q: "?q * l ^ 3 \<le> fl64 (fl64 (of_int pre * fl64 (1 / 1000000)) / fl64 (8 * of_int pl))"
  proof (cases "pre = 0")
    case False
    with pre have p1: "1 \<le> (of_int pre :: rat)" by simp
    have e: "fl64 (8 * of_int pl) = of_int (8 * pl)"
      using f64.rnd_of_int [of "8 * pl"] pl by simp
    have m: "1 / 1000000 * l \<le> fl64 (1 / 1000000)" by (intro dn) simp
    have mh: "1 / 2000000 \<le> fl64 (1 / 1000000)"
      using m l by (intro order_trans [OF _ m]) simp
    have "1 / 2000000 \<le> of_int pre * fl64 (1 / 1000000)"
      using mult_mono [OF p1 mh] p1 by simp
    then have "of_int pre * fl64 (1 / 1000000) * l \<le> fl64 (of_int pre * fl64 (1 / 1000000))"
      by (intro dn big) simp
    moreover have "of_int pre / 1000000 * l ^ 2 \<le> of_int pre * fl64 (1 / 1000000) * l"
      using mult_left_mono [OF m, of "of_int pre * l"] p1 l by (simp add: power2_eq_square ac_simps)
    ultimately have t: "of_int pre / 1000000 * l ^ 2 \<le> fl64 (of_int pre * fl64 (1 / 1000000))" by simp
    have s: "?q * l ^ 2 \<le> fl64 (of_int pre * fl64 (1 / 1000000)) / of_int (8 * pl)"
      using divide_right_mono [OF t, of "of_int (8 * pl)"] k' by simp
    have "1 / 10 ^ 24 \<le> 1 / 1000000 / 8000000 * (1/4 :: rat)" by simp
    also have "\<dots> \<le> ?q * l ^ 2"
    proof (rule mult_mono)
      show "1 / 1000000 / 8000000 \<le> ?q" using p1 k' by (intro frac_le) auto
      show "1/4 \<le> l ^ 2" using power_mono [OF l(1), of 2] by (simp add: power2_eq_square)
    qed (use p1 k' in auto)
    finally have "1 / 10 ^ 24 \<le> fl64 (of_int pre * fl64 (1 / 1000000)) / of_int (8 * pl)"
      using s by (rule order_trans)
    from dn [OF big [OF this]] mult_right_mono [OF s, of l] l show ?thesis
      by (simp add: e power3_eq_cube power2_eq_square mult.assoc)
  qed simp
  let ?S = "fl64 (1 / fl64 (phy * 1000000)) + fl64 (fl64 (of_int pre * fl64 (1 / 1000000)) / fl64 (8 * of_int pl))"
  have q0: "0 \<le> ?q" using k' by simp
  have dp: "1 / 1000000000000 \<le> ?d" using phy by (simp add: field_simps)
  have "(?d + ?q) * l ^ 3 = ?d * l * l * l + ?q * l ^ 3" by (simp add: algebra_simps power3_eq_cube)
  also have "\<dots> \<le> ?d * l * l + ?q * l ^ 3"
    using mult_left_mono [OF l(2), of "?d * l * l"] phy l by simp
  also have "\<dots> \<le> ?S" using d q by (rule add_mono)
  finally have S: "(?d + ?q) * l ^ 3 \<le> ?S" .
  have l3: "1/8 \<le> l ^ 3" "1/16 \<le> l ^ 4" using power_mono [OF l(1), of 3] power_mono [OF l(1), of 4]
    by (simp_all add: power3_eq_cube power4_eq_xxxx)
  have "1 / 10 ^ 24 \<le> 1 / 1000000000000 * (1/8 :: rat)" by simp
  also have "\<dots> \<le> (?d + ?q) * l ^ 3" using dp q0 l3 by (intro mult_mono) auto
  also note S
  finally have fS: "?S * l \<le> fl64 ?S" by (intro dn big)
  have "(?d + ?q) * l ^ 4 = (?d + ?q) * l ^ 3 * l" by (simp only: power4_eq_xxxx power3_eq_cube mult.assoc)
  also have "\<dots> \<le> ?S * l" by (rule mult_right_mono [OF S]) (use l in simp)
  finally have T: "(?d + ?q) * l ^ 4 \<le> fl64 ?S" using fS by (rule order_trans)
  have rT: "?r * l * ((?d + ?q) * l ^ 4) \<le> fl64 ?r * fl64 ?S"
  proof (rule mult_mono [OF r T])
    show "0 \<le> fl64 ?r" using k' by (intro f64.rnd_nonneg) simp
    show "0 \<le> (?d + ?q) * l ^ 4" using dp q0 l by simp
  qed
  have dq0: "0 \<le> ?d + ?q" using dp q0 by linarith
  have "1 / 10 ^ 24 \<le> 1 / 1000000 * (1/2) * (1 / 1000000000000 * (1/16) :: rat)" by simp
  also have "\<dots> \<le> ?r * l * ((?d + ?q) * l ^ 4)"
  proof (intro mult_mono)
    show "1 / 1000000 \<le> ?r" using k' by (intro frac_le) auto
    show "1 / 1000000000000 \<le> ?d + ?q" using dp q0 by simp
    show "0 \<le> ?d + ?q" by (rule dq0)
    show "1/16 \<le> l ^ 4" "1/2 \<le> l" by (rule l3 l)+
  qed (use k' in \<open>simp_all add: l(3) less_imp_le\<close>)
  also note rT
  finally have fT: "fl64 ?r * fl64 ?S * l \<le> fl64 (fl64 ?r * fl64 ?S)" by (intro dn big)
  have "x * y * l ^ 6 = x * l * (y * l ^ 4) * l" for x y
    using power_add [of l 4 2] by (simp add: power2_eq_square)
  then have "?r * (?d + ?q) * l ^ 6 = ?r * l * ((?d + ?q) * l ^ 4) * l" .
  also have "\<dots> \<le> fl64 ?r * fl64 ?S * l" by (rule mult_right_mono [OF rT]) (use l in simp)
  finally show ?thesis using fT by (rule order_trans)
qed


text \<open>
  The share of the channel a bitrate occupies: coded data bits plus one preamble per packet.
\<close>

definition airtime_share :: "int \<Rightarrow> rat \<Rightarrow> int \<Rightarrow> int \<Rightarrow> int \<Rightarrow> int \<Rightarrow> rat" where
  "airtime_share kbps phy payload k n preamble_us =
     of_int kbps * 1000 * (of_int n / of_int k)
       * (1 / (phy * 1000000) + of_int preamble_us / 1000000 / of_int (8 * payload))"

lemma airtime_cap_sound:
  assumes cap: "1 < airtime_safe_bitrate_kbps phy pl k n pct pre"
    and phy: "1 \<le> phy" "phy \<le> 1000000" and kn: "1 \<le> k" "k \<le> 1000000" "1 \<le> n" "n \<le> 1000000"
    and pl: "1 \<le> pl" "pl \<le> 1000000" and pre: "0 \<le> pre" "pre \<le> 1000000"
    and pct: "1 \<le> pct" "pct \<le> 100"
  shows "airtime_share (airtime_safe_bitrate_kbps phy pl k n pct pre) phy pl k n pre
         \<le> of_int pct / 100 * (1 + 1 / 10 ^ 14)"
proof -
  define l where "l = (1 - 1 / 2 ^ 53 :: rat)"
  define u where "u = (1 + 1 / 2 ^ 53 :: rat)"
  define cost where "cost = fl64 (fl64 (of_int n / of_int k)
           * fl64 (fl64 (1 / fl64 (phy * 1000000))
                   + fl64 (fl64 (of_int pre * fl64 (1 / 1000000)) / fl64 (8 * of_int pl))))"
  define A where "A = fl64 (of_int pct / 100)"
  define ex where "ex = of_int n / of_int k * (1 / (phy * 1000000) + of_int pre / 1000000 / of_int (8 * pl))"
  have l: "0 < l" and u: "0 < u" "1 \<le> u" by (simp_all add: l_def u_def)
  have up: "fl64 x \<le> x * u" if "1 / 10 ^ 24 \<le> x" for x
    unfolding u_def using that by (intro fl64_relative(2) disjI2) (rule order_trans [rotated], assumption, simp)
  have ex: "ex * l ^ 6 \<le> cost" "0 < ex"
    using airtime_cost_lower [OF phy kn pl pre] phy kn pl pre
    by (simp_all add: ex_def cost_def l_def add_pos_nonneg)
  then have c0: "0 < cost" using l by (intro less_le_trans [OF _ ex(1)]) simp
  define y where "y = fl64 (fl64 (A / cost) / 1000)"
  have cy: "airtime_safe_bitrate_kbps phy pl k n pct pre = c_trunc y"
    using cap phy kn pl pct c0
    by (simp add: airtime_safe_bitrate_kbps_def Let_def y_def A_def cost_def split: if_splits)
  have y0: "0 \<le> y" using cap cy c_trunc_mono [of y 0] c_trunc_of_int [of 0] by force
  have y1: "1 \<le> y" using c_trunc_le [OF y0] cap cy by linarith
  have half: "fl64 (1/2) = 1/2" by code_simp
  have gt: "1/2 < x" if "1 \<le> fl64 x" for x
    using f64.rnd_mono [of x "1/2"] that half by (cases "1/2 < x") auto
  have tiny: "1 / 10 ^ 24 \<le> x" if "1/2 < x" for x :: rat
    using that by (rule less_imp_le [OF le_less_trans, rotated]) simp
  have z1: "1/2 < fl64 (A / cost) / 1000" using y1 by (intro gt) (simp add: y_def)
  then have "1 \<le> fl64 (A / cost)" by simp
  then have a1: "1/2 < A / cost" by (rule gt)
  have "y * 1000 \<le> fl64 (A / cost) * u"
    using up [OF tiny [OF z1]] by (simp add: y_def)
  also have "\<dots> \<le> A / cost * u * u" using up [OF tiny [OF a1]] u by (intro mult_right_mono) auto
  also have "\<dots> \<le> of_int pct / 100 * u / cost * u * u"
  proof -
    have "(1 :: rat) / 10 ^ 24 \<le> 1 / 100" by simp
    also have "\<dots> \<le> of_int pct / 100" using pct by simp
    finally have "A \<le> of_int pct / 100 * u" unfolding A_def by (rule up)
    then show ?thesis using c0 u by (intro mult_right_mono divide_right_mono) auto
  qed
  finally have yu: "y * 1000 * cost \<le> of_int pct / 100 * u ^ 3"
    using c0 by (simp add: field_simps power3_eq_cube)
  have "of_int (c_trunc y) * 1000 * ex * l ^ 6 \<le> y * 1000 * cost"
    using c_trunc_le [OF y0] ex l y0 by (simp only: mult.assoc) (intro mult_mono, auto)
  also note yu
  also have "of_int pct / 100 * u ^ 3 \<le> of_int pct / 100 * ((1 + 1 / 10 ^ 14) * l ^ 6)"
  proof (rule mult_left_mono)
    show "u ^ 3 \<le> (1 + 1 / 10 ^ 14) * l ^ 6" unfolding l_def u_def by code_simp
  qed (use pct in simp)
  finally have "of_int (c_trunc y) * 1000 * ex \<le> of_int pct / 100 * (1 + 1 / 10 ^ 14)"
    using l by (simp add: mult.assoc [symmetric])
  then show ?thesis by (simp add: cy airtime_share_def ex_def mult.assoc)
qed

lemma airtime_cap_pos:
  assumes "1 \<le> phy" "phy \<le> 1000000" "1 \<le> k" "k \<le> 1000000" "1 \<le> n" "n \<le> 1000000"
    "1 \<le> pl" "pl \<le> 1000000" "0 \<le> pre" "pre \<le> 1000000" "1 \<le> pct"
  shows "1 \<le> airtime_safe_bitrate_kbps phy pl k n pct pre"
proof -
  have "0 < of_int n / of_int k * (1 / (phy * 1000000) + of_int pre / 1000000 / of_int (8 * pl))
      * (1 - 1 / 2 ^ 53) ^ 6"
    using assms by (intro mult_pos_pos zero_less_power add_pos_nonneg) simp_all
  then have "0 < fl64 (fl64 (of_int n / of_int k)
           * fl64 (fl64 (1 / fl64 (phy * 1000000))
                   + fl64 (fl64 (of_int pre * fl64 (1 / 1000000)) / fl64 (8 * of_int pl))))"
    by (rule less_le_trans [OF _ airtime_cost_lower [OF assms(1-10)]])
  then show ?thesis using assms by (simp add: airtime_safe_bitrate_kbps_def Let_def)
qed

lemma airtime_share_mono:
  assumes "j \<le> kbps" "0 < phy" "1 \<le> k" "1 \<le> n" "1 \<le> pl" "0 \<le> pre"
  shows "airtime_share j phy pl k n pre \<le> airtime_share kbps phy pl k n pre"
  using assms unfolding airtime_share_def
  by (intro mult_right_mono add_nonneg_nonneg) simp_all

lemma pps_capped_payload:
  "pps_capped f t = (t', pl) \<Longrightarrow> pl = 0 \<or> 576 \<le> pl \<and> pl \<le> 4000"
  using payload_select_range [of f t] by (auto simp: pps_capped_def Let_def split: if_splits prod.splits)

section \<open>Properties\<close>

text \<open>C22: the airtime guard holds for real.  With the guard on, the bitrate the controller asks
  the encoder for occupies at most the configured share of the channel (coded data plus per-packet
  preambles, as exact rationals; the double arithmetic of the source costs at most a factor
  \<open>1 + 10^-14\<close>), or it is the 1 kbit/s floor.\<close>

theorem airtime_guard_sound:
  assumes "bitrate_target f phy k n = (t, pl)"
    and "1 \<le> fec_airtime_max_pct f" "fec_airtime_max_pct f \<le> 100"
    and "0 \<le> fec_airtime_preamble_us f" "fec_airtime_preamble_us f \<le> 1000000"
    and "1 \<le> phy" "phy \<le> 1000000" "1 \<le> k" "k \<le> 1000000" "1 \<le> n" "n \<le> 1000000"
  shows "t \<le> 1 \<or> airtime_share t phy (if pl < 1 then 1400 else pl) k n (fec_airtime_preamble_us f)
                  \<le> of_int (fec_airtime_max_pct f) / 100 * (1 + 1 / 10 ^ 14)"
proof -
  let ?pl = "if pl < 1 then 1400 else pl" and ?pct = "fec_airtime_max_pct f"
    and ?pre = "fec_airtime_preamble_us f"
  obtain t0 where t0: "pps_capped f (envelope_kbps f (safe_kbps f phy k n)) = (t0, pl)"
    and t: "t = airtime_capped f phy k n pl t0"
    using assms(1) by (auto simp: bitrate_target_def split: prod.splits)
  from pps_capped_payload [OF t0] have p: "1 \<le> ?pl" "?pl \<le> 1000000" by auto
  have e: "airtime_safe_bitrate_kbps phy pl k n ?pct ?pre = airtime_safe_bitrate_kbps phy ?pl k n ?pct ?pre"
    by (simp add: airtime_safe_bitrate_kbps_def)
  have pos: "1 \<le> airtime_safe_bitrate_kbps phy ?pl k n ?pct ?pre"
    using assms p by (intro airtime_cap_pos) auto
  then have le: "t \<le> airtime_safe_bitrate_kbps phy ?pl k n ?pct ?pre"
    using airtime_capped_cap [of f phy pl k n t0] assms(2) by (simp add: t e)
  show ?thesis
  proof (cases "airtime_safe_bitrate_kbps phy ?pl k n ?pct ?pre = 1")
    case False
    then have "airtime_share t phy ?pl k n ?pre
        \<le> airtime_share (airtime_safe_bitrate_kbps phy ?pl k n ?pct ?pre) phy ?pl k n ?pre"
      using le p assms by (intro airtime_share_mono) auto
    also have "\<dots> \<le> of_int ?pct / 100 * (1 + 1 / 10 ^ 14)"
      using False pos p assms by (intro airtime_cap_sound) auto
    finally show ?thesis by simp
  qed (use le in simp)
qed

text \<open>The target's range.  The bitrate asked for is at least the operator's floor unless the
  airtime ceiling, a physical limit, is lower; it never exceeds the operator's maximum (when the
  floor does not), and a payload size, when one is chosen, is between the encoder's 576 byte floor and
  the operator's maximum or 4000.\<close>

theorem bitrate_target_range:
  assumes "bitrate_target f phy k n = (t, pl)"
  shows "(fec_bitrate_min_kbps f \<le> t
          \<or> t = airtime_safe_bitrate_kbps phy pl k n (fec_airtime_max_pct f) (fec_airtime_preamble_us f))
       \<and> t \<le> max (fec_bitrate_min_kbps f) (safe_kbps f phy k n)
       \<and> (fec_bitrate_max_kbps f \<le> 0 \<or> t \<le> max (fec_bitrate_min_kbps f) (fec_bitrate_max_kbps f))
       \<and> (pl = 0 \<or> 576 \<le> pl \<and> pl \<le> max 576 (min 4000 (fec_payload_max f)))"
proof -
  let ?e = "envelope_kbps f (safe_kbps f phy k n)"
  obtain t0 where t0: "pps_capped f ?e = (t0, pl)" and t: "t = airtime_capped f phy k n pl t0"
    using assms by (auto simp: bitrate_target_def split: prod.splits)
  have t0r: "fec_bitrate_min_kbps f \<le> t0" "t0 \<le> ?e"
    using pps_capped_range [OF envelope_range(1)] t0 by (metis fst_conv)+
  have le: "t \<le> ?e" using airtime_capped_le t t0r(2) by (metis order_trans)
  have lo: "fec_bitrate_min_kbps f \<le> t
          \<or> t = airtime_safe_bitrate_kbps phy pl k n (fec_airtime_max_pct f) (fec_airtime_preamble_us f)"
    using airtime_capped_cases [of f phy k n pl t0] t t0r(1) by auto
  have "?e \<le> max (fec_bitrate_min_kbps f) (safe_kbps f phy k n)"
    "fec_bitrate_max_kbps f \<le> 0 \<or> ?e \<le> max (fec_bitrate_min_kbps f) (fec_bitrate_max_kbps f)"
    by (auto simp: envelope_kbps_def Let_def)
  moreover have "pl = 0 \<or> 576 \<le> pl \<and> pl \<le> max 576 (min 4000 (fec_payload_max f))"
    using payload_select_range [of f ?e] t0 by (auto simp: pps_capped_def Let_def split: if_splits prod.splits)
  ultimately show ?thesis using le lo by (auto intro: order_trans)
qed

text \<open>The packet-rate budget.  Below the table's last tier, the bitrate and payload the
  controller asks for never need more than 1125 packets per second, also when the operator pins a
  small payload; only the operator's bitrate floor can override it.\<close>

theorem payload_pps_budget:
  assumes "bitrate_target f phy k n = (t, pl)" "0 < pl" "fec_bitrate_min_kbps f < t"
    and "safe_kbps f phy k n \<le> 25000"
  shows "t * 1000 \<le> 1125 * (8 * pl)"
proof -
  let ?e = "envelope_kbps f (safe_kbps f phy k n)"
  obtain t0 where t0: "pps_capped f ?e = (t0, pl)" and t: "t = airtime_capped f phy k n pl t0"
    using assms by (auto simp: bitrate_target_def split: prod.splits)
  have "t \<le> t0" unfolding t by (rule airtime_capped_le)
  moreover have "t0 \<le> ?e" using pps_capped_range [OF envelope_range(1)] t0 by (metis fst_conv)
  moreover have "?e \<le> max (fec_bitrate_min_kbps f) (safe_kbps f phy k n)"
    by (auto simp: envelope_kbps_def Let_def)
  ultimately have "t0 \<le> 25000" "fec_bitrate_min_kbps f < t0" using assms(3,4) by auto
  then have "t0 * 125 \<le> 1125 * pl" using pps_capped_budget [OF t0 assms(2)] by blast
  with \<open>t \<le> t0\<close> show ?thesis by linarith
qed

lemma bitrate_assert_cases:
  assumes "bitrate_assert env radio ctrl cfg vw now s = ((ctrl', vw'), s')"
  obtains (quiet) "s' = s" "vw' = vw" "ctrl' = ctrl"
  | (dry) t pl where "bitrate_target (cfg_fec cfg) (rd_phy_mbps radio) (fp_k (fc_current ctrl))
        (fp_n (fc_current ctrl)) = (t, pl)" "cfg_dry_run cfg"
      "bitrate_changed (cfg_fec cfg) ctrl t (vw_kbps vw) now" "s' = s" "vw' = mark_written vw t pl"
  | (sent) t pl ok where "bitrate_target (cfg_fec cfg) (rd_phy_mbps radio) (fp_k (fc_current ctrl))
        (fp_n (fc_current ctrl)) = (t, pl)" "\<not> cfg_dry_run cfg"
      "bitrate_changed (cfg_fec cfg) ctrl t (vw_kbps vw) now"
      "venc_apply env cfg t (if payload_changed vw pl then pl else - 1) s = (ok, s')"
      "vw' = (if ok then mark_written vw t pl else vw)"
proof -
  obtain t pl where t: "bitrate_target (cfg_fec cfg) (rd_phy_mbps radio) (fp_k (fc_current ctrl))
      (fp_n (fc_current ctrl)) = (t, pl)" by fastforce
  obtain ok s1 where v: "venc_apply env cfg t (if payload_changed vw pl then pl else - 1) s = (ok, s1)"
    by fastforce
  show thesis
  proof (cases "fec_on (cfg_fec cfg) \<and> rd_valid radio \<and> fc_have_current ctrl
      \<and> bitrate_changed (cfg_fec cfg) ctrl t (vw_kbps vw) now")
    case False
    then have "s' = s" "vw' = vw" "ctrl' = ctrl"
      using assms by (auto simp: bitrate_assert_def Let_def t split: if_splits)
    then show thesis by (rule quiet)
  next
    case True
    then have "cfg_dry_run cfg \<Longrightarrow> s' = s \<and> vw' = mark_written vw t pl"
      "\<not> cfg_dry_run cfg \<Longrightarrow> s' = s1 \<and> vw' = (if ok then mark_written vw t pl else vw)"
      using assms by (simp_all add: bitrate_assert_def Let_def t v)
    with True t v dry sent show thesis by blast
  qed
qed

lemma venc_apply_one_event:
  assumes "venc_apply env cfg t pl s = (True, s')"
  shows "\<exists>path. venc_path t pl = Some path \<and> io_trace s' = io_trace s
      @ [EvHttp (fec_venc_host (cfg_fec cfg)) (fec_venc_port (cfg_fec cfg)) path]"
  using assms
  by (auto simp: venc_apply_def http_get_def io_log_def Let_def split: option.splits prod.splits if_splits)

text \<open>Write discipline.  What the controller remembers as written to the encoder changes, outside
  dry-run, only by one acknowledged request that carries exactly the computed target, with the
  payload in the same request when it changes.\<close>

theorem bitrate_write_discipline:
  assumes "bitrate_assert env radio ctrl cfg vw now s = ((ctrl', vw'), s')" "\<not> cfg_dry_run cfg"
    and "vw' \<noteq> vw"
  shows "\<exists>t pl path. bitrate_target (cfg_fec cfg) (rd_phy_mbps radio) (fp_k (fc_current ctrl))
                  (fp_n (fc_current ctrl)) = (t, pl)
      \<and> venc_path t (if payload_changed vw pl then pl else - 1) = Some path
      \<and> io_trace s' = io_trace s
          @ [EvHttp (fec_venc_host (cfg_fec cfg)) (fec_venc_port (cfg_fec cfg)) path]
      \<and> vw_kbps vw' = t \<and> vw_payload vw' = (if payload_changed vw pl then pl else vw_payload vw)"
  using assms(1)
proof (cases rule: bitrate_assert_cases)
  case (sent t pl ok)
  with assms(3) have "venc_apply env cfg t (if payload_changed vw pl then pl else - 1) s = (True, s')"
    by (auto split: if_splits)
  from venc_apply_one_event [OF this] sent assms(3) show ?thesis
    by (auto simp: mark_written_def split: if_splits)
qed (use assms in auto)

text \<open>The up-lock.  While it is armed after an MCS drop, an assertion never raises the bitrate the
  encoder was told: neither the remembered value goes up nor is a request sent that would raise it.\<close>

theorem uplock_never_raises:
  assumes "bitrate_assert env radio ctrl cfg vw now s = ((ctrl', vw'), s')"
    and "up_locked ctrl now" "0 < vw_kbps vw"
  shows "vw_kbps vw' \<le> vw_kbps vw
    \<and> (io_trace s' = io_trace s \<or> fst (bitrate_target (cfg_fec cfg) (rd_phy_mbps radio)
          (fp_k (fc_current ctrl)) (fp_n (fc_current ctrl))) \<le> vw_kbps vw)"
proof -
  have le: "t \<le> vw_kbps vw" if "bitrate_changed (cfg_fec cfg) ctrl t (vw_kbps vw) now" for t
    using that assms(2,3) by (simp add: bitrate_changed_def Let_def)
  from assms(1) show ?thesis
    by (cases rule: bitrate_assert_cases) (auto simp: mark_written_def dest: le)
qed

text \<open>Assertions settle.  After a successful write, asserting again for the same radio and block
  sends nothing, as long as the target is positive: the deviation is zero.\<close>

theorem bitrate_assert_settles:
  assumes "bitrate_assert env radio ctrl cfg vw now s = ((ctrl', vw'), s')" "vw' \<noteq> vw" "0 \<le> vw_kbps vw'"
    and "fc_current ctrl2 = fc_current ctrl"
  shows "bitrate_assert env radio ctrl2 cfg vw' now2 s2 = ((ctrl2, vw'), s2)"
proof -
  have "vw_kbps vw' = fst (bitrate_target (cfg_fec cfg) (rd_phy_mbps radio) (fp_k (fc_current ctrl))
      (fp_n (fc_current ctrl)))"
    using assms(1)
  proof (cases rule: bitrate_assert_cases)
    case quiet
    then show ?thesis using assms(2) by simp
  next
    case (dry t pl)
    then show ?thesis by (simp add: mark_written_def)
  next
    case (sent t pl ok)
    then show ?thesis using assms(2) by (simp add: mark_written_def split: if_splits)
  qed
  then have "\<not> bitrate_changed (cfg_fec cfg) ctrl2 (vw_kbps vw') (vw_kbps vw') now2"
    using assms(3) by (simp add: bitrate_changed_def Let_def)
  moreover obtain t pl where "bitrate_target (cfg_fec cfg) (rd_phy_mbps radio)
      (fp_k (fc_current ctrl)) (fp_n (fc_current ctrl)) = (t, pl)" by fastforce
  ultimately show ?thesis
    using \<open>vw_kbps vw' = _\<close> assms(4) by (simp add: bitrate_assert_def Let_def)
qed

section \<open>Witnesses\<close>

text \<open>MCS 4 at 39 Mbit/s with a 4/6 block, nothing written yet.\<close>

definition demo_radio :: radio_state where
  "demo_radio = radio_init\<lparr>rd_valid := True, rd_mcs := 4, rd_bandwidth := 20, rd_phy_mbps := 39\<rparr>"

definition demo_ctrl :: controller where
  "demo_ctrl = controller_init\<lparr>fc_have_current := True, fc_current := low_block 4 6\<rparr>"

definition demo_vw :: venc_written where
  "demo_vw = \<lparr> vw_kbps = - 1, vw_payload = - 1 \<rparr>"

lemma demo_safe: "safe_kbps fec_defaults 39 4 6 = 13000"
  by code_simp

lemma demo_airtime_floats:
  "fl64 (4 / 5) = 3602879701896397 / 4503599627370496"
  "fl64 (3 / 2) = 3 / 2"
  "fl64 (1 / 1000000) = 4722366482869645 / 4722366482869645213696"
  "fl64 (23611832414348225 / 590295810358705651712) = 368934881474191 / 9223372036854775808"
  "fl64 (368934881474191 / 103301766812773489049600) = 8635184425818779 / 2417851639229258349412352"
  "fl64 (1 / 39000000) = 7749524484709161 / 302231454903657293676544"
  "fl64 (70631380303492067 / 2417851639229258349412352) = 2207230634484127 / 75557863725914323419136"
  "fl64 (6621691903452381 / 151115727451828646838272) = 6621691903452381 / 151115727451828646838272"
  "fl64 (120892581961462924181504 / 6621691903452381) = 4900840425529781 / 268435456"
  "fl64 (4900840425529781 / 268435456000) = 156826893616953 / 8589934592"
  by code_simp+

lemma demo_airtime: "airtime_safe_bitrate_kbps 39 0 4 6 80 40 = 18257"
  by (simp add: airtime_safe_bitrate_kbps_def Let_def demo_airtime_floats c_trunc_def floor_eq_iff)

lemma demo_target: "bitrate_target fec_defaults 39 4 6 = (13000, 0)"
  by (simp add: bitrate_target_def demo_safe envelope_kbps_def pps_capped_def airtime_capped_def
      demo_airtime Let_def)

theorem airtime_guard_sound_witness:
  "airtime_share 13000 39 1400 4 6 40 \<le> 80 / 100 * (1 + 1 / 10 ^ 14)"
  using airtime_guard_sound [OF demo_target] by simp

theorem bitrate_target_range_witness:
  "13000 \<le> max 2200 (safe_kbps fec_defaults 39 4 6) \<and> fec_bitrate_min_kbps fec_defaults \<le> (13000 :: int)"
  using bitrate_target_range [OF demo_target] by (simp add: demo_airtime)

text \<open>A pinned 1200 byte payload caps MCS 4's 13 Mbit/s at 8.\<close>

lemma pinned_target:
  "bitrate_target (fec_defaults\<lparr>fec_payload_max := 1200, fec_airtime_max_pct := 0\<rparr>) 39 4 6 = (8000, 1200)"
proof -
  have "safe_kbps (fec_defaults\<lparr>fec_payload_max := 1200, fec_airtime_max_pct := 0\<rparr>) 39 4 6 = 13000"
    using demo_safe by (simp add: safe_kbps_def)
  then show ?thesis
    by (simp add: bitrate_target_def envelope_kbps_def pps_capped_def payload_select_def tier_cases
        safe_bitrate_cases airtime_capped_def clamp_def Let_def)
qed

theorem payload_pps_budget_witness: "8000 * 1000 \<le> 1125 * (8 * (1200 :: int))
    \<and> fec_bitrate_min_kbps fec_defaults < 8000"
  using payload_pps_budget [OF pinned_target] demo_safe by (simp add: safe_kbps_def)

lemma demo_venc: "fst (venc_apply demo_env config_defaults 13000 (- 1) demo_io) = True"
proof -
  have l: "length (show_int 13000) = 5" "length (show_int 80) = 2"
    by (simp_all add: show_int_def show_nat.simps)
  then have "venc_path 13000 (- 1) = Some (''/api/v1/set?video0.bitrate='' @ show_int 13000)"
    by (simp add: venc_path_def Let_def)
  with l show ?thesis by (simp add: demo_venc_apply http_request_def crlf_def)
qed

lemma demo_assert:
  "snd (fst (bitrate_assert demo_env demo_radio demo_ctrl config_defaults demo_vw 1000000 demo_io))
   = \<lparr> vw_kbps = 13000, vw_payload = - 1 \<rparr>"
proof -
  have b: "bitrate_changed fec_defaults demo_ctrl 13000 (- 1) 1000000"
    by (simp add: bitrate_changed_def Let_def)
  obtain s1 where v: "venc_apply demo_env config_defaults 13000 (- 1) demo_io = (True, s1)"
    using demo_venc by (metis prod.collapse)
  have p: "\<not> payload_changed demo_vw 0" by (simp add: payload_changed_def)
  have "fp_k (fc_current demo_ctrl) = 4" "fp_n (fc_current demo_ctrl) = 6" "fc_have_current demo_ctrl"
    "rd_valid demo_radio" "rd_phy_mbps demo_radio = 39" "vw_kbps demo_vw = - 1" "vw_payload demo_vw = - 1"
    by (simp_all add: demo_ctrl_def demo_radio_def demo_vw_def low_block_def)
  then show ?thesis
    by (simp add: bitrate_assert_def Let_def demo_target b v p mark_written_def)
qed

theorem bitrate_write_discipline_witness:
  "\<exists>path. venc_path 13000 (- 1) = Some path
     \<and> io_trace (snd (bitrate_assert demo_env demo_radio demo_ctrl config_defaults demo_vw 1000000 demo_io))
       = io_trace demo_io @ [EvHttp ''127.0.0.1'' 80 path]"
proof -
  obtain c vw s where a: "bitrate_assert demo_env demo_radio demo_ctrl config_defaults demo_vw 1000000 demo_io
      = ((c, vw), s)" by (metis prod.collapse)
  with demo_assert have vw: "vw = \<lparr> vw_kbps = 13000, vw_payload = - 1 \<rparr>" by simp
  have "vw \<noteq> demo_vw" by (simp add: vw demo_vw_def)
  have t: "bitrate_target fec_defaults (rd_phy_mbps demo_radio)
      (fp_k (fc_current demo_ctrl)) (fp_n (fc_current demo_ctrl)) = (13000, 0)"
    using demo_target by (simp add: demo_radio_def demo_ctrl_def low_block_def)
  from bitrate_write_discipline [OF a _ \<open>vw \<noteq> demo_vw\<close>] show ?thesis
    by (auto simp: a t payload_changed_def)
qed

definition locked_ctrl :: controller where
  "locked_ctrl = demo_ctrl\<lparr>fc_bitrate_up_lock_until_us := 9000000\<rparr>"

theorem uplock_never_raises_witness:
  "vw_kbps (snd (fst (bitrate_assert demo_env demo_radio locked_ctrl config_defaults
      \<lparr> vw_kbps = 5000, vw_payload = - 1 \<rparr> 1000000 demo_io))) \<le> 5000 \<and> up_locked locked_ctrl 1000000"
proof -
  let ?vw = "\<lparr> vw_kbps = 5000, vw_payload = - 1 \<rparr> :: venc_written"
  have u: "up_locked locked_ctrl 1000000" by (simp add: up_locked_def locked_ctrl_def)
  obtain c vw s where a: "bitrate_assert demo_env demo_radio locked_ctrl config_defaults ?vw 1000000 demo_io
      = ((c, vw), s)" by (metis prod.collapse)
  from uplock_never_raises [OF a u] u show ?thesis by (simp add: a)
qed

theorem bitrate_assert_settles_witness:
  "snd (bitrate_assert demo_env demo_radio demo_ctrl config_defaults \<lparr> vw_kbps = 13000, vw_payload = - 1 \<rparr>
      2000000 demo_io) = demo_io"
proof -
  obtain c vw s where a: "bitrate_assert demo_env demo_radio demo_ctrl config_defaults demo_vw 1000000 demo_io
      = ((c, vw), s)" by (metis prod.collapse)
  with demo_assert have vw: "vw = \<lparr> vw_kbps = 13000, vw_payload = - 1 \<rparr>" by simp
  have n: "vw \<noteq> demo_vw" "0 \<le> vw_kbps vw" by (simp_all add: vw demo_vw_def)
  from bitrate_assert_settles [OF a n refl] show ?thesis by (simp add: vw)
qed

end
