(* ===== verification/McsCommit.thy ===== *)
theory McsCommit
  imports RadioBudget
begin

text \<open>
  The ordered commit of an MCS change (\<open>commit_mcs_change\<close> and its helpers in
  \<open>vehicle/link_controller.c\<close>).  A drop first writes the bitrate the slower rate can carry to the
  encoder, arms the up-lock and defers the radio write to a deadline; a raise writes the radio at
  once and holds the bitrate increase.
\<close>

record pending_mcs_down =
  pd_active :: bool
  pd_deadline_us :: u64
  pd_target_mcs :: int
  pd_radio :: radio_body

definition pending_mcs_clear :: "pending_mcs_down \<Rightarrow> pending_mcs_down" where
  "pending_mcs_clear p = p\<lparr>pd_active := False, pd_deadline_us := 0, pd_target_mcs := - 1\<rparr>"

definition future_radio :: "radio_state \<Rightarrow> int \<Rightarrow> radio_state" where
  "future_radio radio new_mcs =
     radio\<lparr>rd_mcs := new_mcs,
           rd_phy_mbps := phy_mbps new_mcs (rd_bandwidth radio) (rd_short_gi radio)
                            (rd_vht_mode radio) (rd_vht_nss radio)\<rparr>"

text \<open>Extend-only, armed before the assertion so that it cannot raise the bitrate again.\<close>

definition arm_up_lock :: "controller \<Rightarrow> u64 \<Rightarrow> controller" where
  "arm_up_lock ctrl lock_end =
     (if lock_end > fc_bitrate_up_lock_until_us ctrl
      then ctrl\<lparr>fc_bitrate_up_lock_until_us := lock_end\<rparr> else ctrl)"

definition commit_mcs_pre_drop_bitrate ::
  "'w sysenv \<Rightarrow> lc_config \<Rightarrow> radio_state \<Rightarrow> controller \<Rightarrow> venc_written \<Rightarrow> int \<Rightarrow> u64 \<Rightarrow> 'w io
   \<Rightarrow> (controller \<times> venc_written) \<times> 'w io" where
  "commit_mcs_pre_drop_bitrate env cfg radio ctrl vw new_mcs now s =
     (let f = cfg_fec cfg in
      if \<not> fec_on f \<or> \<not> rd_valid radio \<or> \<not> fc_have_current ctrl then ((ctrl, vw), s)
      else bitrate_assert env (future_radio radio new_mcs)
             (arm_up_lock ctrl (now + us_of (fl32 (fec_bitrate_lead_s f + fec_mcs_settle_s f))))
             cfg vw now s)"

text \<open>The C return codes 0, 1 and -1.\<close>

datatype commit_result = CommitSent | CommitDeferred | CommitFailed

definition commit_mcs_change ::
  "'w sysenv \<Rightarrow> lc_config \<Rightarrow> pending_mcs_down \<Rightarrow> radio_body \<Rightarrow> int \<Rightarrow> radio_state \<Rightarrow> controller
   \<Rightarrow> venc_written \<Rightarrow> u64 \<Rightarrow> 'w io
   \<Rightarrow> (commit_result \<times> pending_mcs_down \<times> controller \<times> venc_written) \<times> 'w io" where
  "commit_mcs_change env cfg pending current_radio new_mcs radio ctrl vw now s =
     (let f = cfg_fec cfg;
          prev_mcs = uint (rb_mcs_index current_radio);
          r = current_radio\<lparr>rb_mcs_index := word_of_int new_mcs\<rparr>
      in if new_mcs < prev_mcs \<and> fec_bitrate_lead_s f > 0 \<and> \<not> cfg_dry_run cfg then
           (let ((ctrl', vw'), s') = commit_mcs_pre_drop_bitrate env cfg radio ctrl vw new_mcs now s
            in ((CommitDeferred,
                 \<lparr> pd_active = True, pd_deadline_us = now + us_of (fec_bitrate_lead_s f),
                   pd_target_mcs = new_mcs, pd_radio = r \<rparr>, ctrl', vw'), s'))
         else
           (let pending' = (if pd_active pending then pending_mcs_clear pending else pending);
                ctrl' = (if new_mcs > prev_mcs \<and> fec_mcs_up_grace_s f > 0 \<and> \<not> cfg_dry_run cfg
                         then ctrl\<lparr>fc_bitrate_up_lock_until_us := now + us_of (fec_mcs_up_grace_s f)\<rparr>
                         else ctrl)
            in if cfg_dry_run cfg then ((CommitSent, pending', ctrl', vw), s)
               else let (ok, s') = wfb_set_radio env cfg r s
                    in ((if ok then CommitSent else CommitFailed, pending', ctrl', vw), s')))"

lemma arm_up_lock_simps [simp]:
  "fc_current (arm_up_lock c t) = fc_current c" "fc_have_current (arm_up_lock c t) = fc_have_current c"
  by (simp_all add: arm_up_lock_def)

lemma arm_up_lock_locks:
  assumes "t < e"
  shows "up_locked (arm_up_lock c e) t"
proof -
  have "0 < e" using assms by (rule le_less_trans [OF word_zero_le])
  with assms show ?thesis by (auto simp: up_locked_def arm_up_lock_def)
qed

lemma arm_settle_up_lock [simp]:
  "fc_bitrate_up_lock_until_us (controller_arm_settle c now s) = fc_bitrate_up_lock_until_us c"
  by (simp add: controller_arm_settle_def Let_def)

lemma bitrate_assert_up_lock:
  "bitrate_assert env radio ctrl cfg vw now s = ((ctrl', vw'), s') \<Longrightarrow>
   fc_bitrate_up_lock_until_us ctrl' = fc_bitrate_up_lock_until_us ctrl"
  by (auto simp: bitrate_assert_def Let_def split: prod.splits if_splits)

lemma pre_drop_emits [emitted]:
  assumes "commit_mcs_pre_drop_bitrate env cfg radio ctrl vw new_mcs now s = ((ctrl', vw'), s')"
  shows "emits s s' (\<lambda>e. \<exists>path. e = EvHttp (fec_venc_host (cfg_fec cfg)) (fec_venc_port (cfg_fec cfg)) path)"
  using assms
  by (auto simp: commit_mcs_pre_drop_bitrate_def Let_def split: if_splits dest!: bitrate_assert_emits)

section \<open>Properties\<close>

text \<open>An MCS drop is ordered.  Committing a lower MCS sends nothing to wfb\_tx: the only requests
  are writes to the encoder; the radio write is left pending with its deadline, for exactly the
  current radio parameters with the new index.\<close>

theorem ordered_drop:
  assumes "commit_mcs_change env cfg pending body new_mcs radio ctrl vw now s
           = ((res, pending', ctrl', vw'), s')"
    and "new_mcs < uint (rb_mcs_index body)" "0 < fec_bitrate_lead_s (cfg_fec cfg)" "\<not> cfg_dry_run cfg"
  shows "res = CommitDeferred \<and> pd_active pending' \<and> pd_target_mcs pending' = new_mcs
       \<and> pd_deadline_us pending' = now + us_of (fec_bitrate_lead_s (cfg_fec cfg))
       \<and> pd_radio pending' = body\<lparr>rb_mcs_index := word_of_int new_mcs\<rparr>
       \<and> emits s s' (\<lambda>e. \<exists>path. e = EvHttp (fec_venc_host (cfg_fec cfg)) (fec_venc_port (cfg_fec cfg)) path)"
  using assms
  by (auto simp: commit_mcs_change_def Let_def split: prod.splits dest: pre_drop_emits)

text \<open>The drop window is protected.  From the drop until past its deadline the up-lock holds, so
  no assertion in between (a statistics datagram queued at the old rate, a block change) can raise
  the bitrate the encoder was told.\<close>

theorem drop_window_locked:
  assumes "commit_mcs_change env cfg pending body new_mcs radio ctrl vw now s
           = ((res, pending', ctrl', vw'), s')"
    and "new_mcs < uint (rb_mcs_index body)" "0 < fec_bitrate_lead_s (cfg_fec cfg)" "\<not> cfg_dry_run cfg"
    and "fec_on (cfg_fec cfg)" "rd_valid radio" "fc_have_current ctrl"
    and "t < now + us_of (fl32 (fec_bitrate_lead_s (cfg_fec cfg) + fec_mcs_settle_s (cfg_fec cfg)))"
    and "bitrate_assert env2 radio2 ctrl' cfg2 w t s2 = ((ctrl2, w2), s3)" "0 < vw_kbps w"
  shows "vw_kbps w2 \<le> vw_kbps w"
proof -
  let ?lock = "now + us_of (fl32 (fec_bitrate_lead_s (cfg_fec cfg) + fec_mcs_settle_s (cfg_fec cfg)))"
  have "bitrate_assert env (future_radio radio new_mcs) (arm_up_lock ctrl ?lock) cfg vw now s
        = ((ctrl', vw'), s')"
    using assms(1-7)
    by (simp add: commit_mcs_change_def commit_mcs_pre_drop_bitrate_def Let_def split: prod.splits)
  then have "fc_bitrate_up_lock_until_us ctrl' = fc_bitrate_up_lock_until_us (arm_up_lock ctrl ?lock)"
    by (rule bitrate_assert_up_lock)
  then have "up_locked ctrl' t"
    using arm_up_lock_locks [OF assms(8), of ctrl] by (simp add: up_locked_def)
  then have le: "x \<le> vw_kbps w" if "bitrate_changed (cfg_fec cfg2) ctrl' x (vw_kbps w) t" for x
    using that assms(10) by (simp add: bitrate_changed_def Let_def)
  from assms(9) show ?thesis
    by (cases rule: bitrate_assert_cases) (auto simp: mark_written_def dest: le)
qed

text \<open>A raise or an equal commit is synchronous.  It cancels a pending drop, its only request is
  one SET\_RADIO to the video wfb\_tx with the new index, the encoder is not written, and it reports
  success exactly when wfb\_tx acknowledged.\<close>

theorem sync_commit:
  assumes "commit_mcs_change env cfg pending body new_mcs radio ctrl vw now s
           = ((res, pending', ctrl', vw'), s')"
    and "uint (rb_mcs_index body) \<le> new_mcs" "\<not> cfg_dry_run cfg"
  shows "\<not> pd_active pending' \<and> vw' = vw \<and> res \<noteq> CommitDeferred
       \<and> (res = CommitSent \<longleftrightarrow> fst (wfb_set_radio env cfg (body\<lparr>rb_mcs_index := word_of_int new_mcs\<rparr>) s))
       \<and> emits s s' (\<lambda>e. e = EvUdp (cfg_wfb_host cfg) (cfg_wfb_port cfg)
                           (SetRadio (norm_radio (body\<lparr>rb_mcs_index := word_of_int new_mcs\<rparr>))))"
proof -
  obtain ok s1 where w: "wfb_set_radio env cfg (body\<lparr>rb_mcs_index := word_of_int new_mcs\<rparr>) s = (ok, s1)"
    by fastforce
  with assms have "res = (if ok then CommitSent else CommitFailed)" "s' = s1" "vw' = vw"
    "pending' = (if pd_active pending then pending_mcs_clear pending else pending)"
    by (simp_all add: commit_mcs_change_def Let_def)
  with wfb_set_radio_emits [OF w] w show ?thesis by (simp add: pending_mcs_clear_def)
qed

section \<open>Witnesses\<close>

definition demo_body :: radio_body where
  "demo_body = \<lparr> rb_stbc = 1, rb_ldpc = 1, rb_short_gi = 0, rb_bandwidth = 20, rb_mcs_index = 4,
                 rb_vht_mode = 0, rb_vht_nss = 1 \<rparr>"

definition idle_pending :: pending_mcs_down where
  "idle_pending = \<lparr> pd_active = False, pd_deadline_us = 0, pd_target_mcs = - 1, pd_radio = demo_body \<rparr>"

lemma us_of_half: "us_of (1/2) = 500000" "us_of (11/2) = 5500000"
  by (simp_all add: us_of_def)

definition demo_drop where
  "demo_drop = commit_mcs_change demo_env config_defaults idle_pending demo_body 2 demo_radio demo_ctrl
                 demo_vw 1000000 demo_io"

theorem ordered_drop_witness:
  "fst (fst demo_drop) = CommitDeferred \<and> pd_deadline_us (fst (snd (fst demo_drop))) = 1500000
   \<and> rb_mcs_index (pd_radio (fst (snd (fst demo_drop)))) = 2"
proof -
  obtain res p c v s where d: "demo_drop = ((res, p, c, v), s)" by (metis prod.collapse)
  from ordered_drop [OF d [unfolded demo_drop_def]] show ?thesis
    by (simp add: d demo_body_def us_of_half)
qed

theorem drop_window_locked_witness:
  "vw_kbps (snd (fst (bitrate_assert demo_env demo_radio (fst (snd (snd (fst demo_drop)))) config_defaults
      \<lparr> vw_kbps = 5000, vw_payload = - 1 \<rparr> 1500000 demo_io))) \<le> 5000"
proof -
  obtain res p c v s where d: "demo_drop = ((res, p, c, v), s)" by (metis prod.collapse)
  obtain c2 w2 s2 where a: "bitrate_assert demo_env demo_radio c config_defaults
      \<lparr> vw_kbps = 5000, vw_payload = - 1 \<rparr> 1500000 demo_io = ((c2, w2), s2)" by (metis prod.collapse)
  have fl: "fl32 (11/2) = 11/2" by code_simp
  have t: "(1500000 :: u64) < 1000000 + us_of (fl32 (fec_bitrate_lead_s (cfg_fec config_defaults)
      + fec_mcs_settle_s (cfg_fec config_defaults)))"
    by (simp add: us_of_half fl)
  have "vw_kbps w2 \<le> vw_kbps \<lparr> vw_kbps = 5000, vw_payload = - 1 \<rparr>"
    by (rule drop_window_locked [OF d [unfolded demo_drop_def] _ _ _ _ _ _ t a])
      (simp_all add: demo_body_def demo_radio_def demo_ctrl_def)
  then show ?thesis by (simp add: d a)
qed

theorem sync_commit_witness:
  "\<exists>res p c v s. commit_mcs_change demo_env config_defaults (idle_pending\<lparr>pd_active := True\<rparr>) demo_body 5
      demo_radio demo_ctrl demo_vw 1000000 demo_io = ((res, p, c, v), s) \<and> \<not> pd_active p
      \<and> res \<noteq> CommitDeferred"
proof -
  obtain res p c v s where d: "commit_mcs_change demo_env config_defaults (idle_pending\<lparr>pd_active := True\<rparr>)
      demo_body 5 demo_radio demo_ctrl demo_vw 1000000 demo_io = ((res, p, c, v), s)"
    by (metis prod.collapse)
  from sync_commit [OF d] show ?thesis using d by (simp add: demo_body_def)
qed

end
