(* ===== verification/Scorer.thy ===== *)
theory Scorer
  imports LinkConfig
begin

text \<open>
  The receive-quality scorer of \<open>vehicle/link_controller.c\<close> (\<open>scorer_update\<close>): the scan of a
  receiver statistics datagram for its per-antenna RSSI entries, the RSSI aggregate and its
  smoothing, the RSSI slope, and the smoothed loss, recovery and diversity ratios.
\<close>

definition ANT_MAX :: nat where
  "ANT_MAX = 8"

record scorer =
  sc_smoothed_rssi :: rat
  sc_smoothed_lost :: rat
  sc_smoothed_recov :: rat
  sc_smoothed_diversity :: rat
  sc_have_rssi :: bool
  sc_have_loss :: bool
  sc_slope_db_s :: rat
  sc_slope_prev_rssi :: rat
  sc_slope_prev_us :: u64

record score =
  so_raw_rssi :: rat
  so_smoothed_rssi :: rat
  so_lost_ratio :: rat
  so_smoothed_lost_ratio :: rat
  so_recov_ratio :: rat
  so_smoothed_recov_ratio :: rat
  so_diversity_ratio :: rat
  so_smoothed_diversity_ratio :: rat
  so_adapter_count :: int
  so_rssi_slope_db_s :: rat
  so_ant_avg :: "rat list"

definition scorer_reset :: scorer where
  "scorer_reset = \<lparr> sc_smoothed_rssi = 0, sc_smoothed_lost = 0, sc_smoothed_recov = 0,
     sc_smoothed_diversity = 0, sc_have_rssi = False, sc_have_loss = False, sc_slope_db_s = 0,
     sc_slope_prev_rssi = 0, sc_slope_prev_us = 0 \<rparr>"

section \<open>The antenna scan\<close>

text \<open>
  \<open>out->ant_avg\<close> and \<open>seen_id\<close> together, as the list of filled slots.  An entry without an id (the
  empty string) never matches a slot.
\<close>

record ant_scan =
  as_best :: rat
  as_sum :: rat
  as_count :: nat
  as_saw_any :: bool
  as_ants :: "(string \<times> rat) list"

definition ant_scan_init :: ant_scan where
  "ant_scan_init = \<lparr> as_best = - 200, as_sum = 0, as_count = 0, as_saw_any = False, as_ants = [] \<rparr>"

text \<open>The antenna id, looked for between the scan position \<open>p\<close> and the entry \<open>r\<close>; at most 23 characters.\<close>

definition ant_id :: "string \<Rightarrow> string \<Rightarrow> string" where
  "ant_id p r =
     (case strstr p (quoted ''id'' @ '':'') of
        None \<Rightarrow> []
      | Some idp \<Rightarrow>
          (if length r < length idp
           then take 23 (takeWhile (\<lambda>c. c \<notin> {CHR 0x22, CHR '','', CHR ''}''})
                          (dropWhile (\<lambda>c. c \<in> {CHR 0x20, CHR 0x22}) (drop 5 idp)))
           else []))"

fun slot_update :: "string \<Rightarrow> rat \<Rightarrow> (string \<times> rat) list \<Rightarrow> (string \<times> rat) list" where
  "slot_update i v [] = []"
| "slot_update i v ((j, w) # xs) =
     (if j = i then (j, if v > w then v else w) # xs else (j, w) # slot_update i v xs)"

definition slot_insert :: "string \<Rightarrow> rat \<Rightarrow> (string \<times> rat) list \<Rightarrow> (string \<times> rat) list" where
  "slot_insert i v xs =
     (if i \<noteq> [] \<and> i \<in> fst ` set xs then slot_update i v xs
      else if length xs < ANT_MAX then xs @ [(i, v)] else xs)"

definition ant_step :: "rssi_agg \<Rightarrow> string \<Rightarrow> int \<Rightarrow> int \<Rightarrow> ant_scan \<Rightarrow> ant_scan" where
  "ant_step agg i avg mx st =
     (let v = (if agg = AGG_BEST_MAX then fl32 (of_int mx) else fl32 (of_int avg));
          st1 = (if agg = AGG_MEAN_AVG then st\<lparr>as_sum := fl32 (as_sum st + fl32 (of_int avg))\<rparr>
                 else if \<not> as_saw_any st \<or> v > as_best st then st\<lparr>as_best := v\<rparr> else st)
      in st1\<lparr>as_ants := slot_insert i (fl32 (of_int avg)) (as_ants st1),
             as_count := as_count st1 + 1, as_saw_any := True\<rparr>)"

lemma strstr_length: "strstr s pat = Some t \<Longrightarrow> length t \<le> length s"
  using strstr_Some_suffix by fastforce

lemma strchr_length: "strchr s c = Some t \<Longrightarrow> length (tl t) < length s"
  using length_dropWhile_le [of "\<lambda>d. d \<noteq> c" s]
  by (cases "dropWhile (\<lambda>d. d \<noteq> c) s") (auto simp: strchr_def)

function ant_loop :: "rssi_agg \<Rightarrow> string \<Rightarrow> ant_scan \<Rightarrow> ant_scan" where
  "ant_loop agg p st =
     (case strstr p (quoted ''rssi'' @ '':'') of
        None \<Rightarrow> st
      | Some r \<Rightarrow>
          (case json_get_int_in r ''avg'' of
             None \<Rightarrow> st
           | Some avg \<Rightarrow>
               (let st' = ant_step agg (ant_id p r) avg (json_int_in_or avg r ''max'') st in
                case strchr r (CHR ''}'') of
                  None \<Rightarrow> st'
                | Some b \<Rightarrow> ant_loop agg (tl b) st')))"
  by pat_completeness auto
termination
  by (relation "measure (\<lambda>(a, p, s). length p)")
    (auto dest!: strstr_length strchr_length simp del: length_tl)

declare ant_loop.simps [simp del]

section \<open>Smoothing\<close>

definition ewma :: "rat \<Rightarrow> rat \<Rightarrow> rat \<Rightarrow> rat" where
  "ewma a x y = fl32 (fl32 (a * x) + fl32 (fl32 (1 - a) * y))"

definition SLOPE_EWMA_ALPHA :: rat where
  "SLOPE_EWMA_ALPHA = fl32 (3/10)"

text \<open>The slope after the RSSI was smoothed: skipped below 10 ms, reset beyond 2 s.\<close>

definition slope_step :: "scorer \<Rightarrow> u64 \<Rightarrow> scorer" where
  "slope_step s now =
     (let dt = s_of (now - sc_slope_prev_us s);
          live = (sc_slope_prev_us s \<noteq> 0 \<and> now > sc_slope_prev_us s);
          skip = (live \<and> dt < fl32 (1/100));
          s1 = (if live \<and> \<not> skip
                then (if dt \<le> 2
                      then s\<lparr>sc_slope_db_s :=
                               ewma SLOPE_EWMA_ALPHA
                                 (fl32 (fl32 (sc_smoothed_rssi s - sc_slope_prev_rssi s) / dt))
                                 (sc_slope_db_s s)\<rparr>
                      else s\<lparr>sc_slope_db_s := 0\<rparr>)
                else s)
      in if skip then s1
         else s1\<lparr>sc_slope_prev_rssi := sc_smoothed_rssi s1, sc_slope_prev_us := now\<rparr>)"

definition pkt_ratio :: "int \<Rightarrow> int \<Rightarrow> rat" where
  "pkt_ratio count uniq =
     (let denom = (if uniq > 0 then uniq else 1)
      in if count > 0 then fl32 (fl32 (of_int count) / fl32 (of_int denom)) else 0)"

definition unit_ratio :: "int \<Rightarrow> int \<Rightarrow> rat" where
  "unit_ratio count uniq = (let r = pkt_ratio count uniq in if r > 1 then 1 else r)"

definition loss_step :: "rat \<Rightarrow> rat \<Rightarrow> rat \<Rightarrow> rat \<Rightarrow> scorer \<Rightarrow> scorer" where
  "loss_step a lost recov div' s =
     (if \<not> sc_have_loss s
      then s\<lparr>sc_smoothed_lost := lost, sc_smoothed_recov := recov, sc_smoothed_diversity := div',
             sc_have_loss := True\<rparr>
      else s\<lparr>sc_smoothed_lost := ewma a lost (sc_smoothed_lost s),
             sc_smoothed_recov := ewma a recov (sc_smoothed_recov s),
             sc_smoothed_diversity := ewma a div' (sc_smoothed_diversity s)\<rparr>)"

text \<open>\<open>scorer_update\<close>: the new scorer and the score, or \<open>None\<close> where the C function returns false.\<close>

definition scorer_update ::
  "scorer \<Rightarrow> mcs_cfg \<Rightarrow> string \<Rightarrow> int \<Rightarrow> int \<Rightarrow> int \<Rightarrow> int \<Rightarrow> int \<Rightarrow> u64 \<Rightarrow> (scorer \<times> score) option" where
  "scorer_update s m body uniq lost recov divers adapters now =
     (let scan = ant_loop (mcs_rssi_aggregator m) body ant_scan_init in
      if \<not> as_saw_any scan then None
      else let raw = (if mcs_rssi_aggregator m = AGG_MEAN_AVG
                      then fl32 (as_sum scan / fl32 (of_nat (as_count scan))) else as_best scan);
               s1 = (if \<not> sc_have_rssi s then s\<lparr>sc_smoothed_rssi := raw, sc_have_rssi := True\<rparr>
                     else s\<lparr>sc_smoothed_rssi := ewma (mcs_rssi_ewma_alpha m) raw (sc_smoothed_rssi s)\<rparr>);
               s2 = slope_step s1 now;
               lost_r = unit_ratio lost uniq; recov_r = unit_ratio recov uniq;
               div_r = pkt_ratio divers uniq;
               s3 = loss_step (mcs_loss_ewma_alpha m) lost_r recov_r div_r s2
           in Some (s3, \<lparr> so_raw_rssi = raw, so_smoothed_rssi = sc_smoothed_rssi s3,
                 so_lost_ratio = lost_r, so_smoothed_lost_ratio = sc_smoothed_lost s3,
                 so_recov_ratio = recov_r, so_smoothed_recov_ratio = sc_smoothed_recov s3,
                 so_diversity_ratio = div_r, so_smoothed_diversity_ratio = sc_smoothed_diversity s3,
                 so_adapter_count = adapters, so_rssi_slope_db_s = sc_slope_db_s s3,
                 so_ant_avg = map snd (as_ants scan) \<rparr>))"

section \<open>Antenna slots\<close>

definition ants_ok :: "(string \<times> rat) list \<Rightarrow> bool" where
  "ants_ok xs = (length xs \<le> ANT_MAX \<and> distinct (filter (\<lambda>i. i \<noteq> []) (map fst xs)))"

lemma slot_update_fst [simp]: "map fst (slot_update i v xs) = map fst xs"
  by (induction i v xs rule: slot_update.induct) auto

lemma slot_insert_ok: "ants_ok xs \<Longrightarrow> ants_ok (slot_insert i v xs)"
proof -
  assume a: "ants_ok xs"
  have "length (slot_update i v xs) = length xs" by (metis length_map slot_update_fst)
  with a show ?thesis by (auto simp: ants_ok_def slot_insert_def)
qed

lemma ant_loop_ok: "ants_ok (as_ants st) \<Longrightarrow> ants_ok (as_ants (ant_loop agg p st))"
proof (induction agg p st rule: ant_loop.induct)
  case (1 agg p st)
  have step: "ants_ok (as_ants (ant_step agg i avg mx st))" for i avg mx
    using 1(2) by (auto simp: ant_step_def Let_def intro!: slot_insert_ok)
  show ?case
    by (subst ant_loop.simps) (auto simp: 1(2) step Let_def intro: 1(1) split: option.splits)
qed

text \<open>The best-of aggregate is one of the values seen, and the largest.\<close>

lemma unit_ratio_range: "0 \<le> unit_ratio c u \<and> unit_ratio c u \<le> 1"
proof -
  have "0 \<le> fl32 (of_int v)" if "0 \<le> v" for v using that by (intro f32.rnd_nonneg) simp
  then have "0 \<le> pkt_ratio c u"
    by (auto simp: pkt_ratio_def Let_def intro!: f32.rnd_nonneg divide_nonneg_nonneg)
  then show ?thesis by (simp add: unit_ratio_def Let_def)
qed

definition loss_ok :: "scorer \<Rightarrow> bool" where
  "loss_ok s = (0 \<le> sc_smoothed_lost s \<and> sc_smoothed_lost s \<le> 1
                \<and> 0 \<le> sc_smoothed_recov s \<and> sc_smoothed_recov s \<le> 1)"

lemma ewma_unit_interval:
  assumes "0 \<le> a" "a \<le> 1" "fl32 a = a" "0 \<le> x" "x \<le> 1" "0 \<le> y" "y \<le> 1"
  shows "0 \<le> ewma a x y \<and> ewma a x y \<le> 1"
  using f32.ewma_unit [OF assms] by (simp add: ewma_def)

lemma loss_step_ok:
  assumes "loss_ok s" "0 \<le> a" "a \<le> 1" "fl32 a = a"
  shows "loss_ok (loss_step a (unit_ratio l u) (unit_ratio r u) d s)"
  using assms unit_ratio_range [of l u] unit_ratio_range [of r u]
  by (auto simp: loss_ok_def loss_step_def intro: conjunct1 [OF ewma_unit_interval] conjunct2 [OF ewma_unit_interval])

lemma slope_step_keeps [simp]:
  "sc_smoothed_lost (slope_step s now) = sc_smoothed_lost s"
  "sc_smoothed_recov (slope_step s now) = sc_smoothed_recov s"
  "sc_smoothed_rssi (slope_step s now) = sc_smoothed_rssi s"
  by (simp_all add: slope_step_def Let_def)

section \<open>Properties\<close>

type_synonym rx_report = "string \<times> int \<times> int \<times> int \<times> int \<times> int \<times> u64"

definition scorer_next :: "mcs_cfg \<Rightarrow> scorer \<Rightarrow> rx_report \<Rightarrow> scorer" where
  "scorer_next m s r =
     (case r of (body, uniq, lost, recov, divers, adapters, now) \<Rightarrow>
        (case scorer_update s m body uniq lost recov divers adapters now of
           None \<Rightarrow> s | Some (s', _) \<Rightarrow> s'))"

lemma scorer_update_ok:
  assumes "loss_ok s" "scorer_update s m body u l r d ad now = Some (s', sc)"
    and "0 \<le> mcs_loss_ewma_alpha m" "mcs_loss_ewma_alpha m \<le> 1"
    and "fl32 (mcs_loss_ewma_alpha m) = mcs_loss_ewma_alpha m"
  shows "loss_ok s' \<and> so_smoothed_lost_ratio sc = sc_smoothed_lost s'
       \<and> so_smoothed_recov_ratio sc = sc_smoothed_recov s' \<and> length (so_ant_avg sc) \<le> ANT_MAX"
proof -
  let ?scan = "ant_loop (mcs_rssi_aggregator m) body ant_scan_init"
  obtain s2 where s': "s' = loss_step (mcs_loss_ewma_alpha m) (unit_ratio l u) (unit_ratio r u) (pkt_ratio d u) s2"
    and s2: "loss_ok s2" and sc: "so_smoothed_lost_ratio sc = sc_smoothed_lost s'"
      "so_smoothed_recov_ratio sc = sc_smoothed_recov s'" "so_ant_avg sc = map snd (as_ants ?scan)"
    using assms(1,2)
    by (auto simp: scorer_update_def Let_def loss_ok_def split: if_splits)
  have "ants_ok (as_ants ?scan)" by (rule ant_loop_ok) (simp add: ants_ok_def ant_scan_init_def)
  with s' sc loss_step_ok [OF s2 assms(3-5)] show ?thesis by (simp add: ants_ok_def)
qed

text \<open>The smoothed loss stays a ratio.  Whatever datagrams arrive from a reset on, the smoothed
  loss and recovery ratios the MCS law compares per mille with stay between 0 and 1, rounding
  included, and a score lists at most eight antennas.\<close>

theorem scorer_ratios_unit:
  assumes "0 \<le> mcs_loss_ewma_alpha m" "mcs_loss_ewma_alpha m \<le> 1"
    and "fl32 (mcs_loss_ewma_alpha m) = mcs_loss_ewma_alpha m"
    and "scorer_update (foldl (scorer_next m) scorer_reset rs) m body u l r d ad now = Some (s', sc)"
  shows "0 \<le> so_smoothed_lost_ratio sc \<and> so_smoothed_lost_ratio sc \<le> 1
       \<and> 0 \<le> so_smoothed_recov_ratio sc \<and> so_smoothed_recov_ratio sc \<le> 1
       \<and> length (so_ant_avg sc) \<le> ANT_MAX"
proof -
  have "loss_ok (foldl (scorer_next m) scorer_reset rs)"
  proof (induction rs rule: rev_induct)
    case (snoc x rs)
    then show ?case
      using assms(1-3) by (auto simp: scorer_next_def dest: scorer_update_ok split: prod.splits option.splits)
  qed (simp add: loss_ok_def scorer_reset_def)
  from scorer_update_ok [OF this assms(4) assms(1-3)] show ?thesis by (auto simp: loss_ok_def)
qed

definition demo_report :: string where
  "demo_report = CHR ''{'' # quoted ''id'' @ CHR '':'' # quoted ''a0'' @ CHR '','' # quoted ''rssi'' @
     '':{'' @ quoted ''avg'' @ '':-60}}''"

lemma demo_scan: "as_saw_any (ant_loop AGG_BEST_AVG demo_report ant_scan_init)
    \<and> as_ants (ant_loop AGG_BEST_AVG demo_report ant_scan_init) = [(''a0'', - 60)]
    \<and> as_best (ant_loop AGG_BEST_AVG demo_report ant_scan_init) = - 60"
  by code_simp

theorem scorer_ratios_unit_witness:
  "\<exists>s' sc. scorer_update scorer_reset mcs_defaults demo_report 100 30 0 0 1 1000000 = Some (s', sc)
     \<and> so_smoothed_lost_ratio sc \<le> 1"
proof -
  have a: "0 \<le> fl32 (3/10)" "fl32 (3/10) \<le> 1" by code_simp+
  have "scorer_update scorer_reset mcs_defaults demo_report 100 30 0 0 1 1000000 \<noteq> None"
    using demo_scan by (simp add: scorer_update_def Let_def)
  then obtain s' sc where u: "scorer_update scorer_reset mcs_defaults demo_report 100 30 0 0 1 1000000 = Some (s', sc)"
    by auto
  with scorer_ratios_unit [of mcs_defaults "[]" demo_report 100 30 0 0 1 1000000 s' sc] a show ?thesis
    by simp
qed

end
