(* ===== verification/Selector.thy ===== *)
theory Selector
  imports Scorer
begin

text \<open>
  The MCS selector of \<open>vehicle/link_controller.c\<close>: its state, the ring of recent changes, the
  commit with its flap guard and flap freeze, the no-data failsafe, and \<open>selector_update\<close>, the
  control law run once per receiver datagram.  The law's rules are separate definitions in the
  order the code tries them; \<open>selector_law\<close> composes them and \<open>selector_step\<close> is the relation of
  all operations the program performs on the selector.
\<close>

section \<open>State\<close>

definition OSC_RING :: nat where
  "OSC_RING = 16"

record selector =
  sel_current_mcs :: int
  sel_last_change_us :: u64
  sel_last_datagram_us :: u64
  sel_in_failsafe :: bool
  sel_changes_us :: "u64 list"
  sel_changes_count :: nat
  sel_changes_head :: nat
  sel_commit_count :: u32
  sel_rssi_floor_active :: bool
  sel_rssi_fade_active :: bool
  sel_fade_streak :: int
  sel_flap_guard_mcs :: int
  sel_flap_guard_us :: u64
  sel_flap_demote_streak :: int
  sel_flap_last_demote_us :: u64
  sel_flap_freeze_mcs :: int
  sel_flap_freeze_until_us :: u64
  sel_pressure_since_us :: u64
  sel_pressure_escape_count :: u32

record probe_rung =
  pr_accounted :: int
  pr_lost :: int
  pr_per_milli :: int
  pr_last_us :: u64
  pr_ts_ms :: u64
  pr_records :: u32
  pr_valid :: bool

definition PROBE_MCS_MAX :: int where
  "PROBE_MCS_MAX = 16"

record probe_state =
  ps_rung :: "probe_rung list"
  ps_last_any_us :: u64
  ps_total_records :: u32
  ps_parse_errors :: u32
  ps_gate_us :: u64

definition rung_init :: probe_rung where
  "rung_init = \<lparr> pr_accounted = 0, pr_lost = 0, pr_per_milli = 0, pr_last_us = 0, pr_ts_ms = 0,
                 pr_records = 0, pr_valid = False \<rparr>"

definition probe_state_init :: probe_state where
  "probe_state_init = \<lparr> ps_rung = replicate 16 rung_init, ps_last_any_us = 0, ps_total_records = 0,
                        ps_parse_errors = 0, ps_gate_us = 0 \<rparr>"

datatype decision = SD_NONE | SD_INIT | SD_DOWN | SD_UP | SD_FAILSAFE

definition selector_init :: selector where
  "selector_init = \<lparr> sel_current_mcs = - 1, sel_last_change_us = 0, sel_last_datagram_us = 0,
     sel_in_failsafe = False, sel_changes_us = replicate OSC_RING 0, sel_changes_count = 0,
     sel_changes_head = 0, sel_commit_count = 0, sel_rssi_floor_active = False,
     sel_rssi_fade_active = False, sel_fade_streak = 0, sel_flap_guard_mcs = - 1,
     sel_flap_guard_us = 0, sel_flap_demote_streak = 0, sel_flap_last_demote_us = 0,
     sel_flap_freeze_mcs = - 1, sel_flap_freeze_until_us = 0, sel_pressure_since_us = 0,
     sel_pressure_escape_count = 0 \<rparr>"

section \<open>The ring of changes\<close>

function expire_loop :: "u64 list \<Rightarrow> nat \<Rightarrow> u64 \<Rightarrow> nat \<Rightarrow> nat" where
  "expire_loop arr head cutoff count =
     (if count = 0 then 0
      else if arr ! ring_oldest OSC_RING head count \<ge> cutoff then count
      else expire_loop arr head cutoff (count - 1))"
  by pat_completeness auto
termination
  by (relation "measure (\<lambda>(a, h, c, n). n)") auto

declare expire_loop.simps [simp del]

definition selector_expire_changes :: "mcs_cfg \<Rightarrow> u64 \<Rightarrow> selector \<Rightarrow> selector" where
  "selector_expire_changes m now s =
     (let window_us = us_of (mcs_oscillation_window_s m) in
      if window_us = 0 then s\<lparr>sel_changes_count := 0\<rparr>
      else if now < window_us then s
      else s\<lparr>sel_changes_count := expire_loop (sel_changes_us s) (sel_changes_head s)
                                    (now - window_us) (sel_changes_count s)\<rparr>)"

definition selector_record_change :: "mcs_cfg \<Rightarrow> u64 \<Rightarrow> selector \<Rightarrow> selector" where
  "selector_record_change m now s =
     selector_expire_changes m now
       (s\<lparr>sel_changes_us := (sel_changes_us s)[sel_changes_head s := now],
          sel_changes_head := (sel_changes_head s + 1) mod OSC_RING,
          sel_changes_count := (if sel_changes_count s < OSC_RING then sel_changes_count s + 1
                                else sel_changes_count s)\<rparr>)"

section \<open>Commit\<close>

text \<open>Flap guard and flap freeze on a downward commit from a valid rung \<open>prev\<close>.\<close>

definition flap_freeze_step :: "mcs_cfg \<Rightarrow> int \<Rightarrow> int \<Rightarrow> u64 \<Rightarrow> selector \<Rightarrow> selector" where
  "flap_freeze_step m prev old_guard now s =
     (if mcs_flap_freeze_count m > 0
      then let same_rung_fast = (prev = old_guard \<and> sel_flap_last_demote_us s \<noteq> 0
                                 \<and> now - sel_flap_last_demote_us s \<le> us_of (mcs_flap_freeze_window_s m));
               streak = (if same_rung_fast then sel_flap_demote_streak s + 1 else 1);
               s1 = s\<lparr>sel_flap_demote_streak := streak, sel_flap_last_demote_us := now\<rparr>
           in if streak \<ge> mcs_flap_freeze_count m
              then s1\<lparr>sel_flap_freeze_mcs := prev,
                      sel_flap_freeze_until_us := now + us_of (mcs_flap_freeze_s m)\<rparr>
              else s1
      else s)"

definition flap_guard_step :: "mcs_cfg \<Rightarrow> int \<Rightarrow> u64 \<Rightarrow> selector \<Rightarrow> selector" where
  "flap_guard_step m prev now s =
     (let old_guard = sel_flap_guard_mcs s;
          s1 = (if sel_flap_guard_mcs s < prev
                   \<or> now - sel_flap_guard_us s > us_of (mcs_reentry_backoff_s m)
                then s\<lparr>sel_flap_guard_mcs := prev\<rparr> else s)
      in flap_freeze_step m prev old_guard now (s1\<lparr>sel_flap_guard_us := now\<rparr>))"

definition selector_commit :: "mcs_cfg \<Rightarrow> int \<Rightarrow> u64 \<Rightarrow> selector \<Rightarrow> selector" where
  "selector_commit m target now s =
     (let mcs = clamp (mcs_min m) (mcs_max m) target;
          prev = sel_current_mcs s;
          s1 = s\<lparr>sel_current_mcs := mcs\<rparr>
      in if prev \<noteq> mcs
         then let s2 = selector_record_change m now (s1\<lparr>sel_last_change_us := now\<rparr>);
                  s3 = s2\<lparr>sel_commit_count := sel_commit_count s2 + 1\<rparr>
              in if prev \<ge> 0 \<and> mcs < prev then flap_guard_step m prev now s3 else s3
         else s1)"

section \<open>No data\<close>

definition selector_tick_no_data :: "mcs_cfg \<Rightarrow> u64 \<Rightarrow> selector \<Rightarrow> selector \<times> decision" where
  "selector_tick_no_data m now s0 =
     (let s = selector_expire_changes m now s0 in
      if sel_last_datagram_us s = 0 then (s, SD_NONE)
      else let gap = now - sel_last_datagram_us s in
      if gap < us_of (mcs_failsafe_timeout_s m) then (s, SD_NONE)
      else if sel_in_failsafe s \<and> sel_current_mcs s = mcs_min m then (s, SD_NONE)
      else (selector_commit m (mcs_min m) now
              (s\<lparr>sel_in_failsafe := True, sel_rssi_floor_active := False,
                 sel_rssi_fade_active := False\<rparr>), SD_FAILSAFE))"

section \<open>The control law\<close>

definition FADE_PERSIST_SAMPLES :: int where
  "FADE_PERSIST_SAMPLES = 3"

text \<open>Bookkeeping of a datagram's arrival: failsafe lifted, expired freeze lifted, pressure run tracked.\<close>

definition selector_arrival :: "bool \<Rightarrow> u64 \<Rightarrow> selector \<Rightarrow> selector" where
  "selector_arrival in_pressure now s =
     (let s1 = s\<lparr>sel_last_datagram_us := now, sel_in_failsafe := False\<rparr>;
          s2 = (if sel_flap_freeze_mcs s1 \<ge> 0 \<and> now \<ge> sel_flap_freeze_until_us s1
                then s1\<lparr>sel_flap_freeze_mcs := - 1, sel_flap_demote_streak := 0\<rparr> else s1)
      in s2\<lparr>sel_pressure_since_us :=
              (if in_pressure then (if sel_pressure_since_us s2 = 0 then now else sel_pressure_since_us s2)
               else 0)\<rparr>)"

definition floor_hit :: "mcs_cfg \<Rightarrow> score \<Rightarrow> bool" where
  "floor_hit m sc = (so_smoothed_rssi sc \<le> mcs_rssi_floor_dbm m)"

definition fade_sample :: "mcs_cfg \<Rightarrow> score \<Rightarrow> bool" where
  "fade_sample m sc = (mcs_rssi_fade_db_per_s m > 0 \<and> so_smoothed_rssi sc \<le> mcs_rssi_fade_arm_dbm m
                       \<and> so_rssi_slope_db_s sc \<le> - mcs_rssi_fade_db_per_s m)"

definition fade_hit :: "selector \<Rightarrow> bool" where
  "fade_hit s = (sel_fade_streak s \<ge> FADE_PERSIST_SAMPLES)"

definition selector_guards :: "mcs_cfg \<Rightarrow> score \<Rightarrow> selector \<Rightarrow> selector" where
  "selector_guards m sc s =
     (let s1 = s\<lparr>sel_fade_streak := (if fade_sample m sc then sel_fade_streak s + 1 else 0)\<rparr>
      in s1\<lparr>sel_rssi_floor_active := floor_hit m sc, sel_rssi_fade_active := fade_hit s1\<rparr>)"

definition change_age :: "selector \<Rightarrow> u64 \<Rightarrow> rat" where
  "change_age s now = s_of (now - sel_last_change_us s)"

definition can_demote :: "mcs_cfg \<Rightarrow> u64 \<Rightarrow> selector \<Rightarrow> bool" where
  "can_demote m now s = (sel_current_mcs s > mcs_min m \<and> change_age s now \<ge> mcs_down_cooldown_s m)"

definition per_spike :: "mcs_cfg \<Rightarrow> score \<Rightarrow> bool" where
  "per_spike m sc = (fl32 (so_smoothed_lost_ratio sc * 1000) \<ge> fl32 (of_int (mcs_demote_per_milli m)))"

text \<open>A promotion from the current rung would step into or above the frozen one.\<close>

definition freeze_blocks :: "u64 \<Rightarrow> selector \<Rightarrow> bool" where
  "freeze_blocks now s = (sel_flap_freeze_mcs s \<ge> 0 \<and> now < sel_flap_freeze_until_us s
                          \<and> sel_current_mcs s + 1 \<ge> sel_flap_freeze_mcs s)"

definition near_floor :: "mcs_cfg \<Rightarrow> score \<Rightarrow> bool" where
  "near_floor m sc = (so_smoothed_rssi sc \<le> fl32 (mcs_rssi_floor_dbm m + mcs_rssi_floor_hyst_db m))"

definition pressure_escape :: "mcs_cfg \<Rightarrow> score \<Rightarrow> bool \<Rightarrow> u64 \<Rightarrow> selector \<Rightarrow> bool" where
  "pressure_escape m sc in_pressure now s =
     (in_pressure \<and> mcs_pressure_escape_s m > 0 \<and> sel_pressure_since_us s \<noteq> 0
      \<and> sel_current_mcs s < mcs_max m
      \<and> (\<not> floor_hit m sc \<and> \<not> fade_sample m sc \<and> \<not> near_floor m sc
         \<and> so_smoothed_rssi sc > mcs_rssi_fade_arm_dbm m)
      \<and> \<not> freeze_blocks now s
      \<and> s_of (now - sel_pressure_since_us s) \<ge> mcs_pressure_escape_s m
      \<and> change_age s now \<ge> mcs_down_cooldown_s m)"

text \<open>The record of the boundary rung two above the current one, when it may be acted on.\<close>

definition boundary_rung :: "mcs_cfg \<Rightarrow> probe_state \<Rightarrow> u64 \<Rightarrow> selector \<Rightarrow> probe_rung option" where
  "boundary_rung m probe now s =
     (let v2 = sel_current_mcs s + 2 in
      if 0 \<le> v2 \<and> v2 < PROBE_MCS_MAX
      then let pr = ps_rung probe ! nat v2 in
           if pr_valid pr \<and> pr_per_milli pr \<ge> 0 \<and> pr_last_us pr \<ge> ps_gate_us probe
              \<and> s_of (now - pr_last_us pr) \<le> mcs_probe_stale_age_s m
           then Some pr else None
      else None)"

definition promote_dwell :: "mcs_cfg \<Rightarrow> u64 \<Rightarrow> selector \<Rightarrow> rat" where
  "promote_dwell m now s =
     (if sel_flap_guard_mcs s \<ge> 0 \<and> sel_current_mcs s + 1 \<ge> sel_flap_guard_mcs s
         \<and> s_of (now - sel_flap_guard_us s) < mcs_reentry_backoff_s m
         \<and> mcs_reentry_dwell_s m > mcs_promote_dwell_s m
      then mcs_reentry_dwell_s m else mcs_promote_dwell_s m)"

definition promote_guard :: "mcs_cfg \<Rightarrow> score \<Rightarrow> u64 \<Rightarrow> selector \<Rightarrow> bool" where
  "promote_guard m sc now s = (fade_sample m sc \<or> near_floor m sc \<or> freeze_blocks now s)"

text \<open>Rule 4 on the boundary record: the decision, \<open>SD_NONE\<close> to hold.\<close>

definition probe_rule :: "mcs_cfg \<Rightarrow> score \<Rightarrow> probe_state \<Rightarrow> bool \<Rightarrow> u64 \<Rightarrow> selector \<Rightarrow> decision" where
  "probe_rule m sc probe pressure_block now s =
     (case boundary_rung m probe now s of
        None \<Rightarrow> SD_NONE
      | Some pr \<Rightarrow>
          (if pr_per_milli pr \<ge> mcs_probe_fail_milli m \<and> sel_current_mcs s + 2 \<le> mcs_max m
           then (if \<not> pressure_block \<and> can_demote m now s then SD_DOWN else SD_NONE)
           else if pr_per_milli pr \<le> mcs_probe_clean_milli m
           then (if \<not> promote_guard m sc now s \<and> sel_current_mcs s < mcs_max m
                    \<and> change_age s now \<ge> promote_dwell m now s
                 then SD_UP else SD_NONE)
           else SD_NONE))"

definition apply_decision :: "mcs_cfg \<Rightarrow> u64 \<Rightarrow> selector \<Rightarrow> decision \<Rightarrow> selector \<times> decision" where
  "apply_decision m now s d =
     (case d of
        SD_DOWN \<Rightarrow> (selector_commit m (sel_current_mcs s - 1) now s, SD_DOWN)
      | SD_UP \<Rightarrow> (selector_commit m (sel_current_mcs s + 1) now s, SD_UP)
      | _ \<Rightarrow> (s, SD_NONE))"

text \<open>Rules 1 to 4, first match wins, after the guard flags were refreshed.\<close>

definition selector_law ::
  "mcs_cfg \<Rightarrow> score \<Rightarrow> probe_state \<Rightarrow> bool \<Rightarrow> u64 \<Rightarrow> selector \<Rightarrow> selector \<times> decision" where
  "selector_law m sc probe in_pressure now s =
     (let pressure_block = (in_pressure \<and> mcs_pressure_demote_block m) in
      if \<not> pressure_block \<and> per_spike m sc then
        apply_decision m now s (if can_demote m now s then SD_DOWN else SD_NONE)
      else if (floor_hit m sc \<or> fade_hit s) \<and> can_demote m now s then
        apply_decision m now s SD_DOWN
      else if pressure_escape m sc in_pressure now s then
        apply_decision m now
          (s\<lparr>sel_pressure_escape_count := sel_pressure_escape_count s + 1\<rparr>) SD_UP
      else apply_decision m now s (probe_rule m sc probe pressure_block now s))"

definition selector_update ::
  "mcs_cfg \<Rightarrow> score \<Rightarrow> probe_state \<Rightarrow> bool \<Rightarrow> u64 \<Rightarrow> selector \<Rightarrow> selector \<times> decision" where
  "selector_update m sc probe in_pressure now s =
     (let s1 = selector_arrival in_pressure now s in
      if sel_current_mcs s1 < 0 then (selector_commit m (mcs_min m) now s1, SD_INIT)
      else selector_law m sc probe in_pressure now (selector_guards m sc s1))"

section \<open>Frames\<close>

text \<open>The collection \<open>sel_frame\<close> says which fields the bookkeeping steps leave alone.\<close>

named_theorems sel_frame

lemma expire_frame [sel_frame]:
  "sel_current_mcs (selector_expire_changes m now s) = sel_current_mcs s"
  "sel_last_change_us (selector_expire_changes m now s) = sel_last_change_us s"
  "sel_last_datagram_us (selector_expire_changes m now s) = sel_last_datagram_us s"
  "sel_in_failsafe (selector_expire_changes m now s) = sel_in_failsafe s"
  "sel_changes_us (selector_expire_changes m now s) = sel_changes_us s"
  "sel_changes_head (selector_expire_changes m now s) = sel_changes_head s"
  "sel_commit_count (selector_expire_changes m now s) = sel_commit_count s"
  "sel_flap_guard_mcs (selector_expire_changes m now s) = sel_flap_guard_mcs s"
  "sel_flap_guard_us (selector_expire_changes m now s) = sel_flap_guard_us s"
  "sel_flap_demote_streak (selector_expire_changes m now s) = sel_flap_demote_streak s"
  "sel_flap_last_demote_us (selector_expire_changes m now s) = sel_flap_last_demote_us s"
  "sel_flap_freeze_mcs (selector_expire_changes m now s) = sel_flap_freeze_mcs s"
  "sel_flap_freeze_until_us (selector_expire_changes m now s) = sel_flap_freeze_until_us s"
  by (simp_all add: selector_expire_changes_def Let_def)

lemma record_frame [sel_frame]:
  "sel_current_mcs (selector_record_change m now s) = sel_current_mcs s"
  "sel_last_change_us (selector_record_change m now s) = sel_last_change_us s"
  "sel_in_failsafe (selector_record_change m now s) = sel_in_failsafe s"
  "sel_commit_count (selector_record_change m now s) = sel_commit_count s"
  "sel_flap_guard_mcs (selector_record_change m now s) = sel_flap_guard_mcs s"
  "sel_flap_guard_us (selector_record_change m now s) = sel_flap_guard_us s"
  "sel_flap_demote_streak (selector_record_change m now s) = sel_flap_demote_streak s"
  "sel_flap_last_demote_us (selector_record_change m now s) = sel_flap_last_demote_us s"
  "sel_flap_freeze_mcs (selector_record_change m now s) = sel_flap_freeze_mcs s"
  "sel_flap_freeze_until_us (selector_record_change m now s) = sel_flap_freeze_until_us s"
  by (simp_all add: selector_record_change_def sel_frame)

lemma freeze_step_frame [sel_frame]:
  "sel_current_mcs (flap_freeze_step m prev old now s) = sel_current_mcs s"
  "sel_last_change_us (flap_freeze_step m prev old now s) = sel_last_change_us s"
  "sel_in_failsafe (flap_freeze_step m prev old now s) = sel_in_failsafe s"
  "sel_changes_us (flap_freeze_step m prev old now s) = sel_changes_us s"
  "sel_changes_head (flap_freeze_step m prev old now s) = sel_changes_head s"
  "sel_changes_count (flap_freeze_step m prev old now s) = sel_changes_count s"
  "sel_flap_guard_mcs (flap_freeze_step m prev old now s) = sel_flap_guard_mcs s"
  "sel_flap_guard_us (flap_freeze_step m prev old now s) = sel_flap_guard_us s"
  by (simp_all add: flap_freeze_step_def Let_def)

lemma guard_step_frame [sel_frame]:
  "sel_current_mcs (flap_guard_step m prev now s) = sel_current_mcs s"
  "sel_last_change_us (flap_guard_step m prev now s) = sel_last_change_us s"
  "sel_in_failsafe (flap_guard_step m prev now s) = sel_in_failsafe s"
  "sel_changes_us (flap_guard_step m prev now s) = sel_changes_us s"
  "sel_changes_head (flap_guard_step m prev now s) = sel_changes_head s"
  "sel_changes_count (flap_guard_step m prev now s) = sel_changes_count s"
  by (simp_all add: flap_guard_step_def sel_frame Let_def)

text \<open>A downward step either leaves the freeze alone or latches it on the rung just left.\<close>

lemma freeze_step_cases:
  "(sel_flap_freeze_mcs (flap_freeze_step m prev old now s) = sel_flap_freeze_mcs s
    \<and> sel_flap_freeze_until_us (flap_freeze_step m prev old now s) = sel_flap_freeze_until_us s)
   \<or> (sel_flap_freeze_mcs (flap_freeze_step m prev old now s) = prev
      \<and> sel_flap_freeze_until_us (flap_freeze_step m prev old now s) = now + us_of (mcs_flap_freeze_s m))"
  by (simp add: flap_freeze_step_def Let_def)

lemma guard_step_cases:
  "(sel_flap_freeze_mcs (flap_guard_step m prev now s) = sel_flap_freeze_mcs s
    \<and> sel_flap_freeze_until_us (flap_guard_step m prev now s) = sel_flap_freeze_until_us s)
   \<or> (sel_flap_freeze_mcs (flap_guard_step m prev now s) = prev
      \<and> sel_flap_freeze_until_us (flap_guard_step m prev now s) = now + us_of (mcs_flap_freeze_s m))"
proof -
  obtain s1 where e: "flap_guard_step m prev now s = flap_freeze_step m prev (sel_flap_guard_mcs s) now s1"
    and s1: "sel_flap_freeze_mcs s1 = sel_flap_freeze_mcs s"
      "sel_flap_freeze_until_us s1 = sel_flap_freeze_until_us s"
    by (simp add: flap_guard_step_def Let_def)
  show ?thesis using freeze_step_cases [of m prev "sel_flap_guard_mcs s" now s1] unfolding e s1 .
qed

lemma commit_current [simp]:
  "sel_current_mcs (selector_commit m t now s) = clamp (mcs_min m) (mcs_max m) t"
  by (simp add: selector_commit_def sel_frame Let_def)

lemma commit_failsafe [simp]: "sel_in_failsafe (selector_commit m t now s) = sel_in_failsafe s"
  by (simp add: selector_commit_def sel_frame Let_def)

lemma commit_last_change:
  "sel_last_change_us (selector_commit m t now s)
   = (if clamp (mcs_min m) (mcs_max m) t = sel_current_mcs s then sel_last_change_us s else now)"
  by (simp add: selector_commit_def sel_frame Let_def)

lemma commit_freeze_cases:
  "(sel_flap_freeze_mcs (selector_commit m t now s) = sel_flap_freeze_mcs s
    \<and> sel_flap_freeze_until_us (selector_commit m t now s) = sel_flap_freeze_until_us s)
   \<or> (clamp (mcs_min m) (mcs_max m) t < sel_current_mcs s
      \<and> sel_flap_freeze_mcs (selector_commit m t now s) = sel_current_mcs s
      \<and> sel_flap_freeze_until_us (selector_commit m t now s) = now + us_of (mcs_flap_freeze_s m))"
proof (cases "clamp (mcs_min m) (mcs_max m) t < sel_current_mcs s \<and> 0 \<le> sel_current_mcs s")
  case True
  then obtain s1 where e: "selector_commit m t now s = flap_guard_step m (sel_current_mcs s) now s1"
    and s1: "sel_flap_freeze_mcs s1 = sel_flap_freeze_mcs s"
      "sel_flap_freeze_until_us s1 = sel_flap_freeze_until_us s"
    by (simp add: selector_commit_def sel_frame Let_def)
  show ?thesis using guard_step_cases [of m "sel_current_mcs s" now s1] True unfolding e s1 by blast
next
  case False
  then show ?thesis by (auto simp: selector_commit_def sel_frame Let_def)
qed

lemma arrival_frame [simp]:
  "sel_current_mcs (selector_arrival p now s) = sel_current_mcs s"
  "sel_last_change_us (selector_arrival p now s) = sel_last_change_us s"
  "sel_changes_us (selector_arrival p now s) = sel_changes_us s"
  "sel_changes_head (selector_arrival p now s) = sel_changes_head s"
  "sel_changes_count (selector_arrival p now s) = sel_changes_count s"
  "sel_flap_guard_mcs (selector_arrival p now s) = sel_flap_guard_mcs s"
  "sel_flap_guard_us (selector_arrival p now s) = sel_flap_guard_us s"
  "sel_fade_streak (selector_arrival p now s) = sel_fade_streak s"
  "\<not> sel_in_failsafe (selector_arrival p now s)"
  by (simp_all add: selector_arrival_def Let_def)

lemma guards_frame [simp]:
  "sel_current_mcs (selector_guards m sc s) = sel_current_mcs s"
  "sel_last_change_us (selector_guards m sc s) = sel_last_change_us s"
  "sel_changes_us (selector_guards m sc s) = sel_changes_us s"
  "sel_changes_head (selector_guards m sc s) = sel_changes_head s"
  "sel_changes_count (selector_guards m sc s) = sel_changes_count s"
  "sel_in_failsafe (selector_guards m sc s) = sel_in_failsafe s"
  "sel_flap_guard_mcs (selector_guards m sc s) = sel_flap_guard_mcs s"
  "sel_flap_guard_us (selector_guards m sc s) = sel_flap_guard_us s"
  "sel_flap_freeze_mcs (selector_guards m sc s) = sel_flap_freeze_mcs s"
  "sel_flap_freeze_until_us (selector_guards m sc s) = sel_flap_freeze_until_us s"
  "sel_pressure_since_us (selector_guards m sc s) = sel_pressure_since_us s"
  by (simp_all add: selector_guards_def Let_def)

lemma age_frame [simp]:
  "change_age (selector_arrival p now s) t = change_age s t"
  "change_age (selector_guards m sc s) t = change_age s t"
  by (simp_all add: change_age_def)

lemma apply_decision_current:
  "sel_current_mcs (fst (apply_decision m now s d))
   = (case d of SD_DOWN \<Rightarrow> clamp (mcs_min m) (mcs_max m) (sel_current_mcs s - 1)
              | SD_UP \<Rightarrow> clamp (mcs_min m) (mcs_max m) (sel_current_mcs s + 1)
              | _ \<Rightarrow> sel_current_mcs s)"
  "snd (apply_decision m now s d) = (if d \<in> {SD_DOWN, SD_UP} then d else SD_NONE)"
  by (simp_all add: apply_decision_def split: decision.split)

section \<open>What the law may decide\<close>

text \<open>
  The five outcomes of the law: hold, a demotion with its reason, or a promotion with its reason.
\<close>

lemma selector_law_cases:
  obtains (hold) "selector_law m sc probe p now s = (s, SD_NONE)"
  | (down) "selector_law m sc probe p now s
              = (selector_commit m (sel_current_mcs s - 1) now s, SD_DOWN)"
      "can_demote m now s"
      "\<not> (p \<and> mcs_pressure_demote_block m) \<or> floor_hit m sc \<or> fade_hit s"
  | (escape) "selector_law m sc probe p now s = (selector_commit m (sel_current_mcs s + 1) now
                (s\<lparr>sel_pressure_escape_count := sel_pressure_escape_count s + 1\<rparr>), SD_UP)"
      "pressure_escape m sc p now s"
  | (climb) pr where "selector_law m sc probe p now s
              = (selector_commit m (sel_current_mcs s + 1) now s, SD_UP)"
      "boundary_rung m probe now s = Some pr" "pr_per_milli pr \<le> mcs_probe_clean_milli m"
      "\<not> promote_guard m sc now s" "sel_current_mcs s < mcs_max m"
      "promote_dwell m now s \<le> change_age s now"
      "p \<and> mcs_pressure_demote_block m \<or> \<not> per_spike m sc"
proof -
  let ?pb = "p \<and> mcs_pressure_demote_block m"
  consider (spike) "\<not> ?pb" "per_spike m sc"
    | (guard) "?pb \<or> \<not> per_spike m sc" "floor_hit m sc \<or> fade_hit s" "can_demote m now s"
    | (esc) "?pb \<or> \<not> per_spike m sc" "\<not> ((floor_hit m sc \<or> fade_hit s) \<and> can_demote m now s)"
        "pressure_escape m sc p now s"
    | (probe) "?pb \<or> \<not> per_spike m sc" "\<not> ((floor_hit m sc \<or> fade_hit s) \<and> can_demote m now s)"
        "\<not> pressure_escape m sc p now s"
    by blast
  then show thesis
  proof cases
    case spike
    then show thesis
      by (cases "can_demote m now s")
        (auto intro: hold down simp: selector_law_def apply_decision_def Let_def)
  next
    case guard
    then show thesis by (intro down) (auto simp: selector_law_def apply_decision_def Let_def)
  next
    case esc
    then show thesis by (intro escape) (auto simp: selector_law_def apply_decision_def Let_def)
  next
    case probe
    then have e: "selector_law m sc probe p now s
        = apply_decision m now s (probe_rule m sc probe ?pb now s)"
      by (auto simp: selector_law_def Let_def)
    show thesis
    proof (cases "probe_rule m sc probe ?pb now s")
      case SD_DOWN
      then have "can_demote m now s" "\<not> ?pb"
        by (auto simp: probe_rule_def split: option.splits if_splits)
      with SD_DOWN e show thesis by (intro down) (auto simp: apply_decision_def)
    next
      case SD_UP
      then obtain pr where "boundary_rung m probe now s = Some pr"
        "pr_per_milli pr \<le> mcs_probe_clean_milli m" "\<not> promote_guard m sc now s"
        "sel_current_mcs s < mcs_max m" "promote_dwell m now s \<le> change_age s now"
        by (auto simp: probe_rule_def split: option.splits if_splits)
      with SD_UP e probe(1) show thesis by (intro climb) (auto simp: apply_decision_def)
    qed (use e in \<open>auto intro: hold simp: apply_decision_def\<close>)
  qed
qed

section \<open>The step relation\<close>

text \<open>
  Everything the program does to the selector: a receiver datagram, the no-data watchdog, and a
  commit from outside the law (an operator's MCS write, the watchdog's re-clamp after a
  configuration change).
\<close>

inductive selector_step :: "mcs_cfg \<Rightarrow> selector \<Rightarrow> selector \<Rightarrow> bool" for m where
  datagram: "selector_step m s (fst (selector_update m sc probe p now s))"
| no_data: "selector_step m s (fst (selector_tick_no_data m now s))"
| outside: "selector_step m s (selector_commit m t now s)"

inductive_cases selector_stepE: "selector_step m s t"

inductive selector_reachable :: "mcs_cfg \<Rightarrow> selector \<Rightarrow> bool" for m where
  init: "selector_reachable m selector_init"
| step: "selector_reachable m s \<Longrightarrow> selector_step m s t \<Longrightarrow> selector_reachable m t"

definition selector_wf :: "mcs_cfg \<Rightarrow> selector \<Rightarrow> bool" where
  "selector_wf m s =
     ((sel_current_mcs s = - 1 \<or> mcs_min m \<le> sel_current_mcs s \<and> sel_current_mcs s \<le> mcs_max m)
      \<and> (sel_flap_freeze_mcs s = - 1
         \<or> mcs_min m < sel_flap_freeze_mcs s \<and> sel_flap_freeze_mcs s \<le> mcs_max m)
      \<and> length (sel_changes_us s) = OSC_RING \<and> sel_changes_head s < OSC_RING
      \<and> sel_changes_count s \<le> OSC_RING)"

lemma expire_loop_le: "expire_loop arr head cutoff n \<le> n"
proof (induction arr head cutoff n rule: expire_loop.induct)
  case (1 arr head cutoff n)
  then show ?case by (subst expire_loop.simps) auto
qed

lemma expire_count_le: "sel_changes_count (selector_expire_changes m now s) \<le> sel_changes_count s"
  by (simp add: selector_expire_changes_def Let_def expire_loop_le)

lemma expire_wf: "selector_wf m s \<Longrightarrow> selector_wf m (selector_expire_changes m now s)"
  using expire_count_le [of m now s] by (auto simp: selector_wf_def sel_frame)

lemma record_wf:
  "selector_wf m s \<Longrightarrow> selector_wf m (selector_record_change m now s)"
  unfolding selector_record_change_def
  by (intro expire_wf) (auto simp: selector_wf_def OSC_RING_def)

lemma clamp_range: "lo \<le> hi \<Longrightarrow> lo \<le> clamp lo hi v \<and> clamp lo hi v \<le> hi"
  by (simp add: clamp_ge_lo)

lemma commit_ring:
  "\<exists>s1. selector_wf m s \<longrightarrow>
     selector_wf m s1 \<and> sel_changes_us (selector_commit m t now s) = sel_changes_us s1
     \<and> sel_changes_head (selector_commit m t now s) = sel_changes_head s1
     \<and> sel_changes_count (selector_commit m t now s) = sel_changes_count s1"
proof (cases "sel_current_mcs s = clamp (mcs_min m) (mcs_max m) t")
  case True
  then show ?thesis by (intro exI [of _ s]) (simp add: selector_commit_def Let_def)
next
  case False
  let ?r = "selector_record_change m now (s\<lparr>sel_last_change_us := now\<rparr>)"
  have "selector_wf m s \<longrightarrow> selector_wf m ?r"
    by (intro impI record_wf) (simp add: selector_wf_def)
  moreover have "sel_changes_us (selector_commit m t now s) = sel_changes_us ?r"
    "sel_changes_head (selector_commit m t now s) = sel_changes_head ?r"
    "sel_changes_count (selector_commit m t now s) = sel_changes_count ?r"
    using False
    by (simp_all add: selector_commit_def selector_record_change_def selector_expire_changes_def
        Let_def sel_frame)
  ultimately show ?thesis by blast
qed

lemma commit_wf:
  assumes "selector_wf m s" "mcs_min m \<le> mcs_max m" "0 \<le> mcs_min m"
  shows "selector_wf m (selector_commit m t now s)"
proof -
  obtain s1 where "selector_wf m s1" "sel_changes_us (selector_commit m t now s) = sel_changes_us s1"
     "sel_changes_head (selector_commit m t now s) = sel_changes_head s1"
     "sel_changes_count (selector_commit m t now s) = sel_changes_count s1"
    using commit_ring [of m s t now] assms(1) by blast
  moreover have "sel_flap_freeze_mcs (selector_commit m t now s) = - 1
     \<or> mcs_min m < sel_flap_freeze_mcs (selector_commit m t now s)
       \<and> sel_flap_freeze_mcs (selector_commit m t now s) \<le> mcs_max m"
    using commit_freeze_cases [of m t now s] clamp_range [OF assms(2), of t] assms(1,3)
    by (auto simp: selector_wf_def)
  ultimately show ?thesis
    using clamp_range [OF assms(2), of t] by (simp add: selector_wf_def)
qed

lemma arrival_wf: "selector_wf m s \<Longrightarrow> selector_wf m (selector_arrival p now s)"
  by (auto simp: selector_wf_def selector_arrival_def Let_def)

lemma guards_wf: "selector_wf m s \<Longrightarrow> selector_wf m (selector_guards m sc s)"
  by (simp add: selector_wf_def)

lemma law_wf:
  assumes "selector_wf m s" "mcs_min m \<le> mcs_max m" "0 \<le> mcs_min m"
  shows "selector_wf m (fst (selector_law m sc probe p now s))"
proof (cases rule: selector_law_cases [of m sc probe p now s])
  case escape
  have "selector_wf m (s\<lparr>sel_pressure_escape_count := sel_pressure_escape_count s + 1\<rparr>)"
    using assms(1) by (simp add: selector_wf_def)
  with escape assms show ?thesis by (simp add: commit_wf)
qed (use assms in \<open>simp_all add: commit_wf\<close>)

lemma update_wf:
  assumes "selector_wf m s" "mcs_min m \<le> mcs_max m" "0 \<le> mcs_min m"
  shows "selector_wf m (fst (selector_update m sc probe p now s))"
  using assms by (simp add: selector_update_def Let_def commit_wf arrival_wf guards_wf law_wf)

lemma tick_wf:
  assumes "selector_wf m s" "mcs_min m \<le> mcs_max m" "0 \<le> mcs_min m"
  shows "selector_wf m (fst (selector_tick_no_data m now s))"
proof -
  have "selector_wf m (selector_expire_changes m now s)" using assms(1) by (rule expire_wf)
  moreover from this have "selector_wf m ((selector_expire_changes m now s)\<lparr>sel_in_failsafe := True,
      sel_rssi_floor_active := False, sel_rssi_fade_active := False\<rparr>)"
    by (simp add: selector_wf_def)
  ultimately show ?thesis
    using assms by (simp add: selector_tick_no_data_def Let_def commit_wf)
qed

section \<open>Properties\<close>

text \<open>C25: the committed MCS stays in range.  In every state the selector can reach, through any
  sequence of datagrams, watchdog ticks and outside commits, the committed MCS is the initial -1 or
  lies in the configured range, a frozen rung is in range and above the lowest, and the ring of
  changes is well formed.\<close>

theorem selector_reachable_wf:
  assumes "selector_reachable m s" "mcs_min m \<le> mcs_max m" "0 \<le> mcs_min m"
  shows "selector_wf m s"
  using assms(1)
proof (induction rule: selector_reachable.induct)
  case init
  show ?case by (simp add: selector_wf_def selector_init_def OSC_RING_def)
next
  case (step s t)
  from step(2) show ?case
    by (cases rule: selector_stepE) (use step(3) assms in \<open>auto intro: update_wf tick_wf commit_wf\<close>)
qed

theorem selector_reachable_wf_witness:
  "selector_wf mcs_defaults (fst (selector_tick_no_data mcs_defaults 5000000 selector_init))"
  by (rule selector_reachable_wf [OF selector_reachable.step [OF selector_reachable.init selector_step.no_data]])
    simp_all

text \<open>C23: demotions.  A datagram demotes by exactly one rung, never below the floor of the range, not
  before \<open>down_cooldown_s\<close> since the last change, and, while the transport reports backpressure with
  the demote block on, only on an RSSI floor or a fade that persisted three samples.\<close>

theorem selector_demotes:
  assumes "selector_update m sc probe p now s = (s', SD_DOWN)"
    and "sel_current_mcs s \<le> mcs_max m" "mcs_min m \<le> mcs_max m"
  shows "sel_current_mcs s' = sel_current_mcs s - 1 \<and> mcs_min m \<le> sel_current_mcs s'
       \<and> mcs_down_cooldown_s m \<le> change_age s now
       \<and> (p \<and> mcs_pressure_demote_block m \<longrightarrow>
            floor_hit m sc \<or> FADE_PERSIST_SAMPLES \<le> (if fade_sample m sc then sel_fade_streak s + 1 else 0))"
proof -
  let ?s = "selector_guards m sc (selector_arrival p now s)"
  have law: "selector_law m sc probe p now ?s = (s', SD_DOWN)"
    using assms(1) by (simp add: selector_update_def Let_def split: if_splits)
  show ?thesis
  proof (cases rule: selector_law_cases [of m sc probe p now ?s])
    case down
    with law have s': "s' = selector_commit m (sel_current_mcs s - 1) now ?s" by simp
    have c: "mcs_min m < sel_current_mcs s" "mcs_down_cooldown_s m \<le> change_age s now"
      using down(2) by (simp_all add: can_demote_def)
    have f: "sel_fade_streak ?s = (if fade_sample m sc then sel_fade_streak s + 1 else 0)"
      by (simp add: selector_guards_def Let_def)
    have "clamp (mcs_min m) (mcs_max m) (sel_current_mcs s - 1) = sel_current_mcs s - 1"
      using c assms(2) by (intro clamp_id) auto
    with c down(3) f show ?thesis by (auto simp: s' fade_hit_def)
  qed (use law in simp_all)
qed

definition probe_with :: "int \<Rightarrow> int \<Rightarrow> u64 \<Rightarrow> probe_state" where
  "probe_with v per t = probe_state_init\<lparr>ps_rung := (ps_rung probe_state_init)
     [nat v := rung_init\<lparr>pr_valid := True, pr_per_milli := per, pr_last_us := t\<rparr>]\<rparr>"

definition demo_score :: "rat \<Rightarrow> rat \<Rightarrow> score" where
  "demo_score rssi lost = \<lparr> so_raw_rssi = rssi, so_smoothed_rssi = rssi, so_lost_ratio = lost,
     so_smoothed_lost_ratio = lost, so_recov_ratio = 0, so_smoothed_recov_ratio = 0,
     so_diversity_ratio = 0, so_smoothed_diversity_ratio = 0, so_adapter_count = 1,
     so_rssi_slope_db_s = 0, so_ant_avg = [rssi] \<rparr>"

definition sel_at :: "int \<Rightarrow> u64 \<Rightarrow> selector" where
  "sel_at mcs t = selector_init\<lparr>sel_current_mcs := mcs, sel_last_change_us := t,
                                sel_last_datagram_us := t\<rparr>"

lemma s_of_million: "s_of 9000000 = 9"
  by (simp add: s_of_def f32_of_u64_def)

lemma demo_demote:
  "snd (selector_update mcs_defaults (demo_score (- 90) 0) probe_state_init False 10000000 (sel_at 3 1000000)) = SD_DOWN"
proof -
  have "fl32 (2/10) \<le> 9" "fl32 (1/5) \<le> 9" by code_simp+
  then show ?thesis
    by (simp add: selector_update_def selector_law_def apply_decision_def can_demote_def change_age_def
        s_of_million floor_hit_def per_spike_def Let_def)
      (simp add: sel_at_def demo_score_def s_of_million selector_init_def)
qed

theorem selector_demotes_witness:
  "\<exists>s'. selector_update mcs_defaults (demo_score (- 90) 0) probe_state_init False 10000000 (sel_at 3 1000000)
        = (s', SD_DOWN) \<and> sel_current_mcs s' = 2"
proof -
  obtain s' where u: "selector_update mcs_defaults (demo_score (- 90) 0) probe_state_init False 10000000
      (sel_at 3 1000000) = (s', SD_DOWN)"
    using demo_demote by (metis prod.collapse)
  have c: "sel_current_mcs (sel_at 3 1000000) = 3" by (simp add: sel_at_def)
  from selector_demotes [OF u] have "sel_current_mcs s' = 2"
    unfolding c by simp
  with u show ?thesis by auto
qed

lemma arrival_freeze_blocks: "freeze_blocks now (selector_arrival p now s) = freeze_blocks now s"
  by (auto simp: freeze_blocks_def selector_arrival_def Let_def)

lemma guards_freeze_blocks: "freeze_blocks now (selector_guards m sc s) = freeze_blocks now s"
  by (simp add: freeze_blocks_def)

lemma guards_boundary: "boundary_rung m probe now (selector_guards m sc (selector_arrival p t s)) = boundary_rung m probe now s"
  by (simp add: boundary_rung_def)

lemma guards_dwell: "promote_dwell m now (selector_guards m sc (selector_arrival p t s)) = promote_dwell m now s"
  by (simp add: promote_dwell_def)


lemma demo_promote:
  "snd (selector_update mcs_defaults (demo_score (- 50) 0) (probe_with 5 10 9500000) False 10000000 (sel_at 3 1000000)) = SD_UP"
proof -
  have a: "s_of 500000 \<le> 1" "fl32 (-79) = - 79" by (simp_all add: s_of_def f32_of_u64_def f32.rnd_le_repr)
  have b: "boundary_rung mcs_defaults (probe_with 5 10 9500000) 10000000 (sel_at 3 1000000)
      = Some (rung_init\<lparr>pr_valid := True, pr_per_milli := 10, pr_last_us := 9500000\<rparr>)"
    using a by (simp add: boundary_rung_def probe_with_def sel_at_def probe_state_init_def PROBE_MCS_MAX_def)
  show ?thesis
    by (simp add: selector_update_def selector_law_def apply_decision_def can_demote_def change_age_def
        s_of_million floor_hit_def per_spike_def Let_def probe_rule_def guards_boundary b promote_guard_def
        guards_freeze_blocks arrival_freeze_blocks guards_dwell pressure_escape_def fade_sample_def)
      (simp add: sel_at_def demo_score_def s_of_million selector_init_def near_floor_def a freeze_blocks_def
        promote_dwell_def fade_hit_def selector_guards_def FADE_PERSIST_SAMPLES_def fade_sample_def
        selector_arrival_def rung_init_def Let_def)
qed



section \<open>Flap freeze and failsafe\<close>

text \<open>A run of the selector: receiver datagrams and watchdog ticks, in order.\<close>

datatype sel_event =
  Datagram score probe_state bool u64
| Watchdog u64

fun sel_event_time :: "sel_event \<Rightarrow> u64" where
  "sel_event_time (Datagram sc probe p now) = now"
| "sel_event_time (Watchdog now) = now"

fun sel_event_run :: "mcs_cfg \<Rightarrow> sel_event \<Rightarrow> selector \<Rightarrow> selector" where
  "sel_event_run m (Datagram sc probe p now) s = fst (selector_update m sc probe p now s)"
| "sel_event_run m (Watchdog now) s = fst (selector_tick_no_data m now s)"

text \<open>A rung at or below \<open>r\<close> is frozen at least until \<open>until\<close> and the selector is under it.\<close>

definition frozen_under :: "mcs_cfg \<Rightarrow> u64 \<Rightarrow> int \<Rightarrow> selector \<Rightarrow> bool" where
  "frozen_under m until r s =
     (sel_flap_freeze_mcs s \<le> r \<and> until \<le> sel_flap_freeze_until_us s
      \<and> mcs_min m \<le> sel_current_mcs s \<and> sel_current_mcs s < sel_flap_freeze_mcs s)"

lemma clamp_below: "lo \<le> hi \<Longrightarrow> lo \<le> v \<Longrightarrow> clamp lo hi v \<le> v"
  by (auto simp: clamp_def)

lemma commit_frozen:
  assumes "frozen_under m until r s" "mcs_min m \<le> mcs_max m" "0 \<le> mcs_min m"
    and "until \<le> now + us_of (mcs_flap_freeze_s m)"
    and "mcs_min m \<le> t" "t < sel_flap_freeze_mcs s"
  shows "frozen_under m until r (selector_commit m t now s)"
proof -
  let ?c = "clamp (mcs_min m) (mcs_max m) t"
  have c: "mcs_min m \<le> ?c" "?c \<le> t"
    using clamp_range [OF assms(2), of t] clamp_below [OF assms(2,5)] by auto
  show ?thesis
    using commit_freeze_cases [of m t now s]
  proof
    assume "sel_flap_freeze_mcs (selector_commit m t now s) = sel_flap_freeze_mcs s
      \<and> sel_flap_freeze_until_us (selector_commit m t now s) = sel_flap_freeze_until_us s"
    with c assms(1,6) show ?thesis by (simp add: frozen_under_def)
  next
    assume "?c < sel_current_mcs s
      \<and> sel_flap_freeze_mcs (selector_commit m t now s) = sel_current_mcs s
      \<and> sel_flap_freeze_until_us (selector_commit m t now s) = now + us_of (mcs_flap_freeze_s m)"
    with c assms(1,4) show ?thesis by (simp add: frozen_under_def)
  qed
qed

lemma law_frozen:
  assumes "frozen_under m until r s" "mcs_min m \<le> mcs_max m" "0 \<le> mcs_min m"
    and "now < until" "until \<le> now + us_of (mcs_flap_freeze_s m)"
  shows "frozen_under m until r (fst (selector_law m sc probe p now s))"
proof -
  have blocks: "sel_current_mcs s + 1 < sel_flap_freeze_mcs s" if "\<not> freeze_blocks now s"
    using that assms by (auto simp: freeze_blocks_def frozen_under_def not_le)
  have cur: "mcs_min m \<le> sel_current_mcs s" "sel_current_mcs s < sel_flap_freeze_mcs s"
    using assms(1) by (simp_all add: frozen_under_def)
  show ?thesis
  proof (cases rule: selector_law_cases [of m sc probe p now s])
    case hold
    with assms(1) show ?thesis by simp
  next
    case down
    then show ?thesis using cur
      by (auto simp: can_demote_def intro!: commit_frozen assms)
  next
    case escape
    let ?s = "s\<lparr>sel_pressure_escape_count := sel_pressure_escape_count s + 1\<rparr>"
    have "frozen_under m until r ?s" using assms(1) by (simp add: frozen_under_def)
    moreover have "sel_current_mcs s + 1 < sel_flap_freeze_mcs ?s"
      using blocks escape(2) by (simp add: pressure_escape_def)
    ultimately show ?thesis using cur escape(1) assms by (simp add: commit_frozen)
  next
    case climb
    then have "sel_current_mcs s + 1 < sel_flap_freeze_mcs s"
      using blocks by (simp add: promote_guard_def)
    then show ?thesis using cur climb(1) assms by (simp add: commit_frozen)
  qed
qed

lemma event_frozen:
  assumes "frozen_under m until r s" "mcs_min m \<le> mcs_max m" "0 \<le> mcs_min m"
    and "sel_event_time e < until" "until \<le> sel_event_time e + us_of (mcs_flap_freeze_s m)"
  shows "frozen_under m until r (sel_event_run m e s)"
proof (cases e)
  case (Datagram sc probe p now)
  let ?a = "selector_guards m sc (selector_arrival p now s)"
  have "now < sel_flap_freeze_until_us s" "0 \<le> sel_current_mcs s"
    using assms(1,3,4) Datagram by (auto simp: frozen_under_def)
  moreover from this have "frozen_under m until r ?a"
    using assms(1) by (simp add: frozen_under_def selector_arrival_def Let_def)
  ultimately show ?thesis
    using assms(2-) Datagram by (simp add: selector_update_def Let_def law_frozen)
next
  case (Watchdog now)
  let ?x = "selector_expire_changes m now s"
  have x: "frozen_under m until r ?x" using assms(1) by (simp add: frozen_under_def sel_frame)
  let ?y = "?x\<lparr>sel_in_failsafe := True, sel_rssi_floor_active := False, sel_rssi_fade_active := False\<rparr>"
  have "frozen_under m until r ?y" "mcs_min m < sel_flap_freeze_mcs ?y"
    using x by (simp_all add: frozen_under_def)
  with x assms(2-) Watchdog show ?thesis
    by (simp add: selector_tick_no_data_def Let_def commit_frozen)
qed

text \<open>C28: the flap freeze holds.  While rung \<open>r\<close> is frozen, no sequence of datagrams and watchdog ticks
  before the expiry brings the selector back to \<open>r\<close> or above, whatever the scores, probe records
  and backpressure; and the freeze is still in force at the end.\<close>

theorem flap_freeze_holds:
  assumes "sel_flap_freeze_mcs s = r" "until \<le> sel_flap_freeze_until_us s"
    and "mcs_min m \<le> sel_current_mcs s" "sel_current_mcs s < r"
    and "mcs_min m \<le> mcs_max m" "0 \<le> mcs_min m"
    and "\<forall>e\<in>set es. sel_event_time e < until \<and> until \<le> sel_event_time e + us_of (mcs_flap_freeze_s m)"
  shows "sel_current_mcs (fold (sel_event_run m) es s) < r
       \<and> until \<le> sel_flap_freeze_until_us (fold (sel_event_run m) es s)"
proof -
  have "frozen_under m until r s" using assms by (simp add: frozen_under_def)
  then have "frozen_under m until r (fold (sel_event_run m) es s)"
    using assms(7) by (induction es arbitrary: s) (auto intro!: event_frozen assms)
  then show ?thesis by (simp add: frozen_under_def)
qed

definition frozen_sel :: selector where
  "frozen_sel = (sel_at 2 1000000)\<lparr>sel_flap_freeze_mcs := 3, sel_flap_freeze_until_us := 20000000\<rparr>"

theorem flap_freeze_holds_witness:
  "sel_current_mcs (fold (sel_event_run mcs_defaults)
      [Datagram (demo_score (- 50) 0) (probe_with 4 10 9500000) False 10000000, Watchdog 10100000,
       Datagram (demo_score (- 50) 0) (probe_with 4 10 11000000) True 11500000] frozen_sel) < 3"
proof -
  have "us_of (mcs_flap_freeze_s mcs_defaults) = 10000000"
    by (simp add: us_of_def)
  then show ?thesis
    using flap_freeze_holds [of frozen_sel 3 20000000 mcs_defaults
      "[Datagram (demo_score (- 50) 0) (probe_with 4 10 9500000) False 10000000, Watchdog 10100000,
       Datagram (demo_score (- 50) 0) (probe_with 4 10 11000000) True 11500000]"]
    by (simp add: frozen_sel_def sel_at_def)
qed

text \<open>C29: the no-data failsafe.  The watchdog forces the lowest MCS exactly when a datagram has been
  seen, none came for the failsafe timeout, and it has not already done so; it announces that once,
  ticking again changes nothing until the next datagram, and a datagram lifts the failsafe.\<close>

theorem failsafe_discipline:
  assumes "mcs_min m \<le> mcs_max m" "selector_tick_no_data m now s = (s', d)"
  shows "(d = SD_FAILSAFE \<longleftrightarrow>
           sel_last_datagram_us s \<noteq> 0 \<and> us_of (mcs_failsafe_timeout_s m) \<le> now - sel_last_datagram_us s
           \<and> \<not> (sel_in_failsafe s \<and> sel_current_mcs s = mcs_min m))
       \<and> (d = SD_FAILSAFE \<longrightarrow> sel_current_mcs s' = mcs_min m \<and> sel_in_failsafe s'
           \<and> (\<forall>t. snd (selector_tick_no_data m t s') = SD_NONE))
       \<and> (d \<noteq> SD_FAILSAFE \<longrightarrow> d = SD_NONE \<and> sel_current_mcs s' = sel_current_mcs s
           \<and> sel_in_failsafe s' = sel_in_failsafe s)
       \<and> \<not> sel_in_failsafe (fst (selector_update m sc probe p t s'))"
proof -
  have min: "clamp (mcs_min m) (mcs_max m) (mcs_min m) = mcs_min m"
    using assms(1) by (simp add: clamp_id)
  have law: "sel_in_failsafe (fst (selector_law m sc probe p t x)) = sel_in_failsafe x" for x
    by (cases rule: selector_law_cases [of m sc probe p t x]) simp_all
  have lift: "\<not> sel_in_failsafe (fst (selector_update m sc probe p t s'))"
    by (simp add: selector_update_def Let_def law)
  show ?thesis using assms(2) lift
    by (auto simp: selector_tick_no_data_def Let_def sel_frame min not_less split: if_splits)
qed

lemma demo_failsafe:
  "snd (selector_tick_no_data mcs_defaults 5000000 (sel_at 3 1000000)) = SD_FAILSAFE"
  by (simp add: selector_tick_no_data_def Let_def sel_frame us_of_def)
    (simp add: sel_at_def selector_init_def)

theorem failsafe_discipline_witness:
  "sel_current_mcs (fst (selector_tick_no_data mcs_defaults 5000000 (sel_at 3 1000000))) = 0"
proof -
  obtain s' where u: "selector_tick_no_data mcs_defaults 5000000 (sel_at 3 1000000) = (s', SD_FAILSAFE)"
    using demo_failsafe by (metis prod.collapse)
  have r: "mcs_min mcs_defaults \<le> mcs_max mcs_defaults" "mcs_min mcs_defaults = 0" by simp_all
  show ?thesis
    using failsafe_discipline [OF r(1) u] unfolding u r(2) by simp
qed

end
