(* ===== verification/WcmdProxy.thy ===== *)
theory WcmdProxy
  imports SysEnv
begin

text \<open>
  The command proxy of \<open>vehicle/link_controller.c\<close>: the ground station's WCMD requests are
  validated, clamped and dispatched to the encoder's HTTP interface, to wfb\_tx, to \<open>iw\<close>, to the
  adaptive subsystems' switches, to the logger or to the recovery hook.  \<open>wcmd_dispatch\<close> tries the
  branches in the order of the source; each branch is a definition.
\<close>

section \<open>State\<close>

definition WCMD_NUM_KEYS :: int where
  "WCMD_NUM_KEYS = 20"

definition WCMD_BURST_DEDUP_US :: u64 where
  "WCMD_BURST_DEDUP_US = 500000"

record wcmd_state =
  ws_recv_total :: u64
  ws_accepted :: u64
  ws_rejected_format :: u64
  ws_rejected_disabled :: u64
  ws_rejected_unknown :: u64
  ws_rejected_blocked :: u64
  ws_rejected_range :: u64
  ws_rejected_rate :: u64
  ws_rejected_peer :: u64
  ws_coalesced_burst :: u64
  ws_http_errors :: u64
  ws_last_apply_us :: "u64 list"
  ws_last_seq :: "u16 list"
  ws_last_seq_us :: "u64 list"
  ws_last_recv_us :: u64
  ws_last_status :: int
  ws_last_key :: u8
  ws_last_value :: int
  ws_last_http_status :: int
  ws_radio_written :: "radio_body option"

definition wcmd_state_init :: wcmd_state where
  "wcmd_state_init = \<lparr> ws_recv_total = 0, ws_accepted = 0, ws_rejected_format = 0,
     ws_rejected_disabled = 0, ws_rejected_unknown = 0, ws_rejected_blocked = 0,
     ws_rejected_range = 0, ws_rejected_rate = 0, ws_rejected_peer = 0, ws_coalesced_burst = 0,
     ws_http_errors = 0, ws_last_apply_us = replicate 21 0, ws_last_seq = replicate 21 0,
     ws_last_seq_us = replicate 21 0, ws_last_recv_us = 0, ws_last_status = 0, ws_last_key = 0,
     ws_last_value = 0, ws_last_http_status = 0, ws_radio_written = None \<rparr>"

record logsync =
  ls_valid :: bool
  ls_seq :: u16
  ls_gs_unix_s :: int
  ls_recv_uptime_s :: rat
  ls_count :: u64

text \<open>What a dispatch may change: the configuration, the proxy, the sync marker, the logger.\<close>

record wcmd_ctx =
  wx_cfg :: lc_config
  wx_st :: wcmd_state
  wx_sync :: logsync
  wx_logger :: logger

section \<open>Paths and clamps\<close>

definition wcmd_build_path :: "int \<Rightarrow> int \<Rightarrow> string option" where
  "wcmd_build_path key v =
     (if key = WCMD_KEY_BITRATE_KBPS then Some (''/api/v1/set?video0.bitrate='' @ show_int v)
      else if key = WCMD_KEY_FPS then Some (''/api/v1/set?video0.fps='' @ show_int v)
      else if key = WCMD_KEY_PAYLOAD_BYTES
        then Some (''/api/v1/set?outgoing.maxPayloadSize='' @ show_int v)
      else if key = WCMD_KEY_FORCE_IDR then Some ''/request/idr''
      else if key = WCMD_KEY_RECORD
        then Some (if v \<noteq> 0 then ''/api/v1/record/start'' else ''/api/v1/record/stop'')
      else None)"

text \<open>The window \<open>lo\<close>, \<open>hi\<close> of a key, \<open>None\<close> for a key without one.\<close>

definition wcmd_window :: "lc_config \<Rightarrow> int \<Rightarrow> (int \<times> int) option" where
  "wcmd_window c key =
     (let m = cfg_cmd c; f = cfg_fec c in
      if key = WCMD_KEY_BITRATE_KBPS
        then (let fec_lo = (if fec_on f then fec_bitrate_min_kbps f else 0);
                  fec_hi = (if fec_on f then fec_bitrate_max_kbps f else 0)
              in Some (to_i32 (if fec_lo > 0 then fec_lo else cmd_bitrate_min_kbps m),
                       to_i32 (if fec_hi > 0 then fec_hi else cmd_bitrate_max_kbps m)))
      else if key = WCMD_KEY_FPS then Some (cmd_fps_min m, cmd_fps_max m)
      else if key = WCMD_KEY_PAYLOAD_BYTES then Some (cmd_payload_min m, cmd_payload_max m)
      else if key = WCMD_KEY_WFB_FEC_K then Some (cmd_wfb_fec_k_min m, cmd_wfb_fec_k_max m)
      else if key = WCMD_KEY_WFB_FEC_N then Some (cmd_wfb_fec_n_min m, cmd_wfb_fec_n_max m)
      else if key = WCMD_KEY_WFB_MCS then Some (cmd_wfb_mcs_min m, cmd_wfb_mcs_max m)
      else if key = WCMD_KEY_WFB_BANDWIDTH
        then Some (cmd_wfb_bandwidth_min m, cmd_wfb_bandwidth_max m)
      else if key \<in> {WCMD_KEY_WFB_LDPC, WCMD_KEY_WFB_STBC, WCMD_KEY_WFB_SHORT_GI,
                     WCMD_KEY_FEC_ENABLED, WCMD_KEY_MCS_ENABLED, WCMD_KEY_RECORD,
                     WCMD_KEY_PEEK_ENABLED} then Some (0, 1)
      else if key = WCMD_KEY_WFB_TXPOWER then Some (cmd_wfb_txpower_min m, cmd_wfb_txpower_max m)
      else None)"

text \<open>\<open>None\<close> is the result -1, \<open>Some v\<close> the clamped value.\<close>

definition wcmd_clamp_value :: "lc_config \<Rightarrow> int \<Rightarrow> int \<Rightarrow> int option" where
  "wcmd_clamp_value c key v =
     (if key = WCMD_KEY_FORCE_IDR then Some 0
      else case wcmd_window c key of
        None \<Rightarrow> None
      | Some (lo, hi) \<Rightarrow>
          (if hi \<le> 0 \<or> lo > hi then None
           else if v < lo then Some lo
           else if v > hi then Some hi
           else Some v))"

section \<open>Replies and bookkeeping\<close>

type_synonym 'w wcmd_result = "wcmd_resp \<times> wcmd_ctx \<times> 'w io"

definition resp_init :: "wcmd_req \<Rightarrow> wcmd_resp" where
  "resp_init r = \<lparr> rs_seq = rq_seq r, rs_status = 0, rs_key = rq_key r, rs_http_status = 0,
                   rs_applied_value = 0 \<rparr>"

definition key_ix :: "wcmd_req \<Rightarrow> nat" where
  "key_ix r = unat (rq_key r)"

definition wcmd_mark_applied :: "nat \<Rightarrow> u16 \<Rightarrow> u64 \<Rightarrow> wcmd_state \<Rightarrow> wcmd_state" where
  "wcmd_mark_applied k seq now st =
     st\<lparr>ws_last_apply_us := (ws_last_apply_us st)[k := now],
        ws_last_seq := (ws_last_seq st)[k := seq],
        ws_last_seq_us := (ws_last_seq_us st)[k := now]\<rparr>"

definition wcmd_dup :: "nat \<Rightarrow> u16 \<Rightarrow> u64 \<Rightarrow> wcmd_state \<Rightarrow> bool" where
  "wcmd_dup k seq now st =
     (ws_last_seq_us st ! k \<noteq> 0 \<and> ws_last_seq st ! k = seq
      \<and> now - ws_last_seq_us st ! k < WCMD_BURST_DEDUP_US)"

definition wcmd_arrived :: "wcmd_req \<Rightarrow> u64 \<Rightarrow> wcmd_state \<Rightarrow> wcmd_state" where
  "wcmd_arrived r now st =
     st\<lparr>ws_recv_total := ws_recv_total st + 1, ws_last_recv_us := now, ws_last_key := rq_key r,
        ws_last_value := rq_value r, ws_last_http_status := 0\<rparr>"

text \<open>An early return: the status, one counter and \<open>last_status\<close>; nothing applied.\<close>

definition wcmd_refuse ::
  "wcmd_req \<Rightarrow> int \<Rightarrow> (wcmd_state \<Rightarrow> wcmd_state) \<Rightarrow> wcmd_ctx \<Rightarrow> 'w io \<Rightarrow> 'w wcmd_result" where
  "wcmd_refuse r status count x s =
     ((resp_init r)\<lparr>rs_status := status\<rparr>,
      x\<lparr>wx_st := (count (wx_st x))\<lparr>ws_last_status := status\<rparr>\<rparr>, s)"

text \<open>
  A success: the reply carries \<open>http\<close> and the applied value, the request is stamped as applied,
  and the last-request fields say what was applied.
\<close>

definition wcmd_accept ::
  "wcmd_req \<Rightarrow> u64 \<Rightarrow> int \<Rightarrow> int \<Rightarrow> int \<Rightarrow> wcmd_ctx \<Rightarrow> 'w io \<Rightarrow> 'w wcmd_result" where
  "wcmd_accept r now http last_http v x s =
     (let st = wcmd_mark_applied (key_ix r) (rq_seq r) now (wx_st x) in
      ((resp_init r)\<lparr>rs_status := WCMD_STATUS_OK, rs_http_status := http, rs_applied_value := v\<rparr>,
       x\<lparr>wx_st := st\<lparr>ws_accepted := ws_accepted st + 1, ws_last_status := WCMD_STATUS_OK,
                      ws_last_value := v, ws_last_http_status := last_http\<rparr>\<rparr>, s))"

definition http_fail :: "wcmd_req \<Rightarrow> wcmd_ctx \<Rightarrow> 'w io \<Rightarrow> 'w wcmd_result" where
  "http_fail r x s =
     wcmd_refuse r WCMD_STATUS_HTTP_ERROR (\<lambda>st. st\<lparr>ws_http_errors := ws_http_errors st + 1\<rparr>) x s"

definition range_fail :: "wcmd_req \<Rightarrow> wcmd_ctx \<Rightarrow> 'w io \<Rightarrow> 'w wcmd_result" where
  "range_fail r x s =
     wcmd_refuse r WCMD_STATUS_OUT_OF_RANGE
       (\<lambda>st. st\<lparr>ws_rejected_range := ws_rejected_range st + 1\<rparr>) x s"

section \<open>The branches\<close>

text \<open>The infrastructure keys come before the operator's key mask and are never rate limited.\<close>

definition wcmd_log_sync :: "rat \<Rightarrow> u64 \<Rightarrow> wcmd_req \<Rightarrow> wcmd_ctx \<Rightarrow> 'w io \<Rightarrow> 'w wcmd_result" where
  "wcmd_log_sync uptime now r x s =
     (let st = wx_st x; v = rq_value r;
          x1 = (if wcmd_dup (key_ix r) (rq_seq r) now st
                then x\<lparr>wx_st := st\<lparr>ws_coalesced_burst := ws_coalesced_burst st + 1\<rparr>\<rparr>
                else x\<lparr>wx_sync := \<lparr> ls_valid = True, ls_seq = rq_seq r, ls_gs_unix_s = v,
                                    ls_recv_uptime_s = uptime, ls_count = ls_count (wx_sync x) + 1 \<rparr>,
                       wx_st := (wcmd_mark_applied (key_ix r) (rq_seq r) now st)
                                  \<lparr>ws_accepted := ws_accepted st + 1\<rparr>\<rparr>)
      in ((resp_init r)\<lparr>rs_status := WCMD_STATUS_OK, rs_applied_value := v\<rparr>,
          x1\<lparr>wx_st := (wx_st x1)\<lparr>ws_last_status := WCMD_STATUS_OK, ws_last_value := v,
                                  ws_last_http_status := 0\<rparr>\<rparr>, s))"

definition wcmd_log_control ::
  "'w sysenv \<Rightarrow> u64 \<Rightarrow> wcmd_req \<Rightarrow> wcmd_ctx \<Rightarrow> 'w io \<Rightarrow> 'w wcmd_result" where
  "wcmd_log_control env now r x s =
     (let st = wx_st x; v = (if rq_value r \<noteq> 0 then 1 else 0);
          (x1, s1) = (if wcmd_dup (key_ix r) (rq_seq r) now st
                then (x\<lparr>wx_st := st\<lparr>ws_coalesced_burst := ws_coalesced_burst st + 1\<rparr>\<rparr>, s)
                else let (l, s1) = logger_ctl env (rq_value r \<noteq> 0) now (wx_logger x) s in
                     (x\<lparr>wx_logger := l,
                        wx_st := (wcmd_mark_applied (key_ix r) (rq_seq r) now st)
                                   \<lparr>ws_accepted := ws_accepted st + 1\<rparr>\<rparr>, s1))
      in ((resp_init r)\<lparr>rs_status := WCMD_STATUS_OK, rs_applied_value := v\<rparr>,
          x1\<lparr>wx_st := (wx_st x1)\<lparr>ws_last_status := WCMD_STATUS_OK, ws_last_value := v,
                                  ws_last_http_status := 0\<rparr>\<rparr>, s1))"

text \<open>
  A repeated request: acknowledged from \<open>last_value\<close> and \<open>last_http_status\<close>, which this request
  has already overwritten with its own raw value and 0.
\<close>

definition wcmd_coalesce :: "wcmd_req \<Rightarrow> wcmd_ctx \<Rightarrow> 'w io \<Rightarrow> 'w wcmd_result" where
  "wcmd_coalesce r x s =
     (let st = wx_st x in
      ((resp_init r)\<lparr>rs_status := WCMD_STATUS_OK, rs_http_status := ws_last_http_status st,
                      rs_applied_value := ws_last_value st\<rparr>,
       x\<lparr>wx_st := st\<lparr>ws_coalesced_burst := ws_coalesced_burst st + 1,
                      ws_last_status := WCMD_STATUS_OK\<rparr>\<rparr>, s))"

definition exit_u16 :: "int \<Rightarrow> int" where
  "exit_u16 rc = (if rc > 0 \<and> rc \<le> 0xFFFF then rc else 0)"

definition wcmd_return_apfpv ::
  "'w sysenv \<Rightarrow> u64 \<Rightarrow> wcmd_req \<Rightarrow> wcmd_ctx \<Rightarrow> 'w io \<Rightarrow> 'w wcmd_result" where
  "wcmd_return_apfpv env now r x s =
     (let c = wx_cfg x; hook = rec_apfpv_cmd (cfg_recovery c) in
      if \<not> rec_enabled (cfg_recovery c) \<or> hook = []
      then wcmd_refuse r WCMD_STATUS_DISABLED (\<lambda>st. st) x s
      else let (rc, s1) = (if cfg_dry_run c then (0, s) else wfb_run_recovery_cmd env hook s) in
      if rc = 0 then wcmd_accept r now 0 0 0 x s1
      else ((resp_init r)\<lparr>rs_status := WCMD_STATUS_HTTP_ERROR, rs_http_status := exit_u16 rc\<rparr>,
            x\<lparr>wx_st := (wcmd_mark_applied (key_ix r) (rq_seq r) now (wx_st x))
                         \<lparr>ws_last_status := WCMD_STATUS_HTTP_ERROR\<rparr>\<rparr>, s1))"

definition wcmd_toggle :: "u64 \<Rightarrow> wcmd_req \<Rightarrow> int \<Rightarrow> wcmd_ctx \<Rightarrow> 'w io \<Rightarrow> 'w wcmd_result" where
  "wcmd_toggle now r v x s =
     (let c = wx_cfg x; on = (v \<noteq> 0);
          c1 = (if uint (rq_key r) = WCMD_KEY_FEC_ENABLED
                then c\<lparr>cfg_fec := (cfg_fec c)\<lparr>fec_on := on\<rparr>\<rparr>
                else c\<lparr>cfg_mcs := (cfg_mcs c)\<lparr>mcs_on := on\<rparr>\<rparr>)
      in wcmd_accept r now 0 0 (if on then 1 else 0) (x\<lparr>wx_cfg := c1\<rparr>) s)"

definition wcmd_peek ::
  "'w sysenv \<Rightarrow> u64 \<Rightarrow> wcmd_req \<Rightarrow> int \<Rightarrow> wcmd_ctx \<Rightarrow> 'w io \<Rightarrow> 'w wcmd_result" where
  "wcmd_peek env now r v x s =
     (let on = (if v \<noteq> 0 then 1 else 0) in
      if cfg_dry_run (wx_cfg x) then wcmd_accept r now 0 0 on x s
      else let (ok, s1) = wfb_set_peek env (wx_cfg x) (word_of_int on) s in
      if \<not> ok then http_fail r x s1
      else let (p, s2) = wfb_get_peek env (wx_cfg x) s1 in wcmd_accept r now 0 0 on x s2)"

definition txpower_iface :: "lc_config \<Rightarrow> string" where
  "txpower_iface c = (if cmd_wfb_iface (cfg_cmd c) \<noteq> [] then cmd_wfb_iface (cfg_cmd c)
                      else csa_sub_iface (cfg_csa c))"

definition wcmd_txpower ::
  "'w sysenv \<Rightarrow> u64 \<Rightarrow> wcmd_req \<Rightarrow> int \<Rightarrow> wcmd_ctx \<Rightarrow> 'w io \<Rightarrow> 'w wcmd_result" where
  "wcmd_txpower env now r v x s =
     (let iface = txpower_iface (wx_cfg x) in
      if iface = [] then range_fail r x s
      else if cfg_dry_run (wx_cfg x) then wcmd_accept r now 0 0 v x s
      else let (rc, s1) = wfb_run_iw_txpower env iface v s in
      if rc \<noteq> 0
      then (let (rs, x1, s2) = http_fail r x s1 in
            (rs\<lparr>rs_http_status := exit_u16 rc\<rparr>,
             x1\<lparr>wx_st := (wx_st x1)\<lparr>ws_last_http_status := rc\<rparr>\<rparr>, s2))
      else wcmd_accept r now 0 0 v x s1)"

text \<open>The one field of the radio body a key writes.\<close>

definition radio_set_field :: "int \<Rightarrow> int \<Rightarrow> radio_body \<Rightarrow> radio_body" where
  "radio_set_field key v rb =
     (if key = WCMD_KEY_WFB_MCS then rb\<lparr>rb_mcs_index := word_of_int v\<rparr>
      else if key = WCMD_KEY_WFB_BANDWIDTH then rb\<lparr>rb_bandwidth := word_of_int v\<rparr>
      else if key = WCMD_KEY_WFB_LDPC then rb\<lparr>rb_ldpc := (if v \<noteq> 0 then 1 else 0)\<rparr>
      else if key = WCMD_KEY_WFB_STBC then rb\<lparr>rb_stbc := word_of_int v\<rparr>
      else if key = WCMD_KEY_WFB_SHORT_GI then rb\<lparr>rb_short_gi := (if v \<noteq> 0 then 1 else 0)\<rparr>
      else rb)"

definition wcmd_wfb_fec ::
  "'w sysenv \<Rightarrow> u64 \<Rightarrow> wcmd_req \<Rightarrow> int \<Rightarrow> wcmd_ctx \<Rightarrow> 'w io \<Rightarrow> 'w wcmd_result" where
  "wcmd_wfb_fec env now r v x s =
     (let (got, s1) = wfb_get_fec env (wx_cfg x) s in
      case got of
        None \<Rightarrow> http_fail r x s1
      | Some (k_now, n_now, t_now) \<Rightarrow>
          (let k = (if uint (rq_key r) = WCMD_KEY_WFB_FEC_K then v else k_now);
               n = (if uint (rq_key r) = WCMD_KEY_WFB_FEC_N then v else n_now) in
           if k > n then range_fail r x s1
           else let (ok, s2) = wfb_send_set_fec env (wx_cfg x) k n s1 in
           if \<not> ok then http_fail r x s2 else wcmd_accept r now 0 0 v x s2))"

definition wcmd_wfb_radio ::
  "'w sysenv \<Rightarrow> u64 \<Rightarrow> wcmd_req \<Rightarrow> int \<Rightarrow> wcmd_ctx \<Rightarrow> 'w io \<Rightarrow> 'w wcmd_result" where
  "wcmd_wfb_radio env now r v x s =
     (let (got, s1) = wfb_get_radio env (wx_cfg x) s in
      case got of
        None \<Rightarrow> http_fail r x s1
      | Some rb \<Rightarrow>
          (let rb' = radio_set_field (uint (rq_key r)) v rb;
               (ok, s2) = wfb_set_radio env (wx_cfg x) rb' s1 in
           if \<not> ok then http_fail r x s2
           else wcmd_accept r now 0 0 v
                  (x\<lparr>wx_st := (wx_st x)\<lparr>ws_radio_written := Some rb'\<rparr>\<rparr>) s2))"

definition wcmd_wfb ::
  "'w sysenv \<Rightarrow> u64 \<Rightarrow> wcmd_req \<Rightarrow> int \<Rightarrow> wcmd_ctx \<Rightarrow> 'w io \<Rightarrow> 'w wcmd_result" where
  "wcmd_wfb env now r v x s =
     (if cfg_dry_run (wx_cfg x) then wcmd_accept r now 0 0 v x s
      else if uint (rq_key r) \<in> {WCMD_KEY_WFB_FEC_K, WCMD_KEY_WFB_FEC_N}
      then wcmd_wfb_fec env now r v x s
      else wcmd_wfb_radio env now r v x s)"

definition idr_true :: "string \<Rightarrow> bool" where
  "idr_true body = (has_sub body (quoted ''idr'' @ '':true'') \<or> has_sub body (quoted ''idr'' @ '': true''))"

definition wcmd_venc ::
  "'w sysenv \<Rightarrow> u64 \<Rightarrow> wcmd_req \<Rightarrow> int \<Rightarrow> wcmd_ctx \<Rightarrow> 'w io \<Rightarrow> 'w wcmd_result" where
  "wcmd_venc env now r v x s =
     (case wcmd_build_path (uint (rq_key r)) v of
        None \<Rightarrow> wcmd_refuse r WCMD_STATUS_UNKNOWN_KEY
                  (\<lambda>st. st\<lparr>ws_rejected_unknown := ws_rejected_unknown st + 1\<rparr>) x s
      | Some path \<Rightarrow>
          (if cfg_dry_run (wx_cfg x) then wcmd_accept r now 200 200 v x s
           else let f = cfg_fec (wx_cfg x);
                    ((body, http), s1) = http_get env (fec_venc_host f) (fec_venc_port f) path 1024 s;
                    ok = (case body of None \<Rightarrow> False
                                     | Some b \<Rightarrow> b \<noteq> [] \<and> (ok_true b \<or> idr_true b)) in
           if \<not> ok
           then (let (rs, x1, s2) = http_fail r x s1 in
                 (rs\<lparr>rs_http_status := http\<rparr>,
                  x1\<lparr>wx_st := (wx_st x1)\<lparr>ws_last_http_status := http\<rparr>\<rparr>, s2))
           else wcmd_accept r now (if http > 0 then http else 200) http v x s1))"

section \<open>The dispatcher\<close>

text \<open>Past the clamp and the per-key rate limit, the key selects its surface.\<close>

definition wcmd_apply ::
  "'w sysenv \<Rightarrow> u64 \<Rightarrow> wcmd_req \<Rightarrow> int \<Rightarrow> wcmd_ctx \<Rightarrow> 'w io \<Rightarrow> 'w wcmd_result" where
  "wcmd_apply env now r v x s =
     (let key = uint (rq_key r) in
      if key = WCMD_KEY_FEC_ENABLED \<or> key = WCMD_KEY_MCS_ENABLED then wcmd_toggle now r v x s
      else if key = WCMD_KEY_PEEK_ENABLED then wcmd_peek env now r v x s
      else if key = WCMD_KEY_WFB_TXPOWER then wcmd_txpower env now r v x s
      else if WCMD_KEY_WFB_FEC_K \<le> key \<and> key \<le> WCMD_KEY_WFB_SHORT_GI then wcmd_wfb env now r v x s
      else wcmd_venc env now r v x s)"

definition wcmd_rate_limited :: "lc_config \<Rightarrow> nat \<Rightarrow> u64 \<Rightarrow> wcmd_state \<Rightarrow> bool" where
  "wcmd_rate_limited c k now st =
     (cmd_rate_limit_ms (cfg_cmd c) > 0 \<and> ws_last_apply_us st ! k \<noteq> 0
      \<and> now - ws_last_apply_us st ! k < word_of_int (cmd_rate_limit_ms (cfg_cmd c)) * 1000)"

definition wcmd_keyed ::
  "'w sysenv \<Rightarrow> u64 \<Rightarrow> wcmd_req \<Rightarrow> wcmd_ctx \<Rightarrow> 'w io \<Rightarrow> 'w wcmd_result" where
  "wcmd_keyed env now r x s =
     (let c = wx_cfg x; key = uint (rq_key r) in
      if key = WCMD_KEY_RETURN_APFPV then wcmd_return_apfpv env now r x s
      else if key = WCMD_KEY_WFB_TXPOWER \<and> cmd_tx_pwr_by_rate (cfg_cmd c)
      then wcmd_refuse r WCMD_STATUS_DISABLED
             (\<lambda>st. st\<lparr>ws_rejected_disabled := ws_rejected_disabled st + 1,
                      ws_last_value := rq_value r\<rparr>) x s
      else case wcmd_clamp_value c key (rq_value r) of
        None \<Rightarrow> range_fail r x s
      | Some v \<Rightarrow>
          (if wcmd_rate_limited c (key_ix r) now (wx_st x)
           then (let (rs, x1, s1) = wcmd_refuse r WCMD_STATUS_RATE_LIMITED
                       (\<lambda>st. st\<lparr>ws_rejected_rate := ws_rejected_rate st + 1, ws_last_value := v\<rparr>) x s
                 in (rs\<lparr>rs_applied_value := v\<rparr>, x1, s1))
           else wcmd_apply env now r v x s))"

definition INADDR_LOOPBACK :: u32 where
  "INADDR_LOOPBACK = 0x7F000001"

definition wcmd_dispatch ::
  "'w sysenv \<Rightarrow> rat \<Rightarrow> u64 \<Rightarrow> u32 \<Rightarrow> wcmd_req \<Rightarrow> wcmd_ctx \<Rightarrow> 'w io \<Rightarrow> 'w wcmd_result" where
  "wcmd_dispatch env uptime now peer r x0 s =
     (let x = x0\<lparr>wx_st := wcmd_arrived r now (wx_st x0)\<rparr>;
          m = cfg_cmd (wx_cfg x); key = uint (rq_key r) in
      if \<not> cmd_on m
      then wcmd_refuse r WCMD_STATUS_DISABLED
             (\<lambda>st. st\<lparr>ws_rejected_disabled := ws_rejected_disabled st + 1\<rparr>) x s
      else if cmd_loopback_only m \<and> peer \<noteq> INADDR_LOOPBACK
      then wcmd_refuse r WCMD_STATUS_NOT_PERMITTED
             (\<lambda>st. st\<lparr>ws_rejected_peer := ws_rejected_peer st + 1\<rparr>) x s
      else if key = 0 \<or> key > WCMD_NUM_KEYS
      then wcmd_refuse r WCMD_STATUS_UNKNOWN_KEY
             (\<lambda>st. st\<lparr>ws_rejected_unknown := ws_rejected_unknown st + 1\<rparr>) x s
      else if key = WCMD_KEY_LOG_SYNC then wcmd_log_sync uptime now r x s
      else if key = WCMD_KEY_LOG_CONTROL then wcmd_log_control env now r x s
      else if \<not> bit (cmd_allow_keys_mask m) (nat (key - 1))
      then wcmd_refuse r WCMD_STATUS_KEY_BLOCKED
             (\<lambda>st. st\<lparr>ws_rejected_blocked := ws_rejected_blocked st + 1\<rparr>) x s
      else if wcmd_dup (key_ix r) (rq_seq r) now (wx_st x) then wcmd_coalesce r x s
      else wcmd_keyed env now r x s)"

section \<open>What a branch leaves alone\<close>

text \<open>
  \<open>wcmd_surface\<close>: the only outside actions a key may cause, given the configuration.
\<close>

definition wcmd_surface :: "lc_config \<Rightarrow> int \<Rightarrow> event \<Rightarrow> bool" where
  "wcmd_surface c key e =
     (case e of
        EvHttp h p path \<Rightarrow> h = fec_venc_host (cfg_fec c) \<and> p = fec_venc_port (cfg_fec c)
          \<and> (\<exists>req v. wcmd_clamp_value c key req = Some v \<and> wcmd_build_path key v = Some path)
      | EvUdp h p b \<Rightarrow> h = cfg_wfb_host c \<and> p = cfg_wfb_port c
          \<and> (case b of
               GetFec \<Rightarrow> key \<in> {WCMD_KEY_WFB_FEC_K, WCMD_KEY_WFB_FEC_N}
             | SetFec k n t \<Rightarrow> key \<in> {WCMD_KEY_WFB_FEC_K, WCMD_KEY_WFB_FEC_N} \<and> t = WFB_FEC_TIMEOUT_KEEP
             | GetRadio \<Rightarrow> WCMD_KEY_WFB_MCS \<le> key \<and> key \<le> WCMD_KEY_WFB_SHORT_GI
             | SetRadio rb \<Rightarrow> WCMD_KEY_WFB_MCS \<le> key \<and> key \<le> WCMD_KEY_WFB_SHORT_GI
             | SetPeek on \<Rightarrow> key = WCMD_KEY_PEEK_ENABLED
             | GetPeek \<Rightarrow> key = WCMD_KEY_PEEK_ENABLED)
      | EvExec argv \<Rightarrow>
          (key = WCMD_KEY_RETURN_APFPV \<and> argv = [''sh'', ''-c'', rec_apfpv_cmd (cfg_recovery c)]
           \<and> rec_enabled (cfg_recovery c))
          \<or> (key = WCMD_KEY_WFB_TXPOWER \<and> \<not> cmd_tx_pwr_by_rate (cfg_cmd c)
             \<and> (\<exists>req v. wcmd_clamp_value c key req = Some v
                 \<and> argv = [''iw'', ''dev'', txpower_iface c, ''set'', ''txpower'', ''fixed'', show_int v]))
      | EvLogger on \<Rightarrow> key = WCMD_KEY_LOG_CONTROL)"

text \<open>
  The shape every branch has: only events satisfying \<open>P\<close> are sent, and a request answered OK is
  stamped as applied and reports the value applied; \<open>same\<close> says what else is left alone.
\<close>

definition same_ctx :: "wcmd_ctx \<Rightarrow> wcmd_ctx \<Rightarrow> bool" where
  "same_ctx x y = (wx_cfg y = wx_cfg x \<and> wx_sync y = wx_sync x \<and> wx_logger y = wx_logger x)"

definition stamped :: "wcmd_req \<Rightarrow> u64 \<Rightarrow> wcmd_state \<Rightarrow> wcmd_state \<Rightarrow> bool" where
  "stamped r now st st' =
     (ws_last_seq_us st' = (ws_last_seq_us st)[key_ix r := now]
      \<and> ws_last_seq st' = (ws_last_seq st)[key_ix r := rq_seq r])"

definition branch_ok ::
  "(event \<Rightarrow> bool) \<Rightarrow> wcmd_req \<Rightarrow> u64 \<Rightarrow> int \<Rightarrow> wcmd_ctx \<Rightarrow> 'w io \<Rightarrow> 'w wcmd_result \<Rightarrow> bool" where
  "branch_ok P r now v x s res =
     (case res of (rs, x', s') \<Rightarrow>
        same_ctx x x' \<and> emits s s' P
        \<and> (rs_status rs = WCMD_STATUS_OK
             \<longrightarrow> rs_applied_value rs = v \<and> stamped r now (wx_st x) (wx_st x')))"

named_theorems branch

lemma branch_accept [branch]:
  "same_ctx x y \<Longrightarrow> ws_last_seq_us (wx_st y) = ws_last_seq_us (wx_st x)
   \<Longrightarrow> ws_last_seq (wx_st y) = ws_last_seq (wx_st x)
   \<Longrightarrow> branch_ok P r now v x s (wcmd_accept r now h lh v y s1) = emits s s1 P"
  by (simp add: branch_ok_def wcmd_accept_def wcmd_mark_applied_def stamped_def same_ctx_def Let_def)

lemma branch_refuse [branch]:
  "st \<noteq> WCMD_STATUS_OK \<Longrightarrow> branch_ok P r now v x s (wcmd_refuse r st count x s1) = emits s s1 P"
  by (simp add: branch_ok_def wcmd_refuse_def same_ctx_def)

lemma branch_fail [branch]:
  "branch_ok P r now v x s (http_fail r x s1) = emits s s1 P"
  "branch_ok P r now v x s (range_fail r x s1) = emits s s1 P"
  by (simp_all add: http_fail_def range_fail_def branch proto_consts)

lemma branch_fail_http [branch]:
  "branch_ok P r now v x s
     (case http_fail r x s1 of (rs, x1, s2) \<Rightarrow>
        (rs\<lparr>rs_http_status := h\<rparr>, x1\<lparr>wx_st := (wx_st x1)\<lparr>ws_last_http_status := lh\<rparr>\<rparr>, s2))
   = emits s s1 P"
  by (simp add: http_fail_def wcmd_refuse_def branch_ok_def same_ctx_def proto_consts)

lemma same_ctx_refl [simp]: "same_ctx x x" "same_ctx x (x\<lparr>wx_st := st\<rparr>)"
  by (simp_all add: same_ctx_def)

lemma txpower_branch:
  "branch_ok (\<lambda>e. e = EvExec [''iw'', ''dev'', txpower_iface (wx_cfg x), ''set'', ''txpower'', ''fixed'', show_int v])
     r now v x s (wcmd_txpower env now r v x s)"
  by (auto simp: wcmd_txpower_def Let_def wfb_run_iw_txpower_def branch
      split: prod.split dest!: run_cmd_emits)

lemma venc_branch:
  "branch_ok (\<lambda>e. \<exists>path. wcmd_build_path (uint (rq_key r)) v = Some path
       \<and> e = EvHttp (fec_venc_host (cfg_fec (wx_cfg x))) (fec_venc_port (cfg_fec (wx_cfg x))) path)
     r now v x s (wcmd_venc env now r v x s)"
  by (cases "wcmd_build_path (uint (rq_key r)) v")
    (auto simp: wcmd_venc_def Let_def branch proto_consts split: prod.split dest!: http_get_emits)

lemma wfb_get_fec_emits [emitted]:
  "wfb_get_fec env c s = (r, t) \<Longrightarrow> emits s t (\<lambda>e. e = EvUdp (cfg_wfb_host c) (cfg_wfb_port c) GetFec)"
  by (auto simp: wfb_get_fec_def split: prod.splits dest!: wfb_roundtrip_emits)

lemma wfb_get_radio_emits [emitted]:
  "wfb_get_radio env c s = (r, t) \<Longrightarrow> emits s t (\<lambda>e. e = EvUdp (cfg_wfb_host c) (cfg_wfb_port c) GetRadio)"
  by (auto simp: wfb_get_radio_def split: prod.splits dest!: wfb_roundtrip_emits)

lemma wfb_set_peek_emits [emitted]:
  "wfb_set_peek env c e s = (r, t) \<Longrightarrow> emits s t (\<lambda>v. v = EvUdp (cfg_wfb_host c) (cfg_wfb_port c) (SetPeek e))"
  by (auto simp: wfb_set_peek_def split: prod.splits dest!: wfb_roundtrip_emits)

lemma wfb_get_peek_emits [emitted]:
  "wfb_get_peek env c s = (r, t) \<Longrightarrow> emits s t (\<lambda>e. e = EvUdp (cfg_wfb_host c) (cfg_wfb_port c) GetPeek)"
  by (auto simp: wfb_get_peek_def split: prod.splits dest!: wfb_roundtrip_emits)

definition to_wfb :: "lc_config \<Rightarrow> (cmd_body \<Rightarrow> bool) \<Rightarrow> event \<Rightarrow> bool" where
  "to_wfb c Q e = (\<exists>b. e = EvUdp (cfg_wfb_host c) (cfg_wfb_port c) b \<and> Q b)"

lemma emits_to_wfb:
  "emits s t (\<lambda>e. e = EvUdp (cfg_wfb_host c) (cfg_wfb_port c) b) \<Longrightarrow> Q b \<Longrightarrow> emits s t (to_wfb c Q)"
  by (erule emits_mono) (auto simp: to_wfb_def)

lemma peek_branch:
  "branch_ok (to_wfb (wx_cfg x) (\<lambda>b. b = GetPeek \<or> (\<exists>on. b = SetPeek on)))
     r now (if v \<noteq> 0 then 1 else 0) x s (wcmd_peek env now r v x s)"
proof -
  let ?Q = "\<lambda>b. b = GetPeek \<or> (\<exists>on. b = SetPeek on)"
  have set: "emits s t (to_wfb c ?Q)" if "wfb_set_peek env c e s = (ok, t)" for c e s ok t
    using wfb_set_peek_emits [OF that] by (rule emits_to_wfb) simp
  have get: "emits s t (to_wfb c ?Q)" if "wfb_get_peek env c s = (ok, t)" for c s ok t
    using wfb_get_peek_emits [OF that] by (rule emits_to_wfb) simp
  show ?thesis
    by (auto simp: wcmd_peek_def Let_def branch split: prod.split intro: emits_trans dest!: set get)
qed

definition is_fec_body :: "cmd_body \<Rightarrow> bool" where
  "is_fec_body b = (b = GetFec \<or> (\<exists>k n. b = SetFec k n WFB_FEC_TIMEOUT_KEEP))"

lemma wfb_fec_branch:
  "branch_ok (to_wfb (wx_cfg x) is_fec_body) r now v x s (wcmd_wfb_fec env now r v x s)"
proof -
  have set: "emits s t (to_wfb c is_fec_body)" if "wfb_send_set_fec env c k n s = (ok, t)" for c k n s ok t
    using wfb_send_set_fec_emits [OF that] by (rule emits_to_wfb) (simp add: is_fec_body_def)
  have get: "emits s t (to_wfb c is_fec_body)" if "wfb_get_fec env c s = (ok, t)" for c s ok t
    using wfb_get_fec_emits [OF that] by (rule emits_to_wfb) (simp add: is_fec_body_def)
  show ?thesis
    by (auto simp: wcmd_wfb_fec_def Let_def branch split: prod.split option.split
        intro: emits_trans dest!: set get)
qed

definition is_radio_body :: "cmd_body \<Rightarrow> bool" where
  "is_radio_body b = (b = GetRadio \<or> (\<exists>rb. b = SetRadio rb))"

lemma wfb_radio_branch:
  "branch_ok (to_wfb (wx_cfg x) is_radio_body) r now v x s (wcmd_wfb_radio env now r v x s)"
proof -
  have set: "emits s t (to_wfb c is_radio_body)" if "wfb_set_radio env c rb s = (ok, t)" for c rb s ok t
    using wfb_set_radio_emits [OF that] by (rule emits_to_wfb) (simp add: is_radio_body_def)
  have get: "emits s t (to_wfb c is_radio_body)" if "wfb_get_radio env c s = (ok, t)" for c s ok t
    using wfb_get_radio_emits [OF that] by (rule emits_to_wfb) (simp add: is_radio_body_def)
  show ?thesis
    by (auto simp: wcmd_wfb_radio_def Let_def branch split: prod.split option.split
        intro: emits_trans dest!: set get)
qed


section \<open>The dispatch\<close>

lemma emits_surface:
  "emits s t (to_wfb c is_fec_body) \<Longrightarrow> key \<in> {WCMD_KEY_WFB_FEC_K, WCMD_KEY_WFB_FEC_N} \<Longrightarrow> emits s t (wcmd_surface c key)"
  "emits s t (to_wfb c is_radio_body) \<Longrightarrow> WCMD_KEY_WFB_MCS \<le> key \<Longrightarrow> key \<le> WCMD_KEY_WFB_SHORT_GI
   \<Longrightarrow> emits s t (wcmd_surface c key)"
  "emits s t (to_wfb c (\<lambda>b. b = GetPeek \<or> (\<exists>on. b = SetPeek on))) \<Longrightarrow> key = WCMD_KEY_PEEK_ENABLED
   \<Longrightarrow> emits s t (wcmd_surface c key)"
  by (erule emits_mono, auto simp: to_wfb_def is_fec_body_def is_radio_body_def wcmd_surface_def)+

lemma branch_ok_mono:
  "branch_ok P r now v x s res \<Longrightarrow> (\<And>t. emits s t P \<Longrightarrow> emits s t Q) \<Longrightarrow> branch_ok Q r now v x s res"
  by (auto simp: branch_ok_def)

text \<open>The reported value of a key: the switches report 0 or 1.\<close>

definition reported :: "int \<Rightarrow> int \<Rightarrow> int" where
  "reported key v = (if key \<in> {WCMD_KEY_FEC_ENABLED, WCMD_KEY_MCS_ENABLED, WCMD_KEY_PEEK_ENABLED}
                     then (if v \<noteq> 0 then 1 else 0) else v)"

lemma apply_branch:
  assumes "wcmd_clamp_value (wx_cfg x) key req = Some v" "key = uint (rq_key r)"
    and "key \<noteq> WCMD_KEY_FEC_ENABLED" "key \<noteq> WCMD_KEY_MCS_ENABLED"
    and "\<not> (key = WCMD_KEY_WFB_TXPOWER \<and> cmd_tx_pwr_by_rate (cfg_cmd (wx_cfg x)))"
  shows "branch_ok (wcmd_surface (wx_cfg x) key) r now (reported key v) x s (wcmd_apply env now r v x s)"
proof -
  consider (peek) "key = WCMD_KEY_PEEK_ENABLED" | (txp) "key = WCMD_KEY_WFB_TXPOWER"
    | (dry) "WCMD_KEY_WFB_FEC_K \<le> key" "key \<le> WCMD_KEY_WFB_SHORT_GI" "cfg_dry_run (wx_cfg x)"
    | (fec) "key \<in> {WCMD_KEY_WFB_FEC_K, WCMD_KEY_WFB_FEC_N}" "\<not> cfg_dry_run (wx_cfg x)"
    | (radio) "WCMD_KEY_WFB_MCS \<le> key" "key \<le> WCMD_KEY_WFB_SHORT_GI" "\<not> cfg_dry_run (wx_cfg x)"
    | (venc) "key \<noteq> WCMD_KEY_PEEK_ENABLED" "key \<noteq> WCMD_KEY_WFB_TXPOWER"
        "\<not> (WCMD_KEY_WFB_FEC_K \<le> key \<and> key \<le> WCMD_KEY_WFB_SHORT_GI)"
    by (fastforce simp: proto_consts)
  then show ?thesis
  proof cases
    case peek
    with assms(2) have e: "wcmd_apply env now r v x s = wcmd_peek env now r v x s" "reported key v = (if v \<noteq> 0 then 1 else 0)"
      by (simp_all add: wcmd_apply_def proto_consts reported_def)
    show ?thesis unfolding e
      by (rule branch_ok_mono [OF peek_branch]) (erule emits_surface, rule peek)
  next
    case txp
    with assms(2) have "wcmd_apply env now r v x s = wcmd_txpower env now r v x s" "reported key v = v"
      by (simp_all add: wcmd_apply_def proto_consts reported_def)
    then show ?thesis using txp assms(1,5)
      by (simp, intro branch_ok_mono [OF txpower_branch])
        (erule emits_mono, auto simp: wcmd_surface_def proto_consts)
  next
    case dry
    with assms(2) have "wcmd_apply env now r v x s = wcmd_accept r now 0 0 v x s" "reported key v = v"
      by (auto simp: wcmd_apply_def proto_consts reported_def wcmd_wfb_def)
    then show ?thesis by (simp add: branch)
  next
    case fec
    with assms(2) have "wcmd_apply env now r v x s = wcmd_wfb_fec env now r v x s" "reported key v = v"
      by (auto simp: wcmd_apply_def proto_consts reported_def wcmd_wfb_def)
    then show ?thesis using fec(1)
      by (simp, intro branch_ok_mono [OF wfb_fec_branch]) (rule emits_surface, auto)
  next
    case radio
    with assms(2) have "wcmd_apply env now r v x s = wcmd_wfb_radio env now r v x s" "reported key v = v"
      by (auto simp: wcmd_apply_def proto_consts reported_def wcmd_wfb_def)
    then show ?thesis using radio(1,2)
      by (simp, intro branch_ok_mono [OF wfb_radio_branch]) (rule emits_surface, auto)
  next
    case venc
    with assms have "wcmd_apply env now r v x s = wcmd_venc env now r v x s" "reported key v = v"
      by (auto simp: wcmd_apply_def proto_consts reported_def)
    then show ?thesis using assms(1,2)
      by (simp, intro branch_ok_mono [OF venc_branch])
        (erule emits_mono, clarsimp simp: wcmd_surface_def, blast)
  qed
qed


lemma toggle_branch:
  assumes "wcmd_toggle now r v x s = (rs, x', s')"
  shows "s' = s \<and> rs_status rs = WCMD_STATUS_OK \<and> rs_applied_value rs = (if v \<noteq> 0 then 1 else 0)
       \<and> stamped r now (wx_st x) (wx_st x') \<and> wx_sync x' = wx_sync x \<and> wx_logger x' = wx_logger x
       \<and> wx_cfg x' = (if uint (rq_key r) = WCMD_KEY_FEC_ENABLED
            then (wx_cfg x)\<lparr>cfg_fec := (cfg_fec (wx_cfg x))\<lparr>fec_on := (v \<noteq> 0)\<rparr>\<rparr>
            else (wx_cfg x)\<lparr>cfg_mcs := (cfg_mcs (wx_cfg x))\<lparr>mcs_on := (v \<noteq> 0)\<rparr>\<rparr>)"
  using assms by (auto simp: wcmd_toggle_def wcmd_accept_def wcmd_mark_applied_def stamped_def Let_def)

text \<open>The outcomes of the keyed part, in the order of the source.\<close>

lemma wcmd_keyed_cases:
  assumes "key = uint (rq_key r)"
  obtains (apfpv) "key = WCMD_KEY_RETURN_APFPV" "wcmd_keyed env now r x s = wcmd_return_apfpv env now r x s"
  | (refused) v where "key \<noteq> WCMD_KEY_RETURN_APFPV"
      "branch_ok (\<lambda>e. False) r now v x s (wcmd_keyed env now r x s)"
      "rs_status (fst (wcmd_keyed env now r x s)) \<noteq> WCMD_STATUS_OK"
      "key = WCMD_KEY_WFB_TXPOWER \<and> cmd_tx_pwr_by_rate (cfg_cmd (wx_cfg x))
       \<or> wcmd_clamp_value (wx_cfg x) key (rq_value r) = None \<or> wcmd_rate_limited (wx_cfg x) (key_ix r) now (wx_st x)"
  | (toggle) v where "key \<in> {WCMD_KEY_FEC_ENABLED, WCMD_KEY_MCS_ENABLED}"
      "wcmd_clamp_value (wx_cfg x) key (rq_value r) = Some v"
      "\<not> wcmd_rate_limited (wx_cfg x) (key_ix r) now (wx_st x)"
      "wcmd_keyed env now r x s = wcmd_toggle now r v x s"
  | (applied) v where "key \<notin> {WCMD_KEY_FEC_ENABLED, WCMD_KEY_MCS_ENABLED, WCMD_KEY_RETURN_APFPV}"
      "wcmd_clamp_value (wx_cfg x) key (rq_value r) = Some v"
      "\<not> wcmd_rate_limited (wx_cfg x) (key_ix r) now (wx_st x)"
      "wcmd_keyed env now r x s = wcmd_apply env now r v x s"
      "branch_ok (wcmd_surface (wx_cfg x) key) r now (reported key v) x s (wcmd_keyed env now r x s)"
proof -
  let ?txp = "key = WCMD_KEY_WFB_TXPOWER \<and> cmd_tx_pwr_by_rate (cfg_cmd (wx_cfg x))"
  let ?rl = "wcmd_rate_limited (wx_cfg x) (key_ix r) now (wx_st x)"
  consider (a) "key = WCMD_KEY_RETURN_APFPV"
    | (b) "key \<noteq> WCMD_KEY_RETURN_APFPV" "?txp"
    | (c) "key \<noteq> WCMD_KEY_RETURN_APFPV" "\<not> ?txp" "wcmd_clamp_value (wx_cfg x) key (rq_value r) = None"
    | (d) v where "key \<noteq> WCMD_KEY_RETURN_APFPV" "\<not> ?txp" "wcmd_clamp_value (wx_cfg x) key (rq_value r) = Some v" "?rl"
    | (e) v where "key \<noteq> WCMD_KEY_RETURN_APFPV" "\<not> ?txp" "wcmd_clamp_value (wx_cfg x) key (rq_value r) = Some v" "\<not> ?rl"
    by (cases "wcmd_clamp_value (wx_cfg x) key (rq_value r)") auto
  then show thesis
  proof cases
    case a then show thesis using assms by (intro apfpv) (auto simp: wcmd_keyed_def)
  next
    case b then show thesis using assms
      by (intro refused) (auto simp: wcmd_keyed_def branch wcmd_refuse_def branch_ok_def same_ctx_def proto_consts)
  next
    case c then show thesis using assms
      by (intro refused) (auto simp: wcmd_keyed_def Let_def range_fail_def wcmd_refuse_def branch_ok_def same_ctx_def proto_consts)
  next
    case d then show thesis using assms
      by (intro refused) (auto simp: wcmd_keyed_def Let_def wcmd_refuse_def branch_ok_def same_ctx_def proto_consts)
  next
    case (e v)
    then have k: "wcmd_keyed env now r x s = wcmd_apply env now r v x s"
      using assms by (auto simp: wcmd_keyed_def Let_def)
    show thesis
    proof (cases "key \<in> {WCMD_KEY_FEC_ENABLED, WCMD_KEY_MCS_ENABLED}")
      case True
      with e k assms show thesis by (intro toggle) (auto simp: wcmd_apply_def)
    next
      case False
      with e k assms show thesis by (intro applied) (auto intro: apply_branch)
    qed
  qed
qed


lemma apfpv_branch:
  "branch_ok (\<lambda>e. rec_enabled (cfg_recovery (wx_cfg x))
       \<and> e = EvExec [''sh'', ''-c'', rec_apfpv_cmd (cfg_recovery (wx_cfg x))])
     r now 0 x s (wcmd_return_apfpv env now r x s)"
  by (auto simp: wcmd_return_apfpv_def Let_def branch wfb_run_recovery_cmd_def proto_consts
      branch_ok_def [of _ _ _ _ _ _ "(_, _, _)"] split: prod.split dest!: run_cmd_emits)

definition wcmd_x1 :: "wcmd_req \<Rightarrow> u64 \<Rightarrow> wcmd_ctx \<Rightarrow> wcmd_ctx" where
  "wcmd_x1 r now x = x\<lparr>wx_st := wcmd_arrived r now (wx_st x)\<rparr>"

text \<open>The gates a request passes before any outside action: subsystem on, peer allowed, key known.\<close>

definition wcmd_admitted :: "lc_config \<Rightarrow> u32 \<Rightarrow> int \<Rightarrow> bool" where
  "wcmd_admitted c peer key =
     (cmd_on (cfg_cmd c) \<and> \<not> (cmd_loopback_only (cfg_cmd c) \<and> peer \<noteq> INADDR_LOOPBACK)
      \<and> 0 < key \<and> key \<le> WCMD_NUM_KEYS)"

lemma key_nonneg: "0 \<le> uint (rq_key r)" by simp

lemma wcmd_dispatch_cases:
  assumes "key = uint (rq_key r)"
  obtains (gate) st count where "st \<noteq> WCMD_STATUS_OK" "wcmd_dispatch env up now peer r x s = wcmd_refuse r st count (wcmd_x1 r now x) s"
      "\<not> wcmd_admitted (wx_cfg x) peer key
       \<or> key \<notin> {WCMD_KEY_LOG_SYNC, WCMD_KEY_LOG_CONTROL}
         \<and> \<not> bit (cmd_allow_keys_mask (cfg_cmd (wx_cfg x))) (nat (key - 1))"
  | (sync) "wcmd_admitted (wx_cfg x) peer key" "key = WCMD_KEY_LOG_SYNC"
      "wcmd_dispatch env up now peer r x s = wcmd_log_sync up now r (wcmd_x1 r now x) s"
  | (logctl) "wcmd_admitted (wx_cfg x) peer key" "key = WCMD_KEY_LOG_CONTROL"
      "wcmd_dispatch env up now peer r x s = wcmd_log_control env now r (wcmd_x1 r now x) s"
  | (dup) "wcmd_admitted (wx_cfg x) peer key" "key \<noteq> WCMD_KEY_LOG_SYNC" "key \<noteq> WCMD_KEY_LOG_CONTROL"
      "bit (cmd_allow_keys_mask (cfg_cmd (wx_cfg x))) (nat (key - 1))"
      "wcmd_dup (key_ix r) (rq_seq r) now (wx_st x)"
      "wcmd_dispatch env up now peer r x s = wcmd_coalesce r (wcmd_x1 r now x) s"
  | (keyed) "wcmd_admitted (wx_cfg x) peer key" "key \<noteq> WCMD_KEY_LOG_SYNC" "key \<noteq> WCMD_KEY_LOG_CONTROL"
      "bit (cmd_allow_keys_mask (cfg_cmd (wx_cfg x))) (nat (key - 1))"
      "\<not> wcmd_dup (key_ix r) (rq_seq r) now (wx_st x)"
      "wcmd_dispatch env up now peer r x s = wcmd_keyed env now r (wcmd_x1 r now x) s"
proof -
  have d: "wcmd_dup k q t (wcmd_arrived r now st) = wcmd_dup k q t st" for k q t st
    by (simp add: wcmd_dup_def wcmd_arrived_def)
  let ?bit = "bit (cmd_allow_keys_mask (cfg_cmd (wx_cfg x))) (nat (key - 1))"
  have nz: "0 < key \<longleftrightarrow> key \<noteq> 0" using key_nonneg [of r] assms by linarith
  show thesis
  proof (cases "wcmd_admitted (wx_cfg x) peer key")
    case False
    let ?m = "cfg_cmd (wx_cfg x)"
    consider (a) "\<not> cmd_on ?m"
      | (b) "cmd_on ?m" "cmd_loopback_only ?m \<and> peer \<noteq> INADDR_LOOPBACK"
      | (c) "cmd_on ?m" "\<not> (cmd_loopback_only ?m \<and> peer \<noteq> INADDR_LOOPBACK)" "key = 0 \<or> WCMD_NUM_KEYS < key"
      using False nz by (force simp: wcmd_admitted_def)
    then show thesis
    proof cases
      case a
      have "wcmd_dispatch env up now peer r x s = wcmd_refuse r WCMD_STATUS_DISABLED
          (\<lambda>st. st\<lparr>ws_rejected_disabled := ws_rejected_disabled st + 1\<rparr>) (wcmd_x1 r now x) s"
        using a by (simp add: wcmd_dispatch_def wcmd_x1_def Let_def)
      from gate [OF _ this] False show thesis by (simp add: proto_consts)
    next
      case b
      have "wcmd_dispatch env up now peer r x s = wcmd_refuse r WCMD_STATUS_NOT_PERMITTED
          (\<lambda>st. st\<lparr>ws_rejected_peer := ws_rejected_peer st + 1\<rparr>) (wcmd_x1 r now x) s"
        using b by (simp add: wcmd_dispatch_def wcmd_x1_def Let_def)
      from gate [OF _ this] False show thesis by (simp add: proto_consts)
    next
      case c
      have "wcmd_dispatch env up now peer r x s = wcmd_refuse r WCMD_STATUS_UNKNOWN_KEY
          (\<lambda>st. st\<lparr>ws_rejected_unknown := ws_rejected_unknown st + 1\<rparr>) (wcmd_x1 r now x) s"
        using c assms by (auto simp: wcmd_dispatch_def wcmd_x1_def Let_def)
      from gate [OF _ this] False show thesis by (simp add: proto_consts)
    qed
  next
    case True
    note unf = wcmd_dispatch_def wcmd_x1_def wcmd_admitted_def Let_def d
    consider "key = WCMD_KEY_LOG_SYNC" | "key = WCMD_KEY_LOG_CONTROL"
      | (m) "key \<noteq> WCMD_KEY_LOG_SYNC" "key \<noteq> WCMD_KEY_LOG_CONTROL" "\<not> ?bit"
      | (du) "key \<noteq> WCMD_KEY_LOG_SYNC" "key \<noteq> WCMD_KEY_LOG_CONTROL" "?bit" "wcmd_dup (key_ix r) (rq_seq r) now (wx_st x)"
      | (k) "key \<noteq> WCMD_KEY_LOG_SYNC" "key \<noteq> WCMD_KEY_LOG_CONTROL" "?bit" "\<not> wcmd_dup (key_ix r) (rq_seq r) now (wx_st x)"
      by blast
    then show thesis
    proof cases
      case 1 then show thesis using True assms by (intro sync) (auto simp: unf)
    next
      case 2 then show thesis using True assms by (intro logctl) (auto simp: unf proto_consts)
    next
      case m
      have "wcmd_dispatch env up now peer r x s = wcmd_refuse r WCMD_STATUS_KEY_BLOCKED
             (\<lambda>st. st\<lparr>ws_rejected_blocked := ws_rejected_blocked st + 1\<rparr>) (wcmd_x1 r now x) s"
        using m True assms by (auto simp: unf)
      from gate [OF _ this] m show thesis by (simp add: proto_consts)
    next
      case du then show thesis using True assms by (intro dup) (auto simp: unf)
    next
      case k then show thesis using True assms by (intro keyed) (auto simp: unf)
    qed
  qed
qed


section \<open>Properties of the dispatch\<close>

lemma emits_False: "emits s t (\<lambda>e. False) \<longleftrightarrow> io_trace t = io_trace s"
  by (auto simp: emits_def list_all_iff)

definition switches_only :: "lc_config \<Rightarrow> lc_config \<Rightarrow> bool" where
  "switches_only c c' = (\<exists>f m. c' = c\<lparr>cfg_fec := (cfg_fec c)\<lparr>fec_on := f\<rparr>, cfg_mcs := (cfg_mcs c)\<lparr>mcs_on := m\<rparr>\<rparr>)"

lemma switches_only_refl [simp]: "switches_only c c"
  unfolding switches_only_def
  by (rule exI [of _ "fec_on (cfg_fec c)"], rule exI [of _ "mcs_on (cfg_mcs c)"]) simp

lemma switches_only_toggle:
  "switches_only c (c\<lparr>cfg_fec := (cfg_fec c)\<lparr>fec_on := b\<rparr>\<rparr>)"
  "switches_only c (c\<lparr>cfg_mcs := (cfg_mcs c)\<lparr>mcs_on := b\<rparr>\<rparr>)"
  unfolding switches_only_def
  by (rule exI [of _ b], rule exI [of _ "mcs_on (cfg_mcs c)"], simp)
    (rule exI [of _ "fec_on (cfg_fec c)"], rule exI [of _ b], simp)

lemma switches_only_cmd: "switches_only c c' \<Longrightarrow> cfg_cmd c' = cfg_cmd c"
  by (auto simp: switches_only_def)

lemma x1_frame [simp]:
  "wx_cfg (wcmd_x1 r now x) = wx_cfg x" "wx_sync (wcmd_x1 r now x) = wx_sync x"
  "wx_logger (wcmd_x1 r now x) = wx_logger x"
  "ws_last_seq_us (wx_st (wcmd_x1 r now x)) = ws_last_seq_us (wx_st x)"
  "ws_last_seq (wx_st (wcmd_x1 r now x)) = ws_last_seq (wx_st x)"
  "ws_last_apply_us (wx_st (wcmd_x1 r now x)) = ws_last_apply_us (wx_st x)"
  "ws_radio_written (wx_st (wcmd_x1 r now x)) = ws_radio_written (wx_st x)"
  by (simp_all add: wcmd_x1_def wcmd_arrived_def)

lemma x1_dup [simp]: "wcmd_dup k q t (wx_st (wcmd_x1 r now x)) = wcmd_dup k q t (wx_st x)"
  "wcmd_rate_limited c k t (wx_st (wcmd_x1 r now x)) = wcmd_rate_limited c k t (wx_st x)"
  by (simp_all add: wcmd_dup_def wcmd_rate_limited_def)

lemma keyed_effects:
  assumes "wcmd_keyed env now r x s = (rs, x', s')" "key = uint (rq_key r)"
  shows "emits s s' (wcmd_surface (wx_cfg x) key) \<and> switches_only (wx_cfg x) (wx_cfg x')
       \<and> wx_sync x' = wx_sync x \<and> wx_logger x' = wx_logger x
       \<and> (rs_status rs = WCMD_STATUS_OK \<longrightarrow> stamped r now (wx_st x) (wx_st x'))"
  using assms(2)
proof (cases rule: wcmd_keyed_cases [of key r env now x s])
  case apfpv
  then have a: "wcmd_return_apfpv env now r x s = (rs, x', s')" using assms(1) by simp
  have "emits s s' (wcmd_surface (wx_cfg x) key)"
    using apfpv_branch [of x r now s env] a apfpv(1)
    by (auto simp: branch_ok_def wcmd_surface_def elim!: emits_mono)
  with apfpv_branch [of x r now s env] a show ?thesis by (auto simp: branch_ok_def same_ctx_def)
next
  case (refused v)
  then show ?thesis using assms(1)
    by (auto simp: branch_ok_def same_ctx_def emits_False intro: emits_nothing)
next
  case (toggle v)
  then show ?thesis using assms(1) toggle_branch [of now r v x s rs x' s']
    by (auto simp: switches_only_toggle)
next
  case (applied v)
  then show ?thesis using assms(1) by (auto simp: branch_ok_def same_ctx_def)
qed

lemma log_sync_effects:
  "wcmd_log_sync up now r x s = (rs, x', s') \<Longrightarrow> s' = s \<and> wx_cfg x' = wx_cfg x \<and> wx_logger x' = wx_logger x
   \<and> rs_status rs = WCMD_STATUS_OK \<and> rs_applied_value rs = rq_value r
   \<and> (wcmd_dup (key_ix r) (rq_seq r) now (wx_st x)
      \<longrightarrow> wx_sync x' = wx_sync x \<and> ws_last_seq_us (wx_st x') = ws_last_seq_us (wx_st x)
          \<and> ws_last_seq (wx_st x') = ws_last_seq (wx_st x))
   \<and> (\<not> wcmd_dup (key_ix r) (rq_seq r) now (wx_st x) \<longrightarrow> stamped r now (wx_st x) (wx_st x'))"
  by (auto simp: wcmd_log_sync_def wcmd_mark_applied_def stamped_def Let_def)

lemma log_control_effects:
  "wcmd_log_control env now r x s = (rs, x', s') \<Longrightarrow> wx_cfg x' = wx_cfg x \<and> wx_sync x' = wx_sync x
   \<and> rs_status rs = WCMD_STATUS_OK
   \<and> emits s s' (\<lambda>e. \<exists>on. e = EvLogger on)
   \<and> (wcmd_dup (key_ix r) (rq_seq r) now (wx_st x)
      \<longrightarrow> s' = s \<and> wx_logger x' = wx_logger x \<and> ws_last_seq_us (wx_st x') = ws_last_seq_us (wx_st x)
          \<and> ws_last_seq (wx_st x') = ws_last_seq (wx_st x))
   \<and> (\<not> wcmd_dup (key_ix r) (rq_seq r) now (wx_st x) \<longrightarrow> stamped r now (wx_st x) (wx_st x'))"
  by (auto simp: wcmd_log_control_def wcmd_mark_applied_def stamped_def Let_def
      split: prod.splits if_splits dest!: logger_ctl_emits elim: emits_mono)

lemma coalesce_effects:
  "wcmd_coalesce r x s = (rs, x', s') \<Longrightarrow> s' = s \<and> wx_cfg x' = wx_cfg x \<and> wx_sync x' = wx_sync x
   \<and> wx_logger x' = wx_logger x \<and> rs_status rs = WCMD_STATUS_OK
   \<and> ws_last_seq_us (wx_st x') = ws_last_seq_us (wx_st x) \<and> ws_last_seq (wx_st x') = ws_last_seq (wx_st x)"
  by (auto simp: wcmd_coalesce_def Let_def)

lemma refuse_effects:
  "wcmd_refuse r st count x s = (rs, x', s') \<Longrightarrow> s' = s \<and> wx_cfg x' = wx_cfg x \<and> wx_sync x' = wx_sync x
   \<and> wx_logger x' = wx_logger x \<and> rs_status rs = st"
  by (auto simp: wcmd_refuse_def)


section \<open>Bursts\<close>

text \<open>The ground station sends each command several times with one \<open>seq\<close>.\<close>

fun wcmd_burst ::
  "'w sysenv \<Rightarrow> rat \<Rightarrow> u32 \<Rightarrow> wcmd_req \<Rightarrow> u64 list \<Rightarrow> wcmd_ctx \<Rightarrow> 'w io
   \<Rightarrow> wcmd_resp list \<times> wcmd_ctx \<times> 'w io" where
  "wcmd_burst env up peer r [] x s = ([], x, s)"
| "wcmd_burst env up peer r (t # ts) x s =
     (let (rs, x1, s1) = wcmd_dispatch env up t peer r x s;
          (rss, x2, s2) = wcmd_burst env up peer r ts x1 s1
      in (rs # rss, x2, s2))"

definition wcmd_passes :: "lc_config \<Rightarrow> u32 \<Rightarrow> int \<Rightarrow> bool" where
  "wcmd_passes c peer key =
     (wcmd_admitted c peer key
      \<and> (key = WCMD_KEY_LOG_SYNC \<or> key = WCMD_KEY_LOG_CONTROL
         \<or> bit (cmd_allow_keys_mask (cfg_cmd c)) (nat (key - 1))))"

lemma switches_only_passes: "switches_only c c' \<Longrightarrow> wcmd_passes c' peer key = wcmd_passes c peer key"
  by (simp add: wcmd_passes_def wcmd_admitted_def switches_only_cmd)

lemma duplicate_step:
  assumes "wcmd_dup (key_ix r) (rq_seq r) t (wx_st x)" "wcmd_passes (wx_cfg x) peer (uint (rq_key r))"
    and d: "wcmd_dispatch env up t peer r x s = (rs, x', s')"
  shows "rs_status rs = WCMD_STATUS_OK \<and> s' = s \<and> same_ctx x x'
       \<and> ws_last_seq_us (wx_st x') = ws_last_seq_us (wx_st x) \<and> ws_last_seq (wx_st x') = ws_last_seq (wx_st x)"
proof (cases rule: wcmd_dispatch_cases [of "uint (rq_key r)" r env up t peer x s, OF refl])
  case (1 st count)
  with assms(2) show ?thesis by (auto simp: wcmd_passes_def)
next
  case 2
  then have "wcmd_log_sync up t r (wcmd_x1 r t x) s = (rs, x', s')" using d by simp
  from log_sync_effects [OF this] assms(1) show ?thesis by (simp add: same_ctx_def)
next
  case 3
  then have "wcmd_log_control env t r (wcmd_x1 r t x) s = (rs, x', s')" using d by simp
  from log_control_effects [OF this] assms(1) show ?thesis by (simp add: same_ctx_def)
next
  case 4
  then have "wcmd_coalesce r (wcmd_x1 r t x) s = (rs, x', s')" using d by simp
  from coalesce_effects [OF this] show ?thesis by (simp add: same_ctx_def)
next
  case 5
  then show ?thesis using assms(1) by simp
qed

lemma burst_silent:
  assumes "\<forall>t\<in>set ts. wcmd_dup (key_ix r) (rq_seq r) t (wx_st x)"
    and "wcmd_passes (wx_cfg x) peer (uint (rq_key r))"
    and "wcmd_burst env up peer r ts x s = (rss, x', s')"
  shows "s' = s \<and> same_ctx x x' \<and> list_all (\<lambda>rs. rs_status rs = WCMD_STATUS_OK) rss"
  using assms
proof (induction ts arbitrary: x s rss)
  case (Cons t ts)
  obtain rs x1 s1 where d: "wcmd_dispatch env up t peer r x s = (rs, x1, s1)"
    by (cases "wcmd_dispatch env up t peer r x s") auto
  obtain rss2 where b: "wcmd_burst env up peer r ts x1 s1 = (rss2, x', s')" and rss: "rss = rs # rss2"
    using Cons.prems(3) d by (auto split: prod.splits)
  have s: "rs_status rs = WCMD_STATUS_OK" "s1 = s" "same_ctx x x1"
    "ws_last_seq_us (wx_st x1) = ws_last_seq_us (wx_st x)" "ws_last_seq (wx_st x1) = ws_last_seq (wx_st x)"
    using duplicate_step [OF _ Cons.prems(2) d] Cons.prems(1) by auto
  have "\<forall>u\<in>set ts. wcmd_dup (key_ix r) (rq_seq r) u (wx_st x1)"
    using Cons.prems(1) s(4,5) by (simp add: wcmd_dup_def)
  moreover have "wcmd_passes (wx_cfg x1) peer (uint (rq_key r))"
    using Cons.prems(2) s(3) by (simp add: same_ctx_def)
  ultimately have "s' = s1 \<and> same_ctx x1 x' \<and> list_all (\<lambda>rs. rs_status rs = WCMD_STATUS_OK) rss2"
    using Cons.IH [OF _ _ b] by blast
  with s(1-3) rss show ?case by (simp add: same_ctx_def)
qed (simp add: same_ctx_def)

lemma accepted_stamps:
  assumes "wcmd_dispatch env up now peer r x s = (rs, x', s')" "rs_status rs = WCMD_STATUS_OK"
    and "\<not> wcmd_dup (key_ix r) (rq_seq r) now (wx_st x)"
  shows "stamped r now (wx_st x) (wx_st x') \<and> wcmd_passes (wx_cfg x) peer (uint (rq_key r))
       \<and> switches_only (wx_cfg x) (wx_cfg x')"
proof (cases rule: wcmd_dispatch_cases [of "uint (rq_key r)" r env up now peer x s, OF refl])
  case (1 st count)
  then have "wcmd_refuse r st count (wcmd_x1 r now x) s = (rs, x', s')" using assms(1) by simp
  from refuse_effects [OF this] 1 assms(2) show ?thesis by simp
next
  case 2
  then have "wcmd_log_sync up now r (wcmd_x1 r now x) s = (rs, x', s')" using assms(1) by simp
  from log_sync_effects [OF this] assms(3) 2 show ?thesis by (simp add: stamped_def wcmd_passes_def)
next
  case 3
  then have "wcmd_log_control env now r (wcmd_x1 r now x) s = (rs, x', s')" using assms(1) by simp
  from log_control_effects [OF this] assms(3) 3 show ?thesis by (simp add: stamped_def wcmd_passes_def)
next
  case 4
  then show ?thesis using assms(3) by simp
next
  case 5
  then have "wcmd_keyed env now r (wcmd_x1 r now x) s = (rs, x', s')" using assms(1) by simp
  from keyed_effects [OF this refl] 5 assms(2) show ?thesis by (simp add: stamped_def wcmd_passes_def)
qed

text \<open>A burst acts once.  When a fresh request is answered OK, every further copy of it arriving
  within the dedup window, however many and in whatever order of arrival times, is answered OK and
  does nothing: no request leaves the vehicle, the configuration, the sync marker and the logger
  stay as the first copy left them.\<close>

theorem wcmd_burst_once:
  assumes "wcmd_dispatch env up now peer r x s = (rs, x1, s1)" "rs_status rs = WCMD_STATUS_OK"
    and "\<not> wcmd_dup (key_ix r) (rq_seq r) now (wx_st x)" "now \<noteq> 0"
    and "length (ws_last_seq_us (wx_st x)) = 21" "length (ws_last_seq (wx_st x)) = 21"
    and "\<forall>t\<in>set ts. t - now < WCMD_BURST_DEDUP_US"
    and "wcmd_burst env up peer r ts x1 s1 = (rss, x2, s2)"
  shows "s2 = s1 \<and> wx_cfg x2 = wx_cfg x1 \<and> wx_sync x2 = wx_sync x1 \<and> wx_logger x2 = wx_logger x1
       \<and> list_all (\<lambda>rs. rs_status rs = WCMD_STATUS_OK) rss"
proof -
  have a: "stamped r now (wx_st x) (wx_st x1)" "wcmd_passes (wx_cfg x) peer (uint (rq_key r))"
    "switches_only (wx_cfg x) (wx_cfg x1)"
    using accepted_stamps [OF assms(1-3)] by simp_all
  have "uint (rq_key r) \<le> 20" using a(2) by (simp add: wcmd_passes_def wcmd_admitted_def WCMD_NUM_KEYS_def)
  then have "nat (uint (rq_key r)) < 21" by linarith
  then have "key_ix r < 21" by (simp only: key_ix_def nat_uint_eq)
  then have n: "ws_last_seq_us (wx_st x1) ! key_ix r = now" "ws_last_seq (wx_st x1) ! key_ix r = rq_seq r"
    using a(1) assms(5,6) unfolding stamped_def by (metis nth_list_update_eq)+
  have "\<forall>t\<in>set ts. wcmd_dup (key_ix r) (rq_seq r) t (wx_st x1)"
    using assms(4,7) unfolding wcmd_dup_def n by blast
  moreover have "wcmd_passes (wx_cfg x1) peer (uint (rq_key r))"
    using switches_only_passes [OF a(3)] a(2) by simp
  ultimately show ?thesis
    using burst_silent [OF _ _ assms(8)] unfolding same_ctx_def by blast
qed

section \<open>Values and pace\<close>

lemma clamp_value_window:
  assumes "wcmd_clamp_value c key q = Some v" "key \<noteq> WCMD_KEY_FORCE_IDR"
  shows "\<exists>lo hi. wcmd_window c key = Some (lo, hi) \<and> 0 < hi \<and> lo \<le> v \<and> v \<le> hi \<and> (lo \<le> q \<and> q \<le> hi \<longrightarrow> v = q)"
  using assms by (auto simp: wcmd_clamp_value_def split: option.splits if_splits)

lemma switch_window:
  "key \<in> {WCMD_KEY_FEC_ENABLED, WCMD_KEY_MCS_ENABLED, WCMD_KEY_PEEK_ENABLED} \<Longrightarrow> wcmd_window c key = Some (0, 1)"
  by (auto simp: wcmd_window_def proto_consts Let_def)

lemma reported_clamped:
  assumes "wcmd_clamp_value c key q = Some v"
  shows "reported key v = v"
proof (cases "key \<in> {WCMD_KEY_FEC_ENABLED, WCMD_KEY_MCS_ENABLED, WCMD_KEY_PEEK_ENABLED}")
  case True
  then have "0 \<le> v" "v \<le> 1"
    using clamp_value_window [OF assms] switch_window [OF True, of c] by (auto simp: proto_consts)
  then show ?thesis by (auto simp: reported_def)
qed (simp add: reported_def)


section \<open>Radio write-through\<close>

lemma roundtrip_trace:
  assumes "wfb_roundtrip env host port b n s = (Some body, t)"
  shows "io_trace t = io_trace s @ [EvUdp host port b]"
  using assms
  by (auto simp: wfb_roundtrip_def wfb_open_def wfb_transmit_def io_log_def Let_def
      split: prod.splits if_splits option.splits)

lemma get_radio_trace:
  "wfb_get_radio env c s = (Some rb, t) \<Longrightarrow> io_trace t = io_trace s @ [EvUdp (cfg_wfb_host c) (cfg_wfb_port c) GetRadio]"
  by (auto simp: wfb_get_radio_def split: prod.splits dest!: roundtrip_trace)

lemma set_radio_trace:
  "wfb_set_radio env c rb s = (True, t)
   \<Longrightarrow> io_trace t = io_trace s @ [EvUdp (cfg_wfb_host c) (cfg_wfb_port c) (SetRadio (norm_radio rb))]"
  by (auto simp: wfb_set_radio_def wfb_set_radio_at_def split: prod.splits dest!: roundtrip_trace)

text \<open>What a radio key leaves alone.\<close>

lemma radio_set_field_other:
  "key \<noteq> WCMD_KEY_WFB_MCS \<Longrightarrow> rb_mcs_index (radio_set_field key v rb) = rb_mcs_index rb"
  "key \<noteq> WCMD_KEY_WFB_BANDWIDTH \<Longrightarrow> rb_bandwidth (radio_set_field key v rb) = rb_bandwidth rb"
  "key \<noteq> WCMD_KEY_WFB_LDPC \<Longrightarrow> rb_ldpc (radio_set_field key v rb) = rb_ldpc rb"
  "key \<noteq> WCMD_KEY_WFB_STBC \<Longrightarrow> rb_stbc (radio_set_field key v rb) = rb_stbc rb"
  "key \<noteq> WCMD_KEY_WFB_SHORT_GI \<Longrightarrow> rb_short_gi (radio_set_field key v rb) = rb_short_gi rb"
  "rb_vht_mode (radio_set_field key v rb) = rb_vht_mode rb"
  "rb_vht_nss (radio_set_field key v rb) = rb_vht_nss rb"
  by (simp_all add: radio_set_field_def)


section \<open>Witnesses\<close>

definition demo_req :: "u8 \<Rightarrow> int \<Rightarrow> wcmd_req" where
  "demo_req key v = \<lparr> rq_seq = 7, rq_key = key, rq_flags = 0, rq_pad = 0, rq_value = v \<rparr>"

definition demo_ctx :: wcmd_ctx where
  "demo_ctx = \<lparr> wx_cfg = config_defaults, wx_st = wcmd_state_init,
     wx_sync = \<lparr> ls_valid = False, ls_seq = 0, ls_gs_unix_s = 0, ls_recv_uptime_s = 0, ls_count = 0 \<rparr>,
     wx_logger = logger_init \<rparr>"

lemma demo_record_http:
  "http_get demo_env ''127.0.0.1'' 80 ''/api/v1/record/start'' 1024 s
   = ((Some ok_body, 200), io_log (EvHttp ''127.0.0.1'' 80 ''/api/v1/record/start'') s)"
proof -
  have "length (http_request ''/api/v1/record/start'' ''127.0.0.1'' 80) < 512" by code_simp
  then show ?thesis by (intro demo_http_get) simp_all
qed

lemma demo_record:
  "wcmd_dispatch demo_env 0 5000000 INADDR_LOOPBACK (demo_req 15 1) demo_ctx demo_io
   = wcmd_accept (demo_req 15 1) 5000000 200 200 1 (wcmd_x1 (demo_req 15 1) 5000000 demo_ctx)
       (io_log (EvHttp ''127.0.0.1'' 80 ''/api/v1/record/start'') demo_io)"
  using demo_reply_parse(3,5) demo_record_http [of demo_io]
  by (simp add: wcmd_dispatch_def wcmd_keyed_def wcmd_apply_def wcmd_venc_def demo_ctx_def demo_req_def
      proto_consts WCMD_NUM_KEYS_def key_ix_def wcmd_dup_def wcmd_arrived_def wcmd_state_init_def
      wcmd_clamp_value_def wcmd_window_def wcmd_rate_limited_def wcmd_build_path_def wcmd_x1_def Let_def)


lemma demo_ctx_simps [simp]: "wx_cfg demo_ctx = config_defaults" "wx_st demo_ctx = wcmd_state_init"
  by (simp_all add: demo_ctx_def)

lemma demo_fresh: "\<not> wcmd_dup k q t wcmd_state_init \<or> 21 \<le> k"
  by (cases "k < 21") (auto simp: wcmd_dup_def wcmd_state_init_def)

lemma demo_key [simp]: "rq_key (demo_req k v) = k" "rq_value (demo_req k v) = v" "rq_seq (demo_req k v) = 7"
  by (simp_all add: demo_req_def)

lemma demo_record_result:
  obtains rs x' s' where
    "wcmd_dispatch demo_env 0 5000000 INADDR_LOOPBACK (demo_req 15 1) demo_ctx demo_io = (rs, x', s')"
    "rs_status rs = WCMD_STATUS_OK" "rs_applied_value rs = 1"
    "io_trace s' = [EvHttp ''127.0.0.1'' 80 ''/api/v1/record/start'']"
    "\<not> wcmd_dup (key_ix (demo_req 15 1)) (rq_seq (demo_req 15 1)) 5000000 (wx_st demo_ctx)"
  by (rule that [OF demo_record [unfolded wcmd_accept_def Let_def]])
    (use demo_fresh [of 15 7 5000000] in \<open>simp_all add: io_log_def demo_io_def key_ix_def\<close>)


theorem wcmd_burst_once_witness:
  "\<exists>rss x1 s1 x2. wcmd_burst demo_env 0 INADDR_LOOPBACK (demo_req 15 1) [5000100, 5499999] x1 s1 = (rss, x2, s1)
     \<and> io_trace s1 = [EvHttp ''127.0.0.1'' 80 ''/api/v1/record/start'']"
proof -
  obtain rs x' s' where d: "wcmd_dispatch demo_env 0 5000000 INADDR_LOOPBACK (demo_req 15 1) demo_ctx demo_io = (rs, x', s')"
    and r: "rs_status rs = WCMD_STATUS_OK" "io_trace s' = [EvHttp ''127.0.0.1'' 80 ''/api/v1/record/start'']"
    and f: "\<not> wcmd_dup (key_ix (demo_req 15 1)) (rq_seq (demo_req 15 1)) 5000000 (wx_st demo_ctx)"
    by (rule demo_record_result)
  obtain rss x2 s2 where b: "wcmd_burst demo_env 0 INADDR_LOOPBACK (demo_req 15 1) [5000100, 5499999] x' s' = (rss, x2, s2)"
    by (cases "wcmd_burst demo_env 0 INADDR_LOOPBACK (demo_req 15 1) [5000100, 5499999] x' s'") auto
  have "(5000000 :: u64) \<noteq> 0" by simp
  moreover have "length (ws_last_seq_us (wx_st demo_ctx)) = 21" "length (ws_last_seq (wx_st demo_ctx)) = 21"
    by (simp_all add: wcmd_state_init_def)
  moreover have "\<forall>t\<in>set [5000100, 5499999]. t - 5000000 < WCMD_BURST_DEDUP_US"
    by (simp add: WCMD_BURST_DEDUP_US_def)
  ultimately have "s2 = s'" using wcmd_burst_once [OF d r(1) f _ _ _ _ b] by blast
  with b r(2) show ?thesis by blast
qed



lemma demo_roundtrip:
  assumes "inet_pton4 host" "need \<le> 7"
  shows "\<exists>t. wfb_roundtrip demo_env host port b need s = (Some [4, 6, 0, 20, 3, 0, 1], t)"
proof -
  let ?rid = "be_enc 4 (unat (io_req_id s))"
  let ?tail = "[0, 0, 0, 0, 4, 6, 0, 20, 3, 0, 1] :: u8 list"
  have l: "length ?rid = 4" by (simp del: be_enc.simps)
  have "take 4 (cmd_req_bytes (io_req_id s) b) = ?rid"
    using l by (simp add: cmd_req_bytes_def del: be_enc.simps)
  moreover have "be_at 0 4 (?rid @ ?tail) = unat (io_req_id s)"
    by (rule be_at_here [OF u_bounds(3)])
  moreover have "be_at 4 4 (?rid @ ?tail) = 0"
    using l by (simp add: be_at_skip be_at_def field_at_def del: be_enc.simps)
  moreover have "length (?rid @ ?tail) = 15" "drop 8 (?rid @ ?tail) = [4, 6, 0, 20, 3, 0, 1]"
    using l by (simp_all del: be_enc.simps)
  moreover have "min (length (cmd_req_bytes (io_req_id s) b)) 4 = 4"
    by (simp add: cmd_req_bytes_def del: be_enc.simps)
  ultimately show ?thesis
    using assms
    by (simp add: wfb_roundtrip_def wfb_open_def wfb_transmit_def demo_env_def io_log_def cmd_resp_body_def
        Let_def del: be_enc.simps)
qed

lemma demo_radio_write:
  obtains rs x' s' where
    "wcmd_dispatch demo_env 0 5000000 INADDR_LOOPBACK (demo_req 7 2) demo_ctx demo_io = (rs, x', s')"
    "rs_status rs = WCMD_STATUS_OK"
proof -
  obtain t where g: "wfb_get_radio demo_env config_defaults demo_io = (Some (radio_of_bytes [4, 6, 0, 20, 3, 0, 1]), t)"
    using demo_roundtrip [of "''127.0.0.1''" 7 "cfg_wfb_port config_defaults" GetRadio demo_io]
    by (auto simp: wfb_get_radio_def)
  obtain u where w: "wfb_set_radio demo_env config_defaults
      (radio_set_field 7 2 (radio_of_bytes [4, 6, 0, 20, 3, 0, 1])) t = (True, u)"
    using demo_roundtrip [of "''127.0.0.1''" 0 "cfg_wfb_port config_defaults"
        "SetRadio (norm_radio (radio_set_field 7 2 (radio_of_bytes [4, 6, 0, 20, 3, 0, 1])))" t]
    by (auto simp: wfb_set_radio_def wfb_set_radio_at_def)
  have d: "wcmd_dispatch demo_env 0 5000000 INADDR_LOOPBACK (demo_req 7 2) demo_ctx demo_io
      = wcmd_wfb_radio demo_env 5000000 (demo_req 7 2) 2 (wcmd_x1 (demo_req 7 2) 5000000 demo_ctx) demo_io"
    by (simp add: wcmd_dispatch_def wcmd_keyed_def wcmd_apply_def wcmd_wfb_def demo_ctx_def demo_req_def
      proto_consts WCMD_NUM_KEYS_def key_ix_def wcmd_dup_def wcmd_arrived_def wcmd_state_init_def
      wcmd_clamp_value_def wcmd_window_def wcmd_rate_limited_def wcmd_x1_def Let_def)
  show thesis
    by (rule that [OF d [unfolded wcmd_wfb_radio_def Let_def x1_frame demo_ctx_simps demo_key g, simplified,
            unfolded w, simplified, unfolded wcmd_accept_def Let_def]])
      simp
qed



end
