(* ===== verification/CsaReceiver.thy ===== *)
theory CsaReceiver
  imports SysEnv
begin

text \<open>
  The channel switch receiver, \<open>vehicle/csa/csa.c\<close>: the allowlist parsers, the validation of a
  \<open>csa_commit\<close> frame, and the state machine that arms a switch, performs it at its instant, waits
  for traffic on the new channel and reverts without it.  Times are milliseconds as \<open>long long\<close>;
  the sums \<open>now + dt\<close> and \<open>now + t_revert\<close> are written without the wrap-around C leaves undefined.
\<close>

section \<open>State\<close>

definition CSA_MAX_ALLOW :: nat where
  "CSA_MAX_ALLOW = 32"

definition CSA_HT_LEN :: nat where
  "CSA_HT_LEN = 8"

record csa_cfg =
  ca_iface :: string
  ca_allow_chan :: "int list"
  ca_allow_bw :: "string list"
  ca_cooldown_ms :: int
  ca_no_revert :: bool

datatype csa_phase = CSA_ST_IDLE | CSA_ST_ARMED | CSA_ST_VERIFY

record csa_state =
  cs_st :: csa_phase
  cs_sess :: int
  cs_t_switch_ms :: int
  cs_t_revert_ms :: int
  cs_target_chan :: int
  cs_prev_chan :: int
  cs_target_ht :: string
  cs_prev_ht :: string
  cs_last_switch_ms :: int

definition csa_init :: csa_state where
  "csa_init = \<lparr> cs_st = CSA_ST_IDLE, cs_sess = 0, cs_t_switch_ms = 0, cs_t_revert_ms = 0,
     cs_target_chan = 0, cs_prev_chan = 0, cs_target_ht = [], cs_prev_ht = [],
     cs_last_switch_ms = - 1 \<rparr>"

section \<open>Allowlists\<close>

definition skip_blanks :: "string \<Rightarrow> string" where
  "skip_blanks = dropWhile (\<lambda>c. c = CHR 0x20)"

text \<open>\<open>None\<close> is the result -1; the list is what was written to \<open>out\<close>, at most \<open>max_n\<close> entries.\<close>

function csa_parse_chan_list :: "string \<Rightarrow> nat \<Rightarrow> int list option" where
  "csa_parse_chan_list p max_n =
     (if p = [] \<or> max_n = 0 then Some []
      else case strtol (skip_blanks p) of
        None \<Rightarrow> None
      | Some (c, e) \<Rightarrow>
          (if c < 1 \<or> c > 200 then None
           else let q = skip_blanks e in
             if q \<noteq> [] \<and> hd q \<noteq> CHR '','' then None
             else map_option (\<lambda>cs. c # cs) (csa_parse_chan_list (tl q) (max_n - 1))))"
  by pat_completeness auto
termination
  by (relation "measure snd") auto

declare csa_parse_chan_list.simps [simp del]

definition trim_end :: "string \<Rightarrow> string" where
  "trim_end w = rev (skip_blanks (rev w))"

function csa_parse_bw_list :: "string \<Rightarrow> nat \<Rightarrow> string list option" where
  "csa_parse_bw_list p max_n =
     (if p = [] \<or> max_n = 0 then Some []
      else let q = skip_blanks p;
               w = trim_end (takeWhile (\<lambda>c. c \<noteq> CHR '','') q);
               rest = dropWhile (\<lambda>c. c \<noteq> CHR '','') q in
        if w = [] \<or> CSA_HT_LEN \<le> length w then None
        else map_option (\<lambda>ws. w # ws) (csa_parse_bw_list (tl rest) (max_n - 1)))"
  by pat_completeness auto
termination
  by (relation "measure snd") auto

declare csa_parse_bw_list.simps [simp del]

definition chan_ok :: "csa_cfg \<Rightarrow> int \<Rightarrow> bool" where
  "chan_ok cfg chan = (ca_allow_chan cfg = [] \<or> chan \<in> set (ca_allow_chan cfg))"

definition bw_ok :: "csa_cfg \<Rightarrow> string \<Rightarrow> bool" where
  "bw_ok cfg bw = (ca_allow_bw cfg = [] \<or> bw \<in> set (ca_allow_bw cfg))"

section \<open>The state machine\<close>

definition csa_run_iw :: "'w sysenv \<Rightarrow> string \<Rightarrow> int \<Rightarrow> string \<Rightarrow> 'w io \<Rightarrow> int \<times> 'w io" where
  "csa_run_iw env iface chan ht s =
     run_cmd env [''iw'', ''dev'', iface, ''set'', ''channel'', show_int chan, ht] s"

definition to_idle :: "csa_state \<Rightarrow> csa_state" where
  "to_idle s = s\<lparr>cs_st := CSA_ST_IDLE\<rparr>"

text \<open>A frame field with its default when it is absent.\<close>

definition int_or :: "int \<Rightarrow> string \<Rightarrow> string \<Rightarrow> int" where
  "int_or d buf key = (case get_int buf key of None \<Rightarrow> d | Some v \<Rightarrow> v)"

definition ht_or :: "string \<Rightarrow> string \<Rightarrow> string" where
  "ht_or buf key = (case get_str buf key CSA_HT_LEN of None \<Rightarrow> ''HT20'' | Some v \<Rightarrow> v)"

definition in_cooldown :: "csa_cfg \<Rightarrow> int \<Rightarrow> csa_state \<Rightarrow> bool" where
  "in_cooldown cfg now s =
     (ca_cooldown_ms cfg > 0 \<and> cs_last_switch_ms s \<ge> 0 \<and> now - cs_last_switch_ms s < ca_cooldown_ms cfg)"

definition csa_arm :: "int \<Rightarrow> int \<Rightarrow> int \<Rightarrow> int \<Rightarrow> int \<Rightarrow> string \<Rightarrow> string \<Rightarrow> csa_state \<Rightarrow> csa_state" where
  "csa_arm sess t_switch t_revert target prev target_ht prev_ht s =
     s\<lparr>cs_st := CSA_ST_ARMED, cs_sess := sess, cs_t_switch_ms := t_switch,
       cs_t_revert_ms := t_revert, cs_target_chan := to_i32 target, cs_prev_chan := to_i32 prev,
       cs_target_ht := target_ht, cs_prev_ht := prev_ht\<rparr>"

definition on_commit :: "csa_cfg \<Rightarrow> string \<Rightarrow> int \<Rightarrow> csa_state \<Rightarrow> csa_state" where
  "on_commit cfg buf now s =
     (case (get_int buf ''sess'', get_int buf ''dt_to_switch_ms'', get_int buf ''target_chan'') of
        (Some sess, Some dt, Some target) \<Rightarrow>
          (let target_ht = ht_or buf ''target_ht''; prev_ht = ht_or buf ''prev_ht'' in
           if target < 1 \<or> target > 200 then s
           else if \<not> chan_ok cfg (to_i32 target) then s
           else if \<not> bw_ok cfg target_ht then s
           else if cs_st s = CSA_ST_VERIFY \<and> sess = cs_sess s then to_idle s
           else if cs_st s = CSA_ST_IDLE \<or> sess > cs_sess s
           then (if in_cooldown cfg now s then s
                 else csa_arm sess (now + dt) (int_or 3000 buf ''t_revert_ms'') target
                        (int_or 0 buf ''prev_chan'') target_ht prev_ht s)
           else s)
      | _ \<Rightarrow> s)"

text \<open>The boolean says the datagram was a CSA frame and is consumed.\<close>

definition csa_feed :: "csa_cfg \<Rightarrow> string \<Rightarrow> int \<Rightarrow> csa_state \<Rightarrow> bool \<times> csa_state" where
  "csa_feed cfg buf now s =
     (case get_str buf ''type'' 32 of
        None \<Rightarrow> (False, s)
      | Some type \<Rightarrow>
          (if take 4 type \<noteq> ''csa_'' then (False, s)
           else if take 10 type = ''csa_commit'' then (True, on_commit cfg buf now s)
           else (True, s)))"

definition csa_link_alive :: "csa_state \<Rightarrow> bool \<times> csa_state" where
  "csa_link_alive s = (if cs_st s = CSA_ST_VERIFY then (True, to_idle s) else (False, s))"

text \<open>The number returned is the next deadline, 0 for none.\<close>

definition csa_tick ::
  "'w sysenv \<Rightarrow> csa_cfg \<Rightarrow> int \<Rightarrow> csa_state \<Rightarrow> 'w io \<Rightarrow> (int \<times> csa_state) \<times> 'w io" where
  "csa_tick env cfg now s io =
     (case cs_st s of
        CSA_ST_IDLE \<Rightarrow> ((0, s), io)
      | CSA_ST_ARMED \<Rightarrow>
          (if now \<ge> cs_t_switch_ms s
           then (let (rc, io1) = csa_run_iw env (ca_iface cfg) (cs_target_chan s) (cs_target_ht s) io;
                     s1 = s\<lparr>cs_last_switch_ms := now\<rparr> in
                 if ca_no_revert cfg then ((0, to_idle s1), io1)
                 else let s2 = s1\<lparr>cs_st := CSA_ST_VERIFY, cs_t_revert_ms := now + cs_t_revert_ms s\<rparr>
                      in ((cs_t_revert_ms s2, s2), io1))
           else ((cs_t_switch_ms s, s), io))
      | CSA_ST_VERIFY \<Rightarrow>
          (if now \<ge> cs_t_revert_ms s
           then (let (rc, io1) = csa_run_iw env (ca_iface cfg) (cs_prev_chan s) (cs_prev_ht s) io
                 in ((0, to_idle (s\<lparr>cs_last_switch_ms := now\<rparr>)), io1))
           else ((cs_t_revert_ms s, s), io)))"

section \<open>Runs\<close>

text \<open>
  What the program does to the receiver: frames, other traffic and ticks, at times that do not
  decrease.  \<open>csa_reach cfg t s\<close>: \<open>s\<close> is reached with the last event at time \<open>t\<close>.
\<close>

datatype csa_event = CsaFrame string int | CsaTraffic int | CsaTick int

fun csa_time :: "csa_event \<Rightarrow> int" where
  "csa_time (CsaFrame b t) = t"
| "csa_time (CsaTraffic t) = t"
| "csa_time (CsaTick t) = t"

fun csa_event_run :: "'w sysenv \<Rightarrow> csa_cfg \<Rightarrow> csa_event \<Rightarrow> csa_state \<times> 'w io \<Rightarrow> csa_state \<times> 'w io" where
  "csa_event_run env cfg (CsaFrame b t) (s, io) = (snd (csa_feed cfg b t s), io)"
| "csa_event_run env cfg (CsaTraffic t) (s, io) = (snd (csa_link_alive s), io)"
| "csa_event_run env cfg (CsaTick t) (s, io) = (let ((d, s1), io1) = csa_tick env cfg t s io in (s1, io1))"

inductive csa_reach :: "'w sysenv \<Rightarrow> csa_cfg \<Rightarrow> int \<Rightarrow> csa_state \<times> 'w io \<Rightarrow> bool" for env cfg where
  init: "0 \<le> t \<Longrightarrow> csa_reach env cfg t (csa_init, io)"
| step: "csa_reach env cfg t x \<Longrightarrow> t \<le> csa_time e \<Longrightarrow> csa_reach env cfg (csa_time e) (csa_event_run env cfg e x)"

inductive_cases csa_reachE: "csa_reach env cfg t x"

section \<open>The invariant\<close>

definition target_valid :: "csa_cfg \<Rightarrow> int \<Rightarrow> string \<Rightarrow> bool" where
  "target_valid cfg chan ht = (1 \<le> chan \<and> chan \<le> 200 \<and> chan_ok cfg chan \<and> bw_ok cfg ht)"

definition csa_inv :: "csa_cfg \<Rightarrow> int \<Rightarrow> csa_state \<Rightarrow> bool" where
  "csa_inv cfg t s =
     ((cs_st s \<noteq> CSA_ST_IDLE \<longrightarrow> target_valid cfg (cs_target_chan s) (cs_target_ht s))
      \<and> (cs_st s = CSA_ST_VERIFY \<longrightarrow> \<not> ca_no_revert cfg)
      \<and> cs_last_switch_ms s \<le> t
      \<and> (cs_st s = CSA_ST_ARMED \<longrightarrow> 0 < ca_cooldown_ms cfg \<longrightarrow> 0 \<le> cs_last_switch_ms s
           \<longrightarrow> ca_cooldown_ms cfg \<le> t - cs_last_switch_ms s))"

lemma to_i32_id: "- (2 ^ 31) \<le> v \<Longrightarrow> v < 2 ^ 31 \<Longrightarrow> to_i32 v = v"
  by (simp add: to_i32_def signed_of_int signed_take_bit_int_eq_self)

lemma csa_inv_later: "csa_inv cfg t s \<Longrightarrow> t \<le> u \<Longrightarrow> csa_inv cfg u s"
  by (auto simp: csa_inv_def)

lemma on_commit_cases:
  obtains (same) "on_commit cfg buf now s = s"
  | (confirm) "on_commit cfg buf now s = to_idle s" "cs_st s = CSA_ST_VERIFY"
  | (arm) sess dt target where "get_int buf ''sess'' = Some sess" "get_int buf ''dt_to_switch_ms'' = Some dt"
      "get_int buf ''target_chan'' = Some target" "1 \<le> target" "target \<le> 200"
      "target_valid cfg target (ht_or buf ''target_ht'')"
      "cs_st s = CSA_ST_IDLE \<or> cs_sess s < sess" "\<not> in_cooldown cfg now s"
      "on_commit cfg buf now s = csa_arm sess (now + dt) (int_or 3000 buf ''t_revert_ms'') target
         (int_or 0 buf ''prev_chan'') (ht_or buf ''target_ht'') (ht_or buf ''prev_ht'') s"
proof (cases "get_int buf ''sess''"; cases "get_int buf ''dt_to_switch_ms''"; cases "get_int buf ''target_chan''")
  fix sess dt target
  assume g: "get_int buf ''sess'' = Some sess" "get_int buf ''dt_to_switch_ms'' = Some dt"
    "get_int buf ''target_chan'' = Some target"
  let ?ht = "ht_or buf ''target_ht''"
  consider (bad) "target < 1 \<or> 200 < target \<or> \<not> chan_ok cfg (to_i32 target) \<or> \<not> bw_ok cfg ?ht"
    | (ok) "1 \<le> target" "target \<le> 200" "chan_ok cfg (to_i32 target)" "bw_ok cfg ?ht" by fastforce
  then show thesis
  proof cases
    case bad
    then show thesis using g by (intro same) (auto simp: on_commit_def Let_def)
  next
    case ok
    then have t: "target_valid cfg target ?ht" by (simp add: target_valid_def to_i32_id)
    consider (v) "cs_st s = CSA_ST_VERIFY \<and> sess = cs_sess s"
      | (a) "\<not> (cs_st s = CSA_ST_VERIFY \<and> sess = cs_sess s)" "cs_st s = CSA_ST_IDLE \<or> cs_sess s < sess" "\<not> in_cooldown cfg now s"
      | (o) "\<not> (cs_st s = CSA_ST_VERIFY \<and> sess = cs_sess s)" "\<not> (cs_st s = CSA_ST_IDLE \<or> cs_sess s < sess) \<or> in_cooldown cfg now s"
      by blast
    then show thesis
    proof cases
      case v then show thesis using g ok by (intro confirm) (auto simp: on_commit_def Let_def)
    next
      case a then show thesis using g ok t by (intro arm) (auto simp: on_commit_def Let_def)
    next
      case o then show thesis using g ok by (intro same) (auto simp: on_commit_def Let_def)
    qed
  qed
qed (intro same; simp add: on_commit_def)+

lemma feed_cases:
  obtains "snd (csa_feed cfg b t s) = s" | "snd (csa_feed cfg b t s) = on_commit cfg b t s"
proof -
  have "snd (csa_feed cfg b t s) = s \<or> snd (csa_feed cfg b t s) = on_commit cfg b t s"
    by (simp add: csa_feed_def split: option.split)
  with that show thesis by blast
qed

lemma csa_commit_inv:
  assumes "csa_inv cfg t s"
  shows "csa_inv cfg t (on_commit cfg b t s)"
proof (cases rule: on_commit_cases [of cfg b t s])
  case confirm
  then show ?thesis using assms by (auto simp: csa_inv_def to_idle_def)
next
  case (arm sess dt target)
  then have "to_i32 target = target" by (intro to_i32_id) auto
  with arm assms show ?thesis
    by (auto simp: csa_inv_def csa_arm_def in_cooldown_def)
qed (use assms in simp)

lemma event_inv:
  assumes "csa_inv cfg t s" "t \<le> csa_time e" "0 \<le> t"
  shows "csa_inv cfg (csa_time e) (fst (csa_event_run env cfg e (s, io)))"
proof (cases e)
  case (CsaFrame b u)
  have "csa_inv cfg u s" using csa_inv_later assms CsaFrame by simp
  then show ?thesis using csa_commit_inv CsaFrame by (cases rule: feed_cases [of cfg b u s]) auto
next
  case (CsaTraffic u)
  then show ?thesis using assms by (auto simp: csa_link_alive_def csa_inv_def to_idle_def)
next
  case (CsaTick u)
  then show ?thesis using assms
    by (auto simp: csa_tick_def csa_inv_def to_idle_def Let_def split: csa_phase.splits prod.splits)
qed

lemma csa_reach_inv: "csa_reach env cfg t x \<Longrightarrow> csa_inv cfg t (fst x) \<and> 0 \<le> t"
proof (induction rule: csa_reach.induct)
  case (init t io)
  then show ?case by (simp add: csa_inv_def csa_init_def)
next
  case (step t x e)
  then show ?case using event_inv [of cfg t "fst x" e env "snd x"] by (cases x) auto
qed


section \<open>Properties\<close>

text \<open>C36: only validated hops.  However the receiver got where it is, when a tick tunes the radio it
  tunes it either to a channel in 1 to 200 that the allowlist admits, at an admitted bandwidth,
  and not sooner than the cooldown after the previous hop, or, once only, back to the channel
  given as the previous one; it never tunes twice in a tick.\<close>

theorem csa_only_valid_hops:
  assumes "csa_reach env cfg t (s, io)" "t \<le> now" "csa_tick env cfg now s io = ((d, s'), io')"
  shows "(io_trace io' = io_trace io \<and> cs_st s' = cs_st s)
       \<or> (\<exists>chan ht. io_trace io' = io_trace io @ [EvExec [''iw'', ''dev'', ca_iface cfg, ''set'', ''channel'', show_int chan, ht]]
            \<and> cs_last_switch_ms s' = now
            \<and> (cs_st s = CSA_ST_ARMED \<and> target_valid cfg chan ht \<and> cs_st s' \<noteq> CSA_ST_ARMED
                 \<and> (0 < ca_cooldown_ms cfg \<and> 0 \<le> cs_last_switch_ms s \<longrightarrow> ca_cooldown_ms cfg \<le> now - cs_last_switch_ms s)
               \<or> cs_st s = CSA_ST_VERIFY \<and> \<not> ca_no_revert cfg \<and> chan = cs_prev_chan s \<and> ht = cs_prev_ht s
                 \<and> cs_st s' = CSA_ST_IDLE))"
proof -
  have inv: "csa_inv cfg t s" using csa_reach_inv [OF assms(1)] by simp
  have iw: "io_trace io1 = io_trace io @ [EvExec [''iw'', ''dev'', ca_iface cfg, ''set'', ''channel'', show_int c, h]]"
    if "csa_run_iw env (ca_iface cfg) c h io = (rc, io1)" for c h rc io1
    using that by (auto simp: csa_run_iw_def run_cmd_def io_log_def Let_def split: prod.splits)
  show ?thesis
  proof (cases "cs_st s")
    case CSA_ST_IDLE
    then show ?thesis using assms(3) by (simp add: csa_tick_def)
  next
    case CSA_ST_ARMED
    obtain rc io1 where r: "csa_run_iw env (ca_iface cfg) (cs_target_chan s) (cs_target_ht s) io = (rc, io1)"
      by (cases "csa_run_iw env (ca_iface cfg) (cs_target_chan s) (cs_target_ht s) io")
    show ?thesis
    proof (cases "cs_t_switch_ms s \<le> now")
      case True
      then have "io' = io1" "cs_last_switch_ms s' = now" "cs_st s' \<noteq> CSA_ST_ARMED"
        using assms(3) CSA_ST_ARMED r by (auto simp: csa_tick_def to_idle_def Let_def split: if_splits)
      then show ?thesis using inv iw [OF r] CSA_ST_ARMED assms(2) by (fastforce simp: csa_inv_def)
    next
      case False
      then show ?thesis using assms(3) CSA_ST_ARMED by (auto simp: csa_tick_def)
    qed
  next
    case CSA_ST_VERIFY
    obtain rc io1 where r: "csa_run_iw env (ca_iface cfg) (cs_prev_chan s) (cs_prev_ht s) io = (rc, io1)"
      by (cases "csa_run_iw env (ca_iface cfg) (cs_prev_chan s) (cs_prev_ht s) io")
    show ?thesis
    proof (cases "cs_t_revert_ms s \<le> now")
      case True
      then have "io' = io1" "cs_last_switch_ms s' = now" "cs_st s' = CSA_ST_IDLE"
        using assms(3) CSA_ST_VERIFY r by (auto simp: csa_tick_def to_idle_def Let_def)
      then show ?thesis using inv iw [OF r] CSA_ST_VERIFY by (auto simp: csa_inv_def)
    next
      case False
      then show ?thesis using assms(3) CSA_ST_VERIFY by (auto simp: csa_tick_def)
    qed
  qed
qed

text \<open>C37: a switch comes to an end.  From an armed switch, the first tick at or after its instant tunes to
  the target; then either the next tick past the revert duration tunes back to the previous
  channel, or traffic seen before it keeps the new one.  In both cases the receiver is idle again,
  with exactly those radio commands sent.\<close>

theorem csa_switch_completes:
  assumes "cs_st s = CSA_ST_ARMED" "cs_t_switch_ms s \<le> t1" "t1 + cs_t_revert_ms s \<le> t2" "\<not> ca_no_revert cfg"
  shows "(let (s1, io1) = csa_event_run env cfg (CsaTick t1) (s, io);
              (s2, io2) = csa_event_run env cfg (CsaTick t2) (s1, io1);
              (s3, io3) = csa_event_run env cfg (CsaTick t2) (csa_event_run env cfg (CsaTraffic t) (s1, io1));
              hop = (\<lambda>c h. EvExec [''iw'', ''dev'', ca_iface cfg, ''set'', ''channel'', show_int c, h])
          in cs_st s2 = CSA_ST_IDLE
             \<and> io_trace io2 = io_trace io @ [hop (cs_target_chan s) (cs_target_ht s), hop (cs_prev_chan s) (cs_prev_ht s)]
             \<and> cs_st s3 = CSA_ST_IDLE \<and> io_trace io3 = io_trace io @ [hop (cs_target_chan s) (cs_target_ht s)])"
  using assms
  by (simp add: csa_tick_def csa_link_alive_def to_idle_def csa_run_iw_def run_cmd_def io_log_def Let_def
      split: prod.split)


definition demo_csa_cfg :: csa_cfg where
  "demo_csa_cfg = \<lparr> ca_iface = ''wlan0'', ca_allow_chan = [149, 153], ca_allow_bw = [], ca_cooldown_ms = 2000,
                     ca_no_revert = False \<rparr>"

definition demo_frame :: string where
  "demo_frame = quoted ''type'' @ CHR '':'' # quoted ''csa_commit'' @ CHR '','' # quoted ''sess'' @ '':7,''
     @ quoted ''dt_to_switch_ms'' @ '':100,'' @ quoted ''target_chan'' @ '':149''"

lemma demo_frame_fields:
  "get_int demo_frame ''sess'' = Some 7" "get_int demo_frame ''dt_to_switch_ms'' = Some 100"
  "get_int demo_frame ''target_chan'' = Some 149" "get_int demo_frame ''t_revert_ms'' = None"
  "get_int demo_frame ''prev_chan'' = None" "get_str demo_frame ''target_ht'' CSA_HT_LEN = None"
  "get_str demo_frame ''prev_ht'' CSA_HT_LEN = None" "get_str demo_frame ''type'' 32 = Some ''csa_commit''"
  by code_simp+

lemma demo_feed:
  "snd (csa_feed demo_csa_cfg demo_frame 0 csa_init)
   = csa_arm 7 100 3000 149 0 ''HT20'' ''HT20'' csa_init"
proof -
  have "to_i32 149 = 149" by (rule to_i32_id) simp_all
  then show ?thesis
    by (simp add: csa_feed_def on_commit_def demo_frame_fields ht_or_def int_or_def Let_def)
      (simp add: demo_csa_cfg_def chan_ok_def bw_ok_def csa_init_def in_cooldown_def)
qed

theorem csa_only_valid_hops_witness:
  "\<exists>d s' io'. csa_tick demo_env demo_csa_cfg 150 (snd (csa_feed demo_csa_cfg demo_frame 0 csa_init)) demo_io
      = ((d, s'), io') \<and> cs_last_switch_ms s' = 150"
proof -
  let ?s = "snd (csa_feed demo_csa_cfg demo_frame 0 csa_init)"
  have r: "csa_reach demo_env demo_csa_cfg 0 (?s, demo_io)"
    using csa_reach.step [OF csa_reach.init [of 0 demo_env demo_csa_cfg demo_io], of "CsaFrame demo_frame 0"] by simp
  obtain d s' io' where t: "csa_tick demo_env demo_csa_cfg 150 ?s demo_io = ((d, s'), io')"
    by (metis prod.collapse)
  have "cs_st s' \<noteq> cs_st ?s"
    using t unfolding demo_feed by (auto simp: csa_tick_def csa_arm_def Let_def to_idle_def split: prod.splits if_splits)
  with csa_only_valid_hops [OF r _ t] t show ?thesis by auto
qed

theorem csa_switch_completes_witness:
  "cs_st (fst (csa_event_run demo_env demo_csa_cfg (CsaTick 5000) (csa_event_run demo_env demo_csa_cfg (CsaTick 150)
     (csa_arm 7 100 3000 149 36 ''HT20'' ''HT20'' csa_init, demo_io)))) = CSA_ST_IDLE"
proof -
  let ?s = "csa_arm 7 100 3000 149 36 ''HT20'' ''HT20'' csa_init"
  have a: "cs_st ?s = CSA_ST_ARMED" "cs_t_switch_ms ?s \<le> 150" "150 + cs_t_revert_ms ?s \<le> 5000"
    "\<not> ca_no_revert demo_csa_cfg"
    by (simp_all add: csa_arm_def demo_csa_cfg_def)
  show ?thesis
    using csa_switch_completes [OF a, of demo_env demo_io 200] by (auto simp: Let_def split: prod.splits)
qed

section \<open>The allowlist text\<close>

fun chan_list_text :: "int list \<Rightarrow> string" where
  "chan_list_text [] = []"
| "chan_list_text [c] = show_int c"
| "chan_list_text (c # cs) = show_int c @ CHR '','' # chan_list_text cs"

lemma skip_blanks_show: "skip_blanks (show_int v @ r) = show_int v @ r"
  unfolding skip_blanks_def by (rule dropWhile_show_int) simp

lemma strtol_show:
  assumes "1 \<le> c" "c \<le> 200" "rest = [] \<or> \<not> c_isdigit (hd rest)"
  shows "strtol (skip_blanks (show_int c @ rest)) = Some (c, rest)"
  using assms by (simp add: skip_blanks_show strtol_def strto_show_int LONG_MIN_def LONG_MAX_def)

text \<open>The channel allowlist.  The parser accepts only channels 1 to 200 and at most \<open>max_n\<close> of
  them, and reads back exactly the list that was written comma-separated.\<close>

theorem csa_chan_list_roundtrip:
  assumes "list_all (\<lambda>c. 1 \<le> c \<and> c \<le> 200) cs" "length cs \<le> max_n"
  shows "csa_parse_chan_list (chan_list_text cs) max_n = Some cs
       \<and> (csa_parse_chan_list p n = Some out \<longrightarrow> length out \<le> n \<and> list_all (\<lambda>c. 1 \<le> c \<and> c \<le> 200) out)"
proof
  show "csa_parse_chan_list (chan_list_text cs) max_n = Some cs"
    using assms
  proof (induction cs arbitrary: max_n rule: chan_list_text.induct)
    case 1
    then show ?case by (subst csa_parse_chan_list.simps) simp
  next
    case (2 c)
    have "csa_parse_chan_list [] n = Some []" for n by (subst csa_parse_chan_list.simps) simp
    with 2 strtol_show [of c "[]"] show ?case
      by (subst csa_parse_chan_list.simps) (simp add: skip_blanks_def)
  next
    case (3 c d cs)
    have "\<not> c_isdigit CHR '',''" by code_simp
    with 3 strtol_show [of c "CHR '','' # chan_list_text (d # cs)"] show ?case
      by (subst csa_parse_chan_list.simps) (auto simp: skip_blanks_def)
  qed
next
  show "csa_parse_chan_list p n = Some out \<longrightarrow> length out \<le> n \<and> list_all (\<lambda>c. 1 \<le> c \<and> c \<le> 200) out"
  proof (induction p n arbitrary: out rule: csa_parse_chan_list.induct)
    case (1 p n)
    show ?case
    proof
      assume a: "csa_parse_chan_list p n = Some out"
      show "length out \<le> n \<and> list_all (\<lambda>c. 1 \<le> c \<and> c \<le> 200) out"
      proof (cases "p = [] \<or> n = 0")
        case True
        with a show ?thesis by (subst (asm) csa_parse_chan_list.simps) simp
      next
        case False
        with a obtain c e cs where e: "strtol (skip_blanks p) = Some (c, e)" "1 \<le> c" "c \<le> 200"
          "\<not> (skip_blanks e \<noteq> [] \<and> hd (skip_blanks e) \<noteq> CHR '','')"
          "csa_parse_chan_list (tl (skip_blanks e)) (n - 1) = Some cs" "out = c # cs"
          by (subst (asm) csa_parse_chan_list.simps) (auto simp: Let_def split: option.splits prod.splits if_splits)
        from 1 [OF False e(1) refl _ refl e(4)] e(2,3,5) have "length cs \<le> n - 1 \<and> list_all (\<lambda>c. 1 \<le> c \<and> c \<le> 200) cs"
          by simp
        with e False show ?thesis by auto
      qed
    qed
  qed
qed

theorem csa_chan_list_roundtrip_witness:
  "csa_parse_chan_list (chan_list_text [149, 153, 157]) 32 = Some [149, 153, 157]"
  using csa_chan_list_roundtrip [of "[149, 153, 157]" 32] by simp

end
