(* ===== verification/Recovery.thy ===== *)
theory Recovery
  imports WcmdProxy
begin

text \<open>
  The recovery backdoor, \<open>recovery_dispatch\<close> of \<open>vehicle/link_controller.c\<close> and its socket: a
  channel without authentication that accepts one key, arms on \<open>arm_count\<close> frames of one sequence
  number inside a window, runs a hook, and then stays quiet for a cooldown.
\<close>

section \<open>State and dispatch\<close>

record recov =
  rv_recv_total :: u64
  rv_rejected :: u64
  rv_armed :: u64
  rv_executed :: u64
  rv_last_recv_us :: u64
  rv_last_exec_us :: u64
  rv_last_exec_rc :: int
  rv_arm_seq :: u16
  rv_arm_hits :: int
  rv_arm_first_us :: u64

definition recov_init :: recov where
  "recov_init = \<lparr> rv_recv_total = 0, rv_rejected = 0, rv_armed = 0, rv_executed = 0, rv_last_recv_us = 0,
     rv_last_exec_us = 0, rv_last_exec_rc = 0, rv_arm_seq = 0, rv_arm_hits = 0, rv_arm_first_us = 0 \<rparr>"

definition pos_or :: "int \<Rightarrow> int \<Rightarrow> int" where
  "pos_or v d = (if v > 0 then v else d)"

definition rv_cooldown_us :: "recovery_cfg \<Rightarrow> u64" where
  "rv_cooldown_us rc = word_of_int (pos_or (rec_cooldown_ms rc) 10000) * 1000"

definition rv_window_us :: "recovery_cfg \<Rightarrow> u64" where
  "rv_window_us rc = word_of_int (pos_or (rec_arm_window_ms rc) 2000) * 1000"

definition rv_need :: "recovery_cfg \<Rightarrow> int" where
  "rv_need rc = pos_or (rec_arm_count rc) 1"

definition rv_resting :: "recovery_cfg \<Rightarrow> u64 \<Rightarrow> recov \<Rightarrow> bool" where
  "rv_resting rc now rv = (rv_last_exec_us rv \<noteq> 0 \<and> now - rv_last_exec_us rv < rv_cooldown_us rc)"

definition rv_count :: "recovery_cfg \<Rightarrow> u16 \<Rightarrow> u64 \<Rightarrow> recov \<Rightarrow> recov" where
  "rv_count rc seq now rv =
     (if rv_arm_hits rv = 0 \<or> rv_arm_seq rv \<noteq> seq \<or> now - rv_arm_first_us rv > rv_window_us rc
      then rv\<lparr>rv_arm_seq := seq, rv_arm_hits := 1, rv_arm_first_us := now\<rparr>
      else rv\<lparr>rv_arm_hits := rv_arm_hits rv + 1\<rparr>)"

definition rv_fire ::
  "'w sysenv \<Rightarrow> lc_config \<Rightarrow> wcmd_req \<Rightarrow> u64 \<Rightarrow> recov \<Rightarrow> 'w io \<Rightarrow> wcmd_resp \<times> recov \<times> 'w io" where
  "rv_fire env c r now rv s =
     (let (rc, s1) = (if cfg_dry_run c then (0, s)
                      else wfb_run_recovery_cmd env (rec_apfpv_cmd (cfg_recovery c)) s);
          rv1 = rv\<lparr>rv_armed := rv_armed rv + 1, rv_arm_hits := 0, rv_last_exec_us := now,
                   rv_last_exec_rc := rc\<rparr> in
      if rc = 0
      then ((resp_init r)\<lparr>rs_status := WCMD_STATUS_OK\<rparr>, rv1\<lparr>rv_executed := rv_executed rv1 + 1\<rparr>, s1)
      else ((resp_init r)\<lparr>rs_status := WCMD_STATUS_HTTP_ERROR, rs_http_status := exit_u16 rc\<rparr>, rv1, s1))"

definition recovery_dispatch ::
  "'w sysenv \<Rightarrow> lc_config \<Rightarrow> wcmd_req \<Rightarrow> u64 \<Rightarrow> recov \<Rightarrow> 'w io \<Rightarrow> wcmd_resp \<times> recov \<times> 'w io" where
  "recovery_dispatch env c r now rv0 s =
     (let rc = cfg_recovery c;
          rv = rv0\<lparr>rv_recv_total := rv_recv_total rv0 + 1, rv_last_recv_us := now\<rparr> in
      if \<not> rec_enabled rc
      then ((resp_init r)\<lparr>rs_status := WCMD_STATUS_DISABLED\<rparr>, rv\<lparr>rv_rejected := rv_rejected rv + 1\<rparr>, s)
      else if uint (rq_key r) \<noteq> WCMD_KEY_RECOVERY_APFPV
      then ((resp_init r)\<lparr>rs_status := WCMD_STATUS_UNKNOWN_KEY\<rparr>, rv\<lparr>rv_rejected := rv_rejected rv + 1\<rparr>, s)
      else if rv_resting rc now rv
      then ((resp_init r)\<lparr>rs_status := WCMD_STATUS_OK, rs_applied_value := rv_last_exec_rc rv\<rparr>, rv, s)
      else let rv1 = rv_count rc (rq_seq r) now rv in
        if rv_arm_hits rv1 < rv_need rc
        then ((resp_init r)\<lparr>rs_status := WCMD_STATUS_OK\<rparr>, rv1, s)
        else rv_fire env c r now rv1 s)"

text \<open>One datagram of the recovery socket: no reply when it is not a request.\<close>

definition recovery_feed ::
  "'w sysenv \<Rightarrow> lc_config \<Rightarrow> u8 list \<Rightarrow> u64 \<Rightarrow> recov \<Rightarrow> 'w io \<Rightarrow> wcmd_resp option \<times> recov \<times> 'w io" where
  "recovery_feed env c bs now rv s =
     (case wcmd_req_parse bs of
        None \<Rightarrow> (None, rv, s)
      | Some r \<Rightarrow> (let (resp, rv1, s1) = recovery_dispatch env c r now rv s in (Some resp, rv1, s1)))"

section \<open>One frame\<close>

definition hook_events :: "lc_config \<Rightarrow> event list" where
  "hook_events c =
     (if cfg_dry_run c \<or> rec_apfpv_cmd (cfg_recovery c) = [] then []
      else [EvExec [''sh'', ''-c'', rec_apfpv_cmd (cfg_recovery c)]])"

lemma rv_fire_effect:
  assumes "rv_fire env c r now rv s = (resp, rv', s')"
  shows "io_trace s' = io_trace s @ hook_events c" "rv_armed rv' = rv_armed rv + 1" "rv_arm_hits rv' = 0"
    "rv_last_exec_us rv' = now"
  using assms
  by (auto simp: rv_fire_def Let_def hook_events_def wfb_run_recovery_cmd_def run_cmd_def io_log_def
      split: prod.splits if_splits)

lemma rv_count_fields [simp]:
  "rv_armed (rv_count rc q now rv) = rv_armed rv" "rv_last_exec_us (rv_count rc q now rv) = rv_last_exec_us rv"
  "rv_arm_seq (rv_count rc q now rv) = q"
  by (simp_all add: rv_count_def)

definition rv_seen :: "u64 \<Rightarrow> recov \<Rightarrow> recov" where
  "rv_seen now rv = rv\<lparr>rv_recv_total := rv_recv_total rv + 1, rv_last_recv_us := now\<rparr>"

lemma rv_seen_fields [simp]:
  "rv_armed (rv_seen now rv) = rv_armed rv" "rv_last_exec_us (rv_seen now rv) = rv_last_exec_us rv"
  "rv_arm_hits (rv_seen now rv) = rv_arm_hits rv" "rv_arm_seq (rv_seen now rv) = rv_arm_seq rv"
  "rv_arm_first_us (rv_seen now rv) = rv_arm_first_us rv" "rv_resting rc t (rv_seen now rv) = rv_resting rc t rv"
  by (simp_all add: rv_seen_def rv_resting_def)

text \<open>The outcomes of a dispatch: ignored, counted towards the threshold, or the hook is run.\<close>

lemma recovery_cases:
  assumes "recovery_dispatch env c r now rv s = (resp, rv', s')"
  obtains (still) "s' = s" "rv_armed rv' = rv_armed rv" "rv_last_exec_us rv' = rv_last_exec_us rv"
      "rv_arm_hits rv' = rv_arm_hits rv" "rv_arm_seq rv' = rv_arm_seq rv" "rv_arm_first_us rv' = rv_arm_first_us rv"
    | (count) "rec_enabled (cfg_recovery c)" "uint (rq_key r) = WCMD_KEY_RECOVERY_APFPV"
      "\<not> rv_resting (cfg_recovery c) now rv" "s' = s"
      "rv' = rv_count (cfg_recovery c) (rq_seq r) now (rv_seen now rv)" "rv_arm_hits rv' < rv_need (cfg_recovery c)"
    | (fire) "rec_enabled (cfg_recovery c)" "uint (rq_key r) = WCMD_KEY_RECOVERY_APFPV"
      "\<not> rv_resting (cfg_recovery c) now rv"
      "rv_need (cfg_recovery c) \<le> rv_arm_hits (rv_count (cfg_recovery c) (rq_seq r) now (rv_seen now rv))"
      "rv_fire env c r now (rv_count (cfg_recovery c) (rq_seq r) now (rv_seen now rv)) s = (resp, rv', s')"
proof -
  let ?rc = "cfg_recovery c"
  have eq: "recovery_dispatch env c r now rv s =
     (if \<not> rec_enabled ?rc
      then ((resp_init r)\<lparr>rs_status := WCMD_STATUS_DISABLED\<rparr>, (rv_seen now rv)\<lparr>rv_rejected := rv_rejected rv + 1\<rparr>, s)
      else if uint (rq_key r) \<noteq> WCMD_KEY_RECOVERY_APFPV
      then ((resp_init r)\<lparr>rs_status := WCMD_STATUS_UNKNOWN_KEY\<rparr>, (rv_seen now rv)\<lparr>rv_rejected := rv_rejected rv + 1\<rparr>, s)
      else if rv_resting ?rc now rv
      then ((resp_init r)\<lparr>rs_status := WCMD_STATUS_OK, rs_applied_value := rv_last_exec_rc rv\<rparr>, rv_seen now rv, s)
      else let rv1 = rv_count ?rc (rq_seq r) now (rv_seen now rv) in
        if rv_arm_hits rv1 < rv_need ?rc
        then ((resp_init r)\<lparr>rs_status := WCMD_STATUS_OK\<rparr>, rv1, s)
        else rv_fire env c r now rv1 s)"
    by (simp add: recovery_dispatch_def rv_seen_def [symmetric] rv_resting_def Let_def) (simp add: rv_seen_def)
  consider (no) "\<not> rec_enabled ?rc \<or> uint (rq_key r) \<noteq> WCMD_KEY_RECOVERY_APFPV \<or> rv_resting ?rc now rv"
    | (yes) "rec_enabled ?rc" "uint (rq_key r) = WCMD_KEY_RECOVERY_APFPV" "\<not> rv_resting ?rc now rv"
    by blast
  then show thesis
  proof cases
    case no
    then show thesis using assms unfolding eq by (intro still) (auto split: if_splits)
  next
    case yes
    show thesis
    proof (cases "rv_arm_hits (rv_count ?rc (rq_seq r) now (rv_seen now rv)) < rv_need ?rc")
      case True
      then show thesis using assms yes unfolding eq by (intro count) (auto simp: Let_def)
    next
      case False
      then show thesis using assms yes unfolding eq by (intro fire) (auto simp: Let_def)
    qed
  qed
qed

section \<open>Runs\<close>

text \<open>
  What the channel has received, newest first: the time, the request and whether it ran the hook.
  Times are those of the monotonic clock: they do not decrease and are never 0.
\<close>

record recov_entry =
  re_time :: u64
  re_req :: wcmd_req
  re_fired :: bool

inductive recovery_reach :: "'w sysenv \<Rightarrow> lc_config \<Rightarrow> recov_entry list \<Rightarrow> recov \<times> 'w io \<Rightarrow> bool"
  for env c where
  init: "recovery_reach env c [] (recov_init, s)"
| step: "recovery_reach env c hist (rv, s) \<Longrightarrow> 0 < now \<Longrightarrow> \<forall>e \<in> set hist. re_time e \<le> now \<Longrightarrow>
         recovery_dispatch env c r now rv s = (resp, rv', s') \<Longrightarrow>
         recovery_reach env c (\<lparr> re_time = now, re_req = r, re_fired = (rv_armed rv' \<noteq> rv_armed rv) \<rparr> # hist) (rv', s')"

definition arms :: "u16 \<Rightarrow> u64 \<Rightarrow> recov_entry \<Rightarrow> bool" where
  "arms q first e = (uint (rq_key (re_req e)) = WCMD_KEY_RECOVERY_APFPV \<and> rq_seq (re_req e) = q \<and> first \<le> re_time e)"

definition recov_inv :: "recov_entry list \<Rightarrow> recov \<Rightarrow> bool" where
  "recov_inv hist rv =
     (0 \<le> rv_arm_hits rv
      \<and> rv_arm_hits rv \<le> int (length (filter (arms (rv_arm_seq rv) (rv_arm_first_us rv)) hist))
      \<and> (rv_arm_hits rv = 0 \<or> (\<exists>e \<in> set hist. re_time e = rv_arm_first_us rv))
      \<and> (rv_last_exec_us rv = 0 \<or> (\<exists>e \<in> set hist. re_time e = rv_last_exec_us rv))
      \<and> (\<forall>e \<in> set hist. re_fired e \<longrightarrow> rv_last_exec_us rv \<noteq> 0 \<and> re_time e \<le> rv_last_exec_us rv))"

text \<open>The counter after this frame never exceeds the frames that arm it.\<close>

lemma count_bound:
  fixes rc :: recovery_cfg
  assumes "recov_inv hist rv" "uint (rq_key r) = WCMD_KEY_RECOVERY_APFPV" "\<forall>e \<in> set hist. re_time e \<le> now"
  defines "rv1 \<equiv> rv_count rc (rq_seq r) now (rv_seen now rv)"
  shows "1 \<le> rv_arm_hits rv1"
    "rv_arm_hits rv1 \<le> int (length (filter (arms (rq_seq r) (rv_arm_first_us rv1)) (\<lparr> re_time = now, re_req = r, re_fired = f \<rparr> # hist)))"
    "now - rv_arm_first_us rv1 \<le> rv_window_us rc" "rv_arm_first_us rv1 \<le> now"
    "rv_arm_first_us rv1 = now \<or> (\<exists>e \<in> set hist. re_time e = rv_arm_first_us rv1)"
  using assms by (auto simp: rv_count_def recov_inv_def arms_def not_less)

lemma recov_inv_grow:
  assumes "recov_inv hist rv" "\<not> re_fired e" "rv_last_exec_us rv' = rv_last_exec_us rv"
    "rv_arm_hits rv' = rv_arm_hits rv" "rv_arm_seq rv' = rv_arm_seq rv" "rv_arm_first_us rv' = rv_arm_first_us rv"
  shows "recov_inv (e # hist) rv'"
  unfolding recov_inv_def
proof (intro conjI)
  let ?P = "arms (rv_arm_seq rv') (rv_arm_first_us rv')"
  have "length (filter ?P hist) \<le> length (filter ?P (e # hist))" by simp
  moreover have "rv_arm_hits rv' \<le> int (length (filter ?P hist))"
    using assms by (simp add: recov_inv_def)
  ultimately show "rv_arm_hits rv' \<le> int (length (filter ?P (e # hist)))" by linarith
qed (use assms in \<open>auto simp: recov_inv_def\<close>)

lemma recov_reach_inv: "recovery_reach env c hist x \<Longrightarrow> recov_inv hist (fst x)"
proof (induction rule: recovery_reach.induct)
  case (init s)
  then show ?case by (simp add: recov_inv_def recov_init_def)
next
  case (step hist rv s now r resp rv' s')
  then have inv: "recov_inv hist rv" by simp
  let ?e = "\<lparr> re_time = now, re_req = r, re_fired = (rv_armed rv' \<noteq> rv_armed rv) \<rparr>"
  from step.hyps(4) show ?case
  proof (cases rule: recovery_cases)
    case still
    show ?thesis using recov_inv_grow [OF inv _ still(3-6), of ?e] still(2) by simp
  next
    case count
    note b2 = count_bound(2) [OF inv count(2) step.hyps(3), of "cfg_recovery c" "re_fired ?e"]
    note b = count_bound(1,3-5) [OF inv count(2) step.hyps(3), of "cfg_recovery c"]
    show ?thesis unfolding fst_conv recov_inv_def
    proof (intro conjI)
      show "rv_arm_hits rv' \<le> int (length (filter (arms (rv_arm_seq rv') (rv_arm_first_us rv')) (?e # hist)))"
        using b2 by (simp add: count(5) del: filter.simps)
    qed (use b inv in \<open>auto simp: count(5) recov_inv_def\<close>)
  next
    case fire
    note f = rv_fire_effect [OF fire(5)]
    then show ?thesis using inv step.hyps(2,3) by (auto simp: recov_inv_def)
  qed
qed

section \<open>A burst\<close>

fun recovery_burst ::
  "'w sysenv \<Rightarrow> lc_config \<Rightarrow> wcmd_req \<Rightarrow> u64 list \<Rightarrow> recov \<Rightarrow> 'w io \<Rightarrow> recov \<times> 'w io" where
  "recovery_burst env c r [] rv s = (rv, s)"
| "recovery_burst env c r (t # ts) rv s =
     (let (resp, rv1, s1) = recovery_dispatch env c r t rv s in recovery_burst env c r ts rv1 s1)"

lemma dispatch_resting:
  assumes "rv_resting (cfg_recovery c) t rv" "recovery_dispatch env c r t rv s = (resp, rv', s')"
  shows "s' = s" "rv_armed rv' = rv_armed rv" "rv_last_exec_us rv' = rv_last_exec_us rv"
  using assms(2) by (cases rule: recovery_cases; simp add: assms(1))+

lemma burst_resting:
  "\<forall>t \<in> set ts. rv_resting (cfg_recovery c) t rv \<Longrightarrow> recovery_burst env c r ts rv s = (rv', s')
   \<Longrightarrow> s' = s \<and> rv_armed rv' = rv_armed rv"
proof (induction ts arbitrary: rv)
  case (Cons t ts)
  obtain resp rv1 s1 where d: "recovery_dispatch env c r t rv s = (resp, rv1, s1)" by (metis prod_cases3)
  from Cons.prems(1) have "rv_resting (cfg_recovery c) t rv" by simp
  note k = dispatch_resting [OF this d]
  have "rv_resting (cfg_recovery c) u rv1" if "u \<in> set ts" for u
    using that Cons.prems(1) k(3) by (simp add: rv_resting_def)
  with Cons.IH [of rv1] Cons.prems(2) d k show ?case by simp
qed simp

lemma u64_diff_mono:
  fixes a b c d :: u64
  assumes "a \<le> b" "b \<le> c"
  shows "c - b \<le> c - a" "c - b \<le> c"
  using assms by (simp_all add: word_le_nat_alt unat_sub)

text \<open>Frames that find the counter running: the hook is run by the one that reaches the threshold.\<close>

lemma burst_counting:
  assumes "rec_enabled (cfg_recovery c)" "uint (rq_key r) = WCMD_KEY_RECOVERY_APFPV"
    and "recovery_burst env c r ts rv s = (rv', s')"
    and "1 \<le> rv_arm_hits rv" "rv_arm_hits rv < rv_need (cfg_recovery c)" "rv_arm_seq rv = rq_seq r" "rv_arm_first_us rv = t0"
    and "rv_need (cfg_recovery c) \<le> rv_arm_hits rv + int (length ts)"
    and "sorted ts" "\<forall>t \<in> set ts. 0 < t \<and> t0 \<le> t \<and> t - t0 \<le> rv_window_us (cfg_recovery c) \<and> t - t0 < rv_cooldown_us (cfg_recovery c)"
    and "\<forall>t \<in> set ts. \<not> rv_resting (cfg_recovery c) t rv"
  shows "io_trace s' = io_trace s @ hook_events c \<and> rv_armed rv' = rv_armed rv + 1"
  using assms(3-)
proof (induction ts arbitrary: rv)
  case (Cons t ts)
  let ?rc = "cfg_recovery c"
  obtain resp rv1 s1 where d: "recovery_dispatch env c r t rv s = (resp, rv1, s1)" by (metis prod_cases3)
  have run: "recovery_burst env c r ts rv1 s1 = (rv', s')" using Cons.prems(1) d by simp
  have n: "\<not> rv_resting ?rc t rv" and w: "\<not> t - rv_arm_first_us rv > rv_window_us ?rc"
    using Cons.prems(5,8,9) by (auto simp: not_less)
  have c1: "rv_count ?rc (rq_seq r) t (rv_seen t rv) = (rv_seen t rv)\<lparr>rv_arm_hits := rv_arm_hits rv + 1\<rparr>"
    using Cons.prems(2,4) w by (simp add: rv_count_def)
  have e: "recovery_dispatch env c r t rv s =
     (if rv_arm_hits rv + 1 < rv_need ?rc
      then ((resp_init r)\<lparr>rs_status := WCMD_STATUS_OK\<rparr>, (rv_seen t rv)\<lparr>rv_arm_hits := rv_arm_hits rv + 1\<rparr>, s)
      else rv_fire env c r t ((rv_seen t rv)\<lparr>rv_arm_hits := rv_arm_hits rv + 1\<rparr>) s)"
  proof -
    have "rv_resting ?rc t (rv_seen t rv) = False" using n by simp
    then show ?thesis using c1 assms(1,2)
      by (simp add: recovery_dispatch_def rv_seen_def [symmetric] Let_def)
  qed
  show ?case
  proof (cases "rv_arm_hits rv + 1 < rv_need ?rc")
    case True
    then have v: "s1 = s" "rv1 = (rv_seen t rv)\<lparr>rv_arm_hits := rv_arm_hits rv + 1\<rparr>" using e d by auto
    have "rv_resting ?rc u rv1 = rv_resting ?rc u rv" for u by (simp add: v rv_resting_def rv_seen_def)
    then show ?thesis using Cons.IH [OF run [unfolded v(1)]] Cons.prems True by (simp add: v(2))
  next
    case False
    then have f: "rv_fire env c r t ((rv_seen t rv)\<lparr>rv_arm_hits := rv_arm_hits rv + 1\<rparr>) s = (resp, rv1, s1)"
      using e d by simp
    note f1 = rv_fire_effect [OF f]
    have "rv_resting ?rc u rv1" if "u \<in> set ts" for u
    proof -
      from that Cons.prems(7,8) have "t0 \<le> t" "t \<le> u" "u - t0 < rv_cooldown_us ?rc" "0 < t" by auto
      then show ?thesis using u64_diff_mono(1) [of t0 t u] f1(4) by (auto simp: rv_resting_def)
    qed
    with burst_resting run f1 show ?thesis by fastforce
  qed
qed simp

section \<open>Properties\<close>

text \<open>C40: the hook is guarded.  However the channel got where it is, a frame either changes nothing but
  counters or runs the configured hook, once; and it does that only with the backdoor enabled, for
  the recovery key, after \<open>arm_count\<close> frames of its own sequence number inside the arming window,
  and not before the cooldown after every earlier run has passed.\<close>

theorem recovery_hook_guarded:
  assumes "recovery_reach env c hist (rv, s)" "\<forall>e \<in> set hist. re_time e \<le> now" "0 < now"
    and "recovery_dispatch env c r now rv s = (resp, rv', s')"
  shows "(rv_armed rv' = rv_armed rv \<and> io_trace s' = io_trace s)
     \<or> (rec_enabled (cfg_recovery c) \<and> uint (rq_key r) = WCMD_KEY_RECOVERY_APFPV
        \<and> io_trace s' = io_trace s @ hook_events c
        \<and> rv_need (cfg_recovery c) \<le> 1 + int (length (filter (\<lambda>e. uint (rq_key (re_req e)) = WCMD_KEY_RECOVERY_APFPV
              \<and> rq_seq (re_req e) = rq_seq r \<and> now - re_time e \<le> rv_window_us (cfg_recovery c)) hist))
        \<and> (\<forall>e \<in> set hist. re_fired e \<longrightarrow> rv_cooldown_us (cfg_recovery c) \<le> now - re_time e))"
  using assms(4)
proof (cases rule: recovery_cases)
  case fire
  let ?rc = "cfg_recovery c"
  have inv: "recov_inv hist rv" using recov_reach_inv [OF assms(1)] by simp
  let ?rv1 = "rv_count ?rc (rq_seq r) now (rv_seen now rv)"
  note b2 = count_bound(2) [OF inv fire(2) assms(2), of ?rc False]
  note b = count_bound(3,4) [OF inv fire(2) assms(2), of ?rc]
  let ?P = "\<lambda>e. uint (rq_key (re_req e)) = WCMD_KEY_RECOVERY_APFPV
              \<and> rq_seq (re_req e) = rq_seq r \<and> now - re_time e \<le> rv_window_us ?rc"
  have "?P e" if "e \<in> set hist" "arms (rq_seq r) (rv_arm_first_us ?rv1) e" for e
    using that b assms(2) u64_diff_mono(1) [of "rv_arm_first_us ?rv1" "re_time e" now]
    by (auto simp: arms_def)
  then have "length (filter (arms (rq_seq r) (rv_arm_first_us ?rv1)) hist) \<le> length (filter ?P hist)"
    by (induction hist) auto
  moreover have "rv_arm_hits ?rv1 \<le> 1 + int (length (filter (arms (rq_seq r) (rv_arm_first_us ?rv1)) hist))"
    using b2 by (auto split: if_splits)
  ultimately have "rv_need ?rc \<le> 1 + int (length (filter ?P hist))" using fire(4) by linarith
  moreover have "rv_cooldown_us ?rc \<le> now - re_time e" if "e \<in> set hist" "re_fired e" for e
  proof -
    have l: "rv_last_exec_us rv \<noteq> 0" "re_time e \<le> rv_last_exec_us rv" using inv that by (auto simp: recov_inv_def)
    then obtain f where f: "f \<in> set hist" "re_time f = rv_last_exec_us rv" "rv_last_exec_us rv \<noteq> 0" "re_time e \<le> rv_last_exec_us rv"
      using inv unfolding recov_inv_def by blast
    then have "rv_cooldown_us ?rc \<le> now - rv_last_exec_us rv" using fire(3) by (simp add: rv_resting_def not_less)
    then show ?thesis using f assms(2) u64_diff_mono(1) [of "re_time e" "rv_last_exec_us rv" now] by fastforce
  qed
  ultimately show ?thesis using fire(1,2) rv_fire_effect [OF fire(5)] by blast
qed simp_all

text \<open>A burst runs the hook exactly once.  Identical recovery frames, at least \<open>arm_count\<close> of them,
  all inside the arming window and the cooldown of the first, arriving while the channel is neither
  resting nor counting, run the hook once however long the burst is.\<close>

theorem recovery_burst_once:
  assumes "rec_enabled (cfg_recovery c)" "uint (rq_key r) = WCMD_KEY_RECOVERY_APFPV" "rv_arm_hits rv = 0"
    and "sorted (t # ts)" "rv_need (cfg_recovery c) \<le> 1 + int (length ts)" "0 < t"
    and "\<forall>u \<in> set ts. u - t \<le> rv_window_us (cfg_recovery c) \<and> u - t < rv_cooldown_us (cfg_recovery c)"
    and "\<forall>u \<in> set (t # ts). \<not> rv_resting (cfg_recovery c) u rv"
    and "recovery_burst env c r (t # ts) rv s = (rv', s')"
  shows "io_trace s' = io_trace s @ hook_events c \<and> rv_armed rv' = rv_armed rv + 1"
proof -
  let ?rc = "cfg_recovery c"
  let ?rv1 = "(rv_seen t rv)\<lparr>rv_arm_seq := rq_seq r, rv_arm_hits := 1, rv_arm_first_us := t\<rparr>"
  have c1: "rv_count ?rc (rq_seq r) t (rv_seen t rv) = ?rv1" using assms(3) by (simp add: rv_count_def)
  have e: "recovery_dispatch env c r t rv s =
     (if 1 < rv_need ?rc then ((resp_init r)\<lparr>rs_status := WCMD_STATUS_OK\<rparr>, ?rv1, s) else rv_fire env c r t ?rv1 s)"
  proof -
    have "rv_resting ?rc t (rv_seen t rv) = False" using assms(8) by simp
    then show ?thesis using c1 assms(1,2)
      by (simp add: recovery_dispatch_def rv_seen_def [symmetric] Let_def)
  qed
  show ?thesis
  proof (cases "1 < rv_need ?rc")
    case True
    then have "recovery_burst env c r ts ?rv1 s = (rv', s')" using assms(9) e by simp
    from burst_counting [OF assms(1,2) this, where ?t0.0 = t] True assms(4-8) show ?thesis
      by (force simp: rv_resting_def)
  next
    case False
    obtain resp rv2 s2 where f: "rv_fire env c r t ?rv1 s = (resp, rv2, s2)" by (metis prod_cases3)
    note f1 = rv_fire_effect [OF f]
    have "recovery_burst env c r ts rv2 s2 = (rv', s')" using assms(9) e f False by simp
    moreover have "\<forall>u \<in> set ts. rv_resting ?rc u rv2" using assms(6,7) f1(4) by (auto simp: rv_resting_def)
    ultimately show ?thesis using burst_resting f1 by fastforce
  qed
qed

text \<open>The open channel and the keyed channel do not meet.  A datagram that has any effect through the
  recovery socket has none through the command proxy: there it is refused, and neither the outside
  world nor the configuration, the sync marker or the logger change.\<close>

theorem recovery_isolated:
  assumes "recovery_feed env c bs now rv s = (reply, rv', s')" "rv_armed rv' \<noteq> rv_armed rv \<or> io_trace s' \<noteq> io_trace s"
  shows "\<exists>r. wcmd_req_parse bs = Some r \<and>
           (let (rs, x1, s1) = wcmd_dispatch env up now peer r x s0
            in rs_status rs \<noteq> WCMD_STATUS_OK \<and> s1 = s0 \<and> wx_cfg x1 = wx_cfg x \<and> wx_sync x1 = wx_sync x
               \<and> wx_logger x1 = wx_logger x)"
proof -
  obtain r resp where p: "wcmd_req_parse bs = Some r" and d: "recovery_dispatch env c r now rv s = (resp, rv', s')"
    using assms by (auto simp: recovery_feed_def Let_def split: option.splits prod.splits)
  from d have k: "uint (rq_key r) = WCMD_KEY_RECOVERY_APFPV"
    using assms(2) by (cases rule: recovery_cases) auto
  obtain rs x1 s1 where w: "wcmd_dispatch env up now peer r x s0 = (rs, x1, s1)" by (metis prod_cases3)
  obtain st count where "st \<noteq> WCMD_STATUS_OK"
      "wcmd_dispatch env up now peer r x s0 = wcmd_refuse r st count (wcmd_x1 r now x) s0"
    using k by (cases rule: wcmd_dispatch_cases [of "uint (rq_key r)" r env up now peer x s0, OF refl])
      (auto simp: wcmd_admitted_def WCMD_NUM_KEYS_def proto_consts)
  with w refuse_effects [of r st count "wcmd_x1 r now x" s0 rs x1 s1] have
    "rs_status rs \<noteq> WCMD_STATUS_OK \<and> s1 = s0 \<and> wx_cfg x1 = wx_cfg x \<and> wx_sync x1 = wx_sync x \<and> wx_logger x1 = wx_logger x"
    by (simp add: wcmd_x1_def)
  with p w show ?thesis by simp
qed

section \<open>Witnesses\<close>

definition demo_recovery :: lc_config where
  "demo_recovery = config_defaults\<lparr>cfg_recovery := recovery_defaults\<lparr>rec_arm_count := 3\<rparr>\<rparr>"

lemma demo_recovery_fields [simp]:
  "rec_enabled (cfg_recovery demo_recovery)" "rv_need (cfg_recovery demo_recovery) = 3"
  "rv_window_us (cfg_recovery demo_recovery) = 2000000" "rv_cooldown_us (cfg_recovery demo_recovery) = 10000000"
  "hook_events demo_recovery = [EvExec [''sh'', ''-c'', ''/etc/wfb/recovery-apfpv.sh'']]"
  by (simp_all add: demo_recovery_def recovery_defaults_def rv_need_def rv_window_us_def rv_cooldown_us_def
      pos_or_def hook_events_def config_defaults_def)

lemma demo_key64: "uint (rq_key (demo_req 64 0)) = WCMD_KEY_RECOVERY_APFPV"
  by (simp add: demo_req_def proto_consts)

theorem recovery_burst_once_witness:
  "\<exists>rv' s'. recovery_burst demo_env demo_recovery (demo_req 64 0) [1000, 2000, 3000, 4000, 5000] recov_init demo_io = (rv', s')
     \<and> io_trace s' = [EvExec [''sh'', ''-c'', ''/etc/wfb/recovery-apfpv.sh'']]"
proof -
  obtain rv' s' where b: "recovery_burst demo_env demo_recovery (demo_req 64 0) [1000, 2000, 3000, 4000, 5000] recov_init demo_io = (rv', s')"
    by (metis prod.collapse)
  have "io_trace s' = io_trace demo_io @ hook_events demo_recovery \<and> rv_armed rv' = rv_armed recov_init + 1"
    by (rule recovery_burst_once [OF _ demo_key64 _ _ _ _ _ _ b])
      (simp_all add: recov_init_def rv_resting_def)
  with b show ?thesis by (simp add: demo_io_def)
qed

theorem recovery_hook_guarded_witness:
  "\<exists>resp rv' s'. recovery_dispatch demo_env demo_recovery (demo_req 64 0) 1000 recov_init demo_io = (resp, rv', s')
     \<and> io_trace s' = []"
proof -
  obtain resp rv' s' where d: "recovery_dispatch demo_env demo_recovery (demo_req 64 0) 1000 recov_init demo_io = (resp, rv', s')"
    by (metis prod_cases3)
  have "io_trace s' = io_trace demo_io"
    using recovery_hook_guarded [OF recovery_reach.init _ _ d] by simp
  with d show ?thesis by (simp add: demo_io_def)
qed

theorem recovery_isolated_witness:
  "\<exists>bs reply rv' s'. recovery_feed demo_env config_defaults bs 1000 recov_init demo_io = (reply, rv', s')
     \<and> rv_armed rv' = 1
     \<and> (\<exists>r. wcmd_req_parse bs = Some r \<and> (let (rs, x1, s1) = wcmd_dispatch demo_env 0 1000 INADDR_LOOPBACK r demo_ctx demo_io
            in rs_status rs \<noteq> WCMD_STATUS_OK \<and> s1 = demo_io))"
proof -
  let ?bs = "wcmd_req_bytes (demo_req 64 0)"
  have p: "wcmd_req_parse ?bs = Some (demo_req 64 0)"
    using wcmd_codec.dec_enc [of "demo_req 64 0" "[]"] by (simp add: demo_req_def)
  obtain resp rv' s' where d: "recovery_dispatch demo_env config_defaults (demo_req 64 0) 1000 recov_init demo_io = (resp, rv', s')"
    by (metis prod_cases3)
  then have a: "rv_armed rv' = 1"
    by (auto simp: recovery_dispatch_def rv_resting_def recov_init_def demo_req_def proto_consts config_defaults_def
        recovery_defaults_def rv_need_def pos_or_def rv_count_def Let_def dest!: rv_fire_effect(2))
  have f: "recovery_feed demo_env config_defaults ?bs 1000 recov_init demo_io = (Some resp, rv', s')"
    using d p by (simp add: recovery_feed_def)
  have "rv_armed rv' \<noteq> rv_armed recov_init \<or> io_trace s' \<noteq> io_trace demo_io" using a by (simp add: recov_init_def)
  from recovery_isolated [OF f this, of 0 INADDR_LOOPBACK demo_ctx demo_io] a f show ?thesis
    by (fastforce split: prod.splits)
qed

end
