(* ===== verification/Tunables.thy ===== *)
theory Tunables
  imports LinkConfig
begin

text \<open>
  The tunable registry of \<open>vehicle/link_controller.c\<close>: the table \<open>TUNABLES\<close>, the strict parsers,
  \<open>tunable_read\<close>, \<open>tunable_write\<close> and \<open>tunable_find\<close>, with the laws of its cells: a row reads back
  what is written to it, and no other row sees the write.  The byte offset of a row is a getter and a record update on the configuration.  A \<open>double\<close> is the
  rational it denotes; the decimal bounds of the table are rounded to \<open>double\<close>.  The help texts are
  left out.
\<close>

section \<open>The table\<close>

datatype subsys = SUB_COMMON | SUB_FEC | SUB_MCS

datatype tunable_field =
    TF_INT "lc_config \<Rightarrow> int" "(int \<Rightarrow> int) \<Rightarrow> lc_config \<Rightarrow> lc_config"
  | TF_LONG "lc_config \<Rightarrow> int" "(int \<Rightarrow> int) \<Rightarrow> lc_config \<Rightarrow> lc_config"
  | TF_FLOAT "lc_config \<Rightarrow> rat" "(rat \<Rightarrow> rat) \<Rightarrow> lc_config \<Rightarrow> lc_config"
  | TF_BOOL "lc_config \<Rightarrow> bool" "(bool \<Rightarrow> bool) \<Rightarrow> lc_config \<Rightarrow> lc_config"

record tunable_desc =
  td_name :: string
  td_subsys :: subsys
  td_field :: tunable_field
  td_lo :: rat
  td_hi :: rat
  td_pub :: bool

definition row :: "string \<Rightarrow> subsys \<Rightarrow> tunable_field \<Rightarrow> rat \<Rightarrow> rat \<Rightarrow> bool \<Rightarrow> tunable_desc" where
  "row name sub field lo hi p = \<lparr> td_name = name, td_subsys = sub, td_field = field, td_lo = lo,
     td_hi = hi, td_pub = p \<rparr>"

definition in_fec :: "(fec_cfg \<Rightarrow> 'a) \<Rightarrow> lc_config \<Rightarrow> 'a" where
  "in_fec g c = g (cfg_fec c)"

definition on_fec :: "('h \<Rightarrow> fec_cfg \<Rightarrow> fec_cfg) \<Rightarrow> 'h \<Rightarrow> lc_config \<Rightarrow> lc_config" where
  "on_fec u h = cfg_fec_update (u h)"

definition in_mcs :: "(mcs_cfg \<Rightarrow> 'a) \<Rightarrow> lc_config \<Rightarrow> 'a" where
  "in_mcs g c = g (cfg_mcs c)"

definition on_mcs :: "('h \<Rightarrow> mcs_cfg \<Rightarrow> mcs_cfg) \<Rightarrow> 'h \<Rightarrow> lc_config \<Rightarrow> lc_config" where
  "on_mcs u h = cfg_mcs_update (u h)"

definition in_cmd :: "(cmd_cfg \<Rightarrow> 'a) \<Rightarrow> lc_config \<Rightarrow> 'a" where
  "in_cmd g c = g (cfg_cmd c)"

definition on_cmd :: "('h \<Rightarrow> cmd_cfg \<Rightarrow> cmd_cfg) \<Rightarrow> 'h \<Rightarrow> lc_config \<Rightarrow> lc_config" where
  "on_cmd u h = cfg_cmd_update (u h)"

text \<open>The aggregator is an \<open>int\<close> field holding an enumerator.\<close>

definition agg_index :: "rssi_agg \<Rightarrow> int" where
  "agg_index a = (case a of AGG_BEST_AVG \<Rightarrow> 0 | AGG_BEST_MAX \<Rightarrow> 1 | AGG_MEAN_AVG \<Rightarrow> 2)"

definition agg_of :: "int \<Rightarrow> rssi_agg" where
  "agg_of v = (if v = 0 then AGG_BEST_AVG else if v = 1 then AGG_BEST_MAX else AGG_MEAN_AVG)"

definition COMMON_TUNABLES :: "tunable_desc list" where
  "COMMON_TUNABLES = [
    row ''common.api_port'' SUB_COMMON (TF_INT cfg_api_port cfg_api_port_update) 0 65535 False,
    row ''common.dry_run'' SUB_COMMON (TF_BOOL cfg_dry_run cfg_dry_run_update) 0 0 False,
    row ''common.verbose'' SUB_COMMON (TF_INT cfg_verbose cfg_verbose_update) 0 4 False]"

definition FEC_TUNABLES :: "tunable_desc list" where
  "FEC_TUNABLES = [
    row ''fec.enabled'' SUB_FEC (TF_BOOL (in_fec fec_on) (on_fec fec_on_update)) 0 0 True,
    row ''fec.mtu'' SUB_FEC (TF_INT (in_fec fec_mtu) (on_fec fec_mtu_update)) 100 65000 False,
    row ''fec.min_k'' SUB_FEC (TF_INT (in_fec fec_min_k) (on_fec fec_min_k_update)) 1 256 False,
    row ''fec.max_k'' SUB_FEC (TF_INT (in_fec fec_max_k) (on_fec fec_max_k_update)) 1 256 False,
    row ''fec.min_n'' SUB_FEC (TF_INT (in_fec fec_min_n) (on_fec fec_min_n_update)) 1 256 False,
    row ''fec.max_n'' SUB_FEC (TF_INT (in_fec fec_max_n) (on_fec fec_max_n_update)) 1 256 False,
    row ''fec.ewma_alpha'' SUB_FEC (TF_FLOAT (in_fec fec_ewma_alpha) (on_fec fec_ewma_alpha_update)) (fl64 (1/1000)) 1 False,
    row ''fec.headroom_min'' SUB_FEC (TF_FLOAT (in_fec fec_headroom_min) (on_fec fec_headroom_min_update)) 1 4 False,
    row ''fec.headroom_max'' SUB_FEC (TF_FLOAT (in_fec fec_headroom_max) (on_fec fec_headroom_max_update)) 1 4 False,
    row ''fec.headroom_margin'' SUB_FEC (TF_FLOAT (in_fec fec_headroom_margin) (on_fec fec_headroom_margin_update)) 1 4 False,
    row ''fec.headroom_window_s'' SUB_FEC (TF_FLOAT (in_fec fec_headroom_window_s) (on_fec fec_headroom_window_s_update)) (fl64 (1/10)) 60 False,
    row ''fec.ppf_deadband_frac'' SUB_FEC (TF_FLOAT (in_fec fec_ppf_deadband_frac) (on_fec fec_ppf_deadband_frac_update)) 0 1 False,
    row ''fec.k_hyst_up'' SUB_FEC (TF_INT (in_fec fec_k_hyst_up) (on_fec fec_k_hyst_up_update)) 1 64 False,
    row ''fec.cooldown_up_s'' SUB_FEC (TF_FLOAT (in_fec fec_cooldown_up_s) (on_fec fec_cooldown_up_s_update)) 0 60 False,
    row ''fec.k_down_dwell_s'' SUB_FEC (TF_FLOAT (in_fec fec_k_down_dwell_s) (on_fec fec_k_down_dwell_s_update)) 0 600 False,
    row ''fec.k_up_dwell_s'' SUB_FEC (TF_FLOAT (in_fec fec_k_up_dwell_s) (on_fec fec_k_up_dwell_s_update)) 0 600 False,
    row ''fec.startup_grace_s'' SUB_FEC (TF_FLOAT (in_fec fec_startup_grace_s) (on_fec fec_startup_grace_s_update)) 0 60 False,
    row ''fec.safety_margin'' SUB_FEC (TF_FLOAT (in_fec fec_safety_margin) (on_fec fec_safety_margin_update)) (fl64 (1/20)) 1 True,
    row ''fec.bitrate_min_kbps'' SUB_FEC (TF_LONG (in_fec fec_bitrate_min_kbps) (on_fec fec_bitrate_min_kbps_update)) 100 200000 True,
    row ''fec.bitrate_max_kbps'' SUB_FEC (TF_LONG (in_fec fec_bitrate_max_kbps) (on_fec fec_bitrate_max_kbps_update)) 0 200000 True,
    row ''fec.bitrate_tolerance'' SUB_FEC (TF_FLOAT (in_fec fec_bitrate_tolerance) (on_fec fec_bitrate_tolerance_update)) 0 1 False,
    row ''fec.bitrate_grace_s'' SUB_FEC (TF_FLOAT (in_fec fec_bitrate_grace_s) (on_fec fec_bitrate_grace_s_update)) 0 60 False,
    row ''fec.mcs_settle_s'' SUB_FEC (TF_FLOAT (in_fec fec_mcs_settle_s) (on_fec fec_mcs_settle_s_update)) 0 60 False,
    row ''fec.bitrate_lead_s'' SUB_FEC (TF_FLOAT (in_fec fec_bitrate_lead_s) (on_fec fec_bitrate_lead_s_update)) 0 5 False,
    row ''fec.mcs_up_grace_s'' SUB_FEC (TF_FLOAT (in_fec fec_mcs_up_grace_s) (on_fec fec_mcs_up_grace_s_update)) 0 5 False,
    row ''fec.payload_max'' SUB_FEC (TF_INT (in_fec fec_payload_max) (on_fec fec_payload_max_update)) 0 4000 True,
    row ''fec.payload_min'' SUB_FEC (TF_INT (in_fec fec_payload_min) (on_fec fec_payload_min_update)) 576 4000 True,
    row ''fec.airtime_max_pct'' SUB_FEC (TF_INT (in_fec fec_airtime_max_pct) (on_fec fec_airtime_max_pct_update)) 0 100 True,
    row ''fec.airtime_preamble_us'' SUB_FEC (TF_INT (in_fec fec_airtime_preamble_us) (on_fec fec_airtime_preamble_us_update)) 0 200 False,
    row ''fec.skip_on_backpressure'' SUB_FEC (TF_BOOL (in_fec fec_skip_on_backpressure) (on_fec fec_skip_on_backpressure_update)) 0 0 False,
    row ''fec.backpressure_fill_pct'' SUB_FEC (TF_INT (in_fec fec_backpressure_fill_pct) (on_fec fec_backpressure_fill_pct_update)) 0 100 False,
    row ''fec.desync_probe'' SUB_FEC (TF_BOOL (in_fec fec_desync_probe) (on_fec fec_desync_probe_update)) 0 0 False,
    row ''fec.blocksize_feedforward'' SUB_FEC (TF_BOOL (in_fec fec_blocksize_feedforward) (on_fec fec_blocksize_feedforward_update)) 0 0 False,
    row ''fec.ff_cooldown_s'' SUB_FEC (TF_FLOAT (in_fec fec_ff_cooldown_s) (on_fec fec_ff_cooldown_s_update)) 0 10 False,
    row ''fec.backpressure_recover_s'' SUB_FEC (TF_FLOAT (in_fec fec_backpressure_recover_s) (on_fec fec_backpressure_recover_s_update)) 0 30 False]"

definition MCS_TUNABLES :: "tunable_desc list" where
  "MCS_TUNABLES = [
    row ''mcs.enabled'' SUB_MCS (TF_BOOL (in_mcs mcs_on) (on_mcs mcs_on_update)) 0 0 True,
    row ''mcs.rssi_ewma_alpha'' SUB_MCS (TF_FLOAT (in_mcs mcs_rssi_ewma_alpha) (on_mcs mcs_rssi_ewma_alpha_update)) (fl64 (1/1000)) 1 False,
    row ''mcs.loss_ewma_alpha'' SUB_MCS (TF_FLOAT (in_mcs mcs_loss_ewma_alpha) (on_mcs mcs_loss_ewma_alpha_update)) (fl64 (1/1000)) 1 False,
    row ''mcs.rssi_aggregator'' SUB_MCS (TF_INT (in_mcs (agg_index \<circ> mcs_rssi_aggregator)) (on_mcs (\<lambda>h. mcs_rssi_aggregator_update (agg_of \<circ> h \<circ> agg_index)))) 0 2 False,
    row ''mcs.down_cooldown_s'' SUB_MCS (TF_FLOAT (in_mcs mcs_down_cooldown_s) (on_mcs mcs_down_cooldown_s_update)) 0 60 False,
    row ''mcs.failsafe_timeout_s'' SUB_MCS (TF_FLOAT (in_mcs mcs_failsafe_timeout_s) (on_mcs mcs_failsafe_timeout_s_update)) (fl64 (1/20)) 30 True,
    row ''mcs.oscillation_window_s'' SUB_MCS (TF_FLOAT (in_mcs mcs_oscillation_window_s) (on_mcs mcs_oscillation_window_s_update)) (1/2) 60 False,
    row ''mcs.mcs_min'' SUB_MCS (TF_INT (in_mcs mcs_min) (on_mcs mcs_min_update)) 0 11 True,
    row ''mcs.mcs_max'' SUB_MCS (TF_INT (in_mcs mcs_max) (on_mcs mcs_max_update)) 0 11 True,
    row ''mcs.rssi_floor_dbm'' SUB_MCS (TF_FLOAT (in_mcs mcs_rssi_floor_dbm) (on_mcs mcs_rssi_floor_dbm_update)) (- 120) 0 True,
    row ''mcs.rssi_fade_db_per_s'' SUB_MCS (TF_FLOAT (in_mcs mcs_rssi_fade_db_per_s) (on_mcs mcs_rssi_fade_db_per_s_update)) 0 60 True,
    row ''mcs.rssi_fade_arm_dbm'' SUB_MCS (TF_FLOAT (in_mcs mcs_rssi_fade_arm_dbm) (on_mcs mcs_rssi_fade_arm_dbm_update)) (- 120) 0 True,
    row ''mcs.rssi_floor_hyst_db'' SUB_MCS (TF_FLOAT (in_mcs mcs_rssi_floor_hyst_db) (on_mcs mcs_rssi_floor_hyst_db_update)) 0 20 True,
    row ''mcs.pressure_demote_block'' SUB_MCS (TF_BOOL (in_mcs mcs_pressure_demote_block) (on_mcs mcs_pressure_demote_block_update)) 0 0 True,
    row ''mcs.pressure_escape_s'' SUB_MCS (TF_FLOAT (in_mcs mcs_pressure_escape_s) (on_mcs mcs_pressure_escape_s_update)) 0 30 True,
    row ''mcs.reentry_backoff_s'' SUB_MCS (TF_FLOAT (in_mcs mcs_reentry_backoff_s) (on_mcs mcs_reentry_backoff_s_update)) 0 120 False,
    row ''mcs.reentry_dwell_s'' SUB_MCS (TF_FLOAT (in_mcs mcs_reentry_dwell_s) (on_mcs mcs_reentry_dwell_s_update)) 0 30 False,
    row ''mcs.flap_freeze_count'' SUB_MCS (TF_INT (in_mcs mcs_flap_freeze_count) (on_mcs mcs_flap_freeze_count_update)) 0 50 True,
    row ''mcs.flap_freeze_window_s'' SUB_MCS (TF_FLOAT (in_mcs mcs_flap_freeze_window_s) (on_mcs mcs_flap_freeze_window_s_update)) (1/2) 30 True,
    row ''mcs.flap_freeze_s'' SUB_MCS (TF_FLOAT (in_mcs mcs_flap_freeze_s) (on_mcs mcs_flap_freeze_s_update)) 0 120 True,
    row ''mcs.probe_clean_milli'' SUB_MCS (TF_INT (in_mcs mcs_probe_clean_milli) (on_mcs mcs_probe_clean_milli_update)) 0 1000 False,
    row ''mcs.probe_fail_milli'' SUB_MCS (TF_INT (in_mcs mcs_probe_fail_milli) (on_mcs mcs_probe_fail_milli_update)) 0 1000 False,
    row ''mcs.demote_per_milli'' SUB_MCS (TF_INT (in_mcs mcs_demote_per_milli) (on_mcs mcs_demote_per_milli_update)) 0 1000 False,
    row ''mcs.promote_dwell_s'' SUB_MCS (TF_FLOAT (in_mcs mcs_promote_dwell_s) (on_mcs mcs_promote_dwell_s_update)) 0 60 False,
    row ''mcs.probe_window_s'' SUB_MCS (TF_FLOAT (in_mcs mcs_probe_window_s) (on_mcs mcs_probe_window_s_update)) (fl64 (1/20)) 10 False,
    row ''mcs.probe_stale_age_s'' SUB_MCS (TF_FLOAT (in_mcs mcs_probe_stale_age_s) (on_mcs mcs_probe_stale_age_s_update)) (fl64 (1/10)) 30 False,
    row ''mcs.probe_feed_pps'' SUB_MCS (TF_INT (in_mcs mcs_probe_feed_pps) (on_mcs mcs_probe_feed_pps_update)) 1 200 False,
    row ''mcs.probe_feed_bytes'' SUB_MCS (TF_INT (in_mcs mcs_probe_feed_bytes) (on_mcs mcs_probe_feed_bytes_update)) 64 1472 False]"

definition CMD_TUNABLES :: "tunable_desc list" where
  "CMD_TUNABLES = [
    row ''cmd.enabled'' SUB_COMMON (TF_BOOL (in_cmd cmd_on) (on_cmd cmd_on_update)) 0 0 False,
    row ''cmd.loopback_only'' SUB_COMMON (TF_BOOL (in_cmd cmd_loopback_only) (on_cmd cmd_loopback_only_update)) 0 0 False,
    row ''cmd.rate_limit_ms'' SUB_COMMON (TF_INT (in_cmd cmd_rate_limit_ms) (on_cmd cmd_rate_limit_ms_update)) 0 60000 False,
    row ''cmd.allow_keys_mask'' SUB_COMMON (TF_INT (in_cmd cmd_allow_keys_mask) (on_cmd cmd_allow_keys_mask_update)) 0 0xFFFFF False,
    row ''cmd.bitrate_min_kbps'' SUB_COMMON (TF_INT (in_cmd cmd_bitrate_min_kbps) (on_cmd cmd_bitrate_min_kbps_update)) 1 200000 False,
    row ''cmd.bitrate_max_kbps'' SUB_COMMON (TF_INT (in_cmd cmd_bitrate_max_kbps) (on_cmd cmd_bitrate_max_kbps_update)) 1 200000 False,
    row ''cmd.fps_min'' SUB_COMMON (TF_INT (in_cmd cmd_fps_min) (on_cmd cmd_fps_min_update)) 1 240 False,
    row ''cmd.fps_max'' SUB_COMMON (TF_INT (in_cmd cmd_fps_max) (on_cmd cmd_fps_max_update)) 1 240 False,
    row ''cmd.payload_min'' SUB_COMMON (TF_INT (in_cmd cmd_payload_min) (on_cmd cmd_payload_min_update)) 256 4000 False,
    row ''cmd.payload_max'' SUB_COMMON (TF_INT (in_cmd cmd_payload_max) (on_cmd cmd_payload_max_update)) 256 4000 False,
    row ''cmd.wfb_fec_k_min'' SUB_COMMON (TF_INT (in_cmd cmd_wfb_fec_k_min) (on_cmd cmd_wfb_fec_k_min_update)) 1 256 False,
    row ''cmd.wfb_fec_k_max'' SUB_COMMON (TF_INT (in_cmd cmd_wfb_fec_k_max) (on_cmd cmd_wfb_fec_k_max_update)) 1 256 False,
    row ''cmd.wfb_fec_n_min'' SUB_COMMON (TF_INT (in_cmd cmd_wfb_fec_n_min) (on_cmd cmd_wfb_fec_n_min_update)) 1 256 False,
    row ''cmd.wfb_fec_n_max'' SUB_COMMON (TF_INT (in_cmd cmd_wfb_fec_n_max) (on_cmd cmd_wfb_fec_n_max_update)) 1 256 False,
    row ''cmd.wfb_mcs_min'' SUB_COMMON (TF_INT (in_cmd cmd_wfb_mcs_min) (on_cmd cmd_wfb_mcs_min_update)) 0 31 False,
    row ''cmd.wfb_mcs_max'' SUB_COMMON (TF_INT (in_cmd cmd_wfb_mcs_max) (on_cmd cmd_wfb_mcs_max_update)) 0 31 False,
    row ''cmd.wfb_bandwidth_min'' SUB_COMMON (TF_INT (in_cmd cmd_wfb_bandwidth_min) (on_cmd cmd_wfb_bandwidth_min_update)) 5 80 False,
    row ''cmd.wfb_bandwidth_max'' SUB_COMMON (TF_INT (in_cmd cmd_wfb_bandwidth_max) (on_cmd cmd_wfb_bandwidth_max_update)) 5 80 False,
    row ''cmd.wfb_txpower_min'' SUB_COMMON (TF_INT (in_cmd cmd_wfb_txpower_min) (on_cmd cmd_wfb_txpower_min_update)) 1 4000 False,
    row ''cmd.wfb_txpower_max'' SUB_COMMON (TF_INT (in_cmd cmd_wfb_txpower_max) (on_cmd cmd_wfb_txpower_max_update)) 1 4000 False,
    row ''cmd.tx_pwr_by_rate'' SUB_COMMON (TF_BOOL (in_cmd cmd_tx_pwr_by_rate) (on_cmd cmd_tx_pwr_by_rate_update)) 0 0 False]"

definition TUNABLES :: "tunable_desc list" where
  "TUNABLES = COMMON_TUNABLES @ FEC_TUNABLES @ MCS_TUNABLES @ CMD_TUNABLES"

definition tunable_find :: "string \<Rightarrow> tunable_desc option" where
  "tunable_find name = find (\<lambda>t. td_name t = name) TUNABLES"

definition tunable_read :: "tunable_desc \<Rightarrow> lc_config \<Rightarrow> rat" where
  "tunable_read t c =
     (case td_field t of
        TF_INT g u \<Rightarrow> of_int (g c)
      | TF_LONG g u \<Rightarrow> fl64 (of_int (g c))
      | TF_FLOAT g u \<Rightarrow> g c
      | TF_BOOL g u \<Rightarrow> (if g c then 1 else 0))"

section \<open>Strict parsers\<close>

text \<open>
  \<open>strtod\<close>: a finite value, or an infinity or NaN (spelled out, or a value too large for \<open>double\<close>),
  with the rest of the string; \<open>None\<close> when nothing was converted.  The locale is \<open>C\<close>.
\<close>

datatype dval = Finite rat | NonFinite

definition to_lower :: "char \<Rightarrow> char" where
  "to_lower c = (let n = (of_char c :: nat) in if 65 \<le> n \<and> n \<le> 90 then char_of (n + 32) else c)"

definition hex_digit :: "char \<Rightarrow> nat option" where
  "hex_digit c = (let n = (of_char (to_lower c) :: nat) in
     if 48 \<le> n \<and> n \<le> 57 then Some (n - 48) else if 97 \<le> n \<and> n \<le> 102 then Some (n - 87) else None)"

definition is_hex :: "char \<Rightarrow> bool" where
  "is_hex c = (hex_digit c \<noteq> None)"

definition starts_ci :: "string \<Rightarrow> string \<Rightarrow> bool" where
  "starts_ci pat s = (map to_lower (take (length pat) s) = pat)"

definition base_val :: "nat \<Rightarrow> string \<Rightarrow> nat" where
  "base_val b ds = foldl (\<lambda>a c. b * a + (case hex_digit c of Some d \<Rightarrow> d | None \<Rightarrow> 0)) 0 ds"

text \<open>The exponent part: the marker, an optional sign and at least one digit, or nothing is consumed.\<close>

definition exp_part :: "char \<Rightarrow> string \<Rightarrow> int \<times> string" where
  "exp_part marker s =
     (if s \<noteq> [] \<and> to_lower (hd s) = marker
      then let t = tl s;
               neg = (t \<noteq> [] \<and> hd t = CHR ''-'');
               u = (if t \<noteq> [] \<and> (hd t = CHR ''-'' \<or> hd t = CHR ''+'') then tl t else t);
               ds = takeWhile c_isdigit u
           in if ds = [] then (0, s)
              else (if neg then - int (digits_val ds) else int (digits_val ds), dropWhile c_isdigit u)
      else (0, s))"

text \<open>Digits, an optional point and digits; \<open>None\<close> without any digit.  Base \<open>b\<close>, exponent base \<open>eb\<close>.\<close>

definition mantissa :: "nat \<Rightarrow> (char \<Rightarrow> bool) \<Rightarrow> rat \<Rightarrow> char \<Rightarrow> string \<Rightarrow> (rat \<times> string) option" where
  "mantissa b isd eb marker s =
     (let ip = takeWhile isd s; r = dropWhile isd s;
          fp = (if r \<noteq> [] \<and> hd r = CHR ''.'' then takeWhile isd (tl r) else []);
          r2 = (if r \<noteq> [] \<and> hd r = CHR ''.'' \<and> \<not> (ip = [] \<and> fp = []) then dropWhile isd (tl r) else r);
          (e, r3) = exp_part marker r2
      in if ip = [] \<and> fp = [] then None
         else Some (of_nat (base_val b (ip @ fp)) / of_nat (b ^ length fp) * (eb powi e), r3))"

definition strtod :: "string \<Rightarrow> (dval \<times> string) option" where
  "strtod s =
     (let t = dropWhile c_isspace s;
          neg = (t \<noteq> [] \<and> hd t = CHR ''-'');
          u = (if t \<noteq> [] \<and> (hd t = CHR ''-'' \<or> hd t = CHR ''+'') then tl t else t);
          fin = (\<lambda>(x, r). (let v = fl64 (if neg then - x else x) in
                   (if \<bar>v\<bar> \<ge> 2 ^ 1024 then NonFinite else Finite v, r))) in
      if starts_ci ''infinity'' u then Some (NonFinite, drop 8 u)
      else if starts_ci ''inf'' u then Some (NonFinite, drop 3 u)
      else if starts_ci ''nan'' u
      then (let r = drop 3 u; body = dropWhile (\<lambda>c. c \<noteq> CHR '')'') r in
            Some (NonFinite, if r \<noteq> [] \<and> hd r = CHR ''('' \<and> body \<noteq> []
                    \<and> list_all (\<lambda>c. c_isdigit c \<or> is_hex c \<or> c = CHR ''_''
                         \<or> (97 \<le> (of_char (to_lower c) :: nat) \<and> (of_char (to_lower c) :: nat) \<le> 122))
                        (takeWhile (\<lambda>c. c \<noteq> CHR '')'') (tl r)) then tl body else r))
      else case (if starts_ci ''0x'' u then mantissa 16 is_hex 2 CHR ''p'' (drop 2 u) else None) of
             Some (x, r) \<Rightarrow> Some (fin (x, r))
           | None \<Rightarrow> map_option fin (mantissa 10 c_isdigit 10 CHR ''e'' u))"

definition only_blanks :: "string \<Rightarrow> bool" where
  "only_blanks = list_all (\<lambda>c. c \<in> {CHR 0x20, CHR 0x09, CHR 0x0D, CHR 0x0A})"

definition parse_strict_double :: "string \<Rightarrow> rat option" where
  "parse_strict_double s =
     (if s = [] then None
      else case strtod s of
        None \<Rightarrow> None
      | Some (v, r) \<Rightarrow> (if \<not> only_blanks r then None else case v of Finite x \<Rightarrow> Some x | NonFinite \<Rightarrow> None))"

definition parse_strict_long :: "string \<Rightarrow> int option" where
  "parse_strict_long s =
     (if s = [] then None
      else case strtol s of None \<Rightarrow> None | Some (v, r) \<Rightarrow> (if only_blanks r then Some v else None))"

definition parse_strict_bool :: "string \<Rightarrow> bool option" where
  "parse_strict_bool s =
     (let w = map to_lower s in
      if w \<in> {''1'', ''true'', ''yes'', ''on''} then Some True
      else if w \<in> {''0'', ''false'', ''no'', ''off''} then Some False
      else None)"

definition outside :: "tunable_desc \<Rightarrow> rat \<Rightarrow> bool" where
  "outside t v = (td_lo t \<noteq> td_hi t \<and> (v < td_lo t \<or> v > td_hi t))"

text \<open>\<open>None\<close> is the result -1, with the configuration untouched.\<close>

definition tunable_write :: "tunable_desc \<Rightarrow> lc_config \<Rightarrow> string \<Rightarrow> lc_config option" where
  "tunable_write t c val =
     (case td_field t of
        TF_INT g u \<Rightarrow>
          (case parse_strict_long val of
             None \<Rightarrow> None
           | Some v \<Rightarrow> (if outside t (fl64 (of_int v)) then None
                       else if v < INT_MIN \<or> v > INT_MAX then None
                       else Some (u (\<lambda>_. v) c)))
      | TF_LONG g u \<Rightarrow>
          (case parse_strict_long val of
             None \<Rightarrow> None
           | Some v \<Rightarrow> (if outside t (fl64 (of_int v)) then None else Some (u (\<lambda>_. v) c)))
      | TF_FLOAT g u \<Rightarrow>
          (case parse_strict_double val of
             None \<Rightarrow> None
           | Some v \<Rightarrow> (if outside t v then None else Some (u (\<lambda>_. fl32 v) c)))
      | TF_BOOL g u \<Rightarrow> (case parse_strict_bool val of None \<Rightarrow> None | Some b \<Rightarrow> Some (u (\<lambda>_. b) c)))"

section \<open>Laws of the table\<close>

text \<open>A row as a typed cell: what it holds and what it becomes.\<close>

datatype tval = VI (vi: int) | VR (vr: rat) | VB (vb: bool)

fun field_get :: "tunable_field \<Rightarrow> lc_config \<Rightarrow> tval" where
  "field_get (TF_INT g u) c = VI (g c)"
| "field_get (TF_LONG g u) c = VI (g c)"
| "field_get (TF_FLOAT g u) c = VR (g c)"
| "field_get (TF_BOOL g u) c = VB (g c)"

fun field_put :: "tunable_field \<Rightarrow> tval \<Rightarrow> lc_config \<Rightarrow> lc_config" where
  "field_put (TF_INT g u) v c = u (\<lambda>_. vi v) c"
| "field_put (TF_LONG g u) v c = u (\<lambda>_. vi v) c"
| "field_put (TF_FLOAT g u) v c = u (\<lambda>_. vr v) c"
| "field_put (TF_BOOL g u) v c = u (\<lambda>_. vb v) c"

definition keeps :: "tunable_field \<Rightarrow> tunable_field \<Rightarrow> bool" where
  "keeps f f' = (\<forall>v c. field_get f' (field_put f v c) = field_get f' c)"

definition apart :: "tunable_desc \<Rightarrow> tunable_desc \<Rightarrow> bool" where
  "apart t u = (keeps (td_field t) (td_field u) \<and> keeps (td_field u) (td_field t))"

lemma row_fields [simp]:
  "td_name (row n s f lo hi p) = n" "td_field (row n s f lo hi p) = f" "td_lo (row n s f lo hi p) = lo"
  "td_hi (row n s f lo hi p) = hi"
  by (simp_all add: row_def)

lemma in_fec_on_fec [simp]: "in_fec g (on_fec u h c) = g (u h (cfg_fec c))"
  by (simp add: in_fec_def on_fec_def)

lemma in_fec_on_mcs [simp]: "in_fec g (on_mcs u h c) = in_fec g c"
  by (simp add: in_fec_def on_mcs_def)

lemma in_fec_on_cmd [simp]: "in_fec g (on_cmd u h c) = in_fec g c"
  by (simp add: in_fec_def on_cmd_def)

lemma in_mcs_on_fec [simp]: "in_mcs g (on_fec u h c) = in_mcs g c"
  by (simp add: in_mcs_def on_fec_def)

lemma in_mcs_on_mcs [simp]: "in_mcs g (on_mcs u h c) = g (u h (cfg_mcs c))"
  by (simp add: in_mcs_def on_mcs_def)

lemma in_mcs_on_cmd [simp]: "in_mcs g (on_cmd u h c) = in_mcs g c"
  by (simp add: in_mcs_def on_cmd_def)

lemma in_cmd_on_fec [simp]: "in_cmd g (on_fec u h c) = in_cmd g c"
  by (simp add: in_cmd_def on_fec_def)

lemma in_cmd_on_mcs [simp]: "in_cmd g (on_mcs u h c) = in_cmd g c"
  by (simp add: in_cmd_def on_mcs_def)

lemma in_cmd_on_cmd [simp]: "in_cmd g (on_cmd u h c) = g (u h (cfg_cmd c))"
  by (simp add: in_cmd_def on_cmd_def)


lemmas section_defs = apart_def keeps_def in_fec_def on_fec_def in_mcs_def on_mcs_def in_cmd_def on_cmd_def

lemma com_apart: "sorted_wrt apart COMMON_TUNABLES"
  by (simp add: COMMON_TUNABLES_def section_defs)

lemma cmd_apart: "sorted_wrt apart CMD_TUNABLES"
  by (simp add: CMD_TUNABLES_def section_defs)

lemma mcs_apart: "sorted_wrt apart MCS_TUNABLES"
  by (simp add: MCS_TUNABLES_def section_defs)

lemma fec_apart: "sorted_wrt apart FEC_TUNABLES"
  by (simp add: FEC_TUNABLES_def section_defs)

lemma table_apart: "sorted_wrt apart TUNABLES"
proof -
  have "\<forall>x \<in> set FEC_TUNABLES. \<forall>y \<in> set MCS_TUNABLES. apart x y"
    unfolding FEC_TUNABLES_def MCS_TUNABLES_def by (simp add: apart_def keeps_def)
  moreover have "\<forall>x \<in> set FEC_TUNABLES. \<forall>y \<in> set CMD_TUNABLES. apart x y"
    unfolding FEC_TUNABLES_def CMD_TUNABLES_def by (simp add: apart_def keeps_def)
  moreover have "\<forall>x \<in> set MCS_TUNABLES. \<forall>y \<in> set CMD_TUNABLES. apart x y"
    unfolding MCS_TUNABLES_def CMD_TUNABLES_def by (simp add: apart_def keeps_def)
  moreover have "\<forall>x \<in> set COMMON_TUNABLES. \<forall>y \<in> set (FEC_TUNABLES @ MCS_TUNABLES @ CMD_TUNABLES). apart x y"
    unfolding COMMON_TUNABLES_def FEC_TUNABLES_def MCS_TUNABLES_def CMD_TUNABLES_def by (simp add: section_defs)
  ultimately show ?thesis
    by (simp add: TUNABLES_def sorted_wrt_append com_apart fec_apart mcs_apart cmd_apart ball_Un)
qed

text \<open>A cell reads back what was stored, within the row's bounds, and the bounds of integer rows are
  integers that \<open>double\<close> holds.\<close>

definition small_int :: "rat \<Rightarrow> bool" where
  "small_int x = (x = of_int \<lfloor>x\<rfloor> \<and> \<bar>x\<bar> < 2 ^ 53)"

definition row_law :: "tunable_desc \<Rightarrow> bool" where
  "row_law t =
     (case td_field t of
        TF_INT g u \<Rightarrow> small_int (td_lo t) \<and> small_int (td_hi t) \<and> td_lo t < td_hi t
          \<and> (\<forall>k c. td_lo t \<le> of_int k \<and> of_int k \<le> td_hi t \<longrightarrow> g (u (\<lambda>_. k) c) = k)
      | TF_LONG g u \<Rightarrow> small_int (td_lo t) \<and> small_int (td_hi t) \<and> td_lo t < td_hi t
          \<and> (\<forall>k c. g (u (\<lambda>_. k) c) = k)
      | TF_FLOAT g u \<Rightarrow> td_lo t < td_hi t \<and> (\<forall>k c. g (u (\<lambda>_. k) c) = k)
      | TF_BOOL g u \<Rightarrow> (\<forall>k c. g (u (\<lambda>_. k) c) = k))"

lemma agg_round: "0 \<le> k \<Longrightarrow> k \<le> 2 \<Longrightarrow> agg_index (agg_of k) = k"
  by (auto simp: agg_index_def agg_of_def)

lemma small_int_num [simp]:
  "small_int 0" "small_int 1" "small_int (numeral n) = ((numeral n :: rat) < 2 ^ 53)"
  "small_int (- numeral n) = ((numeral n :: rat) < 2 ^ 53)" "small_int (- 1)"
  by (simp_all add: small_int_def)

lemma fl64_half: "x \<le> 1 / 2 \<Longrightarrow> 1 / 2 < y \<Longrightarrow> fl64 x < y"
proof -
  assume "x \<le> 1 / 2" "1 / 2 < y"
  moreover have "fl64 (1 / 2) = 1 / 2" by code_simp
  ultimately show ?thesis using f64.rnd_le_repr [of x "1 / 2"] by linarith
qed

lemma row_laws: "t \<in> set TUNABLES \<Longrightarrow> row_law t"
proof -
  have "list_all row_law TUNABLES"
    by (simp add: TUNABLES_def COMMON_TUNABLES_def FEC_TUNABLES_def MCS_TUNABLES_def CMD_TUNABLES_def row_law_def
        in_fec_def on_fec_def in_mcs_def on_mcs_def in_cmd_def on_cmd_def agg_round fl64_half)
  then show "t \<in> set TUNABLES \<Longrightarrow> row_law t" by (simp add: list_all_iff)
qed

text \<open>The comparison of a number with a row's bounds is not disturbed by the conversion to \<open>double\<close>.\<close>

lemma fl64_int_le: "small_int x \<Longrightarrow> fl64 (of_int k) \<le> x \<Longrightarrow> of_int k \<le> x"
proof (rule ccontr)
  assume x: "small_int x" "fl64 (of_int k) \<le> x" and "\<not> of_int k \<le> x"
  then obtain m where m: "x = of_int m" "\<bar>m\<bar> < 2 ^ 53" "m < k"
    unfolding small_int_def by (metis of_int_abs of_int_less_iff of_int_numeral of_int_power not_le)
  then have "fl64 (of_int (m + 1)) = of_int (m + 1)" by (intro f64.rnd_of_int) simp
  moreover have "fl64 (of_int (m + 1)) \<le> fl64 (of_int k)" using m(3) by (intro f64.rnd_mono) simp
  ultimately show False using x(2) m(1) by simp
qed

lemma fl64_int_ge: "small_int x \<Longrightarrow> x \<le> fl64 (of_int k) \<Longrightarrow> x \<le> of_int k"
proof -
  assume "small_int x" "x \<le> fl64 (of_int k)"
  then have "small_int (- x)" "fl64 (of_int (- k)) \<le> - x"
    by (auto simp: small_int_def) (metis floor_of_int of_int_minus minus_equation_iff)
  from fl64_int_le [OF this] show ?thesis by simp
qed

lemma fl64_small: "small_int x \<Longrightarrow> fl64 x = x"
  unfolding small_int_def
  by (metis (no_types, lifting) f64.rnd_of_int less_imp_le of_int_abs of_int_less_iff of_int_numeral of_int_power)

section \<open>Writing a row\<close>

text \<open>What a string means to a row: the value that would be stored, when it is well formed and in range.\<close>

definition row_value :: "tunable_desc \<Rightarrow> string \<Rightarrow> tval option" where
  "row_value t s =
     (case td_field t of
        TF_FLOAT g u \<Rightarrow> (case parse_strict_double s of
            Some v \<Rightarrow> (if td_lo t \<le> v \<and> v \<le> td_hi t then Some (VR (fl32 v)) else None) | None \<Rightarrow> None)
      | TF_BOOL g u \<Rightarrow> map_option VB (parse_strict_bool s)
      | _ \<Rightarrow> (case parse_strict_long s of
            Some v \<Rightarrow> (if td_lo t \<le> of_int v \<and> of_int v \<le> td_hi t
                       \<and> (case td_field t of TF_LONG g u \<Rightarrow> True | _ \<Rightarrow> INT_MIN \<le> v \<and> v \<le> INT_MAX)
                      then Some (VI v) else None)
          | None \<Rightarrow> None))"

lemma inside_int:
  assumes "row_law t" "case td_field t of TF_INT g u \<Rightarrow> True | TF_LONG g u \<Rightarrow> True | _ \<Rightarrow> False"
  shows "outside t (fl64 (of_int v)) \<longleftrightarrow> \<not> (td_lo t \<le> of_int v \<and> of_int v \<le> td_hi t)"
proof -
  have b: "small_int (td_lo t)" "small_int (td_hi t)" "td_lo t \<noteq> td_hi t"
    using assms by (auto simp: row_law_def split: tunable_field.splits)
  then have "td_lo t \<le> fl64 (of_int v) \<longleftrightarrow> td_lo t \<le> of_int v" "fl64 (of_int v) \<le> td_hi t \<longleftrightarrow> of_int v \<le> td_hi t"
    using fl64_int_ge [of "td_lo t" v] fl64_int_le [of "td_hi t" v] fl64_small [of "td_lo t"] fl64_small [of "td_hi t"]
      f64.rnd_mono [of "td_lo t" "of_int v"] f64.rnd_mono [of "of_int v" "td_hi t"] by auto
  with b show ?thesis by (auto simp: outside_def not_less)
qed

lemma tunable_write_value:
  assumes "t \<in> set TUNABLES"
  shows "tunable_write t c s = map_option (\<lambda>v. field_put (td_field t) v c) (row_value t s)"
    and "row_value t s = Some v \<Longrightarrow> field_get (td_field t) (field_put (td_field t) v c) = v"
proof -
  note law = row_laws [OF assms]
  show "tunable_write t c s = map_option (\<lambda>v. field_put (td_field t) v c) (row_value t s)"
    using inside_int [OF law] law
    by (cases "td_field t")
      (auto simp: tunable_write_def row_value_def row_law_def outside_def not_less split: option.splits if_splits)
  show "row_value t s = Some v \<Longrightarrow> field_get (td_field t) (field_put (td_field t) v c) = v"
    using law by (cases "td_field t") (auto simp: row_value_def row_law_def split: option.splits if_splits)
qed

text \<open>Distinct rows do not interfere.\<close>

lemma rows_apart:
  assumes "t \<in> set TUNABLES" "u \<in> set TUNABLES" "t \<noteq> u"
  shows "field_get (td_field u) (field_put (td_field t) v c) = field_get (td_field u) c"
proof -
  obtain i j where i: "i < length TUNABLES" "t = TUNABLES ! i" and j: "j < length TUNABLES" "u = TUNABLES ! j"
    using assms by (metis in_set_conv_nth)
  then consider "i < j" | "j < i" using assms(3) by (metis linorder_neqE_nat)
  then have "apart t u \<or> apart u t"
    by cases (use i j table_apart in \<open>auto simp: sorted_wrt_iff_nth_less\<close>)
  then show ?thesis by (auto simp: apart_def keeps_def)
qed

lemma tunable_find_row: "tunable_find n = Some t \<Longrightarrow> t \<in> set TUNABLES \<and> td_name t = n"
  by (auto simp: tunable_find_def find_Some_iff in_set_conv_nth)

end
