(* ===== verification/ControlApi.thy ===== *)
theory ControlApi
  imports Tunables WcmdProxy
begin

text \<open>
  The control surface of the link controller's HTTP server: the query loop \<open>apply_query\<close> of \<open>/set\<close>,
  the query scraper \<open>qparam_long\<close>, and \<open>api_handle_request\<close> with the effect of every route, as built
  without \<open>WFB_WITH_WFBNG\<close> (so \<open>/keys\<close> answers 501).  The JSON text of the replies and the event
  stream are not modelled: a reply says only which kind of answer is sent.
\<close>

section \<open>The query\<close>

datatype set_error = Unknown | NoValue | OutOfRange

text \<open>One \<open>key=value\<close> piece: the new configuration, or the reason it is refused.\<close>

definition apply_piece :: "lc_config \<Rightarrow> string \<Rightarrow> string option \<Rightarrow> lc_config + set_error" where
  "apply_piece c key val =
     (case tunable_find key of
        None \<Rightarrow> Inr Unknown
      | Some t \<Rightarrow>
          (case val of
             None \<Rightarrow> Inr NoValue
           | Some v \<Rightarrow> (if v = [] then Inr NoValue
                       else case tunable_write t c v of None \<Rightarrow> Inr OutOfRange | Some c' \<Rightarrow> Inl c')))"

type_synonym set_result = "lc_config \<times> string list \<times> (string \<times> set_error) list"

definition note_piece :: "nat \<Rightarrow> string \<Rightarrow> set_result \<Rightarrow> set_result" where
  "note_piece max_keys piece r =
     (let (c, applied, errors) = r;
          key = takeWhile (\<lambda>d. d \<noteq> CHR ''='') piece;
          val = (case dropWhile (\<lambda>d. d \<noteq> CHR ''='') piece of [] \<Rightarrow> None | e # v \<Rightarrow> Some v) in
      case apply_piece c key val of
        Inl c' \<Rightarrow> (c', if length applied < max_keys then applied @ [key] else applied, errors)
      | Inr e \<Rightarrow> (c, applied, if length errors < max_keys then errors @ [(key, e)] else errors))"

lemma tl_dropWhile_less: "q \<noteq> [] \<Longrightarrow> length (tl (dropWhile P q)) < length q"
proof -
  assume "q \<noteq> []"
  then have "0 < length q" by simp
  with length_dropWhile_le [of P q] show ?thesis unfolding length_tl by linarith
qed

function apply_loop :: "nat \<Rightarrow> string \<Rightarrow> set_result \<Rightarrow> set_result" where
  "apply_loop max_keys q r =
     (if q = [] then r
      else let piece = takeWhile (\<lambda>d. d \<noteq> CHR ''&'') q;
               rest = dropWhile (\<lambda>d. d \<noteq> CHR ''&'') q;
               r' = note_piece max_keys piece r
           in if rest = [] then r' else apply_loop max_keys (tl rest) r')"
  by pat_completeness auto
termination
  by (relation "measure (\<lambda>(m, q, r). length q)") (auto simp: tl_dropWhile_less simp del: length_tl)

declare apply_loop.simps [simp del]

definition apply_query :: "nat \<Rightarrow> string option \<Rightarrow> lc_config \<Rightarrow> set_result" where
  "apply_query max_keys q c = (case q of None \<Rightarrow> (c, [], []) | Some s \<Rightarrow> apply_loop max_keys s (c, [], []))"

section \<open>Requests\<close>

text \<open>\<open>prev\<close> is the character before the string, \<open>None\<close> at the start of the query.\<close>

function qparam_from :: "char option \<Rightarrow> string \<Rightarrow> string \<Rightarrow> int option" where
  "qparam_from prev qs name =
     (if name = [] then None
      else case strstr qs name of
        None \<Rightarrow> None
      | Some p \<Rightarrow>
          (let before = take (length qs - length p) qs;
               c = (if before = [] then prev else Some (last before));
               r = drop (length name) p in
           if (c = None \<or> c = Some CHR ''&'') \<and> r \<noteq> [] \<and> hd r = CHR ''=''
           then map_option fst (strtol (tl r))
           else qparam_from (Some (last name)) r name))"
  by pat_completeness auto
termination
proof (relation "measure (\<lambda>(c, qs, n). length qs)")
  show "wf (measure (\<lambda>(c :: char option, qs :: string, n :: string). length qs))" by simp
next
  fix prev qs name p before c r
  assume n: "name \<noteq> []" and p: "strstr qs name = Some p" and r: "(r :: string) = drop (length name) p"
  obtain u where u: "qs = u @ p" "take (length name) p = name" using strstr_Some_suffix [OF p] by blast
  then have "length (drop (length name) p) < length p" using n by (cases p) auto
  then show "((Some (last name), r, name), (prev, qs, name)) \<in> measure (\<lambda>(c, qs, n). length qs)"
    using u r by simp
qed

declare qparam_from.simps [simp del]

definition qparam_long :: "string option \<Rightarrow> string \<Rightarrow> int option" where
  "qparam_long qs name = (case qs of None \<Rightarrow> None | Some q \<Rightarrow> qparam_from None q name)"

datatype api_request = NotGet | Malformed | Route string "string option"

definition api_parse :: "string \<Rightarrow> api_request" where
  "api_parse buf =
     (if take 4 buf \<noteq> ''GET '' then NotGet
      else let rest = drop 4 buf in
        if CHR '' '' \<notin> set rest then Malformed
        else let p = takeWhile (\<lambda>c. c \<noteq> CHR '' '') rest in
          Route (takeWhile (\<lambda>c. c \<noteq> CHR ''?'') p)
                (case dropWhile (\<lambda>c. c \<noteq> CHR ''?'') p of [] \<Rightarrow> None | q # r \<Rightarrow> Some r))"

datatype api_reply = Text int | Json | Stream | CmdResult wcmd_resp | SetResult set_result

record 'w api_state =
  as_ctx :: wcmd_ctx
  as_seq :: u16
  as_io :: "'w io"

definition console_req :: "u16 \<Rightarrow> int \<Rightarrow> int \<Rightarrow> wcmd_req" where
  "console_req seq key v = \<lparr> rq_seq = seq, rq_key = word_of_int key, rq_flags = 0, rq_pad = 0, rq_value = to_i32 v \<rparr>"

definition api_cmd ::
  "'w sysenv \<Rightarrow> rat \<Rightarrow> u64 \<Rightarrow> string option \<Rightarrow> 'w api_state \<Rightarrow> api_reply \<times> 'w api_state" where
  "api_cmd env up now qs a =
     (case qparam_long qs ''key'' of
        None \<Rightarrow> (Text 400, a)
      | Some key \<Rightarrow>
          (if key < 1 \<or> key > WCMD_NUM_KEYS then (Text 400, a)
           else let v = (case qparam_long qs ''value'' of None \<Rightarrow> 0 | Some v \<Rightarrow> v);
                    seq = as_seq a + 1;
                    (resp, x, s) = wcmd_dispatch env up now INADDR_LOOPBACK (console_req seq key v) (as_ctx a) (as_io a)
                in (CmdResult resp, a\<lparr>as_seq := seq, as_ctx := x, as_io := s\<rparr>)))"

definition api_log :: "'w sysenv \<Rightarrow> u64 \<Rightarrow> bool \<Rightarrow> 'w api_state \<Rightarrow> api_reply \<times> 'w api_state" where
  "api_log env now on a =
     (let (l, s) = logger_ctl env on now (wx_logger (as_ctx a)) (as_io a)
      in (Json, a\<lparr>as_ctx := (as_ctx a)\<lparr>wx_logger := l\<rparr>, as_io := s\<rparr>))"

definition read_routes :: "string list" where
  "read_routes = [''/'', ''/help'', ''/params'', ''/schema'', ''/status'', ''/fec/status'', ''/mcs/status'',
                  ''/cmd/status'', ''/log/status'']"

definition api_route ::
  "'w sysenv \<Rightarrow> rat \<Rightarrow> u64 \<Rightarrow> string \<Rightarrow> string option \<Rightarrow> 'w api_state \<Rightarrow> api_reply \<times> 'w api_state" where
  "api_route env up now path qs a =
     (if path \<in> set read_routes then (Json, a)
      else if path = ''/set''
      then (let r = apply_query 64 qs (wx_cfg (as_ctx a))
            in (SetResult r, a\<lparr>as_ctx := (as_ctx a)\<lparr>wx_cfg := fst r\<rparr>\<rparr>))
      else if path = ''/cmd'' then api_cmd env up now qs a
      else if path = ''/log/start'' then api_log env now True a
      else if path = ''/log/stop'' then api_log env now False a
      else if path = ''/health'' then (Text 200, a)
      else if path = ''/events'' then (Stream, a)
      else if path = ''/keys'' then (Text 501, a)
      else (Text 404, a))"

definition api_handle_request ::
  "'w sysenv \<Rightarrow> rat \<Rightarrow> u64 \<Rightarrow> string \<Rightarrow> 'w api_state \<Rightarrow> api_reply \<times> 'w api_state" where
  "api_handle_request env up now buf a =
     (case api_parse buf of
        NotGet \<Rightarrow> (Text 400, a)
      | Malformed \<Rightarrow> (Text 400, a)
      | Route path qs \<Rightarrow> api_route env up now path qs a)"

section \<open>Ranges\<close>

definition row_in_range :: "tunable_desc \<Rightarrow> lc_config \<Rightarrow> bool" where
  "row_in_range t c =
     (case field_get (td_field t) c of
        VI k \<Rightarrow> td_lo t \<le> of_int k \<and> of_int k \<le> td_hi t
      | VR x \<Rightarrow> fl32 (td_lo t) \<le> x \<and> x \<le> fl32 (td_hi t) \<and> fl32 x = x
      | VB b \<Rightarrow> True)"

definition config_in_range :: "lc_config \<Rightarrow> bool" where
  "config_in_range c = list_all (\<lambda>t. row_in_range t c) TUNABLES"

text \<open>What no tunable reaches: addresses, ports, the recovery and CSA sections, the key file.\<close>

definition fixed_part :: "lc_config \<Rightarrow> (string \<times> int) list \<times> csa_sub_cfg \<times> recovery_cfg \<times> string" where
  "fixed_part c =
     ([(cfg_wfb_host c, cfg_wfb_port c), (cfg_probe_host c, cfg_probe_port c), (cfg_probe_feed_host c, cfg_probe_feed_port c),
       (fec_sidecar_host (cfg_fec c), fec_sidecar_port (cfg_fec c)), (fec_venc_host (cfg_fec c), fec_venc_port (cfg_fec c)),
       (mcs_stats_host (cfg_mcs c), mcs_stats_port (cfg_mcs c)), ([], cfg_uplink_stats_port c), ([], fec_wfb_stats_port (cfg_fec c)),
       (cmd_wfb_iface (cfg_cmd c), cfg_iface_mtu c)],
      cfg_csa c, cfg_recovery c, cfg_key_file c)"

lemma stored_in_range:
  assumes "t \<in> set TUNABLES" "row_value t s = Some v"
  shows "row_in_range t (field_put (td_field t) v c)"
proof -
  have "field_get (td_field t) (field_put (td_field t) v c) = v" using assms by (rule tunable_write_value(2))
  then show ?thesis
    using assms(2) by (cases "td_field t")
      (auto simp: row_in_range_def row_value_def f32.rnd_mono split: option.splits if_splits)
qed

lemma put_in_range:
  assumes "t \<in> set TUNABLES" "row_value t s = Some v" "config_in_range c"
  shows "config_in_range (field_put (td_field t) v c)"
proof -
  have "row_in_range u (field_put (td_field t) v c)" if "u \<in> set TUNABLES" for u
  proof (cases "u = t")
    case True
    then show ?thesis using stored_in_range [OF assms(1,2)] by simp
  next
    case False
    then show ?thesis using rows_apart [OF assms(1) that] assms(3) that
      by (auto simp: row_in_range_def config_in_range_def list_all_iff)
  qed
  then show ?thesis by (simp add: config_in_range_def list_all_iff)
qed

lemma put_fixed: "t \<in> set TUNABLES \<Longrightarrow> fixed_part (field_put (td_field t) v c) = fixed_part c"
proof -
  have "list_all (\<lambda>t. \<forall>v c. fixed_part (field_put (td_field t) v c) = fixed_part c) TUNABLES"
    by (simp add: TUNABLES_def COMMON_TUNABLES_def FEC_TUNABLES_def MCS_TUNABLES_def CMD_TUNABLES_def fixed_part_def
        on_fec_def on_mcs_def on_cmd_def)
  then show "t \<in> set TUNABLES \<Longrightarrow> fixed_part (field_put (td_field t) v c) = fixed_part c"
    by (simp add: list_all_iff)
qed

lemma dispatch_switches:
  assumes "wcmd_dispatch env up now peer r x s = (rs, x', s')"
  shows "switches_only (wx_cfg x) (wx_cfg x')"
proof (cases rule: wcmd_dispatch_cases [of "uint (rq_key r)" r env up now peer x s, OF refl])
  case (1 st count)
  then have "wcmd_refuse r st count (wcmd_x1 r now x) s = (rs, x', s')" using assms by simp
  from refuse_effects [OF this] show ?thesis by (simp add: wcmd_x1_def)
next
  case 2
  then have "wcmd_log_sync up now r (wcmd_x1 r now x) s = (rs, x', s')" using assms by simp
  from log_sync_effects [OF this] show ?thesis by (simp add: wcmd_x1_def)
next
  case 3
  then have "wcmd_log_control env now r (wcmd_x1 r now x) s = (rs, x', s')" using assms by simp
  from log_control_effects [OF this] show ?thesis by (simp add: wcmd_x1_def)
next
  case 4
  then have "wcmd_coalesce r (wcmd_x1 r now x) s = (rs, x', s')" using assms by simp
  from coalesce_effects [OF this] show ?thesis by (simp add: wcmd_x1_def)
next
  case 5
  then have "wcmd_keyed env now r (wcmd_x1 r now x) s = (rs, x', s')" using assms by simp
  from keyed_effects [OF this refl] show ?thesis by (simp add: wcmd_x1_def)
qed

lemma switches_in_range: "switches_only c c' \<Longrightarrow> config_in_range c' = config_in_range c \<and> fixed_part c' = fixed_part c"
proof -
  have "row_in_range t (c\<lparr>cfg_fec := (cfg_fec c)\<lparr>fec_on := f\<rparr>, cfg_mcs := (cfg_mcs c)\<lparr>mcs_on := m\<rparr>\<rparr>) = row_in_range t c"
    if "t \<in> set TUNABLES" for t f m
  proof -
    have "list_all (\<lambda>t. row_in_range t (c\<lparr>cfg_fec := (cfg_fec c)\<lparr>fec_on := f\<rparr>, cfg_mcs := (cfg_mcs c)\<lparr>mcs_on := m\<rparr>\<rparr>)
            = row_in_range t c) TUNABLES"
      by (simp add: TUNABLES_def COMMON_TUNABLES_def FEC_TUNABLES_def MCS_TUNABLES_def CMD_TUNABLES_def row_in_range_def
          in_fec_def in_mcs_def in_cmd_def)
    then show ?thesis using that by (simp add: list_all_iff)
  qed
  then show "switches_only c c' \<Longrightarrow> config_in_range c' = config_in_range c \<and> fixed_part c' = fixed_part c"
    by (auto simp: switches_only_def config_in_range_def list_all_iff fixed_part_def)
qed

definition sound_config :: "lc_config \<Rightarrow> lc_config \<Rightarrow> bool" where
  "sound_config c c' = (config_in_range c' \<and> fixed_part c' = fixed_part c)"

lemma piece_sound: "sound_config b (fst r) \<Longrightarrow> sound_config b (fst (note_piece n p r))"
  by (cases r)
    (auto simp: sound_config_def note_piece_def apply_piece_def Let_def tunable_write_value(1) put_in_range put_fixed
      split: option.splits sum.splits list.splits dest!: tunable_find_row)

section \<open>The loop and the pieces of the query\<close>

lemma split_on_first:
  "split_on c q = takeWhile (\<lambda>d. d \<noteq> c) q # (case dropWhile (\<lambda>d. d \<noteq> c) q of [] \<Rightarrow> [] | e # r \<Rightarrow> split_on c r)"
  by (induction q) auto

text \<open>The pieces between ampersands; a trailing ampersand starts none.\<close>

definition set_pieces :: "string \<Rightarrow> string list" where
  "set_pieces q = (let ws = split_on CHR ''&'' q in if last ws = [] then butlast ws else ws)"

lemma set_pieces_rec:
  "set_pieces q = (if q = [] then []
     else takeWhile (\<lambda>d. d \<noteq> CHR ''&'') q #
       (if dropWhile (\<lambda>d. d \<noteq> CHR ''&'') q = [] then [] else set_pieces (tl (dropWhile (\<lambda>d. d \<noteq> CHR ''&'') q))))"
proof (cases "dropWhile (\<lambda>d. d \<noteq> CHR ''&'') q")
  case Nil
  then have t: "takeWhile (\<lambda>d. d \<noteq> CHR ''&'') q = q" by (metis append_Nil2 takeWhile_dropWhile_id)
  then have "split_on CHR ''&'' q = [q]" by (subst split_on_first) (simp only: Nil list.case)
  then have "set_pieces q = (if q = [] then [] else [q])" by (simp add: set_pieces_def)
  then show ?thesis unfolding Nil t by simp
next
  case (Cons e r)
  have ne: "split_on c s \<noteq> []" for c s using split_on_first [of c s] by simp
  from Cons split_on_first [of "CHR ''&''" q] show ?thesis by (auto simp: set_pieces_def Let_def ne)
qed

lemma apply_loop_fold: "apply_loop n q r = fold (note_piece n) (set_pieces q) r"
proof (induction n q r rule: apply_loop.induct)
  case (1 n q r)
  then show ?case
    by (subst apply_loop.simps, subst set_pieces_rec) (auto simp: Let_def)
qed

lemma fold_sound: "sound_config b (fst r) \<Longrightarrow> sound_config b (fst (fold (note_piece n) ps r))"
proof (induction ps arbitrary: r)
  case (Cons p ps)
  then show ?case using Cons.IH [OF piece_sound [OF Cons.prems]] by (simp only: fold_simps)
qed simp

lemma query_sound: "sound_config b c \<Longrightarrow> sound_config b (fst (apply_query n qs c))"
  using fold_sound [of b "(c, [], [])"] by (auto simp: apply_query_def apply_loop_fold split: option.splits)

lemma defaults_in_range: "config_in_range config_defaults"
  by (simp add: config_in_range_def TUNABLES_def COMMON_TUNABLES_def FEC_TUNABLES_def MCS_TUNABLES_def CMD_TUNABLES_def
      row_in_range_def in_fec_def in_mcs_def in_cmd_def agg_index_def) (intro conjI; code_simp)

section \<open>Runs\<close>

text \<open>What reaches the configuration: HTTP requests and command frames, from any peer at any time.\<close>

datatype control_event = Http string rat u64 | Frame u32 wcmd_req rat u64

fun control_step :: "'w sysenv \<Rightarrow> 'w api_state \<Rightarrow> control_event \<Rightarrow> 'w api_state" where
  "control_step env a (Http buf up now) = snd (api_handle_request env up now buf a)"
| "control_step env a (Frame peer r up now) =
     (let (rs, x, s) = wcmd_dispatch env up now peer r (as_ctx a) (as_io a) in a\<lparr>as_ctx := x, as_io := s\<rparr>)"

lemma control_step_sound:
  assumes "sound_config b (wx_cfg (as_ctx a))"
  shows "sound_config b (wx_cfg (as_ctx (control_step env a e)))"
proof -
  have sw: "sound_config b (wx_cfg x)" if "wcmd_dispatch env up now peer r (as_ctx a) (as_io a) = (rs, x, s)" for up now peer r rs x s
    using dispatch_switches [OF that] switches_in_range assms by (simp add: sound_config_def)
  show ?thesis
  proof (cases e)
    case (Http buf up now)
    then show ?thesis using assms query_sound
      by (auto simp: api_handle_request_def api_route_def api_cmd_def api_log_def Let_def
          split: api_request.splits option.splits prod.splits intro: sw)
  next
    case (Frame peer r up now)
    then show ?thesis by (auto simp: Let_def split: prod.splits intro: sw)
  qed
qed

section \<open>Properties\<close>


text \<open>A write to one tunable.  The write succeeds exactly when the text is a well-formed value within
  the row's bounds; then the row reads back that value (rounded to \<open>float\<close> where the field is one),
  every other row of the table reads what it did, and nothing else of the configuration changes.\<close>

theorem tunable_write_exact:
  assumes "tunable_find name = Some t"
  shows "case row_value t s of
           None \<Rightarrow> tunable_write t c s = None
         | Some v \<Rightarrow> (\<exists>c'. tunable_write t c s = Some c' \<and> field_get (td_field t) c' = v \<and> fixed_part c' = fixed_part c
              \<and> (\<forall>u \<in> set TUNABLES. u \<noteq> t \<longrightarrow> field_get (td_field u) c' = field_get (td_field u) c))"
proof -
  have t: "t \<in> set TUNABLES" using tunable_find_row [OF assms] by simp
  show ?thesis
    using tunable_write_value [OF t, where c = c and s = s] put_fixed [OF t] rows_apart [OF t] by (auto split: option.split)
qed


text \<open>An integer tunable set to a printed number reads it back.\<close>

theorem tunable_set_printed:
  assumes "tunable_find name = Some t" "td_field t = TF_INT g u \<or> td_field t = TF_LONG g u"
    and "td_lo t \<le> of_int k" "of_int k \<le> td_hi t" "INT_MIN \<le> k" "k \<le> INT_MAX"
  shows "\<exists>c'. tunable_write t c (show_int k) = Some c' \<and> tunable_read t c' = of_int k"
proof -
  have t: "t \<in> set TUNABLES" using tunable_find_row [OF assms(1)] by simp
  have "strtol (show_int k) = Some (k, [])"
    using strto_show_int [of LONG_MIN k LONG_MAX "[]"] assms(5,6)
    by (simp add: strtol_def LONG_MIN_def LONG_MAX_def INT_MIN_def INT_MAX_def)
  then have v: "row_value t (show_int k) = Some (VI k)"
    using assms(2-) by (auto simp: row_value_def parse_strict_long_def only_blanks_def)
  from tunable_write_value(2) [OF t this] have r: "field_get (td_field t) (field_put (td_field t) (VI k) c) = VI k" .
  have "fl64 (of_int k) = of_int k"
    using assms(5,6) by (intro f64.rnd_of_int) (simp add: INT_MIN_def INT_MAX_def)
  with v r tunable_write_value(1) [OF t, where c = c and s = "show_int k"] assms(2) show ?thesis
    by (auto simp: tunable_read_def)
qed

section \<open>Witnesses\<close>

lemma find_mtu: "tunable_find ''fec.mtu'' = Some (row ''fec.mtu'' SUB_FEC (TF_INT (in_fec fec_mtu) (on_fec fec_mtu_update)) 100 65000 False)"
  by (simp add: tunable_find_def TUNABLES_def COMMON_TUNABLES_def FEC_TUNABLES_def)

theorem tunable_write_exact_witness:
  "\<exists>t c'. tunable_find ''fec.mtu'' = Some t \<and> tunable_write t config_defaults ''1200'' = Some c' \<and> field_get (td_field t) c' = VI 1200"
proof -
  have "row_value (row ''fec.mtu'' SUB_FEC (TF_INT (in_fec fec_mtu) (on_fec fec_mtu_update)) 100 65000 False) ''1200'' = Some (VI 1200)"
    by code_simp
  then show ?thesis using tunable_write_exact [OF find_mtu, where s = "''1200''" and c = config_defaults] find_mtu by auto
qed

theorem tunable_set_printed_witness:
  "\<exists>t c'. tunable_find ''fec.mtu'' = Some t \<and> tunable_write t config_defaults (show_int 1200) = Some c' \<and> tunable_read t c' = 1200"
  using tunable_set_printed [OF find_mtu, where g = "in_fec fec_mtu" and u = "on_fec fec_mtu_update" and k = 1200 and c = config_defaults] find_mtu
  by (simp add: INT_MIN_def INT_MAX_def)

end
