(* ===== verification/Ground.thy ===== *)
theory Ground
  imports CString WireProto
begin

text \<open>
  The ground supervisor's command side, \<open>ground/gs_supervisor.c\<close> and the command routes of
  \<open>ground/gs_supervisor_http.c\<close>: the query scraper, the key names, \<open>wcmd_emit\<close>, \<open>logsync_emit\<close>,
  \<open>recovery_emit\<close> and the handlers of \<open>/api/v1/cmd\<close>, \<open>/api/v1/logctl\<close> and \<open>/api/v1/recovery\<close>.

  The kernel is the record \<open>'w gs_env\<close>, a parameter: every call is answered in the world \<open>'w\<close> and
  returns the next one.  \<open>gs_trace\<close> records, in order, the datagrams that left and the \<open>iw\<close>
  commands run.
\<close>

section \<open>Environment, configuration and state\<close>

text \<open>
  \<open>ge_clock\<close> reads the monotonic clock in microseconds, \<open>ge_time\<close> the wall clock in seconds.
  \<open>ge_socket\<close>: 0, or the \<open>errno\<close>.  \<open>ge_sendto\<close>: whether the whole datagram left, and \<open>errno\<close>.
  \<open>ge_iw\<close>: \<open>run_iw_set_channel\<close>'s fork and wait.  \<open>ge_drain\<close>: the stats datagrams queued at a
  tunnel's socket are received and forwarded.
\<close>

record 'w gs_env =
  ge_clock :: "'w \<Rightarrow> u64 \<times> 'w"
  ge_time :: "'w \<Rightarrow> int"
  ge_socket :: "'w \<Rightarrow> int \<times> 'w"
  ge_sendto :: "int \<Rightarrow> u8 list \<Rightarrow> 'w \<Rightarrow> (bool \<times> int) \<times> 'w"
  ge_iw :: "string \<Rightarrow> int \<Rightarrow> string \<Rightarrow> 'w \<Rightarrow> int \<times> 'w"
  ge_drain :: "int \<Rightarrow> 'w \<Rightarrow> 'w"

record gs_tunnel =
  gt_name :: string
  gt_role :: string
  gt_ifaces :: "string list"
  gt_udp_in_port :: int
  gt_pkt_all :: u32

record gs_config =
  gc_tunnels :: "gs_tunnel list"
  gc_cmd_on :: bool
  gc_cmd_uplink :: string
  gc_rate_limit_ms :: int
  gc_recovery_on :: bool
  gc_recovery_tunnel :: string

datatype gs_event = GSent int "u8 list" | GIw string int string

datatype gs_csa_phase = CSA_IDLE | CSA_BURST | CSA_ARMED | CSA_VERIFY

record gs_csa =
  gc_phase :: gs_csa_phase
  gc_sess :: u32
  gc_t_switch_us :: u64
  gc_t_revert_us :: u64
  gc_next_frame_us :: u64
  gc_frames_sent :: int
  gc_frames_total :: int
  gc_target_chan :: int
  gc_target_ht :: string
  gc_prev_chan :: int
  gc_prev_ht :: string
  gc_ifaces :: "string list"
  gc_baseline_us :: u64
  gc_baseline_all :: u32
  gc_baseline_idx :: int
  gc_no_revert :: bool

datatype gs_scan_phase = SCAN_IDLE | SCAN_RUNNING | SCAN_FOUND | SCAN_STOPPED

record gs_scan =
  gn_phase :: gs_scan_phase
  gn_sess :: u32
  gn_ifaces :: "string list"
  gn_chans :: "int list"
  gn_hts :: "string list"
  gn_cur_step :: int
  gn_started_us :: u64
  gn_dwell_us :: u64
  gn_baseline_idx :: int
  gn_saw_traffic :: bool
  gn_found_chan :: int
  gn_found_ht :: string
  gn_hops_done :: int

text \<open>The globals.  \<open>gs_csa_fd\<close>: the CSA socket has been opened.\<close>

record 'w gs =
  gs_world :: 'w
  gs_trace :: "gs_event list"
  gs_seq :: u16
  gs_last_send_ms :: "u64 list"
  gs_emit_total :: u64
  gs_emit_frames :: u64
  gs_emit_rate_limit :: u64
  gs_emit_failed :: u64
  gs_logsync_total :: u64
  gs_logsync_next_ms :: u64
  gs_recovery_total :: u64
  gs_recovery_failed :: u64
  gs_csa_st :: gs_csa
  gs_csa_seq :: u32
  gs_csa_fd :: bool
  gs_scan_st :: gs_scan

definition WCMD_KEY_MAX :: int where
  "WCMD_KEY_MAX = 16"

definition WCMD_BURST_FRAMES :: nat where
  "WCMD_BURST_FRAMES = 3"

definition WCMD_RECOVERY_BURST_FRAMES :: nat where
  "WCMD_RECOVERY_BURST_FRAMES = 8"

definition GS_LOGSYNC_INTERVAL_MS :: u64 where
  "GS_LOGSYNC_INTERVAL_MS = 10000"

definition gs_now_us :: "'w gs_env \<Rightarrow> 'w gs \<Rightarrow> u64 \<times> 'w gs" where
  "gs_now_us env s = (let (t, w) = ge_clock env (gs_world s) in (t, s\<lparr>gs_world := w\<rparr>))"

definition gs_now_ms :: "'w gs_env \<Rightarrow> 'w gs \<Rightarrow> u64 \<times> 'w gs" where
  "gs_now_ms env s = (let (t, s1) = gs_now_us env s in (t div 1000, s1))"

section \<open>Query strings\<close>

function qs_get :: "string \<Rightarrow> string \<Rightarrow> string option" where
  "qs_get p key =
     (if p = [] \<or> CHR ''='' \<notin> set p then None
      else if takeWhile (\<lambda>c. c \<noteq> CHR ''='') p = key
      then Some (takeWhile (\<lambda>c. c \<noteq> CHR ''&'') (tl (dropWhile (\<lambda>c. c \<noteq> CHR ''='') p)))
      else if CHR ''&'' \<notin> set p then None
      else qs_get (tl (dropWhile (\<lambda>c. c \<noteq> CHR ''&'') p)) key)"
  by pat_completeness auto
termination
proof (relation "measure (\<lambda>(p, k). length p)"; clarsimp)
  fix p :: string
  assume "p \<noteq> []"
  then have "0 < length p" by simp
  with length_dropWhile_le [of "\<lambda>c. c \<noteq> CHR ''&''" p]
  show "length (dropWhile (\<lambda>c. c \<noteq> CHR ''&'') p) - Suc 0 < length p" by linarith
qed

declare qs_get.simps [simp del]

definition qs_find :: "string option \<Rightarrow> string \<Rightarrow> string option" where
  "qs_find qs key = (case qs of None \<Rightarrow> None | Some q \<Rightarrow> qs_get q key)"

text \<open>\<open>qs_get_int\<close>: \<open>None\<close> is the result -1, which leaves the caller's variable alone.\<close>

definition qs_get_int :: "string option \<Rightarrow> string \<Rightarrow> int option" where
  "qs_get_int qs key =
     (case qs_find qs key of
        None \<Rightarrow> None
      | Some v \<Rightarrow>
          (if v = [] \<or> 10 < length v then None
           else case strtol v of None \<Rightarrow> None | Some (n, r) \<Rightarrow> (if r = [] then Some (to_i32 n) else None)))"

section \<open>Key names\<close>

definition wcmd_names :: "(string \<times> int) list" where
  "wcmd_names =
     [(''bitrate_kbps'', WCMD_KEY_BITRATE_KBPS), (''fps'', WCMD_KEY_FPS),
      (''payload_bytes'', WCMD_KEY_PAYLOAD_BYTES), (''force_idr'', WCMD_KEY_FORCE_IDR),
      (''wfb_fec_k'', WCMD_KEY_WFB_FEC_K), (''wfb_fec_n'', WCMD_KEY_WFB_FEC_N),
      (''wfb_mcs'', WCMD_KEY_WFB_MCS), (''wfb_bandwidth'', WCMD_KEY_WFB_BANDWIDTH),
      (''wfb_ldpc'', WCMD_KEY_WFB_LDPC), (''wfb_stbc'', WCMD_KEY_WFB_STBC),
      (''wfb_short_gi'', WCMD_KEY_WFB_SHORT_GI), (''fec_enabled'', WCMD_KEY_FEC_ENABLED),
      (''mcs_enabled'', WCMD_KEY_MCS_ENABLED), (''wfb_txpower'', WCMD_KEY_WFB_TXPOWER),
      (''record'', WCMD_KEY_RECORD), (''peek_enabled'', WCMD_KEY_PEEK_ENABLED),
      (''return_apfpv'', WCMD_KEY_RETURN_APFPV)]"

definition wcmd_key_from_str :: "string \<Rightarrow> int" where
  "wcmd_key_from_str s = (case map_of wcmd_names s of None \<Rightarrow> - 1 | Some k \<Rightarrow> k)"

definition wcmd_key_name :: "int \<Rightarrow> string" where
  "wcmd_key_name key =
     (case find (\<lambda>p. snd p = key) wcmd_names of None \<Rightarrow> ''?'' | Some p \<Rightarrow> fst p)"

section \<open>Emitting\<close>

definition gs_tx_tunnel :: "gs_config \<Rightarrow> string \<Rightarrow> gs_tunnel option" where
  "gs_tx_tunnel c name = find (\<lambda>t. gt_name t = name \<and> gt_role t = ''tx'') (gc_tunnels c)"

definition gs_tx_port :: "gs_config \<Rightarrow> string \<Rightarrow> int option" where
  "gs_tx_port c name =
     (case gs_tx_tunnel c name of
        None \<Rightarrow> None | Some t \<Rightarrow> (if gt_udp_in_port t \<le> 0 then None else Some (gt_udp_in_port t)))"

definition gs_sendto :: "'w gs_env \<Rightarrow> int \<Rightarrow> u8 list \<Rightarrow> 'w gs \<Rightarrow> (bool \<times> int) \<times> 'w gs" where
  "gs_sendto env port bs s =
     (let ((ok, e), w) = ge_sendto env port bs (gs_world s); s1 = s\<lparr>gs_world := w\<rparr>
      in ((ok, e), if ok then s1\<lparr>gs_trace := gs_trace s1 @ [GSent port bs]\<rparr> else s1))"

text \<open>The burst loop: the number of copies that left, and the last \<open>errno\<close> of a copy that did not.\<close>

fun send_burst :: "'w gs_env \<Rightarrow> int \<Rightarrow> u8 list \<Rightarrow> nat \<Rightarrow> int \<Rightarrow> 'w gs \<Rightarrow> (nat \<times> int) \<times> 'w gs" where
  "send_burst env port bs 0 last_err s = ((0, last_err), s)"
| "send_burst env port bs (Suc n) last_err s =
     (let ((ok, e), s1) = gs_sendto env port bs s;
          ((sent, le), s2) = send_burst env port bs n (if ok then last_err else e) s1
      in ((if ok then Suc sent else sent, le), s2))"

definition gs_open :: "'w gs_env \<Rightarrow> 'w gs \<Rightarrow> int \<times> 'w gs" where
  "gs_open env s = (let (e, w) = ge_socket env (gs_world s) in (e, s\<lparr>gs_world := w\<rparr>))"

definition gs_req :: "u16 \<Rightarrow> int \<Rightarrow> int \<Rightarrow> wcmd_req" where
  "gs_req seq key value = \<lparr> rq_seq = seq, rq_key = word_of_int key, rq_flags = 0, rq_pad = 0, rq_value = value \<rparr>"

definition errno_or :: "int \<Rightarrow> int" where
  "errno_or e = (if e \<noteq> 0 then e else - 1)"

text \<open>The result is the return code and the sequence number written to \<open>seq_out\<close>, 0 when none was.\<close>

definition wcmd_emit :: "'w gs_env \<Rightarrow> gs_config \<Rightarrow> int \<Rightarrow> int \<Rightarrow> 'w gs \<Rightarrow> (int \<times> u16) \<times> 'w gs" where
  "wcmd_emit env c key value s =
     (if \<not> gc_cmd_on c then ((- 1, 0), s)
      else case gs_tx_port c (gc_cmd_uplink c) of
        None \<Rightarrow> ((- 1, 0), s)
      | Some port \<Rightarrow>
          (let (e, s1) = gs_open env s in
           if e \<noteq> 0 then ((e, 0), s1)
           else let seq = gs_seq s1 + 1; s2 = s1\<lparr>gs_seq := seq\<rparr>;
                    ((sent, le), s3) = send_burst env port (wcmd_req_bytes (gs_req seq key value)) WCMD_BURST_FRAMES 0 s2 in
             if sent > 0
             then ((0, seq), s3\<lparr>gs_emit_total := gs_emit_total s3 + 1,
                                gs_emit_frames := gs_emit_frames s3 + of_nat sent\<rparr>)
             else ((errno_or le, seq), s3\<lparr>gs_emit_failed := gs_emit_failed s3 + 1\<rparr>)))"

definition logsync_emit :: "'w gs_env \<Rightarrow> gs_config \<Rightarrow> 'w gs \<Rightarrow> 'w gs" where
  "logsync_emit env c s =
     (if \<not> gc_cmd_on c then s
      else case gs_tx_port c (gc_cmd_uplink c) of
        None \<Rightarrow> s
      | Some port \<Rightarrow>
          (let (e, s1) = gs_open env s in
           if e \<noteq> 0 then s1
           else let seq = gs_seq s1 + 1; s2 = s1\<lparr>gs_seq := seq\<rparr>;
                    stamp = to_i32 (ge_time env (gs_world s2));
                    ((sent, le), s3) = send_burst env port
                       (wcmd_req_bytes (gs_req seq WCMD_KEY_LOG_SYNC stamp)) WCMD_BURST_FRAMES 0 s2 in
             if sent > 0 then s3\<lparr>gs_logsync_total := gs_logsync_total s3 + 1\<rparr> else s3))"

definition recovery_emit :: "'w gs_env \<Rightarrow> gs_config \<Rightarrow> 'w gs \<Rightarrow> (int \<times> u16) \<times> 'w gs" where
  "recovery_emit env c s =
     (if \<not> gc_recovery_on c then ((- 1, 0), s)
      else case gs_tx_port c (gc_recovery_tunnel c) of
        None \<Rightarrow> ((- 1, 0), s)
      | Some port \<Rightarrow>
          (let (e, s1) = gs_open env s in
           if e \<noteq> 0 then ((e, 0), s1)
           else let seq = gs_seq s1 + 1; s2 = s1\<lparr>gs_seq := seq\<rparr>;
                    ((sent, le), s3) = send_burst env port
                       (wcmd_req_bytes (gs_req seq WCMD_KEY_RECOVERY_APFPV 0)) WCMD_RECOVERY_BURST_FRAMES 0 s2 in
             if sent > 0 then ((0, seq), s3\<lparr>gs_recovery_total := gs_recovery_total s3 + 1\<rparr>)
             else ((errno_or le, seq), s3\<lparr>gs_recovery_failed := gs_recovery_failed s3 + 1\<rparr>)))"

text \<open>The heartbeat of \<open>supervisor_tick\<close>.\<close>

definition logsync_tick :: "'w gs_env \<Rightarrow> gs_config \<Rightarrow> u64 \<Rightarrow> 'w gs \<Rightarrow> 'w gs" where
  "logsync_tick env c t_ms s =
     (if t_ms \<ge> gs_logsync_next_ms s
      then logsync_emit env c (s\<lparr>gs_logsync_next_ms := t_ms + GS_LOGSYNC_INTERVAL_MS\<rparr>)
      else s)"

section \<open>The command routes\<close>

text \<open>
  The number is the HTTP status.  The rate limit compares \<open>(int)since\<close>, a truncation of the 64-bit
  difference.  The stamp after a success is the C array write \<open>g_wcmd_last_send_ms[key]\<close>; for
  \<open>return_apfpv\<close> (20) it is outside the 17 entries, and the model drops it.
\<close>

definition gs_paced :: "gs_config \<Rightarrow> int \<Rightarrow> u64 \<Rightarrow> 'w gs \<Rightarrow> bool" where
  "gs_paced c key t_ms s =
     (let l = gs_last_send_ms s ! nat key
      in l \<noteq> 0 \<and> to_i32 (uint (t_ms - l)) < gc_rate_limit_ms c)"

definition gs_send_cmd :: "'w gs_env \<Rightarrow> gs_config \<Rightarrow> int \<Rightarrow> int \<Rightarrow> 'w gs \<Rightarrow> int \<times> 'w gs" where
  "gs_send_cmd env c key value s =
     (let limited = (gc_rate_limit_ms c > 0 \<and> key \<ge> 1 \<and> key \<le> WCMD_KEY_MAX);
          (t_ms, s1) = (if limited then gs_now_ms env s else (0, s)) in
      if limited \<and> gs_paced c key t_ms s1
      then (429, s1\<lparr>gs_emit_rate_limit := gs_emit_rate_limit s1 + 1\<rparr>)
      else let ((rc, seq), s2) = wcmd_emit env c key value s1 in
        if rc = - 1 then (503, s2)
        else if rc \<noteq> 0 then (502, s2)
        else let (t2, s3) = gs_now_ms env s2
             in (200, s3\<lparr>gs_last_send_ms := (gs_last_send_ms s3)[nat key := t2]\<rparr>))"

text \<open>A query without a usable value is refused, except for the two keys that need none.\<close>

definition cmd_value :: "string option \<Rightarrow> int" where
  "cmd_value qs = (case qs_get_int qs ''value'' of None \<Rightarrow> 0 | Some v \<Rightarrow> v)"

definition gs_api_cmd :: "'w gs_env \<Rightarrow> gs_config \<Rightarrow> string option \<Rightarrow> 'w gs \<Rightarrow> int \<times> 'w gs" where
  "gs_api_cmd env c qs s =
     (case qs_find qs ''key'' of
        None \<Rightarrow> (400, s)
      | Some name \<Rightarrow>
          (let key = wcmd_key_from_str name in
           if key < 0 then (400, s)
           else if qs_get_int qs ''value'' = None \<and> key \<noteq> WCMD_KEY_FORCE_IDR \<and> key \<noteq> WCMD_KEY_RETURN_APFPV
           then (400, s)
           else gs_send_cmd env c key (cmd_value qs) s))"

definition emit_status :: "int \<Rightarrow> int" where
  "emit_status rc = (if rc = - 1 then 503 else if rc \<noteq> 0 then 502 else 200)"

definition gs_api_logctl :: "'w gs_env \<Rightarrow> gs_config \<Rightarrow> string option \<Rightarrow> 'w gs \<Rightarrow> int \<times> 'w gs" where
  "gs_api_logctl env c qs s =
     (let v = (case qs_get_int qs ''value'' of None \<Rightarrow> 1 | Some v \<Rightarrow> v);
          ((rc, seq), s1) = wcmd_emit env c WCMD_KEY_LOG_CONTROL (if v \<noteq> 0 then 1 else 0) s
      in (emit_status rc, s1))"

definition gs_api_recovery :: "'w gs_env \<Rightarrow> gs_config \<Rightarrow> 'w gs \<Rightarrow> int \<times> 'w gs" where
  "gs_api_recovery env c s = (let ((rc, seq), s1) = recovery_emit env c s in (emit_status rc, s1))"

section \<open>What a burst puts on the wire\<close>

lemma gs_sendto_trace:
  "gs_sendto env port bs s = ((ok, e), s') \<Longrightarrow>
   gs_trace s' = gs_trace s @ (if ok then [GSent port bs] else []) \<and> gs_seq s' = gs_seq s
   \<and> gs_last_send_ms s' = gs_last_send_ms s"
  by (auto simp: gs_sendto_def Let_def split: prod.splits if_splits)

lemma send_burst_trace:
  "send_burst env port bs n le s = ((sent, le'), s') \<Longrightarrow>
   sent \<le> n \<and> gs_trace s' = gs_trace s @ replicate sent (GSent port bs) \<and> gs_seq s' = gs_seq s
   \<and> gs_last_send_ms s' = gs_last_send_ms s"
proof (induction n arbitrary: le s sent le' s')
  case (Suc n)
  obtain ok e s1 where a: "gs_sendto env port bs s = ((ok, e), s1)" by (metis prod.collapse)
  obtain sent2 le2 s2 where b: "send_burst env port bs n (if ok then le else e) s1 = ((sent2, le2), s2)"
    by (metis prod.collapse)
  from Suc.IH [OF b] gs_sendto_trace [OF a] Suc.prems a b show ?case by (auto simp: Let_def split: if_splits)
qed simp

lemma gs_open_frame: "gs_open env s = (e, s') \<Longrightarrow> gs_trace s' = gs_trace s \<and> gs_seq s' = gs_seq s
   \<and> gs_last_send_ms s' = gs_last_send_ms s"
  by (auto simp: gs_open_def Let_def split: prod.splits)

lemma gs_now_frame: "gs_now_ms env s = (t, s') \<Longrightarrow> gs_trace s' = gs_trace s \<and> gs_seq s' = gs_seq s
   \<and> gs_last_send_ms s' = gs_last_send_ms s"
  by (auto simp: gs_now_ms_def gs_now_us_def Let_def split: prod.splits)

lemma wcmd_emit_trace:
  assumes "wcmd_emit env c key value s = ((rc, seq), s')"
  obtains (silent) "gs_trace s' = gs_trace s" "rc \<noteq> 0" "gs_last_send_ms s' = gs_last_send_ms s"
  | (sent) n port where "gs_tx_port c (gc_cmd_uplink c) = Some port" "0 < n" "n \<le> WCMD_BURST_FRAMES" "rc = 0"
      "seq = gs_seq s + 1" "gs_seq s' = seq" "gs_last_send_ms s' = gs_last_send_ms s"
      "gs_trace s' = gs_trace s @ replicate n (GSent port (wcmd_req_bytes (gs_req seq key value)))"
proof (cases "gc_cmd_on c \<and> gs_tx_port c (gc_cmd_uplink c) \<noteq> None")
  case False
  then show thesis using assms by (intro silent) (auto simp: wcmd_emit_def split: option.splits if_splits)
next
  case True
  then obtain port where p: "gs_tx_port c (gc_cmd_uplink c) = Some port" and on: "gc_cmd_on c" by auto
  obtain e s1 where o: "gs_open env s = (e, s1)" by (metis prod.collapse)
  show thesis
  proof (cases "e = 0")
    case False
    then show thesis using assms o p on gs_open_frame [OF o]
      by (intro silent) (auto simp: wcmd_emit_def)
  next
    case True
    let ?bs = "wcmd_req_bytes (gs_req (gs_seq s1 + 1) key value)"
    obtain n le s3 where b: "send_burst env port ?bs WCMD_BURST_FRAMES 0 (s1\<lparr>gs_seq := gs_seq s1 + 1\<rparr>) = ((n, le), s3)"
      by (metis prod.collapse)
    note t = send_burst_trace [OF b] and f = gs_open_frame [OF o]
    show thesis
    proof (cases "0 < n")
      case True
      then show thesis using assms o p on b t f \<open>e = 0\<close>
        by (intro sent [of port n]) (auto simp: wcmd_emit_def Let_def)
    next
      case False
      then show thesis using assms o p on b t f \<open>e = 0\<close>
        by (intro silent) (auto simp: wcmd_emit_def Let_def errno_or_def split: if_splits)
    qed
  qed
qed

lemma recovery_emit_trace:
  assumes "recovery_emit env c s = ((0, seq), s')"
  obtains n port where "gs_tx_port c (gc_recovery_tunnel c) = Some port" "0 < n" "n \<le> WCMD_RECOVERY_BURST_FRAMES"
      "gs_trace s' = gs_trace s @ replicate n (GSent port (wcmd_req_bytes (gs_req seq WCMD_KEY_RECOVERY_APFPV 0)))"
proof -
  from assms obtain port where p: "gs_tx_port c (gc_recovery_tunnel c) = Some port" and on: "gc_recovery_on c"
    by (auto simp: recovery_emit_def split: if_splits option.splits)
  obtain e s1 where o: "gs_open env s = (e, s1)" by (metis prod.collapse)
  let ?bs = "wcmd_req_bytes (gs_req (gs_seq s1 + 1) WCMD_KEY_RECOVERY_APFPV 0)"
  obtain n le s3 where b: "send_burst env port ?bs WCMD_RECOVERY_BURST_FRAMES 0 (s1\<lparr>gs_seq := gs_seq s1 + 1\<rparr>) = ((n, le), s3)"
    by (metis prod.collapse)
  note t = send_burst_trace [OF b] and f = gs_open_frame [OF o]
  show thesis
    using assms o p on b t f
    by (intro that [of port n]) (auto simp: recovery_emit_def Let_def errno_or_def split: if_splits)
qed

section \<open>Properties\<close>

lemma names_distinct: "distinct (map fst wcmd_names)" "distinct (map snd wcmd_names)"
    "\<forall>p \<in> set wcmd_names. 0 < snd p \<and> fst p \<noteq> ''?''"
  by (simp_all add: wcmd_names_def proto_consts)

lemma find_snd:
  "distinct (map snd xs) \<Longrightarrow> (s, k) \<in> set xs \<Longrightarrow> find (\<lambda>p. snd p = k) xs = Some (s, k)"
  by (induction xs) force+

text \<open>Key names.  The name table of the command route and the one of its replies agree: a name that
  is accepted is the name printed for its key, and a name printed for a key is accepted as that key.\<close>

theorem wcmd_names_roundtrip:
  "(wcmd_key_from_str s \<noteq> - 1 \<longrightarrow> wcmd_key_name (wcmd_key_from_str s) = s)
   \<and> (wcmd_key_name k \<noteq> ''?'' \<longrightarrow> wcmd_key_from_str (wcmd_key_name k) = k)"
proof
  show "wcmd_key_from_str s \<noteq> - 1 \<longrightarrow> wcmd_key_name (wcmd_key_from_str s) = s"
    using find_snd [OF names_distinct(2)]
    by (auto simp: wcmd_key_from_str_def wcmd_key_name_def split: option.splits dest!: map_of_SomeD)
  show "wcmd_key_name k \<noteq> ''?'' \<longrightarrow> wcmd_key_from_str (wcmd_key_name k) = k"
  proof (cases "find (\<lambda>p. snd p = k) wcmd_names")
    case (Some p)
    then have "p \<in> set wcmd_names" "snd p = k" by (auto simp: find_Some_iff)
    then have "map_of wcmd_names (fst p) = Some k"
      using map_of_is_SomeI [OF names_distinct(1)] by (metis prod.collapse)
    with Some show ?thesis by (simp add: wcmd_key_from_str_def wcmd_key_name_def)
  qed (simp add: wcmd_key_name_def)
qed

lemma from_str_pos: "0 \<le> wcmd_key_from_str s \<Longrightarrow> 0 < wcmd_key_from_str s"
  using names_distinct(3) by (auto simp: wcmd_key_from_str_def split: option.splits dest!: map_of_SomeD)

lemma gs_send_cmd_outcome:
  assumes "gs_send_cmd env c key value s = (code, s')" "0 < key"
  shows "(code \<in> {429, 502, 503} \<and> gs_trace s' = gs_trace s \<and> gs_last_send_ms s' = gs_last_send_ms s
          \<and> (code = 429 \<longrightarrow> 0 < gc_rate_limit_ms c \<and> gs_paced c key (fst (gs_now_ms env s)) s))
     \<or> (code = 200 \<and> (\<exists>port n. gs_tx_port c (gc_cmd_uplink c) = Some port \<and> 0 < n \<and> n \<le> 3
          \<and> gs_trace s' = gs_trace s @ replicate n (GSent port (wcmd_req_bytes (gs_req (gs_seq s + 1) key value)))
          \<and> (0 < gc_rate_limit_ms c \<and> key \<le> WCMD_KEY_MAX \<longrightarrow> \<not> gs_paced c key (fst (gs_now_ms env s)) s)))"
proof -
  let ?lim = "gc_rate_limit_ms c > 0 \<and> key \<ge> 1 \<and> key \<le> WCMD_KEY_MAX"
  obtain t s1 where t: "(if ?lim then gs_now_ms env s else (0, s)) = (t, s1)" by (metis prod.collapse)
  then have f: "gs_trace s1 = gs_trace s" "gs_seq s1 = gs_seq s" "gs_last_send_ms s1 = gs_last_send_ms s"
    by (auto split: if_splits dest: gs_now_frame)
  then have paced: "gs_paced c key t s1 = gs_paced c key t s" by (simp add: gs_paced_def)
  obtain rc seq s2 where e: "wcmd_emit env c key value s1 = ((rc, seq), s2)" by (metis prod.collapse)
  obtain t2 s3 where t2: "gs_now_ms env s2 = (t2, s3)" by (metis prod.collapse)
  have r: "(code, s') = (if ?lim \<and> gs_paced c key t s1
        then (429, s1\<lparr>gs_emit_rate_limit := gs_emit_rate_limit s1 + 1\<rparr>)
        else if rc = - 1 then (503, s2) else if rc \<noteq> 0 then (502, s2)
        else (200, s3\<lparr>gs_last_send_ms := (gs_last_send_ms s3)[nat key := t2]\<rparr>))"
    unfolding assms(1) [symmetric] gs_send_cmd_def by (simp only: Let_def t prod.case e t2)
  show ?thesis
  proof (cases "?lim \<and> gs_paced c key t s1")
    case True
    then have "gs_paced c key (fst (gs_now_ms env s)) s" "0 < gc_rate_limit_ms c" using paced t by simp_all
    then show ?thesis using True r f by simp
  next
    case False
    from e show ?thesis
    proof (cases rule: wcmd_emit_trace)
      case silent
      then show ?thesis using r f False by (auto split: if_splits)
    next
      case (sent port m)
      have "\<not> gs_paced c key (fst (gs_now_ms env s)) s" if "0 < gc_rate_limit_ms c" "key \<le> WCMD_KEY_MAX"
        using False that assms(2) paced t by simp
      then show ?thesis using r f False sent gs_now_frame [OF t2]
        by (auto simp: WCMD_BURST_FRAMES_def)
    qed
  qed
qed


section \<open>A concrete ground\<close>

text \<open>The world is the clock in microseconds; every call succeeds and takes a millisecond.\<close>

definition demo_gs_env :: "u64 gs_env" where
  "demo_gs_env = \<lparr> ge_clock = (\<lambda>w. (w, w + 1000)), ge_time = (\<lambda>_. 1700000000), ge_socket = (\<lambda>w. (0, w)),
     ge_sendto = (\<lambda>_ _ w. ((True, 0), w + 1000)), ge_iw = (\<lambda>_ _ _ w. (0, w + 1000)), ge_drain = (\<lambda>_ w. w) \<rparr>"

definition demo_gs_cfg :: gs_config where
  "demo_gs_cfg = \<lparr> gc_tunnels = [\<lparr> gt_name = ''video'', gt_role = ''rx'', gt_ifaces = [''wlan0''], gt_udp_in_port = 0, gt_pkt_all = 0 \<rparr>,
       \<lparr> gt_name = ''uplink'', gt_role = ''tx'', gt_ifaces = [''wlan0''], gt_udp_in_port = 5700, gt_pkt_all = 0 \<rparr>,
       \<lparr> gt_name = ''recovery'', gt_role = ''tx'', gt_ifaces = [''wlan0''], gt_udp_in_port = 5702, gt_pkt_all = 0 \<rparr>],
     gc_cmd_on = True, gc_cmd_uplink = ''uplink'', gc_rate_limit_ms = 100, gc_recovery_on = True,
     gc_recovery_tunnel = ''recovery'' \<rparr>"

definition gs_csa_init :: gs_csa where
  "gs_csa_init = \<lparr> gc_phase = CSA_IDLE, gc_sess = 0, gc_t_switch_us = 0, gc_t_revert_us = 0, gc_next_frame_us = 0,
     gc_frames_sent = 0, gc_frames_total = 0, gc_target_chan = 0, gc_target_ht = [], gc_prev_chan = 0, gc_prev_ht = [],
     gc_ifaces = [], gc_baseline_us = 0, gc_baseline_all = 0, gc_baseline_idx = 0, gc_no_revert = False \<rparr>"

definition gs_scan_init :: gs_scan where
  "gs_scan_init = \<lparr> gn_phase = SCAN_IDLE, gn_sess = 0, gn_ifaces = [], gn_chans = [], gn_hts = [], gn_cur_step = 0,
     gn_started_us = 0, gn_dwell_us = 0, gn_baseline_idx = 0, gn_saw_traffic = False, gn_found_chan = 0,
     gn_found_ht = [], gn_hops_done = 0 \<rparr>"

definition gs_init :: "'w \<Rightarrow> 'w gs" where
  "gs_init w = \<lparr> gs_world = w, gs_trace = [], gs_seq = 0, gs_last_send_ms = replicate 17 0, gs_emit_total = 0,
     gs_emit_frames = 0, gs_emit_rate_limit = 0, gs_emit_failed = 0, gs_logsync_total = 0, gs_logsync_next_ms = 0,
     gs_recovery_total = 0, gs_recovery_failed = 0, gs_csa_st = gs_csa_init, gs_csa_seq = 0, gs_csa_fd = False,
     gs_scan_st = gs_scan_init \<rparr>"

theorem wcmd_names_roundtrip_witness:
  "wcmd_key_name (wcmd_key_from_str ''record'') = ''record'' \<and> wcmd_key_from_str (wcmd_key_name 15) = 15"
proof -
  have "wcmd_key_from_str ''record'' \<noteq> - 1" "wcmd_key_name 15 \<noteq> ''?''" by code_simp+
  with wcmd_names_roundtrip [of "''record''" 15] show ?thesis by blast
qed

lemma demo_query: "qs_find (Some ''key=record&value=1'') ''key'' = Some ''record''"
  "cmd_value (Some ''key=record&value=1'') = 1" "wcmd_key_from_str ''record'' = 15"
  "gs_tx_port demo_gs_cfg ''uplink'' = Some 5700" "gs_tx_port demo_gs_cfg ''recovery'' = Some 5702"
  by code_simp+

lemma demo_burst: "send_burst demo_gs_env port bs n le s
    = ((n, le), s\<lparr>gs_world := gs_world s + of_nat n * 1000, gs_trace := gs_trace s @ replicate n (GSent port bs)\<rparr>)"
  by (induction n arbitrary: s)
    (simp_all add: gs_sendto_def demo_gs_env_def Let_def algebra_simps replicate_append_same)

lemma demo_ground_calls:
  "gs_now_ms demo_gs_env s = (gs_world s div 1000, s\<lparr>gs_world := gs_world s + 1000\<rparr>)" "gs_open demo_gs_env s = (0, s)"
  by (simp_all add: gs_now_ms_def gs_now_us_def gs_open_def demo_gs_env_def)


end
