(* ===== verification/GroundHop.thy ===== *)
theory GroundHop
  imports Ground
begin

text \<open>
  Channel hops on the ground: \<open>ground/gs_supervisor_csa.c\<close> (the commit frames, the tick that bursts,
  switches, verifies and reverts), \<open>ground/gs_supervisor_scan.c\<close> (the passive sweep), and the two
  handlers of \<open>ground/gs_supervisor_http.c\<close> that arm them.  The refresh of the interface cache after
  a hop is left out: nothing here reads it.
\<close>

section \<open>Channel switch announcements\<close>

definition GS_CSA_MAX_IFACES :: nat where
  "GS_CSA_MAX_IFACES = 4"

definition IFNAMSIZ :: nat where
  "IFNAMSIZ = 16"

text \<open>The \<open>snprintf\<close> format of \<open>csa_send_commit_frame\<close>, without the newline's NUL.\<close>

definition csa_commit_text :: "u32 \<Rightarrow> u32 \<Rightarrow> int \<Rightarrow> string \<Rightarrow> int \<Rightarrow> int \<Rightarrow> int \<Rightarrow> string \<Rightarrow> string" where
  "csa_commit_text sess seq target target_ht dt t_revert prev prev_ht =
     CHR ''{'' # quoted ''type'' @ CHR '':'' # quoted ''csa_commit'' @ CHR '','' #
     quoted ''ver'' @ '':1,'' @ quoted ''sess'' @ CHR '':'' # show_int (uint sess) @ CHR '','' #
     quoted ''seq'' @ CHR '':'' # show_int (uint seq) @ CHR '','' #
     quoted ''src'' @ CHR '':'' # quoted ''ground'' @ CHR '','' #
     quoted ''target_chan'' @ CHR '':'' # show_int target @ CHR '','' #
     quoted ''target_ht'' @ CHR '':'' # quoted target_ht @ CHR '','' #
     quoted ''dt_to_switch_ms'' @ CHR '':'' # show_int dt @ CHR '','' #
     quoted ''t_revert_ms'' @ CHR '':'' # show_int t_revert @ CHR '','' #
     quoted ''prev_chan'' @ CHR '':'' # show_int prev @ CHR '','' #
     quoted ''prev_ht'' @ CHR '':'' # quoted prev_ht @ CHR ''}'' # [CHR 0x0A]"

definition to_bytes :: "string \<Rightarrow> u8 list" where
  "to_bytes s = map (\<lambda>c. of_char c) s"

definition gs_csa_dt :: "u64 \<Rightarrow> gs_csa \<Rightarrow> int" where
  "gs_csa_dt now h = (if gc_t_switch_us h > now then to_i32 (uint ((gc_t_switch_us h - now) div 1000)) else 0)"

definition gs_csa_revert_ms :: "gs_csa \<Rightarrow> int" where
  "gs_csa_revert_ms h = to_i32 (uint ((gc_t_revert_us h - gc_t_switch_us h) div 1000))"

text \<open>The return code: 0, -1, or an \<open>errno\<close>.  The frame counter advances before the size check.\<close>

definition csa_send_commit_frame :: "'w gs_env \<Rightarrow> gs_config \<Rightarrow> 'w gs \<Rightarrow> int \<times> 'w gs" where
  "csa_send_commit_frame env c s =
     (case gs_tx_port c (gc_cmd_uplink c) of
        None \<Rightarrow> (- 1, s)
      | Some port \<Rightarrow>
          (let (now, s1) = gs_now_us env s; h = gs_csa_st s1;
               text = csa_commit_text (gc_sess h) (gs_csa_seq s1) (gc_target_chan h) (gc_target_ht h)
                        (gs_csa_dt now h) (gs_csa_revert_ms h) (gc_prev_chan h) (gc_prev_ht h);
               s2 = s1\<lparr>gs_csa_seq := gs_csa_seq s1 + 1\<rparr> in
           if 320 \<le> length text then (- 1, s2)
           else let (e, s3) = (if gs_csa_fd s2 then (0, s2) else gs_open env s2) in
             if e \<noteq> 0 then (e, s3)
             else let ((ok, err), s4) = gs_sendto env port (to_bytes text) (s3\<lparr>gs_csa_fd := True\<rparr>)
                  in (if ok then 0 else err, s4)))"

definition csa_pick_rx_tunnel_idx :: "gs_config \<Rightarrow> int" where
  "csa_pick_rx_tunnel_idx c =
     (let is = filter (\<lambda>i. gt_role (gc_tunnels c ! i) = ''rx'') [0..<length (gc_tunnels c)]
      in case is of [] \<Rightarrow> - 1 | i # _ \<Rightarrow> int i)"

definition pkt_all_at :: "gs_config \<Rightarrow> int \<Rightarrow> u32" where
  "pkt_all_at c idx = (if idx \<ge> 0 then gt_pkt_all (gc_tunnels c ! nat idx) else 0)"

definition run_iw_set_channel :: "'w gs_env \<Rightarrow> string \<Rightarrow> int \<Rightarrow> string \<Rightarrow> 'w gs \<Rightarrow> int \<times> 'w gs" where
  "run_iw_set_channel env iface chan ht s =
     (if iface = [] then (- 1, s)
      else let (rc, w) = ge_iw env iface chan ht (gs_world s)
           in (rc, s\<lparr>gs_world := w, gs_trace := gs_trace s @ [GIw iface chan ht]\<rparr>))"

fun run_iw_all :: "'w gs_env \<Rightarrow> string list \<Rightarrow> int \<Rightarrow> string \<Rightarrow> 'w gs \<Rightarrow> 'w gs" where
  "run_iw_all env [] chan ht s = s"
| "run_iw_all env (i # is) chan ht s = run_iw_all env is chan ht (snd (run_iw_set_channel env i chan ht s))"

definition upd_csa :: "(gs_csa \<Rightarrow> gs_csa) \<Rightarrow> 'w gs \<Rightarrow> 'w gs" where
  "upd_csa f s = s\<lparr>gs_csa_st := f (gs_csa_st s)\<rparr>"

definition csa_tick_burst :: "'w gs_env \<Rightarrow> gs_config \<Rightarrow> u64 \<Rightarrow> 'w gs \<Rightarrow> 'w gs" where
  "csa_tick_burst env c t s =
     (let h = gs_csa_st s in
      if gc_phase h = CSA_BURST \<and> t \<ge> gc_next_frame_us h \<and> gc_frames_sent h < gc_frames_total h
      then (let (rc, s1) = csa_send_commit_frame env c s in
            if rc \<noteq> 0 then upd_csa (\<lambda>h. h\<lparr>gc_phase := CSA_IDLE\<rparr>) s1
            else upd_csa (\<lambda>h. let h1 = h\<lparr>gc_frames_sent := gc_frames_sent h + 1, gc_next_frame_us := t + 20000\<rparr>
                              in if gc_frames_sent h1 \<ge> gc_frames_total h1 then h1\<lparr>gc_phase := CSA_ARMED\<rparr> else h1) s1)
      else s)"

definition csa_tick_switch :: "'w gs_env \<Rightarrow> gs_config \<Rightarrow> u64 \<Rightarrow> 'w gs \<Rightarrow> 'w gs" where
  "csa_tick_switch env c t s =
     (let h = gs_csa_st s in
      if gc_phase h = CSA_ARMED \<and> t \<ge> gc_t_switch_us h
      then (let idx = csa_pick_rx_tunnel_idx c;
                s1 = upd_csa (\<lambda>h. h\<lparr>gc_baseline_idx := idx, gc_baseline_all := pkt_all_at c idx, gc_baseline_us := t\<rparr>) s
            in upd_csa (\<lambda>h. h\<lparr>gc_phase := CSA_VERIFY\<rparr>)
                 (run_iw_all env (gc_ifaces h) (gc_target_chan h) (gc_target_ht h) s1))
      else s)"

definition csa_tick_verify :: "'w gs_env \<Rightarrow> gs_config \<Rightarrow> u64 \<Rightarrow> 'w gs \<Rightarrow> 'w gs" where
  "csa_tick_verify env c t s =
     (let h = gs_csa_st s in
      if gc_phase h = CSA_VERIFY \<and> t \<ge> gc_t_revert_us h
      then (let alive = (gc_baseline_idx h \<ge> 0 \<and> pkt_all_at c (gc_baseline_idx h) \<noteq> gc_baseline_all h)
            in upd_csa (\<lambda>h. h\<lparr>gc_phase := CSA_IDLE\<rparr>)
                 (if alive \<or> gc_no_revert h then s
                  else run_iw_all env (gc_ifaces h) (gc_prev_chan h) (gc_prev_ht h) s))
      else s)"

definition gs_csa_tick :: "'w gs_env \<Rightarrow> gs_config \<Rightarrow> u64 \<Rightarrow> 'w gs \<Rightarrow> 'w gs" where
  "gs_csa_tick env c t s = csa_tick_verify env c t (csa_tick_switch env c t (csa_tick_burst env c t s))"

section \<open>Arming a hop\<close>

definition hexnib :: "char \<Rightarrow> int" where
  "hexnib c = (let n = int (of_char c :: nat) in
     if 48 \<le> n \<and> n \<le> 57 then n - 48 else if 97 \<le> n \<and> n \<le> 102 then n - 87
     else if 65 \<le> n \<and> n \<le> 70 then n - 55 else - 1)"

fun qs_pct_decode :: "nat \<Rightarrow> string \<Rightarrow> string" where
  "qs_pct_decode 0 s = []"
| "qs_pct_decode (Suc n) [] = []"
| "qs_pct_decode (Suc n) (c # s) =
     (if n = 0 then []
      else if c = CHR ''%'' \<and> 2 \<le> length s \<and> hexnib (s ! 0) \<ge> 0 \<and> hexnib (s ! 1) \<ge> 0
      then char_of (nat (hexnib (s ! 0) * 16 + hexnib (s ! 1))) # qs_pct_decode n (drop 2 s)
      else c # qs_pct_decode n s)"

text \<open>A decoded argument as the C string in its eight-byte buffer.\<close>

definition ht_arg :: "string \<Rightarrow> string" where
  "ht_arg s = takeWhile (\<lambda>c. c \<noteq> CHR 0x00) (qs_pct_decode 8 s)"

text \<open>The comma-separated interfaces: \<open>None\<close> for an empty or long name; the rest is what the cap left.\<close>

fun gs_iface_list :: "nat \<Rightarrow> string \<Rightarrow> (string list \<times> string) option" where
  "gs_iface_list 0 p = Some ([], p)"
| "gs_iface_list (Suc n) p =
     (if p = [] then Some ([], [])
      else let w = takeWhile (\<lambda>c. c \<noteq> CHR '','') p in
        if w = [] \<or> IFNAMSIZ \<le> length w then None
        else map_option (\<lambda>(ws, r). (w # ws, r)) (gs_iface_list n (tl (dropWhile (\<lambda>c. c \<noteq> CHR '','') p))))"

definition iface_known :: "gs_config \<Rightarrow> string \<Rightarrow> bool" where
  "iface_known c i = list_ex (\<lambda>t. i \<in> set (gt_ifaces t)) (gc_tunnels c)"

definition ht_valid :: "string \<Rightarrow> bool" where
  "ht_valid ht = (ht \<in> {''HT20'', ''HT40+'', ''HT40-''})"

definition or_int :: "int \<Rightarrow> string option \<Rightarrow> string \<Rightarrow> int" where
  "or_int d qs key = (case qs_get_int qs key of None \<Rightarrow> d | Some v \<Rightarrow> v)"

text \<open>The interface argument shared by both handlers: an HTTP status, or the interfaces.\<close>

definition gs_ifaces_arg :: "gs_config \<Rightarrow> string \<Rightarrow> int + string list" where
  "gs_ifaces_arg c istr =
     (case gs_iface_list GS_CSA_MAX_IFACES istr of
        None \<Rightarrow> Inl 400
      | Some (is, rest) \<Rightarrow>
          (if rest \<noteq> [] then Inl 400
           else if is = [] then Inl 400
           else if \<not> list_all (iface_known c) is then Inl 404
           else Inr is))"

definition gs_api_csa :: "'w gs_env \<Rightarrow> gs_config \<Rightarrow> string option \<Rightarrow> 'w gs \<Rightarrow> int \<times> 'w gs" where
  "gs_api_csa env c qs s =
     (if gc_phase (gs_csa_st s) \<noteq> CSA_IDLE then (409, s)
      else if gn_phase (gs_scan_st s) = SCAN_RUNNING then (409, s)
      else let chan = or_int (- 1) qs ''chan'' in
      if qs_get_int qs ''chan'' = None \<or> chan < 1 \<or> chan > 200 then (400, s)
      else case (qs_find qs ''iface'', qs_find qs ''ht'') of
        (Some istr, Some htstr) \<Rightarrow>
          (if istr = [] \<or> htstr = [] \<or> 8 \<le> length htstr then (400, s)
           else case gs_ifaces_arg c istr of
             Inl e \<Rightarrow> (e, s)
           | Inr is \<Rightarrow>
               (let ht = ht_arg htstr in
                if \<not> ht_valid ht then (400, s)
                else let lead = clamp 100 5000 (or_int 500 qs ''lead_ms'');
                         rev = clamp 500 30000 (or_int 3000 qs ''t_revert_ms'');
                         prev = or_int chan qs ''prev_chan'';
                         prev_ht = (case qs_find qs ''prev_ht'' of
                            Some p \<Rightarrow> (if p \<noteq> [] \<and> length p < 8 then ht_arg p else ''HT20'')
                          | None \<Rightarrow> ''HT20'');
                         nrv = (or_int 0 qs ''no_revert'' \<noteq> 0) in
                  if gs_tx_port c (gc_cmd_uplink c) = None then (503, s)
                  else let (t, s1) = gs_now_us env s;
                           t_switch = t + word_of_int lead * 1000
                       in (200, upd_csa (\<lambda>h. h\<lparr>gc_sess := gc_sess h + 1, gc_t_switch_us := t_switch,
                              gc_t_revert_us := t_switch + word_of_int rev * 1000, gc_next_frame_us := t,
                              gc_frames_sent := 0, gc_frames_total := 5, gc_target_chan := chan,
                              gc_target_ht := ht, gc_prev_chan := prev, gc_prev_ht := prev_ht,
                              gc_ifaces := is, gc_no_revert := nrv, gc_phase := CSA_BURST\<rparr>)
                            (s1\<lparr>gs_csa_seq := 0\<rparr>))))
      | _ \<Rightarrow> (400, s))"

section \<open>The scanner\<close>

definition SCAN_MAX_STEPS :: nat where
  "SCAN_MAX_STEPS = 32"

definition upd_scan :: "(gs_scan \<Rightarrow> gs_scan) \<Rightarrow> 'w gs \<Rightarrow> 'w gs" where
  "upd_scan f s = s\<lparr>gs_scan_st := f (gs_scan_st s)\<rparr>"

definition gn_count :: "gs_scan \<Rightarrow> int" where
  "gn_count n = int (length (gn_chans n))"

definition scan_apply_step_drained :: "'w gs_env \<Rightarrow> gs_config \<Rightarrow> int \<Rightarrow> 'w gs \<Rightarrow> 'w gs" where
  "scan_apply_step_drained env c i s =
     (let n = gs_scan_st s in
      if i < 0 \<or> i \<ge> gn_count n then s
      else let s1 = run_iw_all env (gn_ifaces n) (gn_chans n ! nat i) (gn_hts n ! nat i) s;
               s2 = upd_scan (\<lambda>n. n\<lparr>gn_cur_step := i, gn_saw_traffic := False\<rparr>) s1;
               s3 = (if gn_baseline_idx n \<ge> 0 then s2\<lparr>gs_world := ge_drain env (gn_baseline_idx n) (gs_world s2)\<rparr> else s2);
               (t, s4) = gs_now_us env s3
           in upd_scan (\<lambda>n. n\<lparr>gn_started_us := t\<rparr>) s4)"

definition scan_tick :: "'w gs_env \<Rightarrow> gs_config \<Rightarrow> u64 \<Rightarrow> 'w gs \<Rightarrow> 'w gs" where
  "scan_tick env c t s =
     (let n = gs_scan_st s in
      if gn_phase n \<noteq> SCAN_RUNNING then s
      else if t < gn_started_us n + gn_dwell_us n then s
      else let s1 = upd_scan (\<lambda>n. n\<lparr>gn_hops_done := gn_hops_done n + 1\<rparr>) s in
        if gn_saw_traffic n
        then upd_scan (\<lambda>n. n\<lparr>gn_found_chan := gn_chans n ! nat (gn_cur_step n),
                             gn_found_ht := gn_hts n ! nat (gn_cur_step n), gn_phase := SCAN_FOUND\<rparr>) s1
        else if gn_cur_step n + 1 \<ge> gn_count n then upd_scan (\<lambda>n. n\<lparr>gn_phase := SCAN_STOPPED\<rparr>) s1
        else upd_scan (\<lambda>n. n\<lparr>gn_saw_traffic := False\<rparr>)
               (scan_apply_step_drained env c (gn_cur_step n + 1) s1))"

text \<open>A token of the channel list has at most seven characters; the character after it is skipped.\<close>

fun gs_chan_list :: "nat \<Rightarrow> string \<Rightarrow> (int list \<times> string) option" where
  "gs_chan_list 0 p = Some ([], p)"
| "gs_chan_list (Suc n) p =
     (if p = [] then Some ([], [])
      else let w = take 7 (takeWhile (\<lambda>c. c \<noteq> CHR '','') p) in
        if w = [] then None
        else case strtol w of
          None \<Rightarrow> None
        | Some (ch, r) \<Rightarrow>
            (if ch < 1 \<or> ch > 200 then None
             else map_option (\<lambda>(cs, r). (ch # cs, r)) (gs_chan_list n (tl (drop (length w) p)))))"

fun gs_ht_list :: "nat \<Rightarrow> string \<Rightarrow> string list option" where
  "gs_ht_list 0 p = Some []"
| "gs_ht_list (Suc n) p =
     (if p = [] then Some []
      else let w = takeWhile (\<lambda>c. c \<noteq> CHR '','') p in
        if w = [] \<or> 8 \<le> length w then None
        else map_option (\<lambda>hs. ht_arg w # hs) (gs_ht_list n (tl (dropWhile (\<lambda>c. c \<noteq> CHR '','') p))))"

text \<open>The bandwidths of the steps: \<open>hts\<close> per step or repeated, else \<open>ht\<close>, else HT20.\<close>

definition gs_scan_hts :: "nat \<Rightarrow> string option \<Rightarrow> string list option" where
  "gs_scan_hts steps qs =
     (case qs_find qs ''hts'' of
        Some (h # hs) \<Rightarrow>
          (case gs_ht_list SCAN_MAX_STEPS (h # hs) of
             None \<Rightarrow> None
           | Some ws \<Rightarrow> (if length ws = 1 \<and> steps > 1 then Some (replicate steps (hd ws))
                        else if length ws \<noteq> steps then None else Some ws))
      | _ \<Rightarrow>
          (case qs_find qs ''ht'' of
             Some w \<Rightarrow> Some (replicate steps (if w \<noteq> [] \<and> length w < 8 then ht_arg w else ''HT20''))
           | None \<Rightarrow> Some (replicate steps ''HT20'')))"

definition gs_api_scan :: "'w gs_env \<Rightarrow> gs_config \<Rightarrow> string option \<Rightarrow> 'w gs \<Rightarrow> int \<times> 'w gs" where
  "gs_api_scan env c qs s =
     (if gc_phase (gs_csa_st s) \<noteq> CSA_IDLE then (409, s)
      else if gn_phase (gs_scan_st s) = SCAN_RUNNING then (409, s)
      else case (qs_find qs ''iface'', qs_find qs ''chans'') of
        (Some istr, Some cstr) \<Rightarrow>
          (if istr = [] \<or> cstr = [] then (400, s)
           else case gs_ifaces_arg c istr of
             Inl e \<Rightarrow> (e, s)
           | Inr is \<Rightarrow>
               (case gs_chan_list SCAN_MAX_STEPS cstr of
                  None \<Rightarrow> (400, s)
                | Some (chans, rest) \<Rightarrow>
                    (if rest \<noteq> [] \<or> chans = [] then (400, s)
                     else case gs_scan_hts (length chans) qs of
                       None \<Rightarrow> (400, s)
                     | Some hts \<Rightarrow>
                         (if \<not> list_all ht_valid hts then (400, s)
                          else let dwell = clamp 100 10000 (or_int 600 qs ''dwell_ms'') in
                            (200, scan_apply_step_drained env c 0
                               (s\<lparr>gs_scan_st := \<lparr> gn_phase = SCAN_RUNNING, gn_sess = 1, gn_ifaces = is,
                                   gn_chans = chans, gn_hts = hts, gn_cur_step = 0, gn_started_us = 0,
                                   gn_dwell_us = word_of_int dwell * 1000,
                                   gn_baseline_idx = csa_pick_rx_tunnel_idx c, gn_saw_traffic = False,
                                   gn_found_chan = - 1, gn_found_ht = [], gn_hops_done = 0 \<rparr>\<rparr>))))))
      | _ \<Rightarrow> (400, s))"

definition gs_api_scan_cancel :: "'w gs \<Rightarrow> int \<times> 'w gs" where
  "gs_api_scan_cancel s =
     (if gn_phase (gs_scan_st s) \<noteq> SCAN_RUNNING then (200, s)
      else (200, upd_scan (\<lambda>n. n\<lparr>gn_phase := SCAN_STOPPED\<rparr>) s))"

text \<open>
  The scanner's part of \<open>stats_drain\<close>: a sample with packets on a receive tunnel counts, except in the
  first 200 ms of a dwell.
\<close>

definition scan_sample :: "u32 \<Rightarrow> string \<Rightarrow> u64 \<Rightarrow> 'w gs \<Rightarrow> 'w gs" where
  "scan_sample uniq role now s =
     (let n = gs_scan_st s in
      if uniq > 0 \<and> gn_phase n = SCAN_RUNNING \<and> role = ''rx'' \<and> now \<ge> gn_started_us n + 200000
      then upd_scan (\<lambda>n. n\<lparr>gn_saw_traffic := True\<rparr>) s else s)"

section \<open>Hops and frames\<close>

definition hop_events :: "string list \<Rightarrow> int \<Rightarrow> string \<Rightarrow> gs_event list" where
  "hop_events is chan ht = map (\<lambda>i. GIw i chan ht) (filter (\<lambda>i. i \<noteq> []) is)"

lemma upd_fields [simp]:
  "gs_trace (upd_csa f s) = gs_trace s" "gs_trace (upd_scan g s) = gs_trace s"
  "gs_csa_st (upd_csa f s) = f (gs_csa_st s)" "gs_csa_st (upd_scan g s) = gs_csa_st s"
  "gs_scan_st (upd_csa f s) = gs_scan_st s" "gs_scan_st (upd_scan g s) = g (gs_scan_st s)"
  by (simp_all add: upd_csa_def upd_scan_def)

lemma run_iw_all_effect:
  "gs_trace (run_iw_all env is ch ht s) = gs_trace s @ hop_events is ch ht
   \<and> gs_csa_st (run_iw_all env is ch ht s) = gs_csa_st s \<and> gs_scan_st (run_iw_all env is ch ht s) = gs_scan_st s"
  by (induction "is" arbitrary: s)
    (auto simp: run_iw_set_channel_def hop_events_def split: prod.splits)

lemma run_iw_all_fields [simp]:
  "gs_trace (run_iw_all env is ch ht s) = gs_trace s @ hop_events is ch ht"
  "gs_csa_st (run_iw_all env is ch ht s) = gs_csa_st s" "gs_scan_st (run_iw_all env is ch ht s) = gs_scan_st s"
  using run_iw_all_effect by blast+

lemma scan_apply_effect:
  assumes "0 \<le> i" "i < gn_count (gs_scan_st s)"
  shows "gs_trace (scan_apply_step_drained env c i s) = gs_trace s @ hop_events (gn_ifaces (gs_scan_st s))
           (gn_chans (gs_scan_st s) ! nat i) (gn_hts (gs_scan_st s) ! nat i)"
    and "\<exists>t. gs_scan_st (scan_apply_step_drained env c i s)
           = (gs_scan_st s)\<lparr>gn_cur_step := i, gn_saw_traffic := False, gn_started_us := t\<rparr>"
  using assms
  by (auto simp: scan_apply_step_drained_def Let_def gs_now_us_def split: prod.splits if_splits)

section \<open>Runs of the scanner\<close>

datatype scan_event = ScanTick u64 | ScanSample u32 string u64

fun scan_step :: "'w gs_env \<Rightarrow> gs_config \<Rightarrow> 'w gs \<Rightarrow> scan_event \<Rightarrow> 'w gs" where
  "scan_step env c s (ScanTick t) = scan_tick env c t s"
| "scan_step env c s (ScanSample u r now) = scan_sample u r now s"

fun dwell_over :: "gs_scan \<Rightarrow> scan_event \<Rightarrow> bool" where
  "dwell_over n (ScanTick t) = (gn_phase n = SCAN_RUNNING \<and> \<not> t < gn_started_us n + gn_dwell_us n)"
| "dwell_over n (ScanSample u r now) = False"

fun dwells_over :: "'w gs_env \<Rightarrow> gs_config \<Rightarrow> 'w gs \<Rightarrow> scan_event list \<Rightarrow> nat" where
  "dwells_over env c s [] = 0"
| "dwells_over env c s (e # es) = (if dwell_over (gs_scan_st s) e then 1 else 0) + dwells_over env c (scan_step env c s e) es"

definition scan_left :: "gs_scan \<Rightarrow> nat" where
  "scan_left n = (if gn_phase n = SCAN_RUNNING then nat (gn_count n - gn_cur_step n) else 0)"

definition scan_valid :: "gs_scan \<Rightarrow> bool" where
  "scan_valid n = (0 \<le> gn_cur_step n \<and> gn_cur_step n < gn_count n \<and> length (gn_hts n) = length (gn_chans n))"

definition step_hops :: "gs_scan \<Rightarrow> nat \<Rightarrow> gs_event list" where
  "step_hops n i = hop_events (gn_ifaces n) (gn_chans n ! i) (gn_hts n ! i)"

definition same_plan :: "gs_scan \<Rightarrow> gs_scan \<Rightarrow> bool" where
  "same_plan n m = (gn_ifaces m = gn_ifaces n \<and> gn_chans m = gn_chans n \<and> gn_hts m = gn_hts n)"

text \<open>One event: it moves at most to the next step, tuning to it, and a dwell that is over always moves on.\<close>

lemma scan_step_effect:
  fixes env :: "'w gs_env" and c :: gs_config and e :: scan_event
  assumes "scan_valid (gs_scan_st s)"
  defines "n \<equiv> gs_scan_st s" and "m \<equiv> gs_scan_st (scan_step env c s e)"
  shows "scan_valid m" "same_plan n m"
    "scan_left m + (if dwell_over n e then 1 else 0) \<le> scan_left n"
    "(gn_cur_step m = gn_cur_step n \<and> gs_trace (scan_step env c s e) = gs_trace s)
     \<or> (gn_cur_step m = gn_cur_step n + 1 \<and> gs_trace (scan_step env c s e) = gs_trace s @ step_hops n (nat (gn_cur_step n + 1)))"
proof -
  have "scan_valid m \<and> same_plan n m \<and> scan_left m + (if dwell_over n e then 1 else 0) \<le> scan_left n
    \<and> ((gn_cur_step m = gn_cur_step n \<and> gs_trace (scan_step env c s e) = gs_trace s)
     \<or> (gn_cur_step m = gn_cur_step n + 1 \<and> gs_trace (scan_step env c s e) = gs_trace s @ step_hops n (nat (gn_cur_step n + 1))))"
  proof (cases e)
    case (ScanSample u r now)
    then show ?thesis using assms
      by (auto simp: scan_sample_def Let_def scan_valid_def same_plan_def scan_left_def gn_count_def)
  next
    case (ScanTick t)
    let ?s1 = "upd_scan (\<lambda>n. n\<lparr>gn_hops_done := gn_hops_done n + 1\<rparr>) s"
    consider (idle) "gn_phase n \<noteq> SCAN_RUNNING" | (early) "gn_phase n = SCAN_RUNNING" "t < gn_started_us n + gn_dwell_us n"
      | (stop) "gn_phase n = SCAN_RUNNING" "\<not> t < gn_started_us n + gn_dwell_us n"
          "gn_saw_traffic n \<or> gn_count n \<le> gn_cur_step n + 1"
      | (nxt) "gn_phase n = SCAN_RUNNING" "\<not> t < gn_started_us n + gn_dwell_us n"
          "\<not> gn_saw_traffic n" "gn_cur_step n + 1 < gn_count n" by fastforce
    then show ?thesis
    proof cases
      case nxt
      have v: "0 \<le> gn_cur_step n + 1" "gn_cur_step n + 1 < gn_count (gs_scan_st ?s1)"
        using assms(1) nxt(4) by (auto simp: scan_valid_def n_def gn_count_def)
      obtain t' where a: "gs_scan_st (scan_apply_step_drained env c (gn_cur_step n + 1) ?s1)
          = (gs_scan_st ?s1)\<lparr>gn_cur_step := gn_cur_step n + 1, gn_saw_traffic := False, gn_started_us := t'\<rparr>"
        using scan_apply_effect(2) [OF v] by blast
      have "scan_step env c s e = upd_scan (\<lambda>n. n\<lparr>gn_saw_traffic := False\<rparr>) (scan_apply_step_drained env c (gn_cur_step n + 1) ?s1)"
        using nxt ScanTick by (simp add: scan_tick_def n_def [symmetric] Let_def)
      then show ?thesis using a scan_apply_effect(1) [OF v] assms(1) nxt ScanTick
        by (auto simp: scan_valid_def same_plan_def scan_left_def gn_count_def m_def n_def step_hops_def)
    qed (use assms ScanTick in \<open>auto simp: scan_tick_def Let_def scan_valid_def same_plan_def scan_left_def gn_count_def\<close>)
  qed
  then show "scan_valid m" "same_plan n m" "scan_left m + (if dwell_over n e then 1 else 0) \<le> scan_left n"
    "(gn_cur_step m = gn_cur_step n \<and> gs_trace (scan_step env c s e) = gs_trace s)
     \<or> (gn_cur_step m = gn_cur_step n + 1 \<and> gs_trace (scan_step env c s e) = gs_trace s @ step_hops n (nat (gn_cur_step n + 1)))"
    by auto
qed

lemma scan_run_effect:
  assumes "scan_valid (gs_scan_st s)" "s' = foldl (scan_step env c) s es"
  shows "dwells_over env c s es + scan_left (gs_scan_st s') \<le> scan_left (gs_scan_st s)
     \<and> scan_valid (gs_scan_st s') \<and> same_plan (gs_scan_st s) (gs_scan_st s')
     \<and> gn_cur_step (gs_scan_st s) \<le> gn_cur_step (gs_scan_st s')
     \<and> gs_trace s' = gs_trace s @ concat (map (step_hops (gs_scan_st s))
          [nat (gn_cur_step (gs_scan_st s)) + 1..<nat (gn_cur_step (gs_scan_st s')) + 1])"
  using assms
proof (induction es arbitrary: s)
  case Nil
  then show ?case by (simp add: same_plan_def)
next
  case (Cons e es)
  let ?m = "scan_step env c s e"
  note st = scan_step_effect [OF Cons.prems(1), of env c e]
  from Cons.IH [OF st(1)] Cons.prems(2) have ih:
    "dwells_over env c ?m es + scan_left (gs_scan_st s') \<le> scan_left (gs_scan_st ?m)"
    "scan_valid (gs_scan_st s')" "same_plan (gs_scan_st ?m) (gs_scan_st s')"
    "gn_cur_step (gs_scan_st ?m) \<le> gn_cur_step (gs_scan_st s')"
    "gs_trace s' = gs_trace ?m @ concat (map (step_hops (gs_scan_st ?m))
          [nat (gn_cur_step (gs_scan_st ?m)) + 1..<nat (gn_cur_step (gs_scan_st s')) + 1])"
    by auto
  have h: "step_hops (gs_scan_st ?m) = step_hops (gs_scan_st s)"
    using st(2) by (auto simp: step_hops_def same_plan_def)
  have z: "0 \<le> gn_cur_step (gs_scan_st s)" using Cons.prems(1) by (simp add: scan_valid_def)
  have sp: "same_plan (gs_scan_st s) (gs_scan_st s')" using st(2) ih(3) by (simp add: same_plan_def)
  have dl: "dwells_over env c s (e # es) + scan_left (gs_scan_st s') \<le> scan_left (gs_scan_st s)"
    using st(3) ih(1) by (simp split: if_splits)
  from st(4) show ?case
  proof
    assume "gn_cur_step (gs_scan_st ?m) = gn_cur_step (gs_scan_st s) \<and> gs_trace ?m = gs_trace s"
    then show ?thesis using ih sp dl h by simp
  next
    assume m: "gn_cur_step (gs_scan_st ?m) = gn_cur_step (gs_scan_st s) + 1 \<and>
      gs_trace ?m = gs_trace s @ step_hops (gs_scan_st s) (nat (gn_cur_step (gs_scan_st s) + 1))"
    define a b where "a = nat (gn_cur_step (gs_scan_st s))" and "b = nat (gn_cur_step (gs_scan_st s'))"
    have "a + 1 \<le> b" and a1: "nat (gn_cur_step (gs_scan_st s) + 1) = a + 1"
      using m ih(4) z unfolding a_def b_def by linarith+
    then have "[a + 1..<b + 1] = (a + 1) # [a + 1 + 1..<b + 1]" by (subst upt_conv_Cons) simp_all
    then show ?thesis using m ih sp dl h unfolding a_def [symmetric] b_def [symmetric] by (simp add: a1 del: upt_Suc)
  qed
qed

section \<open>Properties\<close>

text \<open>C9: a sweep ends.  Once a scan request is accepted, with any ticks and traffic samples at any times:
  no more dwells can expire than there are steps, and when that many have expired the scan has
  stopped; the interfaces are tuned to the steps in the order given, each once, and nothing else.\<close>

theorem scan_terminates:
  assumes "gs_api_scan env c qs s = (200, s1)"
  shows "let n = gs_scan_st s1; s2 = foldl (scan_step env c) s1 es; k = nat (gn_cur_step (gs_scan_st s2)) in
     dwells_over env c s1 es \<le> length (gn_chans n)
     \<and> (dwells_over env c s1 es = length (gn_chans n) \<longrightarrow> gn_phase (gs_scan_st s2) \<noteq> SCAN_RUNNING)
     \<and> k < length (gn_chans n)
     \<and> gs_trace s2 = gs_trace s @ concat (map (step_hops n) [0..<k + 1])"
proof -
  obtain plan where p: "scan_valid plan" "gn_cur_step plan = 0" "gn_phase plan = SCAN_RUNNING"
    "s1 = scan_apply_step_drained env c 0 (s\<lparr>gs_scan_st := plan\<rparr>)"
  proof -
    from assms obtain n chans rest hts ifs where
      "gs_chan_list SCAN_MAX_STEPS n = Some (chans, rest)" "chans \<noteq> []" "gs_scan_hts (length chans) qs = Some hts"
      and e: "s1 = scan_apply_step_drained env c 0 (s\<lparr>gs_scan_st := \<lparr> gn_phase = SCAN_RUNNING, gn_sess = 1, gn_ifaces = ifs,
                                   gn_chans = chans, gn_hts = hts, gn_cur_step = 0, gn_started_us = 0,
                                   gn_dwell_us = word_of_int (clamp 100 10000 (or_int 600 qs ''dwell_ms'')) * 1000,
                                   gn_baseline_idx = csa_pick_rx_tunnel_idx c, gn_saw_traffic = False,
                                   gn_found_chan = - 1, gn_found_ht = [], gn_hops_done = 0 \<rparr>\<rparr>)"
      by (auto simp: gs_api_scan_def Let_def gs_ifaces_arg_def split: if_splits option.splits sum.splits prod.splits)
    moreover from this have "length hts = length chans"
      by (auto simp: gs_scan_hts_def split: option.splits list.splits if_splits)
    ultimately show thesis by (intro that [OF _ _ _ e]) (simp_all add: scan_valid_def gn_count_def)
  qed
  let ?s0 = "s\<lparr>gs_scan_st := plan\<rparr>"
  have c: "0 < gn_count (gs_scan_st ?s0)" using p(1,2) by (simp add: scan_valid_def)
  obtain t where a: "gs_scan_st s1 = plan\<lparr>gn_cur_step := 0, gn_saw_traffic := False, gn_started_us := t\<rparr>"
    using scan_apply_effect(2) [OF _ c, of env c] p(4) by auto
  have tr: "gs_trace s1 = gs_trace s @ step_hops (gs_scan_st s1) 0"
  proof -
    have "gs_trace s1 = gs_trace s @ hop_events (gn_ifaces plan) (gn_chans plan ! 0) (gn_hts plan ! 0)"
      using scan_apply_effect(1) [OF _ c, of env c] p(4) by simp
    then show ?thesis unfolding step_hops_def a by simp
  qed
  have v: "scan_valid (gs_scan_st s1)" using p(1,2) by (simp add: a scan_valid_def gn_count_def)
  have l: "scan_left (gs_scan_st s1) = length (gn_chans (gs_scan_st s1))"
    using p(2,3) by (simp add: a scan_left_def gn_count_def)
  define s2 where "s2 = foldl (scan_step env c) s1 es"
  define k where "k = nat (gn_cur_step (gs_scan_st s2))"
  have r: "dwells_over env c s1 es + scan_left (gs_scan_st s2) \<le> length (gn_chans (gs_scan_st s1))"
    "scan_valid (gs_scan_st s2)" "gn_chans (gs_scan_st s2) = gn_chans (gs_scan_st s1)"
    "gs_trace s2 = gs_trace s1 @ concat (map (step_hops (gs_scan_st s1)) [1..<k + 1])"
    using scan_run_effect [OF v s2_def] l
    by (simp_all add: k_def same_plan_def) (simp_all add: a)
  have "gn_phase (gs_scan_st s2) = SCAN_RUNNING \<Longrightarrow> 0 < scan_left (gs_scan_st s2)"
    using r(2) by (simp add: scan_left_def scan_valid_def)
  moreover have "k < length (gn_chans (gs_scan_st s1))"
    using r(2,3) by (auto simp: scan_valid_def gn_count_def k_def)
  moreover have "[0..<k + 1] = 0 # [1..<k + 1]" by (simp add: upt_rec)
  then have "gs_trace s2 = gs_trace s @ concat (map (step_hops (gs_scan_st s1)) [0..<k + 1])"
    using r(4) tr by simp
  ultimately show ?thesis using r(1) by (auto simp: Let_def s2_def [symmetric] k_def [symmetric])
qed

lemma demo_scan_parts:
  "qs_find (Some ''iface=wlan0&chans=36,40'') ''iface'' = Some ''wlan0''"
  "qs_find (Some ''iface=wlan0&chans=36,40'') ''chans'' = Some ''36,40''"
  "gs_ifaces_arg demo_gs_cfg ''wlan0'' = Inr [''wlan0'']"
  "gs_chan_list SCAN_MAX_STEPS ''36,40'' = Some ([36, 40], [])"
  "gs_scan_hts (length [36 :: int, 40]) (Some ''iface=wlan0&chans=36,40'') = Some [''HT20'', ''HT20'']" "ht_valid ''HT20''"
  by code_simp+

lemma gs_init_idle [simp]:
  "gc_phase (gs_csa_st (gs_init w)) = CSA_IDLE" "gn_phase (gs_scan_st (gs_init w)) = SCAN_IDLE"
  by (simp_all add: gs_init_def gs_csa_init_def gs_scan_init_def)

theorem scan_terminates_witness:
  "\<exists>s1. gs_api_scan demo_gs_env demo_gs_cfg (Some ''iface=wlan0&chans=36,40'') (gs_init 0) = (200, s1)
     \<and> dwells_over demo_gs_env demo_gs_cfg s1 [ScanTick 700000, ScanTick 1400000, ScanTick 2100000] \<le> length (gn_chans (gs_scan_st s1))
     \<and> GIw ''wlan0'' (gn_chans (gs_scan_st s1) ! 0) (gn_hts (gs_scan_st s1) ! 0) \<in> set (gs_trace
           (foldl (scan_step demo_gs_env demo_gs_cfg) s1 [ScanTick 700000, ScanTick 1400000, ScanTick 2100000]))"
proof -
  obtain s1 where r: "gs_api_scan demo_gs_env demo_gs_cfg (Some ''iface=wlan0&chans=36,40'') (gs_init 0) = (200, s1)"
    and i: "gn_ifaces (gs_scan_st s1) = [''wlan0'']"
  proof -
    let ?plan = "\<lparr> gn_phase = SCAN_RUNNING, gn_sess = 1, gn_ifaces = [''wlan0''], gn_chans = [36, 40],
        gn_hts = [''HT20'', ''HT20''], gn_cur_step = 0, gn_started_us = 0,
        gn_dwell_us = word_of_int (clamp 100 10000 (or_int 600 (Some ''iface=wlan0&chans=36,40'') ''dwell_ms'')) * 1000,
        gn_baseline_idx = csa_pick_rx_tunnel_idx demo_gs_cfg, gn_saw_traffic = False,
        gn_found_chan = - 1, gn_found_ht = [], gn_hops_done = 0 \<rparr>"
    let ?s1 = "scan_apply_step_drained demo_gs_env demo_gs_cfg 0 ((gs_init 0)\<lparr>gs_scan_st := ?plan\<rparr>)"
    have "gs_api_scan demo_gs_env demo_gs_cfg (Some ''iface=wlan0&chans=36,40'') (gs_init 0) = (200, ?s1)"
      by (simp add: gs_api_scan_def demo_scan_parts Let_def del: length_Cons list.size)
    moreover have "gn_ifaces (gs_scan_st ?s1) = [''wlan0'']"
      using scan_apply_effect(2) [of 0 "(gs_init 0)\<lparr>gs_scan_st := ?plan\<rparr>" demo_gs_env demo_gs_cfg]
      by (auto simp: gn_count_def)
    ultimately show thesis by (rule that)
  qed
  define es where "es = [ScanTick 700000, ScanTick 1400000, ScanTick 2100000]"
  have u: "[0..<m + 1] = 0 # [1..<m + 1]" for m by (simp add: upt_rec)
  have "GIw ''wlan0'' (gn_chans (gs_scan_st s1) ! 0) (gn_hts (gs_scan_st s1) ! 0) \<in> set (step_hops (gs_scan_st s1) 0)"
    by (simp add: step_hops_def hop_events_def i)
  with scan_terminates [OF r, of es] r show ?thesis
    unfolding es_def [symmetric] Let_def by (intro exI [of _ s1]) (auto simp: u simp del: upt_Suc)
qed

end
