(* ===== verification/GroundTunnel.thy ===== *)
theory GroundTunnel
  imports GroundHop SysEnv LinkConfig
begin

text \<open>
  The supervisor's processes (\<open>ground/gs_supervisor.c\<close>, \<open>ground/gs_supervisor_http.c\<close>): the \<open>wfb_rx\<close> and \<open>wfb_tx\<close> child
  of each tunnel is started, watched, restarted with a growing back-off, stopped and killed; the system commands and the
  interface check around them; the routes that drive it.

  The outside is \<open>'w sup_env\<close>.  \<open>se_listen\<close>: the stats socket's port.  \<open>se_fork\<close>: fork and exec of an argument
  vector, a positive pid or a failure.  \<open>se_kill\<close>: \<open>kill()\<close> returned 0.  \<open>se_reap\<close>: what the successive
  \<open>waitpid(-1, WNOHANG)\<close> of one drain return.  \<open>se_waitpid\<close>: the blocking wait.  \<open>se_sleep\<close>: milliseconds.  \<open>se_system\<close>: a
  command's exit code awaited with its deadline, \<open>- 1\<close> when the fork failed.  \<open>se_iface_ready\<close>: up and in monitor mode.  \<open>se_ifaces\<close>: the interface
  cache queries \<open>iw\<close>.  \<open>se_ctrl\<close>: one numbered request to a control port, \<open>None\<close> when it was not sent, the reply
  otherwise, empty on a timeout.
\<close>

section \<open>Environment and state\<close>

record 'w sup_env =
  se_gs :: "'w gs_env"
  se_listen :: "'w \<Rightarrow> int option \<times> 'w"
  se_fork :: "string list \<Rightarrow> 'w \<Rightarrow> int \<times> 'w"
  se_kill :: "int \<Rightarrow> int \<Rightarrow> 'w \<Rightarrow> bool \<times> 'w"
  se_reap :: "'w \<Rightarrow> (int \<times> int) list \<times> 'w"
  se_waitpid :: "int \<Rightarrow> 'w \<Rightarrow> 'w"
  se_sleep :: "nat \<Rightarrow> 'w \<Rightarrow> 'w"
  se_system :: "string list \<Rightarrow> 'w \<Rightarrow> int \<times> 'w"
  se_iface_ready :: "string \<Rightarrow> 'w \<Rightarrow> bool \<times> 'w"
  se_ifaces :: "'w \<Rightarrow> 'w"
  se_ctrl :: "int \<Rightarrow> u32 \<Rightarrow> cmd_body \<Rightarrow> 'w \<Rightarrow> u8 list option \<times> 'w"

datatype tunnel_state = TS_STOPPED | TS_STARTING | TS_RUNNING | TS_BACKOFF | TS_FAILED

text \<open>A tunnel's process; the deadline of a pending stop and the time of the first control query are 0 for none.\<close>

record tun_proc =
  tp_state :: tunnel_state
  tp_pid :: int
  tp_started_us :: u64
  tp_exited_us :: u64
  tp_exit_code :: int
  tp_restart_count :: int
  tp_backoff_idx :: int
  tp_next_start_ms :: u64
  tp_autostart_on_exit :: bool
  tp_stop_deadline_ms :: u64
  tp_init_query_us :: u64

record tun_radio =
  tr_fec_k :: int
  tr_fec_n :: int
  tr_fec_timeout_ms :: int
  tr_stbc :: int
  tr_ldpc :: int
  tr_short_gi :: int
  tr_bandwidth :: int
  tr_mcs :: int
  tr_vht_mode :: int
  tr_vht_nss :: int
  tr_radio_have :: bool
  tr_fec_have :: bool
  tr_radio_us :: u64

text \<open>The stats listener: open, the \<open>host:port\<close> given to \<open>-Y\<close>, and the parsed forward and tap addresses.\<close>

record tun_listen =
  tl_open :: bool
  tl_arg :: string
  tl_fwd :: "(string \<times> int) option"
  tl_tap :: "(string \<times> int) option"

record tun_stats =
  ts_first_us :: u64
  ts_last_us :: u64
  ts_interval_ms :: u32
  ts_msgs :: u32
  ts_lost :: u32
  ts_fec :: u32
  ts_outgoing :: u32
  ts_dec_err :: u32
  ts_bytes :: u32
  ts_uniq :: u32
  ts_ant_count :: int
  ts_rssi_best :: int
  ts_mcs_win :: "u32 list list"
  ts_mcs_win_sec :: "u64 list"
  ts_tx :: "u32 list"

text \<open>The PER window of a probe tunnel: per received MCS the packets, the losses and the best RSSI.\<close>

record probe_acc =
  pa_start_us :: u64
  pa_buckets :: "(u32 \<times> u32 \<times> int) list"
  pa_emits :: u32
  pa_drops :: u32

text \<open>The rest of \<open>Tunnel\<close>; \<open>st_pkt_all\<close> is \<open>gt_pkt_all\<close>.\<close>

record tunnel = gs_tunnel +
  tn_binary :: string
  tn_link_id :: int
  tn_radio_port :: int
  tn_udp_out_ip :: string
  tn_udp_out_port :: int
  tn_stats_out :: string
  tn_stats_tap :: string
  tn_probe :: bool
  tn_probe_window_ms :: int
  tn_control_port :: int
  tn_extra_args :: "string list"
  tn_keyless :: bool
  tn_autostart :: bool
  tn_proc :: tun_proc
  tn_radio :: tun_radio
  tn_listen :: tun_listen
  tn_stats :: tun_stats
  tn_acc :: probe_acc

datatype system_state = SYS_DOWN | SYS_UP | SYS_UP_FAILED

datatype sup_event = SpSpawn int "string list" | SpKill int int | SpSystem "string list" | SpCtrl int cmd_body

text \<open>What a call outside changes: the world, the control request number, and the trace of process events.\<close>

record 'w osys =
  os_world :: 'w
  os_req_id :: u32
  os_trace :: "sup_event list"

record 'w sup =
  su_os :: "'w osys"
  su_tunnels :: "tunnel list"
  su_key_file :: string
  su_up :: "string list"
  su_down :: "string list"
  su_system :: system_state
  su_gs :: "'w gs"

definition INT_MIN :: int where
  "INT_MIN = - 2147483648"

definition GS_BACKOFF_MS :: "u64 list" where
  "GS_BACKOFF_MS = [500, 1000, 2000, 4000, 8000, 16000, 30000]"

definition GS_BACKOFF_LEN :: int where
  "GS_BACKOFF_LEN = 7"

definition GS_STOP_GRACE_MS :: u64 where
  "GS_STOP_GRACE_MS = 1500"

definition GS_ARGV_MAX :: nat where
  "GS_ARGV_MAX = 64"

definition GS_ARGV_BUF :: nat where
  "GS_ARGV_BUF = 1536"

definition GS_SYSTEM_CMD_MAX_ARGV :: nat where
  "GS_SYSTEM_CMD_MAX_ARGV = 32"

definition SIGTERM :: int where
  "SIGTERM = 15"

definition SIGKILL :: int where
  "SIGKILL = 9"

definition upd_os :: "('w \<Rightarrow> 'w) \<Rightarrow> 'w osys \<Rightarrow> 'w osys" where
  "upd_os f s = s\<lparr>os_world := f (os_world s)\<rparr>"

definition os_now_us :: "'w sup_env \<Rightarrow> 'w osys \<Rightarrow> u64 \<times> 'w osys" where
  "os_now_us env s = (let (t, w) = ge_clock (se_gs env) (os_world s) in (t, s\<lparr>os_world := w\<rparr>))"

definition os_now_ms :: "'w sup_env \<Rightarrow> 'w osys \<Rightarrow> u64 \<times> 'w osys" where
  "os_now_ms env s = (let (t, s') = os_now_us env s in (t div 1000, s'))"

definition os_kill :: "'w sup_env \<Rightarrow> int \<Rightarrow> int \<Rightarrow> 'w osys \<Rightarrow> bool \<times> 'w osys" where
  "os_kill env pid sig s =
     (let (ok, w) = se_kill env pid sig (os_world s)
      in (ok, s\<lparr>os_world := w, os_trace := os_trace s @ [SpKill pid sig]\<rparr>))"

definition upd_proc :: "(tun_proc \<Rightarrow> tun_proc) \<Rightarrow> tunnel \<Rightarrow> tunnel" where
  "upd_proc f t = t\<lparr>tn_proc := f (tn_proc t)\<rparr>"

section \<open>Argument vectors\<close>

text \<open>\<open>ab_push\<close>: the vector keeps room for its NULL, the text for its NUL.\<close>

definition ab_push :: "string list \<Rightarrow> string \<Rightarrow> string list option" where
  "ab_push argv s =
     (let pos = sum_list (map (\<lambda>a. length a + 1) argv) in
      if length argv \<ge> GS_ARGV_MAX - 1 \<or> pos \<ge> GS_ARGV_BUF \<or> length s \<ge> GS_ARGV_BUF - pos
      then None else Some (argv @ [s]))"

fun ab_push_all :: "string list \<Rightarrow> string list \<Rightarrow> string list option" where
  "ab_push_all argv [] = Some argv"
| "ab_push_all argv (s # ss) = (case ab_push argv s of None \<Rightarrow> None | Some argv' \<Rightarrow> ab_push_all argv' ss)"

definition opt_args :: "bool \<Rightarrow> string list \<Rightarrow> string list" where
  "opt_args on args = (if on then args else [])"

definition argv_rx :: "tunnel \<Rightarrow> string \<Rightarrow> string list" where
  "argv_rx t key =
     [if tn_binary t \<noteq> [] then tn_binary t else ''wfb_rx'']
     @ opt_args (key \<noteq> [] \<and> \<not> tn_keyless t) [''-K'', key]
     @ opt_args (tn_udp_out_ip t \<noteq> []) [''-c'', tn_udp_out_ip t, ''-u'', show_int (tn_udp_out_port t)]
     @ [''-i'', show_int (tn_link_id t), ''-p'', show_int (tn_radio_port t)]
     @ (if tl_arg (tn_listen t) \<noteq> [] then [''-Y'', tl_arg (tn_listen t)]
        else opt_args (tn_stats_out t \<noteq> []) [''-Y'', tn_stats_out t])
     @ tn_extra_args t @ gt_ifaces t"

definition argv_tx :: "tunnel \<Rightarrow> string \<Rightarrow> string list" where
  "argv_tx t key = (let r = tn_radio t in
     [if tn_binary t \<noteq> [] then tn_binary t else ''wfb_tx'']
     @ opt_args (key \<noteq> []) [''-K'', key]
     @ [''-i'', show_int (tn_link_id t), ''-p'', show_int (tn_radio_port t), ''-u'', show_int (gt_udp_in_port t)]
     @ opt_args (tn_control_port t > 0) [''-C'', show_int (tn_control_port t)]
     @ opt_args (tr_fec_k r > 0) [''-k'', show_int (tr_fec_k r)]
     @ opt_args (tr_fec_n r > 0) [''-n'', show_int (tr_fec_n r)]
     @ opt_args (tr_bandwidth r > 0) [''-B'', show_int (tr_bandwidth r)]
     @ opt_args (tr_mcs r \<ge> 0) [''-M'', show_int (tr_mcs r)]
     @ opt_args (tr_stbc r \<ge> 0) [''-S'', show_int (tr_stbc r)]
     @ opt_args (tr_ldpc r \<ge> 0) [''-L'', show_int (tr_ldpc r)]
     @ opt_args (tl_arg (tn_listen t) \<noteq> []) [''-Y'', tl_arg (tn_listen t)]
     @ tn_extra_args t @ gt_ifaces t)"

definition build_argv :: "tunnel \<Rightarrow> string \<Rightarrow> string list option" where
  "build_argv t key = ab_push_all [] (if gt_role t = ''rx'' then argv_rx t key else argv_tx t key)"

section \<open>One tunnel\<close>

definition gs_host_port :: "string \<Rightarrow> (string \<times> int) option" where
  "gs_host_port s =
     (case parse_hostport s 64 of
        None \<Rightarrow> None
      | Some (h, p) \<Rightarrow> (if h = [] \<or> \<not> inet_pton4 h then None else Some (h, p)))"

definition stats_listener_open :: "'w sup_env \<Rightarrow> tunnel \<Rightarrow> 'w osys \<Rightarrow> tunnel \<times> 'w osys" where
  "stats_listener_open env t s =
     (if tl_open (tn_listen t) then (t, s)
      else let (r, w) = se_listen env (os_world s); s1 = s\<lparr>os_world := w\<rparr> in
        case r of
          None \<Rightarrow> (t, s1)
        | Some port \<Rightarrow> (t\<lparr>tn_listen := \<lparr> tl_open = True, tl_arg = ''127.0.0.1:'' @ show_int port,
             tl_fwd = (if tn_stats_out t \<noteq> [] then gs_host_port (tn_stats_out t) else None),
             tl_tap = (if tn_stats_tap t \<noteq> [] then gs_host_port (tn_stats_tap t) else None) \<rparr>\<rparr>, s1))"

definition reset_stats :: "tunnel \<Rightarrow> tunnel" where
  "reset_stats t =
     (let st = (tn_stats t)\<lparr>ts_msgs := 0, ts_interval_ms := 0, ts_first_us := 0, ts_last_us := 0\<rparr>
      in if gt_role t = ''rx''
         then t\<lparr>gt_pkt_all := 0,
                tn_stats := st\<lparr>ts_lost := 0, ts_fec := 0, ts_outgoing := 0, ts_dec_err := 0, ts_bytes := 0, ts_uniq := 0,
                  ts_ant_count := 0, ts_rssi_best := INT_MIN, ts_mcs_win := replicate 10 (replicate 16 0),
                  ts_mcs_win_sec := replicate 10 0\<rparr>\<rparr>
         else t\<lparr>tn_stats := st\<lparr>ts_tx := replicate 7 0\<rparr>\<rparr>)"

definition spawned :: "tunnel \<Rightarrow> int \<Rightarrow> u64 \<Rightarrow> tun_proc \<Rightarrow> tun_proc" where
  "spawned t pid now p = p\<lparr>tp_pid := pid, tp_state := TS_RUNNING, tp_started_us := now,
     tp_autostart_on_exit := True, tp_stop_deadline_ms := 0,
     tp_init_query_us := (if gt_role t = ''tx'' \<and> tn_control_port t > 0 then now + 500000 else tp_init_query_us p),
     tp_restart_count := tp_restart_count p + 1\<rparr>"

text \<open>\<open>tunnel_spawn\<close>: the stats listener is opened on the first start; a vector that does not fit or a failed
  fork leaves the tunnel failed, with the pid as it was.\<close>

definition tunnel_spawn :: "'w sup_env \<Rightarrow> string \<Rightarrow> tunnel \<Rightarrow> 'w osys \<Rightarrow> bool \<times> tunnel \<times> 'w osys" where
  "tunnel_spawn env key t0 s0 =
     (let (t, s) = stats_listener_open env t0 s0 in
      case build_argv t key of
        None \<Rightarrow> (False, upd_proc (\<lambda>p. p\<lparr>tp_state := TS_FAILED\<rparr>) t, s)
      | Some argv \<Rightarrow>
          (let (pid, w) = se_fork env argv (os_world s); s1 = s\<lparr>os_world := w\<rparr> in
           if pid < 0 then (False, upd_proc (\<lambda>p. p\<lparr>tp_state := TS_FAILED\<rparr>) t, s1)
           else let (now, s2) = os_now_us env (s1\<lparr>os_trace := os_trace s1 @ [SpSpawn pid argv]\<rparr>) in
             (True, reset_stats (upd_proc (spawned t pid now) t), s2)))"

definition tunnel_request_stop :: "'w sup_env \<Rightarrow> tunnel \<Rightarrow> 'w osys \<Rightarrow> tunnel \<times> 'w osys" where
  "tunnel_request_stop env t s =
     (if tp_pid (tn_proc t) \<le> 0
      then (upd_proc (\<lambda>p. p\<lparr>tp_state := TS_STOPPED, tp_autostart_on_exit := False\<rparr>) t, s)
      else let (now, s1) = os_now_ms env s; (ok, s2) = os_kill env (tp_pid (tn_proc t)) SIGTERM s1
           in (upd_proc (\<lambda>p. p\<lparr>tp_autostart_on_exit := False, tp_stop_deadline_ms := now + GS_STOP_GRACE_MS\<rparr>) t, s2))"

text \<open>\<open>code\<close> is the decoded wait status: the exit status, or minus the signal, or \<open>-1\<close>.\<close>

definition tunnel_on_exit :: "'w sup_env \<Rightarrow> int \<Rightarrow> tunnel \<Rightarrow> 'w osys \<Rightarrow> tunnel \<times> 'w osys" where
  "tunnel_on_exit env code t s =
     (let (us, s1) = os_now_us env s;
          p = (tn_proc t)\<lparr>tp_exited_us := us, tp_exit_code := code, tp_pid := - 1, tp_stop_deadline_ms := 0\<rparr>
      in if \<not> tp_autostart_on_exit p
         then (t\<lparr>tn_proc := p\<lparr>tp_state := TS_STOPPED, tp_backoff_idx := 0\<rparr>\<rparr>, s1)
         else let idx = (if tp_backoff_idx p \<ge> GS_BACKOFF_LEN then GS_BACKOFF_LEN - 1 else tp_backoff_idx p);
                  (ms, s2) = os_now_ms env s1
              in (t\<lparr>tn_proc := p\<lparr>tp_next_start_ms := ms + GS_BACKOFF_MS ! nat idx,
                    tp_backoff_idx := (if tp_backoff_idx p < GS_BACKOFF_LEN - 1 then tp_backoff_idx p + 1 else tp_backoff_idx p),
                    tp_state := TS_BACKOFF\<rparr>\<rparr>, s2))"

section \<open>Control queries\<close>

definition wfb_cmd_round_trip :: "'w sup_env \<Rightarrow> int \<Rightarrow> cmd_body \<Rightarrow> 'w osys \<Rightarrow> u8 list option \<times> 'w osys" where
  "wfb_cmd_round_trip env port b s =
     (let n = os_req_id s + 1; (r, w) = se_ctrl env port n b (os_world s)
      in (map_option (take 64) r, s\<lparr>os_world := w, os_req_id := n, os_trace := os_trace s @ [SpCtrl port b]\<rparr>))"

text \<open>The reply's return code; short replies keep the preset failure.\<close>

definition reply_rc :: "u8 list \<Rightarrow> nat" where
  "reply_rc bs = (if 8 \<le> length bs then be_at 4 4 bs else 0xFFFFFFFF)"

definition radio_from_reply :: "u8 list \<Rightarrow> u64 \<Rightarrow> tun_radio \<Rightarrow> tun_radio" where
  "radio_from_reply bs now r = r\<lparr>tr_stbc := int (be_at 8 1 bs), tr_ldpc := int (be_at 9 1 bs), tr_short_gi := int (be_at 10 1 bs),
     tr_bandwidth := int (be_at 11 1 bs), tr_mcs := int (be_at 12 1 bs), tr_vht_mode := int (be_at 13 1 bs),
     tr_vht_nss := int (be_at 14 1 bs), tr_radio_have := True, tr_radio_us := now\<rparr>"

definition fec_from_reply :: "u8 list \<Rightarrow> tun_radio \<Rightarrow> tun_radio" where
  "fec_from_reply bs r = r\<lparr>tr_fec_k := int (be_at 8 1 bs), tr_fec_n := int (be_at 9 1 bs),
     tr_fec_timeout_ms := int (be_at 10 2 bs), tr_fec_have := True\<rparr>"

definition wfb_cmd_refresh_radio :: "'w sup_env \<Rightarrow> tunnel \<Rightarrow> 'w osys \<Rightarrow> bool \<times> tunnel \<times> 'w osys" where
  "wfb_cmd_refresh_radio env t s =
     (if tn_control_port t \<le> 0 then (False, t, s)
      else let (r, s1) = wfb_cmd_round_trip env (tn_control_port t) GetRadio s in
        case r of
          None \<Rightarrow> (False, t, s1)
        | Some bs \<Rightarrow>
            (if length bs < 15 \<or> reply_rc bs \<noteq> 0 then (False, t, s1)
             else let (now, s2) = os_now_us env s1
                  in (True, t\<lparr>tn_radio := radio_from_reply bs now (tn_radio t)\<rparr>, s2)))"

definition wfb_cmd_refresh_fec :: "'w sup_env \<Rightarrow> tunnel \<Rightarrow> 'w osys \<Rightarrow> bool \<times> tunnel \<times> 'w osys" where
  "wfb_cmd_refresh_fec env t s =
     (if tn_control_port t \<le> 0 then (False, t, s)
      else let (r, s1) = wfb_cmd_round_trip env (tn_control_port t) GetFec s in
        case r of
          None \<Rightarrow> (False, t, s1)
        | Some bs \<Rightarrow>
            (if length bs < 12 \<or> reply_rc bs \<noteq> 0 then (False, t, s1)
             else (True, t\<lparr>tn_radio := fec_from_reply bs (tn_radio t)\<rparr>, s1)))"

section \<open>All tunnels\<close>

fun each_tunnel :: "(tunnel \<Rightarrow> 'w osys \<Rightarrow> tunnel \<times> 'w osys) \<Rightarrow> tunnel list \<Rightarrow> 'w osys \<Rightarrow> tunnel list \<times> 'w osys" where
  "each_tunnel f [] s = ([], s)"
| "each_tunnel f (t # ts) s =
     (let (t', s1) = f t s; (ts', s2) = each_tunnel f ts s1 in (t' # ts', s2))"

definition sup_each :: "(tunnel \<Rightarrow> 'w osys \<Rightarrow> tunnel \<times> 'w osys) \<Rightarrow> 'w sup \<Rightarrow> 'w sup" where
  "sup_each f s = (let (ts, os) = each_tunnel f (su_tunnels s) (su_os s) in s\<lparr>su_tunnels := ts, su_os := os\<rparr>)"

text \<open>One tunnel's part of \<open>supervisor_tick\<close>: escalation, respawn, the deferred control query.\<close>

definition tick_kill :: "'w sup_env \<Rightarrow> u64 \<Rightarrow> tunnel \<Rightarrow> 'w osys \<Rightarrow> tunnel \<times> 'w osys" where
  "tick_kill env t_ms t s =
     (let p = tn_proc t in
      if tp_stop_deadline_ms p \<noteq> 0 \<and> t_ms \<ge> tp_stop_deadline_ms p \<and> tp_pid p > 0
      then (upd_proc (\<lambda>p. p\<lparr>tp_stop_deadline_ms := 0\<rparr>) t, snd (os_kill env (tp_pid p) SIGKILL s))
      else (t, s))"

definition tick_respawn :: "'w sup_env \<Rightarrow> string \<Rightarrow> u64 \<Rightarrow> tunnel \<Rightarrow> 'w osys \<Rightarrow> tunnel \<times> 'w osys" where
  "tick_respawn env key t_ms t s =
     (if tp_state (tn_proc t) = TS_BACKOFF \<and> t_ms \<ge> tp_next_start_ms (tn_proc t)
      then snd (tunnel_spawn env key t s) else (t, s))"

definition tick_query :: "'w sup_env \<Rightarrow> u64 \<Rightarrow> tunnel \<Rightarrow> 'w osys \<Rightarrow> tunnel \<times> 'w osys" where
  "tick_query env t_us t s =
     (let p = tn_proc t in
      if tp_init_query_us p \<noteq> 0 \<and> t_us \<ge> tp_init_query_us p \<and> tp_pid p > 0 \<and> tp_state p = TS_RUNNING
      then let (ok, t1, s1) = wfb_cmd_refresh_radio env (upd_proc (\<lambda>p. p\<lparr>tp_init_query_us := 0\<rparr>) t) s;
               t2 = (if ok then t1 else upd_proc (\<lambda>p. p\<lparr>tp_init_query_us := t_us + 1000000\<rparr>) t1)
           in snd (wfb_cmd_refresh_fec env t2 s1)
      else (t, s))"

definition tick_tunnel :: "'w sup_env \<Rightarrow> string \<Rightarrow> u64 \<Rightarrow> u64 \<Rightarrow> tunnel \<Rightarrow> 'w osys \<Rightarrow> tunnel \<times> 'w osys" where
  "tick_tunnel env key t_ms t_us t s =
     (let (t1, s1) = tick_kill env t_ms t s; (t2, s2) = tick_respawn env key t_ms t1 s1
      in tick_query env t_us t2 s2)"

text \<open>The command, hop and scan modules see the tunnels through \<open>gs_config\<close> and share the world.\<close>

definition ground_call :: "('w gs \<Rightarrow> 'w gs) \<Rightarrow> 'w sup \<Rightarrow> 'w sup" where
  "ground_call f s =
     (let g = f ((su_gs s)\<lparr>gs_world := os_world (su_os s)\<rparr>)
      in s\<lparr>su_gs := g, su_os := (su_os s)\<lparr>os_world := gs_world g\<rparr>\<rparr>)"

definition sup_config :: "gs_config \<Rightarrow> 'w sup \<Rightarrow> gs_config" where
  "sup_config c s = c\<lparr>gc_tunnels := map gs_tunnel.truncate (su_tunnels s)\<rparr>"

definition supervisor_tick :: "'w sup_env \<Rightarrow> gs_config \<Rightarrow> 'w sup \<Rightarrow> 'w sup" where
  "supervisor_tick env c s0 =
     (let (t_ms, os1) = os_now_ms env (su_os s0); (t_us, os2) = os_now_us env os1;
          s1 = sup_each (tick_tunnel env (su_key_file s0) t_ms t_us) (s0\<lparr>su_os := upd_os (se_ifaces env) os2\<rparr>);
          c' = sup_config c s1;
          s2 = ground_call (gs_csa_tick (se_gs env) c' t_us) s1;
          s3 = ground_call (scan_tick (se_gs env) c' t_us) s2
      in ground_call (logsync_tick (se_gs env) c' t_ms) s3)"

text \<open>\<open>supervisor_reap\<close>: each reaped child is handed to the first tunnel that has its pid.\<close>

fun reap_one :: "'w sup_env \<Rightarrow> int \<times> int \<Rightarrow> tunnel list \<Rightarrow> 'w osys \<Rightarrow> tunnel list \<times> 'w osys" where
  "reap_one env pc [] s = ([], s)"
| "reap_one env pc (t # ts) s =
     (if tp_pid (tn_proc t) = fst pc
      then let (t', s1) = tunnel_on_exit env (snd pc) t s in (t' # ts, s1)
      else let (ts', s1) = reap_one env pc ts s in (t # ts', s1))"

fun reap_all :: "'w sup_env \<Rightarrow> (int \<times> int) list \<Rightarrow> tunnel list \<Rightarrow> 'w osys \<Rightarrow> tunnel list \<times> 'w osys" where
  "reap_all env [] ts s = (ts, s)"
| "reap_all env (pc # pcs) ts s = (let (ts', s1) = reap_one env pc ts s in reap_all env pcs ts' s1)"

definition supervisor_reap :: "'w sup_env \<Rightarrow> 'w sup \<Rightarrow> 'w sup" where
  "supervisor_reap env s =
     (let (pcs, w) = se_reap env (os_world (su_os s));
          (ts, os) = reap_all env pcs (su_tunnels s) ((su_os s)\<lparr>os_world := w\<rparr>)
      in s\<lparr>su_tunnels := ts, su_os := os\<rparr>)"

section \<open>System commands\<close>

definition metachars :: string where
  "metachars = '';|&<>$`(){}[]*?'' @ [CHR 0x27, CHR 0x22, CHR 0x5C]"

fun split_blanks :: "string \<Rightarrow> string \<Rightarrow> string list" where
  "split_blanks acc [] = (if acc = [] then [] else [rev acc])"
| "split_blanks acc (c # cs) =
     (if c = CHR '' '' \<or> c = CHR 0x09
      then (if acc = [] then split_blanks [] cs else rev acc # split_blanks [] cs)
      else split_blanks (c # acc) cs)"

text \<open>\<open>tokenize_argv\<close>: \<open>None\<close> for a shell metacharacter or for more tokens than the vector holds.\<close>

definition tokenize_argv :: "string \<Rightarrow> nat \<Rightarrow> string list option" where
  "tokenize_argv cmd max_argv =
     (if list_ex (\<lambda>c. c \<in> set metachars) cmd then None
      else let ws = split_blanks [] cmd in if length ws + 1 > max_argv then None else Some ws)"

definition run_system_cmd :: "'w sup_env \<Rightarrow> string \<Rightarrow> 'w osys \<Rightarrow> int \<times> 'w osys" where
  "run_system_cmd env cmd s =
     (case tokenize_argv (take 255 cmd) GS_SYSTEM_CMD_MAX_ARGV of
        None \<Rightarrow> (- 1, s)
      | Some argv \<Rightarrow>
          (if argv = [] then (0, s)
           else let (rc, w) = se_system env argv (os_world s)
                in (if rc = - 2 then - 1 else rc, s\<lparr>os_world := w, os_trace := os_trace s @ [SpSystem argv]\<rparr>)))"

fun run_system_block :: "'w sup_env \<Rightarrow> string list \<Rightarrow> 'w osys \<Rightarrow> 'w osys" where
  "run_system_block env [] s = s"
| "run_system_block env (c # cs) s =
     run_system_block env cs (if c \<noteq> [] then snd (run_system_cmd env c s) else s)"

section \<open>Bringing the system up and down\<close>

fun check_ifaces :: "'w sup_env \<Rightarrow> string list \<Rightarrow> 'w osys \<Rightarrow> nat \<times> 'w osys" where
  "check_ifaces env [] s = (0, s)"
| "check_ifaces env (i # is) s =
     (let (ok, w) = se_iface_ready env i (os_world s);
          (bad, s1) = check_ifaces env is (s\<lparr>os_world := w\<rparr>)
      in (if ok then bad else bad + 1, s1))"

text \<open>The loop of \<open>wait_iface_state\<close>; giving up checks every interface once more for the report.\<close>

partial_function (option) wait_ifaces ::
  "'w sup_env \<Rightarrow> string list \<Rightarrow> nat \<Rightarrow> u64 \<Rightarrow> 'w osys \<Rightarrow> (bool \<times> 'w osys) option" where
  "wait_ifaces env is interval_ms deadline s =
     (let (bad, s1) = check_ifaces env is s in
      if bad = 0 then Some (True, s1)
      else let (t, s2) = os_now_ms env s1 in
        if t \<ge> deadline then Some (False, snd (check_ifaces env is s2))
        else wait_ifaces env is interval_ms deadline (upd_os (se_sleep env interval_ms) s2))"

declare wait_ifaces.simps [code]

definition wait_iface_state :: "'w sup_env \<Rightarrow> nat \<Rightarrow> nat \<Rightarrow> tunnel list \<Rightarrow> 'w osys \<Rightarrow> (bool \<times> 'w osys) option" where
  "wait_iface_state env timeout_ms interval_ms ts s =
     (let (t, s1) = os_now_ms env s
      in wait_ifaces env (concat (map gt_ifaces ts)) interval_ms (t + of_nat timeout_ms) s1)"

definition supervisor_bring_up :: "'w sup_env \<Rightarrow> 'w sup \<Rightarrow> (bool \<times> 'w sup) option" where
  "supervisor_bring_up env s =
     (case wait_iface_state env 5000 100 (su_tunnels s) (run_system_block env (su_up s) (su_os s)) of
        None \<Rightarrow> None
      | Some (True, os) \<Rightarrow> Some (True, s\<lparr>su_os := upd_os (se_ifaces env) os, su_system := SYS_UP\<rparr>)
      | Some (False, os) \<Rightarrow>
          Some (False, s\<lparr>su_os := run_system_block env (su_down s) os, su_system := SYS_UP_FAILED\<rparr>))"

definition stop_begin :: "'w sup_env \<Rightarrow> tunnel \<Rightarrow> 'w osys \<Rightarrow> tunnel \<times> 'w osys" where
  "stop_begin env t s =
     (if tp_pid (tn_proc t) > 0
      then let t1 = upd_proc (\<lambda>p. p\<lparr>tp_autostart_on_exit := False\<rparr>) t; (ok, s1) = os_kill env (tp_pid (tn_proc t)) SIGTERM s in
        if ok then let (now, s2) = os_now_ms env s1
                   in (upd_proc (\<lambda>p. p\<lparr>tp_stop_deadline_ms := now + GS_STOP_GRACE_MS\<rparr>) t1, s2)
        else (t1, s1)
      else (t, s))"

partial_function (option) stop_wait :: "'w sup_env \<Rightarrow> u64 \<Rightarrow> 'w sup \<Rightarrow> 'w sup option" where
  "stop_wait env deadline s =
     (let (t, os) = os_now_ms env (su_os s); s1 = s\<lparr>su_os := os\<rparr> in
      if \<not> t < deadline then Some s1
      else if list_all (\<lambda>t. tp_pid (tn_proc t) \<le> 0) (su_tunnels s1) then Some s1
      else let s2 = supervisor_reap env s1
           in stop_wait env deadline (s2\<lparr>su_os := upd_os (se_sleep env 50) (su_os s2)\<rparr>))"

declare stop_wait.simps [code]

text \<open>What is left is killed and awaited; the state field stays as it was.\<close>

definition stop_force :: "'w sup_env \<Rightarrow> tunnel \<Rightarrow> 'w osys \<Rightarrow> tunnel \<times> 'w osys" where
  "stop_force env t s =
     (let pid = tp_pid (tn_proc t) in
      if pid > 0
      then (upd_proc (\<lambda>p. p\<lparr>tp_pid := - 1\<rparr>) t, upd_os (se_waitpid env pid) (snd (os_kill env pid SIGKILL s)))
      else (t, s))"

definition supervisor_stop_all_tunnels :: "'w sup_env \<Rightarrow> 'w sup \<Rightarrow> 'w sup option" where
  "supervisor_stop_all_tunnels env s =
     (let s1 = sup_each (stop_begin env) s; (t, os) = os_now_ms env (su_os s1)
      in map_option (sup_each (stop_force env)) (stop_wait env (t + GS_STOP_GRACE_MS + 500) (s1\<lparr>su_os := os\<rparr>)))"

definition supervisor_take_down :: "'w sup_env \<Rightarrow> 'w sup \<Rightarrow> 'w sup option" where
  "supervisor_take_down env s =
     map_option (\<lambda>s. s\<lparr>su_os := run_system_block env (su_down s) (su_os s), su_system := SYS_DOWN\<rparr>)
       (supervisor_stop_all_tunnels env s)"

section \<open>The routes\<close>

definition fresh_start :: "tun_proc \<Rightarrow> tun_proc" where
  "fresh_start p = p\<lparr>tp_backoff_idx := 0, tp_next_start_ms := 0\<rparr>"

text \<open>The tunnels that \<open>/system/up\<close> and \<open>/system/reinit\<close> start; a tunnel that has a child keeps it.\<close>

definition autospawn :: "'w sup_env \<Rightarrow> string \<Rightarrow> tunnel \<Rightarrow> 'w osys \<Rightarrow> tunnel \<times> 'w osys" where
  "autospawn env key t s =
     (if tn_autostart t \<and> tp_pid (tn_proc t) \<le> 0
      then snd (tunnel_spawn env key (upd_proc fresh_start t) s) else (t, s))"

definition api_system_up :: "'w sup_env \<Rightarrow> 'w sup \<Rightarrow> (int \<times> 'w sup) option" where
  "api_system_up env s =
     (if su_system s = SYS_UP then Some (409, s)
      else case supervisor_bring_up env s of
        None \<Rightarrow> None
      | Some (ok, s1) \<Rightarrow>
          Some (if ok then (200, sup_each (autospawn env (su_key_file s1)) s1) else (503, s1)))"

definition api_system_down :: "'w sup_env \<Rightarrow> 'w sup \<Rightarrow> (int \<times> 'w sup) option" where
  "api_system_down env s = map_option (Pair 200) (supervisor_take_down env s)"

definition api_system_reinit :: "'w sup_env \<Rightarrow> 'w sup \<Rightarrow> (int \<times> 'w sup) option" where
  "api_system_reinit env s =
     (case supervisor_stop_all_tunnels env s of
        None \<Rightarrow> None
      | Some s1 \<Rightarrow>
          (case supervisor_bring_up env (s1\<lparr>su_os := run_system_block env (su_down s1) (su_os s1)\<rparr>) of
             None \<Rightarrow> None
           | Some (ok, s2) \<Rightarrow>
               Some (if ok then (200, sup_each (autospawn env (su_key_file s2)) s2) else (503, s2))))"

definition api_start :: "'w sup_env \<Rightarrow> string \<Rightarrow> tunnel \<Rightarrow> 'w osys \<Rightarrow> tunnel \<times> 'w osys" where
  "api_start env key t s =
     (if tp_pid (tn_proc t) > 0 then (t, s) else snd (tunnel_spawn env key (upd_proc fresh_start t) s))"

definition api_restart :: "'w sup_env \<Rightarrow> tunnel \<Rightarrow> 'w osys \<Rightarrow> tunnel \<times> 'w osys" where
  "api_restart env t s =
     (let (t1, s1) = tunnel_request_stop env t s;
          t2 = upd_proc (\<lambda>p. p\<lparr>tp_autostart_on_exit := True, tp_backoff_idx := 0\<rparr>) t1
      in if tp_pid (tn_proc t2) \<le> 0
         then let (now, s2) = os_now_ms env s1
              in (upd_proc (\<lambda>p. p\<lparr>tp_state := TS_BACKOFF, tp_next_start_ms := now\<rparr>) t2, s2)
         else (t2, s1))"

definition tunnel_action :: "'w sup_env \<Rightarrow> string \<Rightarrow> string \<Rightarrow> (tunnel \<Rightarrow> 'w osys \<Rightarrow> tunnel \<times> 'w osys) option" where
  "tunnel_action env key act =
     (if act = ''start'' then Some (api_start env key)
      else if act = ''stop'' then Some (tunnel_request_stop env)
      else if act = ''restart'' then Some (api_restart env)
      else None)"

text \<open>\<open>cfg_find_tunnel\<close> and the action on what it found.\<close>

fun on_named :: "string \<Rightarrow> (tunnel \<Rightarrow> 'w osys \<Rightarrow> tunnel \<times> 'w osys) \<Rightarrow> tunnel list \<Rightarrow> 'w osys \<Rightarrow> (tunnel list \<times> 'w osys) option" where
  "on_named name f [] s = None"
| "on_named name f (t # ts) s =
     (if gt_name t = name then (let (t', s1) = f t s in Some (t' # ts, s1))
      else map_option (\<lambda>(ts', s1). (t # ts', s1)) (on_named name f ts s))"

definition api_tunnel :: "'w sup_env \<Rightarrow> string \<Rightarrow> string \<Rightarrow> 'w sup \<Rightarrow> int \<times> 'w sup" where
  "api_tunnel env name act s =
     (if name = [] \<or> 32 \<le> length name then (400, s)
      else if \<not> list_ex (\<lambda>t. gt_name t = name) (su_tunnels s) then (404, s)
      else if act = [] then (200, s)
      else case tunnel_action env (su_key_file s) act of
        None \<Rightarrow> (404, s)
      | Some f \<Rightarrow>
          (case on_named name f (su_tunnels s) (su_os s) of
             None \<Rightarrow> (404, s)
           | Some (ts, os) \<Rightarrow> (200, s\<lparr>su_tunnels := ts, su_os := os\<rparr>)))"

text \<open>Start-up after the configuration was read, and one pass of the main loop: reap, tick, one request.\<close>

definition supervisor_boot :: "'w sup_env \<Rightarrow> 'w sup \<Rightarrow> 'w sup option" where
  "supervisor_boot env s =
     (case supervisor_bring_up env s of
        None \<Rightarrow> None
      | Some (ok, s1) \<Rightarrow>
          Some (if ok then sup_each (\<lambda>t os. if tn_autostart t then snd (tunnel_spawn env (su_key_file s1) t os) else (t, os)) s1
                else s1))"

end
