(* ===== verification/GroundControl.thy ===== *)
theory GroundControl
  imports GroundTunnel
begin

text \<open>
  The routes that reach a transmitter and a radio from the web interface (\<open>ground/gs_supervisor_http.c\<close>):
  \<open>/tunnels/<name>/control\<close>, which reads and writes the coding and the modulation of a running \<open>wfb_tx\<close> through its
  control port and keeps the tunnel's copy of them, and \<open>/system/txpower\<close>.  The transmitter answers through \<open>se_ctrl\<close>.
\<close>

section \<open>The commands of a transmit tunnel\<close>

text \<open>What a round trip came to: \<open>None\<close> not sent, an empty list for no answer; \<open>acked\<close> is \<open>rlen > 0 && rc_out == 0\<close>.\<close>

definition acked :: "u8 list option \<Rightarrow> bool" where
  "acked r = (case r of None \<Rightarrow> False | Some bs \<Rightarrow> bs \<noteq> [] \<and> reply_rc bs = 0)"

definition upd_radio :: "(tun_radio \<Rightarrow> tun_radio) \<Rightarrow> tunnel \<Rightarrow> tunnel" where
  "upd_radio f t = t\<lparr>tn_radio := f (tn_radio t)\<rparr>"

definition FEC_KEEP :: int where
  "FEC_KEEP = 0xFFFF"

definition store_fec :: "int \<Rightarrow> int \<Rightarrow> int \<Rightarrow> tun_radio \<Rightarrow> tun_radio" where
  "store_fec k n to r = r\<lparr>tr_fec_k := k, tr_fec_n := n,
     tr_fec_timeout_ms := (if to \<noteq> FEC_KEEP then to else tr_fec_timeout_ms r), tr_fec_have := True\<rparr>"

definition control_set_fec ::
  "'w sup_env \<Rightarrow> string option \<Rightarrow> tunnel \<Rightarrow> 'w osys \<Rightarrow> (int + u8 list option) \<times> tunnel \<times> 'w osys" where
  "control_set_fec env qs t s =
     (let k = or_int (- 1) qs ''k''; n = or_int (- 1) qs ''n''; to = or_int FEC_KEEP qs ''fec_timeout_ms'' in
      if qs_get_int qs ''k'' = None \<or> qs_get_int qs ''n'' = None \<or> k < 0 \<or> k > 255 \<or> n < 0 \<or> n > 255
      then (Inl 400, t, s)
      else if qs_get_int qs ''fec_timeout_ms'' \<noteq> None \<and> (to < 0 \<or> to > 0xFFFE) then (Inl 400, t, s)
      else let (r, s1) = wfb_cmd_round_trip env (tn_control_port t)
                           (SetFec (word_of_int k) (word_of_int n) (word_of_int to)) s
           in (Inr r, if acked r then upd_radio (store_fec k n to) t else t, s1))"

text \<open>The values a \<open>set_radio\<close> starts from: what the transmitter just answered, or the kept copy with the unset fields
  filled in; then the fields the request names.\<close>

definition radio_fallback :: "tun_radio \<Rightarrow> tun_radio" where
  "radio_fallback r = r\<lparr>
     tr_stbc := (if tr_stbc r \<ge> 0 then tr_stbc r else 0), tr_ldpc := (if tr_ldpc r \<ge> 0 then tr_ldpc r else 0),
     tr_short_gi := (if tr_short_gi r \<ge> 0 then tr_short_gi r else 0),
     tr_bandwidth := (if tr_bandwidth r > 0 then tr_bandwidth r else 20),
     tr_mcs := (if tr_mcs r \<ge> 0 then tr_mcs r else 1), tr_vht_mode := (if tr_vht_mode r \<ge> 0 then tr_vht_mode r else 0),
     tr_vht_nss := (if tr_vht_nss r > 0 then tr_vht_nss r else 1)\<rparr>"

definition radio_override :: "string option \<Rightarrow> tun_radio \<Rightarrow> tun_radio" where
  "radio_override qs r = r\<lparr>
     tr_stbc := or_int (tr_stbc r) qs ''stbc'', tr_ldpc := or_int (tr_ldpc r) qs ''ldpc'',
     tr_short_gi := or_int (tr_short_gi r) qs ''short_gi'', tr_bandwidth := or_int (tr_bandwidth r) qs ''bandwidth'',
     tr_mcs := or_int (tr_mcs r) qs ''mcs_index'', tr_vht_mode := or_int (tr_vht_mode r) qs ''vht_mode'',
     tr_vht_nss := or_int (tr_vht_nss r) qs ''vht_nss''\<rparr>"

definition flag :: "int \<Rightarrow> 'a :: zero_neq_one" where
  "flag v = (if v \<noteq> 0 then 1 else 0)"

text \<open>The request carries one byte per field; the copy keeps the integers.\<close>

definition radio_wire :: "tun_radio \<Rightarrow> radio_body" where
  "radio_wire r = \<lparr> rb_stbc = word_of_int (tr_stbc r), rb_ldpc = flag (tr_ldpc r), rb_short_gi = flag (tr_short_gi r),
     rb_bandwidth = word_of_int (tr_bandwidth r), rb_mcs_index = word_of_int (tr_mcs r),
     rb_vht_mode = flag (tr_vht_mode r), rb_vht_nss = word_of_int (tr_vht_nss r) \<rparr>"

definition store_radio :: "u64 \<Rightarrow> tun_radio \<Rightarrow> tun_radio" where
  "store_radio now r = r\<lparr>tr_ldpc := flag (tr_ldpc r), tr_short_gi := flag (tr_short_gi r), tr_vht_mode := flag (tr_vht_mode r),
     tr_radio_have := True, tr_radio_us := now\<rparr>"

definition control_set_radio ::
  "'w sup_env \<Rightarrow> string option \<Rightarrow> tunnel \<Rightarrow> 'w osys \<Rightarrow> (int + u8 list option) \<times> tunnel \<times> 'w osys" where
  "control_set_radio env qs t s =
     (let (live, t1, s1) = wfb_cmd_refresh_radio env t s;
          v = radio_override qs (if live then tn_radio t1 else radio_fallback (tn_radio t1));
          (r, s2) = wfb_cmd_round_trip env (tn_control_port t1) (SetRadio (radio_wire v)) s1
      in if acked r
         then let (now, s3) = os_now_us env s2 in (Inr r, upd_radio (\<lambda>_. store_radio now v) t1, s3)
         else (Inr r, t1, s2))"

definition control_get ::
  "'w sup_env \<Rightarrow> cmd_body \<Rightarrow> tunnel \<Rightarrow> 'w osys \<Rightarrow> (int + u8 list option) \<times> tunnel \<times> 'w osys" where
  "control_get env b t s = (let (r, s1) = wfb_cmd_round_trip env (tn_control_port t) b s in (Inr r, t, s1))"

definition control_cmd ::
  "'w sup_env \<Rightarrow> string \<Rightarrow> string option \<Rightarrow> tunnel \<Rightarrow> 'w osys \<Rightarrow> (int + u8 list option) \<times> tunnel \<times> 'w osys" where
  "control_cmd env cmd qs t s =
     (if cmd = ''set_fec'' then control_set_fec env qs t s
      else if cmd = ''set_radio'' then control_set_radio env qs t s
      else if cmd = ''get_fec'' then control_get env GetFec t s
      else if cmd = ''get_radio'' then control_get env GetRadio t s
      else (Inl 400, t, s))"

section \<open>The answer\<close>

definition num_field :: "string \<Rightarrow> nat \<Rightarrow> string" where
  "num_field key v = CHR '','' # quoted key @ CHR '':'' # show_nat v"

definition fec_fields :: "u8 list \<Rightarrow> string" where
  "fec_fields bs = num_field ''k'' (be_at 8 1 bs) @ num_field ''n'' (be_at 9 1 bs) @ num_field ''fec_timeout_ms'' (be_at 10 2 bs)"

definition radio_fields :: "u8 list \<Rightarrow> string" where
  "radio_fields bs = num_field ''stbc'' (be_at 8 1 bs) @ num_field ''ldpc'' (be_at 9 1 bs)
     @ num_field ''short_gi'' (be_at 10 1 bs) @ num_field ''bandwidth'' (be_at 11 1 bs)
     @ num_field ''mcs_index'' (be_at 12 1 bs) @ num_field ''vht_mode'' (be_at 13 1 bs) @ num_field ''vht_nss'' (be_at 14 1 bs)"

definition answer_text :: "u8 list \<Rightarrow> string \<Rightarrow> string" where
  "answer_text bs vals = ''{'' @ quoted ''ok'' @ (if reply_rc bs = 0 then '':true'' else '':false'')
     @ num_field ''rc'' (reply_rc bs) @ vals @ ''}''"

definition error_text :: "string \<Rightarrow> string" where
  "error_text e = ''{'' @ quoted ''ok'' @ '':false,'' @ quoted ''error'' @ '':'' @ quoted e @ ''}''"

text \<open>A reading command also refreshes the copy; a short reply leaves it alone and adds no fields.\<close>

definition control_answer ::
  "'w sup_env \<Rightarrow> string \<Rightarrow> u8 list \<Rightarrow> tunnel \<Rightarrow> 'w osys \<Rightarrow> string \<times> tunnel \<times> 'w osys" where
  "control_answer env cmd bs t s =
     (if reply_rc bs = 0 \<and> cmd = ''get_fec'' \<and> 12 \<le> length bs
      then (answer_text bs (fec_fields bs), upd_radio (fec_from_reply bs) t, s)
      else if reply_rc bs = 0 \<and> cmd = ''get_radio'' \<and> 15 \<le> length bs
      then let (now, s1) = os_now_us env s
           in (answer_text bs (radio_fields bs), upd_radio (radio_from_reply bs now) t, s1)
      else (answer_text bs [], t, s))"

definition api_control :: "'w sup_env \<Rightarrow> string option \<Rightarrow> tunnel \<Rightarrow> 'w osys \<Rightarrow> (int \<times> string) \<times> tunnel \<times> 'w osys" where
  "api_control env qs t s =
     (if gt_role t \<noteq> ''tx'' then ((400, []), t, s)
      else if tn_control_port t \<le> 0 then ((409, []), t, s)
      else case qs_find qs ''cmd'' of
        None \<Rightarrow> ((400, []), t, s)
      | Some cmd \<Rightarrow>
          (case control_cmd env cmd qs t s of
             (Inl e, t1, s1) \<Rightarrow> ((e, []), t1, s1)
           | (Inr None, t1, s1) \<Rightarrow> ((502, error_text ''sendto failed''), t1, s1)
           | (Inr (Some bs), t1, s1) \<Rightarrow>
               (if bs = [] then ((504, error_text ''timeout''), t1, s1)
                else let (body, t2, s2) = control_answer env cmd bs t1 s1 in ((200, body), t2, s2))))"

text \<open>The route: the tunnel of that name, the first one when there are several.\<close>

fun ask_named ::
  "string \<Rightarrow> (tunnel \<Rightarrow> 'w osys \<Rightarrow> 'a \<times> tunnel \<times> 'w osys) \<Rightarrow> tunnel list \<Rightarrow> 'w osys \<Rightarrow> ('a \<times> tunnel list \<times> 'w osys) option" where
  "ask_named name f [] s = None"
| "ask_named name f (t # ts) s =
     (if gt_name t = name then (let (a, t', s1) = f t s in Some (a, t' # ts, s1))
      else map_option (\<lambda>(a, ts', s1). (a, t # ts', s1)) (ask_named name f ts s))"

definition api_tunnel_control :: "'w sup_env \<Rightarrow> string \<Rightarrow> string option \<Rightarrow> 'w sup \<Rightarrow> (int \<times> string) \<times> 'w sup" where
  "api_tunnel_control env name qs s =
     (if name = [] \<or> 32 \<le> length name then ((400, []), s)
      else case ask_named name (api_control env qs) (su_tunnels s) (su_os s) of
        None \<Rightarrow> ((404, []), s)
      | Some (a, ts, os) \<Rightarrow> (a, s\<lparr>su_tunnels := ts, su_os := os\<rparr>))"

section \<open>Transmit power\<close>

definition txpower_argv :: "string \<Rightarrow> int \<Rightarrow> string list" where
  "txpower_argv iface mbm = [''iw'', ''dev'', iface, ''set'', ''txpower'', ''fixed'', show_int mbm]"

text \<open>Only an interface of some tunnel, only between 50 and 3000; then the cached state of the interface is read again.\<close>

definition api_txpower :: "'w sup_env \<Rightarrow> string option \<Rightarrow> 'w sup \<Rightarrow> int \<times> 'w sup" where
  "api_txpower env qs s =
     (case (qs_find qs ''iface'', qs_find qs ''mbm'') of
        (Some iface, Some _) \<Rightarrow>
          (if iface = [] \<or> IFNAMSIZ \<le> length iface then (400, s)
           else if \<not> list_ex (\<lambda>t. iface \<in> set (gt_ifaces t)) (su_tunnels s) then (404, s)
           else case qs_get_int qs ''mbm'' of
             None \<Rightarrow> (400, s)
           | Some mbm \<Rightarrow>
               (if mbm < 50 \<or> mbm > 3000 then (400, s)
                else let argv = txpower_argv iface mbm; (rc, w) = se_system env argv (os_world (su_os s));
                         os = (su_os s)\<lparr>os_world := w, os_trace := os_trace (su_os s) @ [SpSystem argv]\<rparr>
                     in (if rc = 0 then 200 else 502, s\<lparr>su_os := upd_os (se_ifaces env) os\<rparr>)))
      | _ \<Rightarrow> (400, s))"

end
