(* ===== verification/GroundChildren.thy ===== *)
theory GroundChildren
  imports GroundControl
begin

text \<open>
  Who owns the supervisor's children: the steps of the supervisor, what the kernel promises about processes, and that
  every step keeps each child with exactly one tunnel.
\<close>

section \<open>Steps of the supervisor\<close>

inductive sup_step :: "'w sup_env \<Rightarrow> gs_config \<Rightarrow> 'w sup \<Rightarrow> 'w sup \<Rightarrow> bool" for env c where
  tick: "sup_step env c s (supervisor_tick env c s)"
| reap: "sup_step env c s (supervisor_reap env s)"
| act: "sup_step env c s (snd (api_tunnel env name act s))"
| control: "sup_step env c s (snd (api_tunnel_control env name qs s))"
| txpower: "sup_step env c s (snd (api_txpower env qs s))"
| up: "api_system_up env s = Some (code, s') \<Longrightarrow> sup_step env c s s'"
| down: "api_system_down env s = Some (code, s') \<Longrightarrow> sup_step env c s s'"
| reinit: "api_system_reinit env s = Some (code, s') \<Longrightarrow> sup_step env c s s'"

inductive sup_reach :: "'w sup_env \<Rightarrow> gs_config \<Rightarrow> 'w sup \<Rightarrow> 'w sup \<Rightarrow> bool" for env c s0 where
  boot: "supervisor_boot env s0 = Some s \<Longrightarrow> sup_reach env c s0 s"
| step: "sup_reach env c s0 s \<Longrightarrow> sup_step env c s s' \<Longrightarrow> sup_reach env c s0 s'"

section \<open>The kernel's side\<close>

text \<open>
  \<open>kids w\<close> is the set of children that \<open>tunnel_spawn\<close> forked and nobody has waited for yet.  A fork adds a
  new positive pid, a wait removes what it reports, and no other call changes the set.
\<close>

definition gs_calls_keep :: "'w gs_env \<Rightarrow> ('w \<Rightarrow> 'a) \<Rightarrow> bool" where
  "gs_calls_keep g f = (\<forall>w. f (snd (ge_clock g w)) = f w \<and> f (snd (ge_socket g w)) = f w
     \<and> (\<forall>p b. f (snd (ge_sendto g p b w)) = f w) \<and> (\<forall>i ch ht. f (snd (ge_iw g i ch ht w)) = f w)
     \<and> (\<forall>i. f (ge_drain g i w) = f w))"

definition kernel_ok :: "'w sup_env \<Rightarrow> ('w \<Rightarrow> int set) \<Rightarrow> bool" where
  "kernel_ok env kids =
     (gs_calls_keep (se_gs env) kids
      \<and> (\<forall>w argv. let (pid, w') = se_fork env argv w in
            if pid < 0 then kids w' = kids w else 0 < pid \<and> pid \<notin> kids w \<and> kids w' = insert pid (kids w))
      \<and> (\<forall>w. let (pcs, w') = se_reap env w in
            (\<forall>pc \<in> set pcs. 0 < fst pc) \<and> distinct (map fst pcs) \<and> kids w' = kids w - fst ` set pcs)
      \<and> (\<forall>pid w. kids (se_waitpid env pid w) = kids w - {pid})
      \<and> (\<forall>w. kids (snd (se_listen env w)) = kids w) \<and> (\<forall>p sig w. kids (snd (se_kill env p sig w)) = kids w)
      \<and> (\<forall>n w. kids (se_sleep env n w) = kids w) \<and> (\<forall>a w. kids (snd (se_system env a w)) = kids w)
      \<and> (\<forall>i w. kids (snd (se_iface_ready env i w)) = kids w) \<and> (\<forall>w. kids (se_ifaces env w) = kids w)
      \<and> (\<forall>p n b w. kids (snd (se_ctrl env p n b w)) = kids w))"

section \<open>Calls that leave the children alone\<close>

lemma call_keeps:
  assumes "gs_calls_keep g f"
  shows "gs_now_us g s = (now, s') \<Longrightarrow> f (gs_world s') = f (gs_world s)"
    and "gs_open g s = (e, s') \<Longrightarrow> f (gs_world s') = f (gs_world s)"
    and "gs_sendto g p b s = (r, s') \<Longrightarrow> f (gs_world s') = f (gs_world s)"
    and "run_iw_set_channel g i ch ht s = (rc, s') \<Longrightarrow> f (gs_world s') = f (gs_world s)"
  using assms
  by (auto simp: gs_calls_keep_def gs_now_us_def gs_open_def gs_sendto_def run_iw_set_channel_def Let_def
      split: prod.splits if_splits) (metis snd_conv)+

lemma send_burst_keeps:
  assumes "gs_calls_keep g f"
  shows "send_burst g p b n e s = (r, s') \<Longrightarrow> f (gs_world s') = f (gs_world s)"
  by (induction n arbitrary: e r s) (auto simp: Let_def split: prod.splits dest!: call_keeps(3) [OF assms])

lemma run_iw_keeps:
  assumes "gs_calls_keep g f"
  shows "f (gs_world (run_iw_all g is ch ht s)) = f (gs_world s)"
proof -
  have "f (gs_world (snd (run_iw_set_channel g i ch ht s))) = f (gs_world s)" for i s
    by (rule call_keeps(4) [OF assms prod.collapse [symmetric]])
  then show ?thesis by (induction "is" arbitrary: s) simp_all
qed

lemma upd_world_same [simp]: "gs_world (upd_csa h s) = gs_world s" "gs_world (upd_scan k s) = gs_world s"
  by (simp_all add: upd_csa_def upd_scan_def)

lemma csa_tick_keeps:
  assumes "gs_calls_keep g f"
  shows "f (gs_world (gs_csa_tick g c t s)) = f (gs_world s)"
proof -
  have send: "f (gs_world s') = f (gs_world s)" if "csa_send_commit_frame g c s = (rc, s')" for rc s s'
    using that by (auto simp: csa_send_commit_frame_def Let_def split: option.splits prod.splits if_splits
        dest!: call_keeps(1-3) [OF assms])
  then have "f (gs_world (csa_tick_burst g c t s)) = f (gs_world s)" for s
    by (auto simp: csa_tick_burst_def Let_def split: prod.split)
  moreover have "f (gs_world (csa_tick_switch g c t s)) = f (gs_world s)" for s
    by (simp add: csa_tick_switch_def Let_def run_iw_keeps [OF assms])
  moreover have "f (gs_world (csa_tick_verify g c t s)) = f (gs_world s)" for s
    by (simp add: csa_tick_verify_def Let_def run_iw_keeps [OF assms])
  ultimately show ?thesis by (simp add: gs_csa_tick_def)
qed

lemma scan_tick_keeps:
  assumes "gs_calls_keep g f"
  shows "f (gs_world (scan_tick g c t s)) = f (gs_world s)"
proof -
  have d: "f (ge_drain g i w) = f w" for i w using assms by (simp add: gs_calls_keep_def)
  have "f (gs_world (scan_apply_step_drained g c i s)) = f (gs_world s)" for i s
    by (auto simp: scan_apply_step_drained_def Let_def d run_iw_keeps [OF assms] split: prod.split
        dest!: call_keeps(1) [OF assms])
  then show ?thesis by (simp add: scan_tick_def Let_def)
qed

lemma logsync_keeps:
  assumes "gs_calls_keep g f"
  shows "f (gs_world (logsync_tick g c t s)) = f (gs_world s)"
  by (auto simp: logsync_tick_def logsync_emit_def Let_def split: option.split prod.split
      dest!: call_keeps(2) [OF assms] send_burst_keeps [OF assms])

section \<open>Children and tunnels\<close>

definition pid_of :: "tunnel \<Rightarrow> int" where
  "pid_of t = tp_pid (tn_proc t)"

definition live_pids :: "tunnel list \<Rightarrow> int list" where
  "live_pids ts = filter (\<lambda>p. 0 < p) (map pid_of ts)"

text \<open>A tunnel waiting for its back-off has no child.\<close>

definition parked :: "tunnel \<Rightarrow> bool" where
  "parked t = (tp_state (tn_proc t) = TS_BACKOFF \<longrightarrow> pid_of t \<le> 0)"

definition owned :: "('w \<Rightarrow> int set) \<Rightarrow> tunnel list \<Rightarrow> 'w \<Rightarrow> bool" where
  "owned kids ts w = (kids w = set (live_pids ts) \<and> distinct (live_pids ts) \<and> list_all parked ts)"

text \<open>What an operation may do to one tunnel's child and to the set of children: nothing, start one where there
  was none, or see it gone.\<close>

definition child_step :: "int set \<Rightarrow> tunnel \<Rightarrow> int set \<Rightarrow> tunnel \<Rightarrow> bool" where
  "child_step K t K' t' =
     ((K' = K \<and> (pid_of t' = pid_of t \<or> pid_of t \<le> 0 \<and> pid_of t' \<le> 0))
      \<or> (pid_of t \<le> 0 \<and> 0 < pid_of t' \<and> pid_of t' \<notin> K \<and> K' = insert (pid_of t') K)
      \<or> (0 < pid_of t \<and> pid_of t' \<le> 0 \<and> K' = K - {pid_of t}))"

lemma live_pids_split: "live_pids (xs @ t # ys) = live_pids xs @ (if 0 < pid_of t then [pid_of t] else []) @ live_pids ys"
  by (simp add: live_pids_def)

lemma child_sets:
  fixes A :: "int set"
  assumes "K = (if 0 < p then {p} else {}) \<union> A" "0 < p \<Longrightarrow> p \<notin> A"
    and "(K' = K \<and> (p' = p \<or> p \<le> 0 \<and> p' \<le> 0)) \<or> (p \<le> 0 \<and> 0 < p' \<and> p' \<notin> K \<and> K' = insert p' K)
       \<or> (0 < p \<and> p' \<le> 0 \<and> K' = K - {p})"
  shows "K' = (if 0 < p' then {p'} else {}) \<union> A" "0 < p' \<Longrightarrow> p' \<notin> A"
  using assms by (auto split: if_splits)

lemma owned_step:
  assumes "owned kids (xs @ t # ys) w" "child_step (kids w) t (kids w') t'" "parked t'"
  shows "owned kids (xs @ t' # ys) w'"
proof -
  define A where "A = set (live_pids xs) \<union> set (live_pids ys)"
  have o: "kids w = (if 0 < pid_of t then {pid_of t} else {}) \<union> A" "distinct (live_pids xs)" "distinct (live_pids ys)"
    "set (live_pids xs) \<inter> set (live_pids ys) = {}" "0 < pid_of t \<Longrightarrow> pid_of t \<notin> A"
    using assms(1) by (cases "0 < pid_of t"; simp add: owned_def live_pids_split A_def; blast)+
  have "kids w' = (if 0 < pid_of t' then {pid_of t'} else {}) \<union> A" "0 < pid_of t' \<Longrightarrow> pid_of t' \<notin> A"
    using child_sets [OF o(1,5) assms(2) [unfolded child_step_def]] by blast+
  moreover have "list_all parked (xs @ t' # ys)" using assms(1,3) by (simp add: owned_def)
  ultimately show ?thesis using o(2-4)
    by (cases "0 < pid_of t'"; simp add: owned_def live_pids_split A_def; blast)
qed

lemma upd_proc_fields [simp]:
  "pid_of (upd_proc f t) = tp_pid (f (tn_proc t))" "tn_proc (upd_proc f t) = f (tn_proc t)"
  "tn_proc (reset_stats t) = tn_proc t" "pid_of (reset_stats t) = pid_of t"
  by (simp_all add: pid_of_def upd_proc_def reset_stats_def Let_def)

lemma os_call_kids:
  assumes "kernel_ok env kids"
  shows "os_now_us env s = (us, s') \<Longrightarrow> kids (os_world s') = kids (os_world s)"
    and "os_now_ms env s = (ms, s') \<Longrightarrow> kids (os_world s') = kids (os_world s)"
    and "os_kill env pid sig s = (ok, s') \<Longrightarrow> kids (os_world s') = kids (os_world s)"
    and "wfb_cmd_round_trip env port b s = (r, s') \<Longrightarrow> kids (os_world s') = kids (os_world s)"
    and "run_system_cmd env cmd s = (rc, s') \<Longrightarrow> kids (os_world s') = kids (os_world s)"
proof -
  have k: "kids (snd (ge_clock (se_gs env) w)) = kids w" "kids (snd (se_kill env pid sig w)) = kids w"
    "kids (snd (se_ctrl env port n b w)) = kids w" "kids (snd (se_system env a w)) = kids w" for w n a
    using assms by (simp_all add: kernel_ok_def gs_calls_keep_def)
  show "os_now_us env s = (us, s') \<Longrightarrow> kids (os_world s') = kids (os_world s)"
    by (auto simp: os_now_us_def Let_def case_prod_beta k(1))
  show "os_now_ms env s = (ms, s') \<Longrightarrow> kids (os_world s') = kids (os_world s)"
    by (auto simp: os_now_ms_def os_now_us_def Let_def case_prod_beta k(1))
  show "os_kill env pid sig s = (ok, s') \<Longrightarrow> kids (os_world s') = kids (os_world s)"
    by (auto simp: os_kill_def Let_def case_prod_beta k(2))
  show "wfb_cmd_round_trip env port b s = (r, s') \<Longrightarrow> kids (os_world s') = kids (os_world s)"
    by (auto simp: wfb_cmd_round_trip_def Let_def case_prod_beta k(3))
  show "run_system_cmd env cmd s = (rc, s') \<Longrightarrow> kids (os_world s') = kids (os_world s)"
    by (cases "tokenize_argv (take 255 cmd) GS_SYSTEM_CMD_MAX_ARGV")
      (auto simp: run_system_cmd_def Let_def case_prod_beta k(4) split: if_splits)
qed

lemma listener_kids:
  assumes "kernel_ok env kids" "stats_listener_open env t s = (t', s')"
  shows "kids (os_world s') = kids (os_world s)" "tn_proc t' = tn_proc t" "gt_role t' = gt_role t"
    "tn_control_port t' = tn_control_port t"
proof -
  have "kids (snd (se_listen env w)) = kids w" for w using assms(1) by (simp add: kernel_ok_def)
  then show "kids (os_world s') = kids (os_world s)"
    using assms(2) by (auto simp: stats_listener_open_def Let_def split: if_splits prod.splits option.splits) (metis snd_conv)+
qed (use assms(2) in \<open>auto simp: stats_listener_open_def Let_def split: if_splits prod.splits option.splits\<close>)

lemma spawn_child:
  assumes "kernel_ok env kids" "tunnel_spawn env key t s = (ok, t', s')" "pid_of t \<le> 0"
  shows "child_step (kids (os_world s)) t (kids (os_world s')) t'" "parked t'"
proof -
  obtain t1 s1 where l: "stats_listener_open env t s = (t1, s1)" by (metis prod.collapse)
  note l1 = listener_kids [OF assms(1) l]
  have fork: "if pid < 0 then kids w' = kids w else 0 < pid \<and> pid \<notin> kids w \<and> kids w' = insert pid (kids w)"
    if "se_fork env argv w = (pid, w')" for argv w pid w'
  proof -
    have "\<forall>w argv. let (pid, w') = se_fork env argv w in
        if pid < 0 then kids w' = kids w else 0 < pid \<and> pid \<notin> kids w \<and> kids w' = insert pid (kids w)"
      using assms(1) unfolding kernel_ok_def by (elim conjE)
    from this [THEN spec [of _ w], THEN spec [of _ argv]] show ?thesis unfolding that by simp
  qed
  have p1: "pid_of t1 = pid_of t" using l1(2) by (simp add: pid_of_def)
  have r: "(ok, t', s') = (case build_argv t1 key of
      None \<Rightarrow> (False, upd_proc (\<lambda>p. p\<lparr>tp_state := TS_FAILED\<rparr>) t1, s1)
    | Some argv \<Rightarrow> (let (pid, w) = se_fork env argv (os_world s1); s2 = s1\<lparr>os_world := w\<rparr> in
        if pid < 0 then (False, upd_proc (\<lambda>p. p\<lparr>tp_state := TS_FAILED\<rparr>) t1, s2)
        else let (now, s3) = os_now_us env (s2\<lparr>os_trace := os_trace s2 @ [SpSpawn pid argv]\<rparr>) in
          (True, reset_stats (upd_proc (spawned t1 pid now) t1), s3)))"
    unfolding assms(2) [symmetric] tunnel_spawn_def l Let_def prod.case by simp
  have "child_step (kids (os_world s)) t (kids (os_world s')) t' \<and> parked t'"
  proof (cases "build_argv t1 key")
    case None
    then show ?thesis using r l1 p1 by (simp add: child_step_def parked_def pid_of_def)
  next
    case (Some argv)
    obtain pid w where f: "se_fork env argv (os_world s1) = (pid, w)" by (metis prod.collapse)
    obtain now s3 where n: "os_now_us env (s1\<lparr>os_world := w, os_trace := os_trace s1 @ [SpSpawn pid argv]\<rparr>) = (now, s3)"
      by (metis prod.collapse)
    have k: "kids (os_world s3) = kids w" using os_call_kids(1) [OF assms(1) n] by simp
    show ?thesis
    proof (cases "pid < 0")
      case True
      then show ?thesis using r f fork [OF f] l1 p1 by (simp add: Some child_step_def parked_def pid_of_def)
    next
      case False
      then show ?thesis using r f n k fork [OF f] l1 p1 assms(3)
        by (simp add: Some child_step_def parked_def spawned_def)
    qed
  qed
  then show "child_step (kids (os_world s)) t (kids (os_world s')) t'" "parked t'" by simp_all
qed

text \<open>An operation on one tunnel that keeps the books: applied to a parked tunnel, it makes a child step.\<close>

definition tun_op :: "('w \<Rightarrow> int set) \<Rightarrow> (tunnel \<Rightarrow> 'w osys \<Rightarrow> tunnel \<times> 'w osys) \<Rightarrow> bool" where
  "tun_op kids f = (\<forall>t s t' s'. f t s = (t', s') \<and> parked t
     \<longrightarrow> child_step (kids (os_world s)) t (kids (os_world s')) t' \<and> parked t')"

lemma child_step_same: "K' = K \<Longrightarrow> pid_of t' = pid_of t \<Longrightarrow> child_step K t K' t'"
  by (simp add: child_step_def)

lemma child_step_cong: "pid_of t1 = pid_of t \<Longrightarrow> pid_of t2 = pid_of t' \<Longrightarrow> child_step K t1 K' t' = child_step K t K' t2"
  by (simp add: child_step_def)

lemma refresh_quiet:
  assumes "kernel_ok env kids"
  shows "wfb_cmd_refresh_radio env t s = (ok, t', s') \<Longrightarrow> kids (os_world s') = kids (os_world s) \<and> tn_proc t' = tn_proc t"
    and "wfb_cmd_refresh_fec env t s = (ok, t', s') \<Longrightarrow> kids (os_world s') = kids (os_world s) \<and> tn_proc t' = tn_proc t"
  by (auto simp: wfb_cmd_refresh_radio_def wfb_cmd_refresh_fec_def Let_def split: if_splits option.splits prod.splits
      dest!: os_call_kids(1,4) [OF assms])

lemma tick_tunnel_op:
  assumes "kernel_ok env kids"
  shows "tun_op kids (tick_tunnel env key t_ms t_us)"
  unfolding tun_op_def
proof (intro allI impI, elim conjE)
  fix t s t' s' assume e: "tick_tunnel env key t_ms t_us t s = (t', s')" and p: "parked t"
  obtain t1 s1 where k: "tick_kill env t_ms t s = (t1, s1)" by (metis prod.collapse)
  obtain t2 s2 where r: "tick_respawn env key t_ms t1 s1 = (t2, s2)" by (metis prod.collapse)
  have q: "tick_query env t_us t2 s2 = (t', s')" using e k r by (simp add: tick_tunnel_def Let_def)
  obtain ok s0 where ki: "os_kill env (tp_pid (tn_proc t)) SIGKILL s = (ok, s0)" by (metis prod.collapse)
  have k1: "kids (os_world s1) = kids (os_world s)" "pid_of t1 = pid_of t" "parked t1"
    using k p os_call_kids(3) [OF assms ki] ki
    by (auto simp: tick_kill_def Let_def parked_def pid_of_def upd_proc_def split: if_splits)
  have k2: "child_step (kids (os_world s1)) t1 (kids (os_world s2)) t2 \<and> parked t2"
  proof (cases "tp_state (tn_proc t1) = TS_BACKOFF \<and> t_ms \<ge> tp_next_start_ms (tn_proc t1)")
    case True
    obtain okp where "tunnel_spawn env key t1 s1 = (okp, t2, s2)" using r True
      by (metis (no_types, lifting) prod.collapse snd_conv tick_respawn_def)
    from spawn_child [OF assms this] True k1(3) show ?thesis by (simp add: parked_def)
  next
    case False
    then show ?thesis using r k1(3) by (auto simp: tick_respawn_def child_step_def)
  qed
  obtain ok3 t3 s3 where q1: "wfb_cmd_refresh_radio env (upd_proc (\<lambda>p. p\<lparr>tp_init_query_us := 0\<rparr>) t2) s2 = (ok3, t3, s3)"
    by (metis prod_cases3)
  let ?t4 = "if ok3 then t3 else upd_proc (\<lambda>p. p\<lparr>tp_init_query_us := t_us + 1000000\<rparr>) t3"
  obtain ok5 t5 s5 where q2: "wfb_cmd_refresh_fec env ?t4 s3 = (ok5, t5, s5)" by (metis prod_cases3)
  have "(t', s') = (t5, s5) \<or> (t', s') = (t2, s2)"
    unfolding q [symmetric] tick_query_def Let_def q1 prod.case q2 by simp
  moreover note refresh_quiet(1) [OF assms q1] refresh_quiet(2) [OF assms q2]
  ultimately have "kids (os_world s') = kids (os_world s2) \<and> pid_of t' = pid_of t2 \<and> tp_state (tn_proc t') = tp_state (tn_proc t2)"
    by (auto simp: pid_of_def split: if_splits)
  then show "child_step (kids (os_world s)) t (kids (os_world s')) t' \<and> parked t'"
    using k1 k2 by (simp add: child_step_def parked_def)
qed

lemma request_stop_op:
  assumes "kernel_ok env kids"
  shows "tun_op kids (tunnel_request_stop env)"
  by (auto simp: tun_op_def tunnel_request_stop_def Let_def child_step_def parked_def pid_of_def split: if_splits prod.splits
      dest!: os_call_kids(2,3) [OF assms])

lemma start_op:
  assumes "kernel_ok env kids"
  shows "tun_op kids (api_start env key)" "tun_op kids (autospawn env key)"
proof -
  have f: "child_step (kids (os_world s)) t (kids (os_world s')) t' \<and> parked t'"
    if "snd (tunnel_spawn env key (upd_proc fresh_start t) s) = (t', s')" "pid_of t \<le> 0" for t s t' s'
  proof -
    have "pid_of (upd_proc fresh_start t) = pid_of t" by (simp add: pid_of_def fresh_start_def)
    then show ?thesis
      using spawn_child [OF assms, of key "upd_proc fresh_start t" s "fst (tunnel_spawn env key (upd_proc fresh_start t) s)" t' s'] that
      by (simp add: child_step_cong [of "upd_proc fresh_start t" t t' t'] prod_eq_iff)
  qed
  show "tun_op kids (api_start env key)" "tun_op kids (autospawn env key)"
    using f by (auto simp: tun_op_def api_start_def autospawn_def pid_of_def child_step_def)
qed

lemma restart_op:
  assumes "kernel_ok env kids"
  shows "tun_op kids (api_restart env)"
  by (auto simp: tun_op_def api_restart_def tunnel_request_stop_def Let_def child_step_def parked_def pid_of_def
      split: if_splits prod.splits dest!: os_call_kids(2,3) [OF assms])

lemma stop_ops:
  assumes "kernel_ok env kids"
  shows "tun_op kids (stop_begin env)" "tun_op kids (stop_force env)"
proof -
  have w: "kids (se_waitpid env pid w) = kids w - {pid}" for pid w using assms by (simp add: kernel_ok_def)
  show "tun_op kids (stop_begin env)"
    by (auto simp: tun_op_def stop_begin_def Let_def child_step_def parked_def pid_of_def split: if_splits prod.splits
        dest!: os_call_kids(2,3) [OF assms])
  have "kids (os_world (snd (os_kill env pid sig s))) = kids (os_world s)" for pid sig s
    by (rule os_call_kids(3) [OF assms prod.collapse [symmetric]])
  then show "tun_op kids (stop_force env)"
    by (auto simp: tun_op_def stop_force_def Let_def child_step_def parked_def pid_of_def upd_os_def w split: if_splits)
qed

lemma each_owned:
  assumes "\<And>t s t' s'. t \<in> set ts \<Longrightarrow> f t s = (t', s') \<Longrightarrow> parked t
      \<Longrightarrow> child_step (kids (os_world s)) t (kids (os_world s')) t' \<and> parked t'"
    and "owned kids (xs @ ts) (os_world s)" "each_tunnel f ts s = (ts', s')"
  shows "owned kids (xs @ ts') (os_world s')"
  using assms
proof (induction ts arbitrary: xs s ts' s')
  case (Cons t ts)
  obtain t1 s1 where f: "f t s = (t1, s1)" by (metis prod.collapse)
  obtain ts1 s2 where e: "each_tunnel f ts s1 = (ts1, s2)" by (metis prod.collapse)
  have "parked t" using Cons.prems(2) by (simp add: owned_def)
  then have "owned kids ((xs @ [t1]) @ ts) (os_world s1)"
    using owned_step [OF Cons.prems(2)] Cons.prems(1) [OF _ f] by simp
  from Cons.IH [OF Cons.prems(1) this e] Cons.prems(3) f e show ?case by (simp add: Let_def)
qed simp

definition sup_ok :: "('w \<Rightarrow> int set) \<Rightarrow> 'w sup \<Rightarrow> bool" where
  "sup_ok kids s = owned kids (su_tunnels s) (os_world (su_os s))"

lemma each_sup_ok:
  assumes "tun_op kids f" "sup_ok kids s"
  shows "sup_ok kids (sup_each f s)"
proof -
  obtain ts os where e: "each_tunnel f (su_tunnels s) (su_os s) = (ts, os)" by (metis prod.collapse)
  have "owned kids ([] @ ts) (os_world os)"
    using assms by (intro each_owned [OF _ _ e]) (auto simp: tun_op_def sup_ok_def)
  then show ?thesis using e by (simp add: sup_each_def sup_ok_def Let_def)
qed

lemma sup_ok_world: "sup_ok kids s \<Longrightarrow> su_tunnels s' = su_tunnels s \<Longrightarrow> kids (os_world (su_os s')) = kids (os_world (su_os s)) \<Longrightarrow> sup_ok kids s'"
  by (simp add: sup_ok_def owned_def)

lemma on_exit_pid:
  assumes "kernel_ok env kids" "tunnel_on_exit env code t s = (t', s')"
  shows "kids (os_world s') = kids (os_world s) \<and> pid_of t' = - 1 \<and> parked t'"
  using assms(2)
  by (auto simp: tunnel_on_exit_def Let_def parked_def pid_of_def split: if_splits prod.splits dest!: os_call_kids(1,2) [OF assms(1)])

lemma reap_one_pids:
  assumes "kernel_ok env kids" "0 < fst pc" "distinct (live_pids ts)" "list_all parked ts"
    and "reap_one env pc ts s = (ts', s')"
  shows "set (live_pids ts') = set (live_pids ts) - {fst pc} \<and> distinct (live_pids ts') \<and> list_all parked ts'
       \<and> kids (os_world s') = kids (os_world s)"
  using assms(3-5)
proof (induction ts arbitrary: ts' s')
  case (Cons t ts)
  have sp: "live_pids (u # us) = (if 0 < pid_of u then [pid_of u] else []) @ live_pids us" for u us
    using live_pids_split [of "[]" u us] by (simp add: live_pids_def)
  show ?case
  proof (cases "tp_pid (tn_proc t) = fst pc")
    case True
    obtain t1 s1 where x: "tunnel_on_exit env (snd pc) t s = (t1, s1)" by (metis prod.collapse)
    have "ts' = t1 # ts" "s' = s1" using Cons.prems(3) True x by (simp_all add: Let_def)
    then show ?thesis using on_exit_pid [OF assms(1) x] Cons.prems True assms(2) by (auto simp: sp pid_of_def)
  next
    case False
    obtain ts1 s1 where r: "reap_one env pc ts s = (ts1, s1)" by (metis prod.collapse)
    have e: "ts' = t # ts1" "s' = s1" using Cons.prems(3) False r by (simp_all add: Let_def)
    have "set (live_pids ts1) = set (live_pids ts) - {fst pc} \<and> distinct (live_pids ts1) \<and> list_all parked ts1
        \<and> kids (os_world s1) = kids (os_world s)"
      using Cons.IH [OF _ _ r] Cons.prems(1,2) by (auto simp: sp split: if_splits)
    then show ?thesis using e False Cons.prems(1,2) by (auto simp: sp pid_of_def split: if_splits)
  qed
qed (simp add: live_pids_def)

lemma reap_all_owned:
  assumes "kernel_ok env kids" "\<forall>pc \<in> set pcs. 0 < fst pc" "distinct (live_pids ts)" "list_all parked ts"
    and "kids (os_world s) = set (live_pids ts) - fst ` set pcs" "reap_all env pcs ts s = (ts', s')"
  shows "owned kids ts' (os_world s')"
  using assms(2-6)
proof (induction pcs arbitrary: ts s)
  case Nil
  then show ?case by (simp add: owned_def)
next
  case (Cons pc pcs)
  obtain ts1 s1 where r: "reap_one env pc ts s = (ts1, s1)" by (metis prod.collapse)
  have i: "set (live_pids ts1) = set (live_pids ts) - {fst pc} \<and> distinct (live_pids ts1) \<and> list_all parked ts1
      \<and> kids (os_world s1) = kids (os_world s)"
    using reap_one_pids [OF assms(1) _ _ _ r] Cons.prems(1-3) by simp
  then have k: "kids (os_world s1) = set (live_pids ts1) - fst ` set pcs" using Cons.prems(4) by auto
  have "reap_all env pcs ts1 s1 = (ts', s')" using Cons.prems(5) r by (simp add: Let_def)
  then show ?case using Cons.prems(1) i by (intro Cons.IH [OF _ _ _ k]) simp_all
qed

lemma reap_ok:
  assumes "kernel_ok env kids" "sup_ok kids s"
  shows "sup_ok kids (supervisor_reap env s)"
proof -
  obtain pcs w where r: "se_reap env (os_world (su_os s)) = (pcs, w)" by (metis prod.collapse)
  have "\<forall>w. let (pcs, w') = se_reap env w in
      (\<forall>pc \<in> set pcs. 0 < fst pc) \<and> distinct (map fst pcs) \<and> kids w' = kids w - fst ` set pcs"
    using assms(1) unfolding kernel_ok_def by (elim conjE)
  from this [THEN spec [of _ "os_world (su_os s)"]]
  have k: "\<forall>pc \<in> set pcs. 0 < fst pc" "kids w = kids (os_world (su_os s)) - fst ` set pcs" unfolding r by simp_all
  obtain ts os where a: "reap_all env pcs (su_tunnels s) ((su_os s)\<lparr>os_world := w\<rparr>) = (ts, os)" by (metis prod.collapse)
  have "owned kids ts (os_world os)"
    using assms(2) by (intro reap_all_owned [OF assms(1) k(1) _ _ _ a]) (simp_all add: sup_ok_def owned_def k(2))
  then show ?thesis by (simp add: supervisor_reap_def r a Let_def sup_ok_def)
qed

lemma ground_call_ok:
  assumes "\<And>g. kids (gs_world (f g)) = kids (gs_world g)" "sup_ok kids s"
  shows "sup_ok kids (ground_call f s)"
  by (rule sup_ok_world [OF assms(2)]) (simp_all add: ground_call_def Let_def assms(1))

lemma tick_ok:
  assumes "kernel_ok env kids" "sup_ok kids s"
  shows "sup_ok kids (supervisor_tick env c s)"
proof -
  have g: "gs_calls_keep (se_gs env) kids" and i: "kids (se_ifaces env w) = kids w" for w
    using assms(1) by (simp_all add: kernel_ok_def)
  obtain t_ms os1 where m: "os_now_ms env (su_os s) = (t_ms, os1)" by (metis prod.collapse)
  obtain t_us os2 where u: "os_now_us env os1 = (t_us, os2)" by (metis prod.collapse)
  have "sup_ok kids (s\<lparr>su_os := upd_os (se_ifaces env) os2\<rparr>)"
    by (rule sup_ok_world [OF assms(2)]) (simp_all add: upd_os_def i os_call_kids(2) [OF assms(1) m] os_call_kids(1) [OF assms(1) u])
  from each_sup_ok [OF tick_tunnel_op [OF assms(1)] this] show ?thesis
    unfolding supervisor_tick_def m u Let_def prod.case
    by (intro ground_call_ok csa_tick_keeps scan_tick_keeps logsync_keeps g)
qed

section \<open>Every step keeps the books\<close>


lemma on_named_owned:
  assumes "tun_op kids f" "owned kids (xs @ ts) (os_world s)" "on_named name f ts s = Some (ts', s')"
  shows "owned kids (xs @ ts') (os_world s')"
  using assms(2,3)
proof (induction ts arbitrary: xs ts')
  case (Cons t ts)
  show ?case
  proof (cases "gt_name t = name")
    case True
    obtain t1 s1 where f: "f t s = (t1, s1)" by (metis prod.collapse)
    have e: "ts' = t1 # ts" "s' = s1" using Cons.prems(2) True f by (simp_all add: Let_def)
    have "parked t" using Cons.prems(1) by (simp add: owned_def)
    then have "child_step (kids (os_world s)) t (kids (os_world s1)) t1 \<and> parked t1"
      using assms(1) f unfolding tun_op_def by blast
    then show ?thesis using owned_step [OF Cons.prems(1)] e by simp
  next
    case False
    then obtain ts1 where r: "on_named name f ts s = Some (ts1, s')" "ts' = t # ts1"
      using Cons.prems(2) by auto
    have "owned kids ((xs @ [t]) @ ts) (os_world s)" using Cons.prems(1) by simp
    from Cons.IH [OF this r(1)] show ?thesis using r(2) by simp
  qed
qed simp

lemma api_tunnel_ok:
  assumes "kernel_ok env kids" "sup_ok kids s"
  shows "sup_ok kids (snd (api_tunnel env name act s))"
proof -
  have "tun_op kids f" if "tunnel_action env (su_key_file s) act = Some f" for f
    using that start_op [OF assms(1)] request_stop_op [OF assms(1)] restart_op [OF assms(1)]
    by (auto simp: tunnel_action_def split: if_splits)
  then have "sup_ok kids (s\<lparr>su_tunnels := ts, su_os := os\<rparr>)"
    if "tunnel_action env (su_key_file s) act = Some f" "on_named name f (su_tunnels s) (su_os s) = Some (ts, os)" for f ts os
    using that on_named_owned [of kids f "[]"] assms(2) by (simp add: sup_ok_def)
  then show ?thesis using assms(2) by (auto simp: api_tunnel_def split: option.split)
qed

lemma control_quiet:
  assumes "kernel_ok env kids" "api_control env qs t s = (a, t', s')"
  shows "kids (os_world s') = kids (os_world s) \<and> tn_proc t' = tn_proc t"
proof -
  note calls = os_call_kids(1,4) [OF assms(1)] refresh_quiet(1) [OF assms(1)]
  have u: "tn_proc (upd_radio f x) = tn_proc x" for f x by (simp add: upd_radio_def)
  have cmd: "kids (os_world s1) = kids (os_world s) \<and> tn_proc t1 = tn_proc t"
    if "control_cmd env cmd qs t s = (r, t1, s1)" for cmd r t1 s1
  proof -
    have "kids (os_world s1) = kids (os_world s) \<and> tn_proc t1 = tn_proc t" if "control_set_fec env qs t s = (r, t1, s1)"
      using that by (auto simp: control_set_fec_def Let_def u split: if_splits prod.splits dest!: calls)
    moreover have "kids (os_world s1) = kids (os_world s) \<and> tn_proc t1 = tn_proc t" if "control_set_radio env qs t s = (r, t1, s1)"
      using that by (auto simp: control_set_radio_def Let_def u split: if_splits prod.splits dest!: calls)
    moreover have "kids (os_world s1) = kids (os_world s) \<and> tn_proc t1 = tn_proc t" if "control_get env b t s = (r, t1, s1)" for b
      using that by (auto simp: control_get_def split: prod.splits dest!: calls)
    ultimately show ?thesis using that by (auto simp: control_cmd_def split: if_splits)
  qed
  have answer: "kids (os_world s2) = kids (os_world s1) \<and> tn_proc t2 = tn_proc t1"
    if "control_answer env cmd bs t1 s1 = (b, t2, s2)" for cmd bs t1 s1 b t2 s2
    using that by (auto simp: control_answer_def Let_def u split: if_splits prod.splits dest!: calls)
  show ?thesis
    using assms(2) by (auto simp: api_control_def split: if_splits option.splits prod.splits sum.splits dest!: cmd answer)
qed

lemma ask_on_named:
  "ask_named name f ts s = Some (a, ts', s') \<Longrightarrow> on_named name (\<lambda>t s. snd (f t s)) ts s = Some (ts', s')"
  by (induction ts arbitrary: ts') (auto simp: case_prod_beta split: if_splits)

lemma api_control_ok:
  assumes "kernel_ok env kids" "sup_ok kids s"
  shows "sup_ok kids (snd (api_tunnel_control env name qs s))"
proof -
  have "tun_op kids (\<lambda>t s. snd (api_control env qs t s))"
    unfolding tun_op_def
  proof (intro allI impI, elim conjE)
    fix t s t' s' assume e: "snd (api_control env qs t s) = (t', s')" and "parked t"
    moreover have "api_control env qs t s = (fst (api_control env qs t s), t', s')" using e by (simp add: prod_eq_iff)
    ultimately show "child_step (kids (os_world s)) t (kids (os_world s')) t' \<and> parked t'"
      using control_quiet [OF assms(1)] by (metis child_step_same parked_def pid_of_def)
  qed
  from on_named_owned [OF this, of "[]"] have
    "sup_ok kids (s\<lparr>su_tunnels := ts, su_os := os\<rparr>)" if "ask_named name (api_control env qs) (su_tunnels s) (su_os s) = Some (a, ts, os)" for a ts os
    using ask_on_named [OF that] assms(2) by (simp add: sup_ok_def)
  then show ?thesis using assms(2) by (auto simp: api_tunnel_control_def split: option.split)
qed

lemma api_txpower_ok:
  assumes "kernel_ok env kids" "sup_ok kids s"
  shows "sup_ok kids (snd (api_txpower env qs s))"
proof -
  have "kids (snd (se_system env a w)) = kids w" "kids (se_ifaces env w) = kids w" for a w
    using assms(1) by (simp_all add: kernel_ok_def)
  then show ?thesis using assms(2)
    by (auto simp: api_txpower_def sup_ok_def owned_def upd_os_def Let_def case_prod_beta split: option.split)
qed

lemma system_block_kids:
  assumes "kernel_ok env kids"
  shows "kids (os_world (run_system_block env cs s)) = kids (os_world s)"
proof (induction cs arbitrary: s)
  case (Cons c cs)
  have "kids (os_world (snd (run_system_cmd env c s))) = kids (os_world s)"
    by (rule os_call_kids(5) [OF assms prod.collapse [symmetric]])
  then show ?case using Cons.IH by simp
qed simp

lemma check_ifaces_kids:
  assumes "kernel_ok env kids"
  shows "kids (os_world (snd (check_ifaces env is s))) = kids (os_world s)"
proof (induction "is" arbitrary: s)
  case (Cons i "is")
  have "kids (snd (se_iface_ready env i w)) = kids w" for w using assms by (simp add: kernel_ok_def)
  then show ?case using Cons.IH by (simp add: case_prod_beta Let_def)
qed simp

lemma wait_ifaces_kids:
  assumes "wait_ifaces env is iv dl s = Some y" "kernel_ok env kids"
  shows "kids (os_world (snd y)) = kids (os_world s)"
  using assms
proof (induction rule: wait_ifaces.raw_induct [rotated, consumes 1, case_names 1])
  case (1 wait env js iv dl s y)
  obtain bad s1 where c: "check_ifaces env js s = (bad, s1)" by (metis prod.collapse)
  obtain t s2 where n: "os_now_ms env s1 = (t, s2)" by (metis prod.collapse)
  have k: "kids (os_world s1) = kids (os_world s)" "kids (os_world s2) = kids (os_world s1)"
    "kids (os_world (snd (check_ifaces env js s2))) = kids (os_world s2)"
    "kids (os_world (upd_os (se_sleep env iv) s2)) = kids (os_world s2)"
    using check_ifaces_kids [OF 1(3), of js s] c os_call_kids(2) [OF 1(3) n] check_ifaces_kids [OF 1(3), of js s2] 1(3)
    by (simp_all add: upd_os_def kernel_ok_def)
  show ?case
    using 1(1) [OF _ 1(3), of js iv dl "upd_os (se_sleep env iv) s2" y] 1(2) k
    by (auto simp: c n Let_def split: if_splits)
qed

lemma bring_up_ok:
  assumes "kernel_ok env kids" "sup_ok kids s" "supervisor_bring_up env s = Some (ok, s')"
  shows "sup_ok kids s'" "su_tunnels s' = su_tunnels s" "su_key_file s' = su_key_file s"
proof -
  obtain t os1 where n: "os_now_ms env (run_system_block env (su_up s) (su_os s)) = (t, os1)" by (metis prod.collapse)
  have i: "kids (se_ifaces env w) = kids w" for w using assms(1) by (simp add: kernel_ok_def)
  obtain ok1 os where w: "wait_iface_state env 5000 100 (su_tunnels s) (run_system_block env (su_up s) (su_os s)) = Some (ok1, os)"
    using assms(3) by (auto simp: supervisor_bring_up_def split: option.splits)
  have "kids (os_world os) = kids (os_world (su_os s))"
    using wait_ifaces_kids [OF w [unfolded wait_iface_state_def n Let_def prod.case] assms(1)]
      os_call_kids(2) [OF assms(1) n] system_block_kids [OF assms(1)] by simp
  then have "kids (os_world (su_os s')) = kids (os_world (su_os s)) \<and> su_tunnels s' = su_tunnels s \<and> su_key_file s' = su_key_file s"
  proof -
    have "s' = (if ok1 then s\<lparr>su_os := upd_os (se_ifaces env) os, su_system := SYS_UP\<rparr>
        else s\<lparr>su_os := run_system_block env (su_down s) os, su_system := SYS_UP_FAILED\<rparr>)"
      using assms(3) unfolding supervisor_bring_up_def w by (cases ok1) simp_all
    moreover have "kids (os_world (upd_os (se_ifaces env) os)) = kids (os_world os)" by (simp add: upd_os_def i)
    ultimately show ?thesis
      using \<open>kids (os_world os) = kids (os_world (su_os s))\<close> by (simp add: system_block_kids [OF assms(1)])
  qed
  then show "sup_ok kids s'" "su_tunnels s' = su_tunnels s" "su_key_file s' = su_key_file s"
    using sup_ok_world [OF assms(2)] by simp_all
qed

lemma stop_wait_ok:
  assumes "stop_wait env dl s = Some y" "kernel_ok env kids" "sup_ok kids s"
  shows "sup_ok kids y"
  using assms
proof (induction rule: stop_wait.raw_induct [rotated, consumes 1, case_names 1])
  case (1 wait env dl s y)
  obtain t os where n: "os_now_ms env (su_os s) = (t, os)" by (metis prod.collapse)
  let ?s1 = "s\<lparr>su_os := os\<rparr>"
  have k: "sup_ok kids ?s1"
    by (rule sup_ok_world [OF 1(4)]) (simp_all add: os_call_kids(2) [OF 1(3) n])
  let ?s2 = "supervisor_reap env ?s1"
  have "kids (se_sleep env 50 w) = kids w" for w using 1(3) by (simp add: kernel_ok_def)
  then have "sup_ok kids (?s2\<lparr>su_os := upd_os (se_sleep env 50) (su_os ?s2)\<rparr>)"
    by (intro sup_ok_world [OF reap_ok [OF 1(3) k]]) (simp_all add: upd_os_def)
  then show ?case using 1(1) [OF _ 1(3)] 1(2) k by (auto simp: n Let_def split: if_splits)
qed

lemma stop_all_ok:
  assumes "kernel_ok env kids" "sup_ok kids s" "supervisor_stop_all_tunnels env s = Some s'"
  shows "sup_ok kids s'"
proof -
  obtain t os where n: "os_now_ms env (su_os (sup_each (stop_begin env) s)) = (t, os)" by (metis prod.collapse)
  obtain s2 where w: "stop_wait env (t + GS_STOP_GRACE_MS + 500) (sup_each (stop_begin env) s\<lparr>su_os := os\<rparr>) = Some s2"
    "s' = sup_each (stop_force env) s2"
    using assms(3) by (auto simp: supervisor_stop_all_tunnels_def n Let_def)
  have "sup_ok kids (sup_each (stop_begin env) s\<lparr>su_os := os\<rparr>)"
    by (rule sup_ok_world [OF each_sup_ok [OF stop_ops(1) [OF assms(1)] assms(2)]])
      (simp_all add: os_call_kids(2) [OF assms(1) n])
  from stop_wait_ok [OF w(1) assms(1) this] show ?thesis
    unfolding w(2) by (rule each_sup_ok [OF stop_ops(2) [OF assms(1)]])
qed

lemma step_ok:
  assumes "sup_step env c s s'" "kernel_ok env kids" "sup_ok kids s"
  shows "sup_ok kids s'"
proof -
  have blk: "sup_ok kids (s\<lparr>su_os := run_system_block env cs (su_os s), su_system := y\<rparr>)"
    "sup_ok kids (s\<lparr>su_os := run_system_block env cs (su_os s)\<rparr>)"
    if "sup_ok kids s" for s cs y
    using sup_ok_world [OF that] by (simp_all add: system_block_kids [OF assms(2)])
  have up: "sup_ok kids (sup_each (autospawn env k) s1)" if "sup_ok kids s1" for k s1
    by (rule each_sup_ok [OF start_op(2) [OF assms(2)] that])
  from assms(1) show ?thesis
  proof cases
    case (up code)
    then show ?thesis
      using assms(3) bring_up_ok(1) [OF assms(2,3)] \<open>\<And>s1 k. sup_ok kids s1 \<Longrightarrow> sup_ok kids (sup_each (autospawn env k) s1)\<close>
      by (auto simp: api_system_up_def split: if_splits option.splits prod.splits)
  next
    case (down code)
    then show ?thesis
      using stop_all_ok [OF assms(2,3)] blk by (auto simp: api_system_down_def supervisor_take_down_def)
  next
    case (reinit code)
    then obtain s1 ok s2 where r: "supervisor_stop_all_tunnels env s = Some s1"
      "supervisor_bring_up env (s1\<lparr>su_os := run_system_block env (su_down s1) (su_os s1)\<rparr>) = Some (ok, s2)"
      "s' = (if ok then sup_each (autospawn env (su_key_file s2)) s2 else s2)"
      by (auto simp: api_system_reinit_def split: option.splits prod.splits if_splits)
    have "sup_ok kids s2"
      by (rule bring_up_ok(1) [OF assms(2) blk(2) [OF stop_all_ok [OF assms(2,3) r(1)]] r(2)])
    then show ?thesis unfolding r(3) by (simp add: \<open>\<And>s1 k. sup_ok kids s1 \<Longrightarrow> sup_ok kids (sup_each (autospawn env k) s1)\<close>)
  qed (simp_all add: tick_ok [OF assms(2,3)] reap_ok [OF assms(2,3)] api_tunnel_ok [OF assms(2,3)]
      api_control_ok [OF assms(2,3)] api_txpower_ok [OF assms(2,3)])
qed

lemma boot_ok:
  assumes "kernel_ok env kids" "supervisor_boot env s = Some s'" "kids (os_world (su_os s)) = {}"
    and "\<forall>t \<in> set (su_tunnels s). pid_of t \<le> 0"
  shows "sup_ok kids s'"
proof -
  have nil: "live_pids ts = []" if "\<forall>t \<in> set ts. pid_of t \<le> 0" for ts
    using that by (induction ts) (auto simp: live_pids_def)
  have o: "sup_ok kids s" using assms(3,4) nil [OF assms(4)] by (simp add: sup_ok_def owned_def parked_def list_all_iff)
  obtain ok s1 where b: "supervisor_bring_up env s = Some (ok, s1)"
    "s' = (if ok then sup_each (\<lambda>t os. if tn_autostart t then snd (tunnel_spawn env (su_key_file s1) t os) else (t, os)) s1
           else s1)"
    using assms(2) by (auto simp: supervisor_boot_def split: option.splits prod.splits)
  note s1 = bring_up_ok [OF assms(1) o b(1)]
  let ?f = "\<lambda>t os. if tn_autostart t then snd (tunnel_spawn env (su_key_file s1) t os) else (t, os)"
  obtain ts os where e: "each_tunnel ?f (su_tunnels s1) (su_os s1) = (ts, os)" by (rule that [OF prod.collapse [symmetric]])
  have "owned kids ([] @ ts) (os_world os)"
  proof (rule each_owned [OF _ _ e])
    fix t x t' x' assume t: "t \<in> set (su_tunnels s1)" "?f t x = (t', x')" "parked t"
    then have p: "pid_of t \<le> 0" using assms(4) s1(2) by simp
    obtain ok u y where sp: "tunnel_spawn env (su_key_file s1) t x = (ok, u, y)" by (metis prod_cases3)
    show "child_step (kids (os_world x)) t (kids (os_world x')) t' \<and> parked t'"
    proof (cases "tn_autostart t")
      case True
      then have "t' = u" "x' = y" using t(2) sp by simp_all
      then show ?thesis using spawn_child [OF assms(1) sp p] by simp
    next
      case False
      then show ?thesis using t(2,3) by (simp add: child_step_same)
    qed
  qed (use s1(1) in \<open>simp add: sup_ok_def\<close>)
  then show ?thesis using s1(1) b(2) e by (simp add: sup_each_def sup_ok_def Let_def)
qed

lemma reach_ok:
  assumes "sup_reach env c s0 s" "kernel_ok env kids" "kids (os_world (su_os s0)) = {}"
    and "\<forall>t \<in> set (su_tunnels s0). pid_of t \<le> 0"
  shows "sup_ok kids s"
  using assms(1)
proof induction
  case (boot s)
  then show ?case by (rule boot_ok [OF assms(2) _ assms(3,4)])
next
  case (step s s')
  then show ?case using step_ok [OF _ assms(2)] by blast
qed

end
