(* ===== verification/GroundSafety.thy ===== *)
theory GroundSafety
  imports GroundChildren
begin

text \<open>
  The children's books as a theorem over every reachable state of the supervisor, and a concrete kernel (children that die
  when signalled, a clock that advances by two seconds per reading and saturates) on which the process theorems are
  instantiated.
\<close>

section \<open>A concrete kernel\<close>

record demo_os =
  do_clock :: u64
  do_kids :: "int list"
  do_dead :: "int list"

definition demo_sleep :: "nat \<Rightarrow> demo_os \<Rightarrow> demo_os" where
  "demo_sleep n w = (let t = do_clock w in
     if unat t \<ge> 2 ^ 63 then w else w\<lparr>do_clock := word_of_nat (min (unat t + 1000 * n) (2 ^ 63))\<rparr>)"

definition demo_sup_env :: "demo_os sup_env" where
  "demo_sup_env = \<lparr>
     se_gs = \<lparr> ge_clock = (\<lambda>w. (do_clock w, demo_sleep 2000 w)), ge_time = (\<lambda>_. 0), ge_socket = (\<lambda>w. (0, w)),
       ge_sendto = (\<lambda>p b w. ((True, 0), w)), ge_iw = (\<lambda>i ch ht w. (0, w)), ge_drain = (\<lambda>i w. w) \<rparr>,
     se_listen = (\<lambda>w. (Some 9000, w)),
     se_fork = (\<lambda>argv w. let pid = 1 + fold max (do_kids w) 100 in (pid, w\<lparr>do_kids := pid # do_kids w\<rparr>)),
     se_kill = (\<lambda>pid sig w. (True, if pid \<in> set (do_kids w) then w\<lparr>do_dead := pid # do_dead w\<rparr> else w)),
     se_reap = (\<lambda>w. let ps = remdups (filter (\<lambda>p. 0 < p) (do_dead w)) in
       (map (\<lambda>p. (p, - 15)) ps, w\<lparr>do_kids := filter (\<lambda>p. p \<notin> set ps) (do_kids w), do_dead := []\<rparr>)),
     se_waitpid = (\<lambda>pid w. w\<lparr>do_kids := filter (\<lambda>p. p \<noteq> pid) (do_kids w)\<rparr>),
     se_sleep = demo_sleep, se_system = (\<lambda>a w. (0, w)), se_iface_ready = (\<lambda>i w. (True, w)), se_ifaces = (\<lambda>w. w),
     se_ctrl = (\<lambda>p n b w. (None, w)) \<rparr>"

definition demo_tunnel :: tunnel where
  "demo_tunnel = \<lparr> gt_name = ''video'', gt_role = ''rx'', gt_ifaces = [''wlan0''], gt_udp_in_port = 0, gt_pkt_all = 0,
     tn_binary = [], tn_link_id = 7, tn_radio_port = 0, tn_udp_out_ip = ''127.0.0.1'', tn_udp_out_port = 5600,
     tn_stats_out = [], tn_stats_tap = [], tn_probe = False, tn_probe_window_ms = 1000, tn_control_port = 0,
     tn_extra_args = [], tn_keyless = False, tn_autostart = True,
     tn_proc = \<lparr> tp_state = TS_STOPPED, tp_pid = - 1, tp_started_us = 0, tp_exited_us = 0, tp_exit_code = 0,
       tp_restart_count = 0, tp_backoff_idx = 0, tp_next_start_ms = 0, tp_autostart_on_exit = False,
       tp_stop_deadline_ms = 0, tp_init_query_us = 0 \<rparr>,
     tn_radio = \<lparr> tr_fec_k = 0, tr_fec_n = 0, tr_fec_timeout_ms = 0, tr_stbc = - 1, tr_ldpc = - 1, tr_short_gi = - 1,
       tr_bandwidth = 0, tr_mcs = - 1, tr_vht_mode = - 1, tr_vht_nss = - 1, tr_radio_have = False, tr_fec_have = False,
       tr_radio_us = 0 \<rparr>,
     tn_listen = \<lparr> tl_open = False, tl_arg = [], tl_fwd = None, tl_tap = None \<rparr>,
     tn_stats = \<lparr> ts_first_us = 0, ts_last_us = 0, ts_interval_ms = 0, ts_msgs = 0, ts_lost = 0, ts_fec = 0,
       ts_outgoing = 0, ts_dec_err = 0, ts_bytes = 0, ts_uniq = 0, ts_ant_count = 0, ts_rssi_best = 0, ts_mcs_win = [],
       ts_mcs_win_sec = [], ts_tx = [] \<rparr>,
     tn_acc = \<lparr> pa_start_us = 0, pa_buckets = [], pa_emits = 0, pa_drops = 0 \<rparr> \<rparr>"

definition demo_sup :: "demo_os sup" where
  "demo_sup = \<lparr> su_os = \<lparr> os_world = \<lparr> do_clock = 5000000, do_kids = [], do_dead = [] \<rparr>, os_req_id = 0, os_trace = [] \<rparr>,
     su_tunnels = [demo_tunnel], su_key_file = ''/etc/drone.key'', su_up = [''iw dev wlan0 set channel 149''], su_down = [],
     su_system = SYS_DOWN, su_gs = gs_init \<lparr> do_clock = 5000000, do_kids = [], do_dead = [] \<rparr> \<rparr>"

lemma demo_fold_max: "a \<le> fold max xs (a::int)" "x \<in> set xs \<Longrightarrow> x \<le> fold max xs a"
proof -
  have b: "a \<le> fold max xs a" for a and xs :: "int list"
  proof (induction xs arbitrary: a)
    case (Cons y ys)
    have "a \<le> max y a" by simp
    also have "\<dots> \<le> fold max ys (max y a)" by (rule Cons.IH)
    finally show ?case by simp
  qed simp
  then show "a \<le> fold max xs a" .
  show "x \<in> set xs \<Longrightarrow> x \<le> fold max xs a"
  proof (induction xs arbitrary: a)
    case (Cons y ys)
    have "y \<le> max y a" by simp
    also have "\<dots> \<le> fold max ys (max y a)" by (rule b)
    finally show ?case using Cons by auto
  qed simp
qed

lemma demo_kernel: "kernel_ok demo_sup_env (\<lambda>w. set (do_kids w))"
proof -
  have "0 < 1 + fold max xs (100::int)" for xs using demo_fold_max(1) [of 100 xs] by simp
  moreover have "1 + fold max xs (100::int) \<notin> set xs" for xs using demo_fold_max(2) [of "1 + fold max xs 100" xs 100] by auto
  moreover have "set (do_kids (demo_sleep n w)) = set (do_kids w)" for n w by (simp add: demo_sleep_def Let_def)
  moreover have "\<not> 1 + fold max xs (100::int) < 0" for xs using demo_fold_max(1) [of 100 xs] by simp
  ultimately show ?thesis
    by (auto simp: kernel_ok_def gs_calls_keep_def demo_sup_env_def Let_def comp_def image_image)
qed

text \<open>C10: the supervisor neither leaks nor loses a child.  In every state reached from start-up by ticks, reaps, tunnel actions
  and the system routes, the children the kernel still holds are exactly the positive pids of the tunnels, no two
  tunnels share one, and a tunnel waiting for its back-off has none, so no respawn orphans a running process.
\<close>

theorem children_owned:
  assumes "kernel_ok env kids" "kids (os_world (su_os s0)) = {}" "\<forall>t \<in> set (su_tunnels s0). tp_pid (tn_proc t) \<le> 0"
    and "sup_reach env c s0 s"
  shows "kids (os_world (su_os s)) = {p. 0 < p \<and> p \<in> (\<lambda>t. tp_pid (tn_proc t)) ` set (su_tunnels s)}
    \<and> distinct (filter (\<lambda>p. 0 < p) (map (\<lambda>t. tp_pid (tn_proc t)) (su_tunnels s)))
    \<and> (\<forall>t \<in> set (su_tunnels s). tp_state (tn_proc t) = TS_BACKOFF \<longrightarrow> tp_pid (tn_proc t) \<le> 0)"
proof -
  have "sup_ok kids s" by (rule reach_ok [OF assms(4,1,2)]) (simp add: assms(3) pid_of_def)
  moreover have "map pid_of ts = map (\<lambda>t. tp_pid (tn_proc t)) ts" for ts by (simp add: pid_of_def)
  ultimately show ?thesis by (auto simp: sup_ok_def owned_def live_pids_def parked_def list_all_iff pid_of_def)
qed

lemma wait_ifaces_ready:
  "check_ifaces env is s = (0, s1) \<Longrightarrow> wait_ifaces env is iv dl s = Some (True, s1)"
  by (subst wait_ifaces.simps) simp

definition demo_up :: "demo_os sup" where
  "demo_up = sup_each (\<lambda>t os. if tn_autostart t then snd (tunnel_spawn demo_sup_env (su_key_file demo_sup) t os) else (t, os))
     (demo_sup\<lparr>su_os := (su_os demo_sup)\<lparr>os_world := demo_sleep 2000 (os_world (su_os demo_sup)),
        os_trace := [SpSystem [''iw'', ''dev'', ''wlan0'', ''set'', ''channel'', ''149'']]\<rparr>, su_system := SYS_UP\<rparr>)"

lemma demo_boot: "supervisor_boot demo_sup_env demo_sup = Some demo_up"
proof -
  have e: "ge_clock (se_gs demo_sup_env) w = (do_clock w, demo_sleep 2000 w)" "se_iface_ready demo_sup_env i w = (True, w)"
    "se_ifaces demo_sup_env w = w" for i w by (simp_all add: demo_sup_env_def)
  have c: "check_ifaces demo_sup_env is s = (0, s)" for "is" s by (induction "is") (simp_all add: e)
  have "tokenize_argv (take 255 ''iw dev wlan0 set channel 149'') GS_SYSTEM_CMD_MAX_ARGV
      = Some [''iw'', ''dev'', ''wlan0'', ''set'', ''channel'', ''149'']"
    by code_simp
  then have b: "run_system_block demo_sup_env (su_up demo_sup) (su_os demo_sup)
      = (su_os demo_sup)\<lparr>os_trace := [SpSystem [''iw'', ''dev'', ''wlan0'', ''set'', ''channel'', ''149'']]\<rparr>"
    by (simp add: demo_sup_def run_system_cmd_def) (simp add: demo_sup_env_def)
  have "supervisor_bring_up demo_sup_env demo_sup = Some (True, demo_sup\<lparr>su_os := (su_os demo_sup)\<lparr>
      os_world := demo_sleep 2000 (os_world (su_os demo_sup)), os_trace := [SpSystem [''iw'', ''dev'', ''wlan0'', ''set'', ''channel'', ''149'']]\<rparr>, su_system := SYS_UP\<rparr>)"
    by (simp add: supervisor_bring_up_def wait_iface_state_def b wait_ifaces_ready [OF c] os_now_ms_def os_now_us_def e Let_def
        upd_os_def)
  then show ?thesis by (simp add: supervisor_boot_def demo_up_def cong: if_cong)
qed

lemma show_nat_small: "n < 10 \<Longrightarrow> show_nat n = [digit_char n]"
  "10 \<le> n \<Longrightarrow> show_nat n = show_nat (n div 10) @ [digit_char (n mod 10)]"
  by (subst show_nat.simps; simp)+

lemma demo_listen:
  "stats_listener_open demo_sup_env demo_tunnel s = (demo_tunnel\<lparr>tn_listen := \<lparr> tl_open = True,
     tl_arg = ''127.0.0.1:9000'', tl_fwd = None, tl_tap = None \<rparr>\<rparr>, s)"
  by (simp add: stats_listener_open_def demo_sup_env_def demo_tunnel_def show_int_def show_nat_small digit_char_def char_of_def bit_0)

lemma demo_argv:
  "build_argv (demo_tunnel\<lparr>tn_listen := \<lparr> tl_open = True, tl_arg = ''127.0.0.1:9000'', tl_fwd = None, tl_tap = None \<rparr>\<rparr>)
     ''/etc/drone.key'' = Some [''wfb_rx'', ''-K'', ''/etc/drone.key'', ''-c'', ''127.0.0.1'', ''-u'', ''5600'', ''-i'', ''7'', ''-p'',
       ''0'', ''-Y'', ''127.0.0.1:9000'', ''wlan0'']"
  by (simp add: build_argv_def argv_rx_def opt_args_def demo_tunnel_def show_int_def show_nat_small digit_char_def char_of_def bit_0 ab_push_def
      GS_ARGV_MAX_def GS_ARGV_BUF_def)

lemma demo_up_tunnels:
  "\<exists>t. su_tunnels demo_up = [t] \<and> gt_name t = ''video'' \<and> tp_pid (tn_proc t) = 101 \<and> tp_restart_count (tn_proc t) = 1"
  "do_clock (os_world (su_os demo_up)) = 9000000"
proof -
  have "su_tunnels demo_sup = [demo_tunnel]" "su_key_file demo_sup = ''/etc/drone.key''" "tn_autostart demo_tunnel"
    "do_kids (os_world (su_os demo_sup)) = []" "do_clock (os_world (su_os demo_sup)) = 5000000" "gt_name demo_tunnel = ''video''" "tp_restart_count (tn_proc demo_tunnel) = 0"
    by (simp_all add: demo_sup_def demo_tunnel_def)
  moreover have "se_fork demo_sup_env argv w = (1 + fold max (do_kids w) 100, w\<lparr>do_kids := (1 + fold max (do_kids w) 100) # do_kids w\<rparr>)"
    for argv w by (simp add: demo_sup_env_def Let_def)
  moreover have "ge_clock (se_gs demo_sup_env) w = (do_clock w, demo_sleep 2000 w)" for w by (simp add: demo_sup_env_def)
  moreover have "do_kids (demo_sleep n w) = do_kids w" for n w by (simp add: demo_sleep_def Let_def)
  ultimately show "\<exists>t. su_tunnels demo_up = [t] \<and> gt_name t = ''video'' \<and> tp_pid (tn_proc t) = 101 \<and> tp_restart_count (tn_proc t) = 1"
    "do_clock (os_world (su_os demo_up)) = 9000000"
    by (simp_all add: demo_up_def sup_each_def tunnel_spawn_def demo_listen demo_argv os_now_us_def Let_def spawned_def
        upd_proc_def reset_stats_def) (simp add: demo_sleep_def)
qed

lemma children_owned_witness:
  "\<exists>s. sup_reach demo_sup_env demo_gs_cfg demo_sup s \<and> map (\<lambda>t. tp_pid (tn_proc t)) (su_tunnels s) = [101]
    \<and> set (do_kids (os_world (su_os s))) = {101}"
proof (intro exI conjI)
  show r: "sup_reach demo_sup_env demo_gs_cfg demo_sup demo_up" by (rule sup_reach.boot [OF demo_boot])
  show p: "map (\<lambda>t. tp_pid (tn_proc t)) (su_tunnels demo_up) = [101]" using demo_up_tunnels(1) by auto
  then have "(\<lambda>t. tp_pid (tn_proc t)) ` set (su_tunnels demo_up) = {101}" by (metis list.set(1,2) set_map)
  then show "set (do_kids (os_world (su_os demo_up))) = {101}"
    using children_owned [OF demo_kernel _ _ r] by (auto simp: demo_sup_def demo_tunnel_def)
qed

end
