(* ===== verification/GroundStop.thy ===== *)
theory GroundStop
  imports GroundSafety
begin

text \<open>
  The stop of one tunnel: what any number of ticks, reaps and requests for other tunnels can do to it afterwards.
\<close>

section \<open>A stopped tunnel\<close>

text \<open>Time passing, children being reaped and requests for other tunnels.\<close>

inductive unattended :: "'w sup_env \<Rightarrow> gs_config \<Rightarrow> string \<Rightarrow> 'w sup \<Rightarrow> 'w sup \<Rightarrow> bool" for env c nm s where
  none: "unattended env c nm s s"
| tick: "unattended env c nm s s1 \<Longrightarrow> unattended env c nm s (supervisor_tick env c s1)"
| reap: "unattended env c nm s s1 \<Longrightarrow> unattended env c nm s (supervisor_reap env s1)"
| other: "unattended env c nm s s1 \<Longrightarrow> name \<noteq> nm \<Longrightarrow> unattended env c nm s (snd (api_tunnel env name act s1))"

definition halted :: "tunnel \<Rightarrow> bool" where
  "halted t = (\<not> tp_autostart_on_exit (tn_proc t) \<and> tp_state (tn_proc t) \<noteq> TS_BACKOFF)"

text \<open>What becomes of a halted tunnel \<open>nm\<close>: no restart, at most its exit, and while it lives the deadline of its
  stop, unless \<open>SIGKILL\<close> is in the trace.\<close>

definition down :: "string \<Rightarrow> sup_event list \<Rightarrow> tunnel \<Rightarrow> tunnel \<Rightarrow> bool" where
  "down nm tr t t' = (gt_name t' = gt_name t
     \<and> (gt_name t = nm \<and> halted t \<longrightarrow> halted t' \<and> tp_restart_count (tn_proc t') = tp_restart_count (tn_proc t)
          \<and> (pid_of t' = pid_of t \<or> pid_of t' = - 1)
          \<and> (0 < pid_of t' \<longrightarrow> tp_stop_deadline_ms (tn_proc t') = tp_stop_deadline_ms (tn_proc t)
               \<or> SpKill (pid_of t) SIGKILL \<in> set tr)))"

lemma down_refl [simp]: "down nm tr t t"
  by (simp add: down_def)

lemma down_trans:
  assumes "down nm tr1 t t1" "down nm tr2 t1 t2" "set tr1 \<subseteq> set tr2"
  shows "down nm tr2 t t2"
proof (cases "gt_name t = nm \<and> halted t")
  case True
  have a: "gt_name t1 = nm" "halted t1" "tp_restart_count (tn_proc t1) = tp_restart_count (tn_proc t)"
    "pid_of t1 = pid_of t \<or> pid_of t1 = - 1"
    "0 < pid_of t1 \<longrightarrow> tp_stop_deadline_ms (tn_proc t1) = tp_stop_deadline_ms (tn_proc t) \<or> SpKill (pid_of t) SIGKILL \<in> set tr1"
    "gt_name t1 = gt_name t"
    using assms(1) True by (simp_all add: down_def)
  have b: "gt_name t2 = gt_name t1" "halted t2" "tp_restart_count (tn_proc t2) = tp_restart_count (tn_proc t1)"
    "pid_of t2 = pid_of t1 \<or> pid_of t2 = - 1"
    "0 < pid_of t2 \<longrightarrow> tp_stop_deadline_ms (tn_proc t2) = tp_stop_deadline_ms (tn_proc t1) \<or> SpKill (pid_of t1) SIGKILL \<in> set tr2"
    using assms(2) a(1,2) by (simp_all add: down_def)
  show ?thesis unfolding down_def
  proof (intro conjI impI)
    assume "0 < pid_of t2"
    then have "pid_of t2 = pid_of t1" "pid_of t1 = pid_of t" using a(4) b(4) by auto
    with \<open>0 < pid_of t2\<close> a(5) b(5) assms(3)
    show "tp_stop_deadline_ms (tn_proc t2) = tp_stop_deadline_ms (tn_proc t) \<or> SpKill (pid_of t) SIGKILL \<in> set tr2" by auto
  qed (use a b in auto)
qed (use assms in \<open>auto simp: down_def\<close>)

lemma down_mono: "down nm tr t t' \<Longrightarrow> set tr \<subseteq> set tr' \<Longrightarrow> down nm tr' t t'"
  using down_trans [of nm tr t t' tr' t'] by simp

text \<open>Operations that only extend the trace and leave a halted tunnel down.\<close>

definition grows :: "'w osys \<Rightarrow> 'w osys \<Rightarrow> bool" where
  "grows s s' = (set (os_trace s) \<subseteq> set (os_trace s'))"

lemma grows_refl [simp]: "grows s s" and grows_trans: "grows s s1 \<Longrightarrow> grows s1 s2 \<Longrightarrow> grows s s2"
  by (auto simp: grows_def)

lemma os_call_grows:
  shows "os_now_us env s = (us, s') \<Longrightarrow> os_trace s' = os_trace s"
    and "os_now_ms env s = (ms, s') \<Longrightarrow> os_trace s' = os_trace s"
    and "os_kill env pid sig s = (ok, s') \<Longrightarrow> os_trace s' = os_trace s @ [SpKill pid sig]"
    and "wfb_cmd_round_trip env port b s = (r, s') \<Longrightarrow> os_trace s' = os_trace s @ [SpCtrl port b]"
    and "stats_listener_open env t s = (t', s') \<Longrightarrow> os_trace s' = os_trace s"
  by (auto simp: os_now_us_def os_now_ms_def os_kill_def wfb_cmd_round_trip_def stats_listener_open_def Let_def case_prod_beta
      split: if_splits option.splits)

definition down_op :: "string \<Rightarrow> (tunnel \<Rightarrow> 'w osys \<Rightarrow> tunnel \<times> 'w osys) \<Rightarrow> bool" where
  "down_op nm f = (\<forall>t s t' s'. f t s = (t', s') \<longrightarrow> grows s s' \<and> down nm (os_trace s') t t')"

lemma upd_proc_name [simp]: "gt_name (upd_proc f t) = gt_name t" "gt_name (reset_stats t) = gt_name t"
  by (simp_all add: upd_proc_def reset_stats_def Let_def)

lemma spawn_name:
  assumes "tunnel_spawn env key t s = (ok, t', s')"
  shows "gt_name t' = gt_name t" "grows s s'"
proof -
  obtain t1 s1 where l: "stats_listener_open env t s = (t1, s1)" by (metis prod.collapse)
  have n: "gt_name t1 = gt_name t" "os_trace s1 = os_trace s"
    using l os_call_grows(5) [OF l] by (auto simp: stats_listener_open_def Let_def split: if_splits prod.splits option.splits)
  show "gt_name t' = gt_name t" "grows s s'"
    using assms n by (auto simp: tunnel_spawn_def l Let_def grows_def split: option.splits prod.splits if_splits
        dest!: os_call_grows(1))
qed

lemma refresh_down:
  shows "wfb_cmd_refresh_radio env t s = (ok, t', s') \<Longrightarrow> grows s s' \<and> tn_proc t' = tn_proc t \<and> gt_name t' = gt_name t"
    and "wfb_cmd_refresh_fec env t s = (ok, t', s') \<Longrightarrow> grows s s' \<and> tn_proc t' = tn_proc t \<and> gt_name t' = gt_name t"
  by (auto simp: wfb_cmd_refresh_radio_def wfb_cmd_refresh_fec_def Let_def grows_def split: if_splits option.splits prod.splits
      dest!: os_call_grows(1,4))

lemma tick_kill_down: "down_op nm (tick_kill env t_ms)"
  by (auto simp: down_op_def tick_kill_def Let_def os_kill_def case_prod_beta grows_def down_def halted_def pid_of_def
      upd_proc_def split: if_splits)

lemma tick_query_down:
  assumes "tick_query env t_us t s = (t', s')"
  shows "grows s s' \<and> down nm (os_trace s') t t' \<and> tn_proc t' = (tn_proc t)\<lparr>tp_init_query_us := tp_init_query_us (tn_proc t')\<rparr>"
proof -
  obtain ok3 t3 s3 where q1: "wfb_cmd_refresh_radio env (upd_proc (\<lambda>p. p\<lparr>tp_init_query_us := 0\<rparr>) t) s = (ok3, t3, s3)"
    by (metis prod_cases3)
  let ?t4 = "if ok3 then t3 else upd_proc (\<lambda>p. p\<lparr>tp_init_query_us := t_us + 1000000\<rparr>) t3"
  obtain ok5 t5 s5 where q2: "wfb_cmd_refresh_fec env ?t4 s3 = (ok5, t5, s5)" by (metis prod_cases3)
  have "(t', s') = (t5, s5) \<or> (t', s') = (t, s)"
    unfolding assms [symmetric] tick_query_def Let_def q1 prod.case q2 by simp
  then show ?thesis
  proof
    assume e: "(t', s') = (t5, s5)"
    note r1 = refresh_down(1) [OF q1] and r2 = refresh_down(2) [OF q2]
    have p: "tn_proc t' = (tn_proc t)\<lparr>tp_init_query_us := tp_init_query_us (tn_proc t')\<rparr>" "gt_name t' = gt_name t"
      using e r1 r2 by (simp_all split: if_splits)
    have "tp_state (tn_proc t') = tp_state (tn_proc t)" "tp_pid (tn_proc t') = tp_pid (tn_proc t)"
      "tp_autostart_on_exit (tn_proc t') = tp_autostart_on_exit (tn_proc t)"
      "tp_restart_count (tn_proc t') = tp_restart_count (tn_proc t)"
      "tp_stop_deadline_ms (tn_proc t') = tp_stop_deadline_ms (tn_proc t)"
      using p(1) by (metis tun_proc.simps tun_proc.surjective)+
    then have d: "down nm tr t t'" for tr by (simp add: down_def halted_def pid_of_def p(2))
    show ?thesis using e r1 r2 p d by (auto intro: grows_trans)
  qed simp
qed

lemma respawn_grows:
  assumes "tick_respawn env key t_ms t s = (t', s')"
  shows "grows s s'"
proof -
  obtain ok u x where "tunnel_spawn env key t s = (ok, u, x)" by (metis prod_cases3)
  then show ?thesis using assms spawn_name(2) by (auto simp: tick_respawn_def split: if_splits)
qed

lemma tick_after_kill:
  assumes "tick_tunnel env key t_ms t_us t s = (t', s')" "tick_kill env t_ms t s = (t1, s1)"
  shows "grows s1 s'"
proof -
  obtain t2 s2 where r: "tick_respawn env key t_ms t1 s1 = (t2, s2)" by (metis prod.collapse)
  have q: "tick_query env t_us t2 s2 = (t', s')" using assms r by (simp add: tick_tunnel_def Let_def)
  show ?thesis using respawn_grows [OF r] tick_query_down [OF q] by (auto intro: grows_trans)
qed

lemma tick_tunnel_down: "down_op nm (tick_tunnel env key t_ms t_us)"
  unfolding down_op_def
proof (intro allI impI)
  fix t s t' s' assume e: "tick_tunnel env key t_ms t_us t s = (t', s')"
  obtain t1 s1 where k: "tick_kill env t_ms t s = (t1, s1)" by (metis prod.collapse)
  obtain t2 s2 where r: "tick_respawn env key t_ms t1 s1 = (t2, s2)" by (metis prod.collapse)
  have q: "tick_query env t_us t2 s2 = (t', s')" using e k r by (simp add: tick_tunnel_def Let_def)
  have a: "grows s s1" "down nm (os_trace s1) t t1" using tick_kill_down k unfolding down_op_def by blast+
  have b: "grows s1 s2 \<and> down nm (os_trace s2) t1 t2"
  proof (cases "tp_state (tn_proc t1) = TS_BACKOFF \<and> t_ms \<ge> tp_next_start_ms (tn_proc t1)")
    case True
    obtain ok where sp: "tunnel_spawn env key t1 s1 = (ok, t2, s2)" using r True
      by (metis (no_types, lifting) prod.collapse snd_conv tick_respawn_def)
    show ?thesis using spawn_name [OF sp] True by (simp add: down_def halted_def)
  next
    case False
    then have "t2 = t1" "s2 = s1" using r by (auto simp: tick_respawn_def split: if_splits)
    then show ?thesis by simp
  qed
  note c = tick_query_down [OF q, of nm]
  have g: "set (os_trace s2) \<subseteq> set (os_trace s')" "set (os_trace s1) \<subseteq> set (os_trace s')" "grows s s'"
    using a(1) b c by (auto simp: grows_def)
  have "down nm (os_trace s') t1 t'" by (rule down_trans [OF conjunct2 [OF b] _ g(1)]) (use c in simp)
  then have "down nm (os_trace s') t t'" by (rule down_trans [OF a(2) _ g(2)])
  with g(3) show "grows s s' \<and> down nm (os_trace s') t t'" by simp
qed

lemma on_exit_down: "down_op nm (tunnel_on_exit env code)"
  by (auto simp: down_op_def tunnel_on_exit_def Let_def grows_def down_def halted_def pid_of_def split: if_splits prod.splits
      dest!: os_call_grows(1,2))

text \<open>Lists of tunnels, before and after.\<close>

abbreviation all_down :: "string \<Rightarrow> sup_event list \<Rightarrow> tunnel list \<Rightarrow> tunnel list \<Rightarrow> bool" where
  "all_down nm tr \<equiv> list_all2 (down nm tr)"

lemma all_down_refl: "all_down nm tr ts ts"
  by (simp add: list.rel_refl)

lemma all_down_trans:
  "all_down nm tr1 ts ts1 \<Longrightarrow> all_down nm tr2 ts1 ts2 \<Longrightarrow> set tr1 \<subseteq> set tr2 \<Longrightarrow> all_down nm tr2 ts ts2"
  using list_all2_trans [of "down nm tr1" "down nm tr2" "down nm tr2" ts ts1 ts2] down_trans by blast

lemma all_down_mono: "all_down nm tr ts ts' \<Longrightarrow> set tr \<subseteq> set tr' \<Longrightarrow> all_down nm tr' ts ts'"
  by (erule list_all2_mono) (rule down_mono)

lemma each_down:
  assumes "down_op nm f" "each_tunnel f ts s = (ts', s')"
  shows "grows s s' \<and> all_down nm (os_trace s') ts ts'"
  using assms(2)
proof (induction ts arbitrary: s ts' s')
  case (Cons t ts)
  obtain t1 s1 where f: "f t s = (t1, s1)" by (metis prod.collapse)
  obtain ts1 s2 where e: "each_tunnel f ts s1 = (ts1, s2)" by (metis prod.collapse)
  have r: "ts' = t1 # ts1" "s' = s2" using Cons.prems f e by (simp_all add: Let_def)
  have a: "grows s s1" "down nm (os_trace s1) t t1" using assms(1) f unfolding down_op_def by blast+
  note b = Cons.IH [OF e]
  show ?case using a b r down_mono [OF a(2), of "os_trace s2"] by (auto simp: grows_def)
qed simp

lemma reap_one_down:
  assumes "reap_one env pc ts s = (ts', s')"
  shows "grows s s' \<and> all_down nm (os_trace s') ts ts'"
  using assms
proof (induction ts arbitrary: ts' s')
  case (Cons t ts)
  show ?case
  proof (cases "tp_pid (tn_proc t) = fst pc")
    case True
    obtain t1 s1 where x: "tunnel_on_exit env (snd pc) t s = (t1, s1)" by (metis prod.collapse)
    moreover have "ts' = t1 # ts" "s' = s1" using Cons.prems True x by (simp_all add: Let_def)
    moreover have "grows s s1 \<and> down nm (os_trace s1) t t1"
      using on_exit_down [of nm env "snd pc", unfolded down_op_def, rule_format, OF x] .
    ultimately show ?thesis using all_down_refl by simp
  next
    case False
    obtain ts1 s1 where r: "reap_one env pc ts s = (ts1, s1)" by (metis prod.collapse)
    have "ts' = t # ts1" "s' = s1" using Cons.prems False r by (simp_all add: Let_def)
    then show ?thesis using Cons.IH [OF r] by simp
  qed
qed simp

lemma reap_all_down:
  assumes "reap_all env pcs ts s = (ts', s')"
  shows "grows s s' \<and> all_down nm (os_trace s') ts ts'"
  using assms
proof (induction pcs arbitrary: ts s)
  case (Cons pc pcs)
  obtain ts1 s1 where r: "reap_one env pc ts s = (ts1, s1)" by (metis prod.collapse)
  have "reap_all env pcs ts1 s1 = (ts', s')" using Cons.prems r by (simp add: Let_def)
  from Cons.IH [OF this] reap_one_down [OF r, of nm] show ?case
    by (auto intro: all_down_trans grows_trans simp: grows_def)
qed (simp add: all_down_refl)

lemma on_named_down:
  assumes "on_named name f ts s = Some (ts', s')" "name \<noteq> nm"
    and "\<And>t s t' s'. f t s = (t', s') \<Longrightarrow> grows s s' \<and> gt_name t' = gt_name t"
  shows "grows s s' \<and> all_down nm (os_trace s') ts ts'"
  using assms(1)
proof (induction ts arbitrary: ts')
  case (Cons t ts)
  show ?case
  proof (cases "gt_name t = name")
    case True
    obtain t1 s1 where f: "f t s = (t1, s1)" by (metis prod.collapse)
    have e: "ts' = t1 # ts" "s' = s1" using Cons.prems True f by (simp_all add: Let_def)
    have "down nm (os_trace s') t t1" using assms(2,3) f True by (auto simp: down_def)
    then show ?thesis using e assms(3) [OF f] all_down_refl by simp
  next
    case False
    then obtain ts1 where r: "on_named name f ts s = Some (ts1, s')" "ts' = t # ts1" using Cons.prems by auto
    then show ?thesis using Cons.IH [OF r(1)] by simp
  qed
qed simp

lemma request_stop_name:
  "tunnel_request_stop env t s = (t', s') \<Longrightarrow> grows s s' \<and> gt_name t' = gt_name t"
  by (auto simp: tunnel_request_stop_def Let_def grows_def split: if_splits prod.splits dest!: os_call_grows(2,3))

lemma action_name:
  assumes "tunnel_action env key act = Some f" "f t s = (t', s')"
  shows "grows s s' \<and> gt_name t' = gt_name t"
proof -
  consider "f = api_start env key" | "f = tunnel_request_stop env" | "f = api_restart env"
    using assms(1) by (auto simp: tunnel_action_def split: if_splits)
  then show ?thesis
  proof cases
    case 1
    obtain ok u x where sp: "tunnel_spawn env key (upd_proc fresh_start t) s = (ok, u, x)" by (metis prod_cases3)
    then show ?thesis using spawn_name [OF sp] assms(2) 1 by (auto simp: api_start_def split: if_splits)
  next
    case 2
    then show ?thesis using assms(2) request_stop_name by blast
  next
    case 3
    obtain t1 s1 where r: "tunnel_request_stop env t s = (t1, s1)" by (metis prod.collapse)
    show ?thesis using assms(2) request_stop_name [OF r]
      by (auto simp: 3 api_restart_def r Let_def grows_def split: if_splits prod.splits dest!: os_call_grows(2))
  qed
qed

lemma ground_call_same [simp]: "su_tunnels (ground_call f s) = su_tunnels s" "os_trace (su_os (ground_call f s)) = os_trace (su_os s)"
  by (simp_all add: ground_call_def Let_def)

lemma tick_down:
  "set (os_trace (su_os s)) \<subseteq> set (os_trace (su_os (supervisor_tick env c s)))
   \<and> all_down nm (os_trace (su_os (supervisor_tick env c s))) (su_tunnels s) (su_tunnels (supervisor_tick env c s))"
proof -
  obtain t_ms os1 where m: "os_now_ms env (su_os s) = (t_ms, os1)" by (metis prod.collapse)
  obtain t_us os2 where u: "os_now_us env os1 = (t_us, os2)" by (metis prod.collapse)
  obtain ts os where e: "each_tunnel (tick_tunnel env (su_key_file s) t_ms t_us) (su_tunnels s) (upd_os (se_ifaces env) os2) = (ts, os)"
    by (metis prod.collapse)
  have "su_tunnels (supervisor_tick env c s) = ts" "os_trace (su_os (supervisor_tick env c s)) = os_trace os"
    by (simp_all add: supervisor_tick_def m u Let_def sup_each_def e)
  then show ?thesis
    using each_down [OF tick_tunnel_down e, of nm] os_call_grows(1) [OF u] os_call_grows(2) [OF m]
    by (simp add: grows_def upd_os_def)
qed

lemma unattended_down:
  assumes "unattended env c nm s s'"
  shows "set (os_trace (su_os s)) \<subseteq> set (os_trace (su_os s')) \<and> all_down nm (os_trace (su_os s')) (su_tunnels s) (su_tunnels s')"
  using assms
proof induction
  case none
  show ?case by (simp add: all_down_refl)
next
  case (tick s1)
  then show ?case using tick_down [where s = s1 and env = env and c = c and nm = nm] all_down_trans by blast
next
  case (reap s1)
  obtain pcs w where r: "se_reap env (os_world (su_os s1)) = (pcs, w)" by (metis prod.collapse)
  obtain ts os where a: "reap_all env pcs (su_tunnels s1) ((su_os s1)\<lparr>os_world := w\<rparr>) = (ts, os)" by (metis prod.collapse)
  have "su_tunnels (supervisor_reap env s1) = ts" "su_os (supervisor_reap env s1) = os"
    by (simp_all add: supervisor_reap_def r a Let_def)
  moreover have "set (os_trace (su_os s1)) \<subseteq> set (os_trace os)" "all_down nm (os_trace os) (su_tunnels s1) ts"
    using reap_all_down [OF a, of nm] by (simp_all add: grows_def)
  ultimately show ?case using reap.IH all_down_trans by (metis subset_trans)
next
  case (other s1 name act)
  let ?s2 = "snd (api_tunnel env name act s1)" 
  show ?case
  proof (cases "\<exists>f ts os. tunnel_action env (su_key_file s1) act = Some f \<and> on_named name f (su_tunnels s1) (su_os s1) = Some (ts, os)
      \<and> ?s2 = s1\<lparr>su_tunnels := ts, su_os := os\<rparr>")
    case True
    then obtain f ts os where f: "tunnel_action env (su_key_file s1) act = Some f"
      "on_named name f (su_tunnels s1) (su_os s1) = Some (ts, os)" "?s2 = s1\<lparr>su_tunnels := ts, su_os := os\<rparr>" by blast
    have "grows (su_os s1) os \<and> all_down nm (os_trace os) (su_tunnels s1) ts"
      by (rule on_named_down [OF f(2) other.hyps(2)]) (rule action_name [OF f(1)])
    then have g: "set (os_trace (su_os s1)) \<subseteq> set (os_trace os)" "all_down nm (os_trace os) (su_tunnels s1) ts"
      by (simp_all add: grows_def)
    have "all_down nm (os_trace os) (su_tunnels s) ts" by (rule all_down_trans [OF conjunct2 [OF other.IH] g(2,1)])
    then show ?thesis unfolding f(3) using subset_trans [OF conjunct1 [OF other.IH] g(1)] by simp
  next
    case False
    then have "?s2 = s1" by (auto simp: api_tunnel_def split: option.splits)
    then show ?thesis using other.IH by simp
  qed
qed

lemma all_down_find:
  assumes "all_down nm tr ts ts'" "find (\<lambda>t. gt_name t = nm) ts = Some t"
  shows "\<exists>t'. find (\<lambda>t. gt_name t = nm) ts' = Some t' \<and> down nm tr t t'"
  using assms
proof (induction rule: list_all2_induct)
  case (Cons x xs y ys)
  then have "gt_name y = gt_name x" by (simp add: down_def)
  then show ?case using Cons by (auto split: if_splits)
qed simp

lemma on_named_find:
  assumes "on_named nm f ts s = Some (ts', s')"
  shows "\<exists>t t1. find (\<lambda>t. gt_name t = nm) ts = Some t \<and> f t s = (t1, s')
    \<and> (gt_name t1 = nm \<longrightarrow> find (\<lambda>t. gt_name t = nm) ts' = Some t1)"
  using assms
proof (induction ts arbitrary: ts')
  case (Cons t ts)
  show ?case
  proof (cases "gt_name t = nm")
    case True
    obtain t1 s1 where f: "f t s = (t1, s1)" by (metis prod.collapse)
    then have "ts' = t1 # ts" "s' = s1" using Cons.prems True by (simp_all add: Let_def)
    then show ?thesis using True f by simp
  next
    case False
    then obtain ts1 where r: "on_named nm f ts s = Some (ts1, s')" "ts' = t # ts1" using Cons.prems by auto
    from Cons.IH [OF r(1)] False r(2) show ?thesis by auto
  qed
qed simp

lemma stop_request:
  assumes "api_tunnel env nm ''stop'' s = (200, s1)" "find (\<lambda>t. gt_name t = nm) (su_tunnels s) = Some t"
  obtains t1 where "find (\<lambda>t. gt_name t = nm) (su_tunnels s1) = Some t1" "tunnel_request_stop env t (su_os s) = (t1, su_os s1)"
proof -
  obtain ts os where n: "on_named nm (tunnel_request_stop env) (su_tunnels s) (su_os s) = Some (ts, os)" "s1 = s\<lparr>su_tunnels := ts, su_os := os\<rparr>"
    using assms(1) by (auto simp: api_tunnel_def tunnel_action_def split: if_splits option.splits)
  obtain t0 t1 where t: "find (\<lambda>t. gt_name t = nm) (su_tunnels s) = Some t0" "tunnel_request_stop env t0 (su_os s) = (t1, os)"
    "gt_name t1 = nm \<longrightarrow> find (\<lambda>t. gt_name t = nm) ts = Some t1"
    using on_named_find [OF n(1)] by blast
  have "gt_name t0 = nm" using t(1) by (auto simp: find_Some_iff)
  then have "gt_name t1 = nm" using request_stop_name [OF t(2)] by simp
  then show ?thesis using that [of t1] t assms(2) n(2) by simp
qed

lemma stop_final_run:
  assumes "kernel_ok env kids" "kids (os_world (su_os s0)) = {}" "\<forall>t \<in> set (su_tunnels s0). tp_pid (tn_proc t) \<le> 0"
    and "sup_reach env c s0 s" "find (\<lambda>t. gt_name t = nm) (su_tunnels s) = Some t"
    and "api_tunnel env nm ''stop'' s = (200, s1)" "unattended env c nm s1 s2"
  shows "\<exists>t2. find (\<lambda>t. gt_name t = nm) (su_tunnels s2) = Some t2
    \<and> tp_restart_count (tn_proc t2) = tp_restart_count (tn_proc t) \<and> tp_state (tn_proc t2) \<noteq> TS_BACKOFF
    \<and> (tp_pid (tn_proc t2) = tp_pid (tn_proc t) \<or> tp_pid (tn_proc t2) = - 1)
    \<and> (0 < tp_pid (tn_proc t2) \<longrightarrow> tp_stop_deadline_ms (tn_proc t2) = fst (os_now_ms env (su_os s)) + 1500
         \<or> SpKill (tp_pid (tn_proc t)) SIGKILL \<in> set (os_trace (su_os s2)))"
proof -
  obtain t1 where t1: "find (\<lambda>t. gt_name t = nm) (su_tunnels s1) = Some t1" "tunnel_request_stop env t (su_os s) = (t1, su_os s1)"
    by (rule stop_request [OF assms(6,5)])
  have "sup_ok kids s" by (rule reach_ok [OF assms(4,1,2)]) (simp add: assms(3) pid_of_def)
  moreover have "t \<in> set (su_tunnels s)" "gt_name t = nm" using assms(5) by (auto simp: find_Some_iff)
  ultimately have p: "parked t" by (simp add: sup_ok_def owned_def list_all_iff)
  have h: "halted t1 \<and> gt_name t1 = nm \<and> tp_restart_count (tn_proc t1) = tp_restart_count (tn_proc t) \<and> pid_of t1 = pid_of t
      \<and> (0 < pid_of t1 \<longrightarrow> tp_stop_deadline_ms (tn_proc t1) = fst (os_now_ms env (su_os s)) + 1500)"
    using t1(2) p \<open>gt_name t = nm\<close>
    by (auto simp: tunnel_request_stop_def Let_def halted_def parked_def pid_of_def upd_proc_def GS_STOP_GRACE_MS_def
        split: if_splits prod.splits)
  obtain t2 where t2: "find (\<lambda>t. gt_name t = nm) (su_tunnels s2) = Some t2" "down nm (os_trace (su_os s2)) t1 t2"
    using all_down_find [OF conjunct2 [OF unattended_down [OF assms(7)]] t1(1)] by blast
  show ?thesis
    by (rule exI [of _ t2]) (use t2 h in \<open>auto simp: down_def halted_def pid_of_def\<close>)
qed


lemma each_find:
  assumes "down_op nm f" "find (\<lambda>t. gt_name t = nm) ts = Some t" "each_tunnel f ts s = (ts', s')"
  shows "\<exists>x t1 x1. f t x = (t1, x1) \<and> grows x1 s'"
  using assms(2,3)
proof (induction ts arbitrary: s ts' s')
  case (Cons u ts)
  obtain u1 s1 where f: "f u s = (u1, s1)" by (metis prod.collapse)
  obtain ts1 s2 where e: "each_tunnel f ts s1 = (ts1, s2)" by (metis prod.collapse)
  have s2: "s' = s2" using Cons.prems f e by (simp add: Let_def)
  show ?case
  proof (cases "gt_name u = nm")
    case True
    then show ?thesis using Cons.prems(1) f s2 each_down [OF assms(1) e] by auto
  next
    case False
    then have "find (\<lambda>t. gt_name t = nm) ts = Some t" using Cons.prems(1) by simp
    from Cons.IH [OF this e] show ?thesis using s2 by simp
  qed
qed simp

lemma deadline_nonzero: "t div 1000 + 1500 \<noteq> (0::u64)"
proof -
  have "unat t < 18446744073709551616" using unsigned_less [where 'a = nat and w = t] by simp
  then have "unat t div 1000 < 18446744073709551616 - 1500" by simp
  then have "unat (t div 1000 + 1500) = unat t div 1000 + 1500"
    by (simp add: unat_word_ariths unat_div)
  then show ?thesis by (metis add_is_0 unat_0 zero_neq_numeral)
qed

text \<open>A stop escalates.  Once 1500 ms have passed since the stop was accepted, the next tick that still finds the process
  alive has sent it \<open>SIGKILL\<close> by its end, whatever happened in between.
\<close>

theorem stop_escalates:
  assumes "kernel_ok env kids" "kids (os_world (su_os s0)) = {}" "\<forall>t \<in> set (su_tunnels s0). tp_pid (tn_proc t) \<le> 0"
    and "sup_reach env c s0 s" "find (\<lambda>t. gt_name t = nm) (su_tunnels s) = Some t"
    and "api_tunnel env nm ''stop'' s = (200, s1)" "unattended env c nm s1 s2"
    and "find (\<lambda>t. gt_name t = nm) (su_tunnels s2) = Some t2" "0 < tp_pid (tn_proc t2)"
    and "fst (os_now_ms env (su_os s)) + 1500 \<le> fst (os_now_ms env (su_os s2))"
  shows "SpKill (tp_pid (tn_proc t)) SIGKILL \<in> set (os_trace (su_os (supervisor_tick env c s2)))"
proof -
  have d: "(tp_pid (tn_proc t2) = tp_pid (tn_proc t) \<or> tp_pid (tn_proc t2) = - 1)
    \<and> (0 < tp_pid (tn_proc t2) \<longrightarrow> tp_stop_deadline_ms (tn_proc t2) = fst (os_now_ms env (su_os s)) + 1500
         \<or> SpKill (tp_pid (tn_proc t)) SIGKILL \<in> set (os_trace (su_os s2)))"
    using stop_final_run [OF assms(1-7)] assms(8) by auto
  then have pid: "tp_pid (tn_proc t2) = tp_pid (tn_proc t)" using assms(9) by auto
  show ?thesis
  proof (cases "SpKill (tp_pid (tn_proc t)) SIGKILL \<in> set (os_trace (su_os s2))")
    case True
    then show ?thesis using tick_down [where s = s2 and env = env and c = c and nm = nm] by blast
  next
    case False
    then have dl: "tp_stop_deadline_ms (tn_proc t2) = fst (os_now_ms env (su_os s)) + 1500" using d assms(9) by blast
    have nz: "fst (os_now_ms env (su_os s)) + 1500 \<noteq> 0"
      using deadline_nonzero by (simp add: os_now_ms_def case_prod_beta Let_def)
    obtain t_ms os1 where m: "os_now_ms env (su_os s2) = (t_ms, os1)" by (metis prod.collapse)
    obtain t_us os2 where u: "os_now_us env os1 = (t_us, os2)" by (metis prod.collapse)
    let ?f = "tick_tunnel env (su_key_file s2) t_ms t_us"
    obtain ts os where e: "each_tunnel ?f (su_tunnels s2) (upd_os (se_ifaces env) os2) = (ts, os)" by (metis prod.collapse)
    obtain x t3 x1 where x: "?f t2 x = (t3, x1)" "grows x1 os"
      using each_find [OF tick_tunnel_down assms(8) e] by blast
    obtain t4 x2 where k: "tick_kill env t_ms t2 x = (t4, x2)" by (metis prod.collapse)
    have "SpKill (tp_pid (tn_proc t2)) SIGKILL \<in> set (os_trace x2)"
      using k dl nz assms(9,10) m by (auto simp: tick_kill_def Let_def os_kill_def case_prod_beta split: if_splits)
    moreover have "grows x2 x1" using tick_after_kill [OF x(1) k] .
    ultimately have "SpKill (tp_pid (tn_proc t)) SIGKILL \<in> set (os_trace os)" using x(2) pid by (auto simp: grows_def)
    then show ?thesis by (simp add: supervisor_tick_def m u Let_def sup_each_def e)
  qed
qed

lemma demo_stop:
  obtains t s1 where "find (\<lambda>t. gt_name t = ''video'') (su_tunnels demo_up) = Some t" "tp_pid (tn_proc t) = 101"
    "tp_restart_count (tn_proc t) = 1" "api_tunnel demo_sup_env ''video'' ''stop'' demo_up = (200, s1)"
    "find (\<lambda>t. gt_name t = ''video'') (su_tunnels s1) = Some (fst (tunnel_request_stop demo_sup_env t (su_os demo_up)))"
    "su_os s1 = snd (tunnel_request_stop demo_sup_env t (su_os demo_up))"
proof -
  obtain t where t: "su_tunnels demo_up = [t]" "gt_name t = ''video''" "tp_pid (tn_proc t) = 101" "tp_restart_count (tn_proc t) = 1"
    using demo_up_tunnels(1) by blast
  obtain t1 os where r: "tunnel_request_stop demo_sup_env t (su_os demo_up) = (t1, os)" by (metis prod.collapse)
  have "gt_name t1 = ''video''" using request_stop_name [OF r] t(2) by simp
  moreover have "api_tunnel demo_sup_env ''video'' ''stop'' demo_up = (200, demo_up\<lparr>su_tunnels := [t1], su_os := os\<rparr>)"
    by (simp add: api_tunnel_def tunnel_action_def t r)
  ultimately show ?thesis using that [of t "demo_up\<lparr>su_tunnels := [t1], su_os := os\<rparr>"] t r by simp
qed


lemma stop_escalates_witness:
  "\<exists>s1. api_tunnel demo_sup_env ''video'' ''stop'' demo_up = (200, s1)
    \<and> SpKill 101 SIGKILL \<in> set (os_trace (su_os (supervisor_tick demo_sup_env demo_gs_cfg s1)))"
proof -
  obtain t s1 where t: "find (\<lambda>t. gt_name t = ''video'') (su_tunnels demo_up) = Some t" "tp_pid (tn_proc t) = 101"
    "api_tunnel demo_sup_env ''video'' ''stop'' demo_up = (200, s1)"
    "find (\<lambda>t. gt_name t = ''video'') (su_tunnels s1) = Some (fst (tunnel_request_stop demo_sup_env t (su_os demo_up)))"
    "su_os s1 = snd (tunnel_request_stop demo_sup_env t (su_os demo_up))" by (rule demo_stop)
  have w: "do_clock (os_world (su_os demo_up)) = 9000000" by (rule demo_up_tunnels(2))
  have "0 < tp_pid (tn_proc (fst (tunnel_request_stop demo_sup_env t (su_os demo_up))))"
    "fst (os_now_ms demo_sup_env (su_os demo_up)) + 1500 \<le> fst (os_now_ms demo_sup_env (su_os s1))"
    unfolding t(5) using t(2) w
    by (simp_all add: tunnel_request_stop_def Let_def case_prod_beta upd_proc_def os_now_ms_def os_now_us_def os_kill_def demo_sup_env_def
        demo_sleep_def)
  from stop_escalates [OF demo_kernel _ _ sup_reach.boot [OF demo_boot] t(1,3) unattended.none [of _ demo_gs_cfg] t(4) this] t(2,3)
  show ?thesis by (auto simp: demo_sup_def demo_tunnel_def)
qed

end
