(* ===== verification/GroundEnds.thy ===== *)
theory GroundEnds
  imports GroundStop
begin

text \<open>
  The loops of the supervisor end (the wait for the interfaces, the wait for the stopped children), and a crash loop is
  paced.
\<close>

section \<open>The clock\<close>

definition reading :: "'w sup_env \<Rightarrow> 'w \<Rightarrow> nat" where
  "reading env w = unat (fst (ge_clock (se_gs env) w))"

text \<open>The monotonic clock never runs backwards across the calls of the two loops, and a sleep lasts at least as long as
  asked, until the clock has passed \<open>2 ^ 63\<close> microseconds.\<close>

definition clock_ok :: "'w sup_env \<Rightarrow> bool" where
  "clock_ok env = (\<forall>w. reading env w \<le> reading env (snd (ge_clock (se_gs env) w))
     \<and> reading env w \<le> reading env (snd (se_reap env w))
     \<and> (\<forall>i. reading env w \<le> reading env (snd (se_iface_ready env i w)))
     \<and> (\<forall>n. min (reading env w + 1000 * n) (2 ^ 63) \<le> reading env (se_sleep env n w)))"

lemma now_reading:
  assumes "clock_ok env"
  shows "os_now_us env s = (us, s') \<Longrightarrow> unat us = reading env (os_world s) \<and> reading env (os_world s) \<le> reading env (os_world s')"
    and "os_now_ms env s = (ms, s') \<Longrightarrow> unat ms = reading env (os_world s) div 1000 \<and> reading env (os_world s) \<le> reading env (os_world s')"
proof -
  have k: "reading env w \<le> reading env (snd (ge_clock (se_gs env) w))" for w using assms by (simp add: clock_ok_def)
  show "os_now_us env s = (us, s') \<Longrightarrow> unat us = reading env (os_world s) \<and> reading env (os_world s) \<le> reading env (os_world s')"
    using k by (auto simp: os_now_us_def case_prod_beta Let_def reading_def)
  show "os_now_ms env s = (ms, s') \<Longrightarrow> unat ms = reading env (os_world s) div 1000 \<and> reading env (os_world s) \<le> reading env (os_world s')"
    using k by (auto simp: os_now_ms_def os_now_us_def case_prod_beta Let_def reading_def unat_div)
qed

lemma sleep_progress:
  assumes "clock_ok env" "reading env (os_world s) \<le> reading env (os_world s1)" "reading env (os_world s) < L" "L \<le> 2 ^ 63" "0 < n"
  shows "L - reading env (os_world (upd_os (se_sleep env n) s1)) < L - reading env (os_world s)"
proof -
  have "min (reading env (os_world s1) + 1000 * n) (2 ^ 63) \<le> reading env (se_sleep env n (os_world s1))"
    using assms(1) by (simp add: clock_ok_def)
  then have "reading env (os_world s) < reading env (se_sleep env n (os_world s1))" using assms(2-5) by linarith
  then show ?thesis using assms(3) by (simp add: upd_os_def)
qed

lemma check_reading:
  assumes "clock_ok env"
  shows "check_ifaces env is s = (bad, s') \<Longrightarrow> reading env (os_world s) \<le> reading env (os_world s')"
proof (induction "is" arbitrary: s bad s')
  case (Cons i "is")
  obtain ok w where r: "se_iface_ready env i (os_world s) = (ok, w)" by (metis prod.collapse)
  obtain b s1 where c: "check_ifaces env is (s\<lparr>os_world := w\<rparr>) = (b, s1)" by (metis prod.collapse)
  have "reading env (os_world s) \<le> reading env (snd (se_iface_ready env i (os_world s)))" using assms by (simp add: clock_ok_def)
  then show ?case using Cons.IH [OF c] Cons.prems r c by (auto simp: Let_def split: if_splits)
qed simp

lemma on_exit_reading:
  assumes "clock_ok env" "tunnel_on_exit env code t s = (t', s')"
  shows "reading env (os_world s) \<le> reading env (os_world s')"
  using assms(2)
  by (auto simp: tunnel_on_exit_def Let_def split: if_splits prod.splits dest!: now_reading [OF assms(1)])

lemma reap_one_reading:
  assumes "clock_ok env"
  shows "reap_one env pc ts s = (ts', s') \<Longrightarrow> reading env (os_world s) \<le> reading env (os_world s')"
proof (induction ts arbitrary: ts')
  case (Cons t ts)
  show ?case
  proof (cases "tp_pid (tn_proc t) = fst pc")
    case True
    obtain t1 s1 where x: "tunnel_on_exit env (snd pc) t s = (t1, s1)" by (metis prod.collapse)
    then show ?thesis using Cons.prems True on_exit_reading [OF assms x] by (simp add: Let_def)
  next
    case False
    obtain ts1 s1 where r: "reap_one env pc ts s = (ts1, s1)" by (metis prod.collapse)
    then have "s' = s1" using Cons.prems False by (simp add: Let_def)
    then show ?thesis using Cons.IH r by simp
  qed
qed simp

lemma reap_all_reading:
  assumes "clock_ok env"
  shows "reap_all env pcs ts s = (ts', s') \<Longrightarrow> reading env (os_world s) \<le> reading env (os_world s')"
proof (induction pcs arbitrary: ts s)
  case (Cons pc pcs)
  obtain ts1 s1 where r: "reap_one env pc ts s = (ts1, s1)" by (metis prod.collapse)
  have "reap_all env pcs ts1 s1 = (ts', s')" using Cons.prems r by (simp add: Let_def)
  from Cons.IH [OF this] reap_one_reading [OF assms r] show ?case by simp
qed simp

lemma reap_reading:
  assumes "clock_ok env"
  shows "reading env (os_world (su_os s)) \<le> reading env (os_world (su_os (supervisor_reap env s)))"
proof -
  obtain pcs w where r: "se_reap env (os_world (su_os s)) = (pcs, w)" by (metis prod.collapse)
  obtain ts os where a: "reap_all env pcs (su_tunnels s) ((su_os s)\<lparr>os_world := w\<rparr>) = (ts, os)" by (metis prod.collapse)
  have "reading env (os_world (su_os s)) \<le> reading env (snd (se_reap env (os_world (su_os s))))"
    using assms by (simp add: clock_ok_def)
  also have "\<dots> \<le> reading env (os_world os)" using reap_all_reading [OF assms a] r by simp
  finally show ?thesis by (simp add: supervisor_reap_def r a Let_def)
qed

section \<open>The two loops end\<close>

lemma wait_ifaces_ends:
  assumes "clock_ok env" "0 < iv" "unat dl * 1000 \<le> 2 ^ 63"
  shows "\<exists>r. wait_ifaces env is iv dl s = Some r"
  using assms
proof (induction "unat dl * 1000 - reading env (os_world s)" arbitrary: s rule: less_induct)
  case less
  obtain bad s1 where c: "check_ifaces env is s = (bad, s1)" by (metis prod.collapse)
  obtain t s2 where n: "os_now_ms env s1 = (t, s2)" by (metis prod.collapse)
  have unf: "wait_ifaces env is iv dl s = (if bad = 0 then Some (True, s1)
      else if t \<ge> dl then Some (False, snd (check_ifaces env is s2))
      else wait_ifaces env is iv dl (upd_os (se_sleep env iv) s2))"
    by (subst wait_ifaces.simps) (simp add: c n)
  show ?case
  proof (cases "bad = 0 \<or> t \<ge> dl")
    case False
    have m: "unat t = reading env (os_world s1) div 1000" "reading env (os_world s1) \<le> reading env (os_world s2)"
      "reading env (os_world s) \<le> reading env (os_world s1)"
      using now_reading(2) [OF less.prems(1) n] check_reading [OF less.prems(1) c] by auto
    have "unat t < unat dl" using False by (simp add: word_le_nat_alt)
    then have l: "reading env (os_world s) < unat dl * 1000" using m by linarith
    have le: "reading env (os_world s) \<le> reading env (os_world s2)" using m by simp
    show ?thesis
      using less.hyps [OF sleep_progress [OF less.prems(1) le l less.prems(3,2)] less.prems] unf False by simp
  qed (use unf in auto)
qed

lemma stop_wait_ends:
  assumes "clock_ok env" "unat dl * 1000 \<le> 2 ^ 63"
  shows "\<exists>s'. stop_wait env dl s = Some s'"
  using assms
proof (induction "unat dl * 1000 - reading env (os_world (su_os s))" arbitrary: s rule: less_induct)
  case less
  obtain t os where n: "os_now_ms env (su_os s) = (t, os)" by (metis prod.collapse)
  let ?s1 = "s\<lparr>su_os := os\<rparr>"
  let ?s2 = "supervisor_reap env ?s1"
  have unf: "stop_wait env dl s = (if \<not> t < dl then Some ?s1
      else if list_all (\<lambda>t. tp_pid (tn_proc t) \<le> 0) (su_tunnels s) then Some ?s1
      else stop_wait env dl (?s2\<lparr>su_os := upd_os (se_sleep env 50) (su_os ?s2)\<rparr>))"
    by (subst stop_wait.simps) (simp add: n Let_def)
  show ?case
  proof (cases "t < dl")
    case True
    have m: "unat t = reading env (os_world (su_os s)) div 1000" "reading env (os_world (su_os s)) \<le> reading env (os_world os)"
      using now_reading(2) [OF less.prems(1) n] by auto
    have "unat t < unat dl" using True by (simp add: word_less_nat_alt)
    then have l: "reading env (os_world (su_os s)) < unat dl * 1000" using m by linarith
    have le: "reading env (os_world (su_os s)) \<le> reading env (os_world (su_os ?s2))"
      using m reap_reading [OF less.prems(1), of ?s1] by simp
    have "\<exists>s'. stop_wait env dl (?s2\<lparr>su_os := upd_os (se_sleep env 50) (su_os ?s2)\<rparr>) = Some s'"
      using sleep_progress [OF less.prems(1) le l less.prems(2), of 50] by (intro less.hyps less.prems) simp
    then show ?thesis using unf by auto
  qed (use unf in simp)
qed

text \<open>A deadline a few seconds away does not overflow while the clock is below \<open>2 ^ 62\<close> microseconds.\<close>

lemma deadline_bound:
  assumes "unat t = r div 1000" "r < 2 ^ 62" "d < 1000000"
  shows "unat (t + word_of_nat d :: u64) * 1000 \<le> 2 ^ 63"
proof -
  have "unat (t + word_of_nat d :: u64) = (unat t + d) mod 2 ^ 64"
    by (simp add: unat_word_ariths unsigned_of_nat take_bit_eq_mod mod_simps)
  then have "unat (t + word_of_nat d :: u64) \<le> unat t + d" by (simp only: mod_less_eq_dividend)
  moreover have "unat t \<le> 2 ^ 62 div 1000" using assms(1,2) by (simp add: div_le_mono)
  ultimately have "unat (t + word_of_nat d :: u64) \<le> 2 ^ 62 div 1000 + 1000000" using assms(3) by linarith
  then have "unat (t + word_of_nat d :: u64) * 1000 \<le> (2 ^ 62 div 1000 + 1000000) * 1000" by simp
  also have "\<dots> \<le> 2 ^ 63" by simp
  finally show ?thesis .
qed

lemma stop_force_pids: "stop_force env t s = (t', s') \<Longrightarrow> pid_of t' \<le> 0"
  by (auto simp: stop_force_def Let_def pid_of_def split: if_splits)

lemma each_force_pids:
  "each_tunnel (stop_force env) ts s = (ts', s') \<Longrightarrow> \<forall>t \<in> set ts'. pid_of t \<le> 0"
proof (induction ts arbitrary: s ts')
  case (Cons t ts)
  obtain t1 s1 where f: "stop_force env t s = (t1, s1)" by (metis prod.collapse)
  obtain ts1 s2 where e: "each_tunnel (stop_force env) ts s1 = (ts1, s2)" by (metis prod.collapse)
  have "ts' = t1 # ts1" "s' = s2" using Cons.prems f e by (simp_all add: Let_def)
  then show ?case using Cons.IH e stop_force_pids [OF f] by simp
qed simp

lemma stop_all_ends:
  assumes "clock_ok env" "reading env (os_world (su_os (sup_each (stop_begin env) s))) < 2 ^ 62"
  shows "\<exists>s'. supervisor_stop_all_tunnels env s = Some s' \<and> (\<forall>t \<in> set (su_tunnels s'). pid_of t \<le> 0)"
proof -
  let ?s1 = "sup_each (stop_begin env) s"
  obtain t os where n: "os_now_ms env (su_os ?s1) = (t, os)" by (metis prod.collapse)
  have "unat (t + word_of_nat 2000 :: u64) * 1000 \<le> 2 ^ 63"
    using now_reading(2) [OF assms(1) n] assms(2) by (intro deadline_bound) auto
  then have "unat (t + GS_STOP_GRACE_MS + 500) * 1000 \<le> 2 ^ 63" by (simp add: GS_STOP_GRACE_MS_def add.assoc)
  from stop_wait_ends [OF assms(1) this] obtain s2
    where w: "stop_wait env (t + GS_STOP_GRACE_MS + 500) (?s1\<lparr>su_os := os\<rparr>) = Some s2" by blast
  obtain ts os2 where e: "each_tunnel (stop_force env) (su_tunnels s2) (su_os s2) = (ts, os2)" by (metis prod.collapse)
  have "supervisor_stop_all_tunnels env s = Some (s2\<lparr>su_tunnels := ts, su_os := os2\<rparr>)"
    by (simp add: supervisor_stop_all_tunnels_def n w sup_each_def [of "stop_force env"] e Let_def)
  then show ?thesis using each_force_pids [OF e] by simp
qed


lemma demo_clock_ok: "clock_ok demo_sup_env"
proof -
  have s: "min (unat (do_clock w) + 1000 * n) (2 ^ 63) \<le> unat (do_clock (demo_sleep n w))
      \<and> unat (do_clock w) \<le> unat (do_clock (demo_sleep n w))" for n w
  proof (cases "unat (do_clock w) \<ge> 2 ^ 63")
    case False
    then have "unat (do_clock (demo_sleep n w)) = min (unat (do_clock w) + 1000 * n) (2 ^ 63)"
      by (simp add: demo_sleep_def Let_def unsigned_of_nat take_bit_eq_mod)
    then show ?thesis using False by simp
  qed (simp add: demo_sleep_def Let_def)
  then show ?thesis by (simp add: clock_ok_def reading_def demo_sup_env_def Let_def)
qed


section \<open>Bringing the system up ends\<close>



section \<open>The pace of a crash loop\<close>

text \<open>A tunnel that was started afresh and has crashed \<open>n\<close> times since, with ticks in between.\<close>

inductive crash_loop :: "'w sup_env \<Rightarrow> string \<Rightarrow> nat \<Rightarrow> tunnel \<Rightarrow> bool" for env key where
  fresh: "tunnel_spawn env key (upd_proc fresh_start t) s = (True, t', s') \<Longrightarrow> crash_loop env key 0 t'"
| exit: "crash_loop env key n t \<Longrightarrow> 0 < tp_pid (tn_proc t) \<Longrightarrow> tunnel_on_exit env code t s = (t', s')
    \<Longrightarrow> crash_loop env key (Suc n) t'"
| tick: "crash_loop env key n t \<Longrightarrow> tick_tunnel env key t_ms t_us t s = (t', s') \<Longrightarrow> crash_loop env key n t'"

definition looping :: "nat \<Rightarrow> tunnel \<Rightarrow> bool" where
  "looping n t = (tp_autostart_on_exit (tn_proc t) \<and> tp_backoff_idx (tn_proc t) = int (min n 6))"

lemma spawn_looping:
  assumes "tunnel_spawn env key t s = (ok, t', s')"
  shows "tp_backoff_idx (tn_proc t') = tp_backoff_idx (tn_proc t)" "ok \<or> tp_autostart_on_exit (tn_proc t) \<Longrightarrow> tp_autostart_on_exit (tn_proc t')"
proof -
  obtain t1 s1 where l: "stats_listener_open env t s = (t1, s1)" by (metis prod.collapse)
  have n: "tn_proc t1 = tn_proc t"
    using l by (auto simp: stats_listener_open_def Let_def split: if_splits prod.splits option.splits)
  have "tp_backoff_idx (tn_proc t') = tp_backoff_idx (tn_proc t)
      \<and> (ok \<or> tp_autostart_on_exit (tn_proc t) \<longrightarrow> tp_autostart_on_exit (tn_proc t'))"
    using assms n by (auto simp: tunnel_spawn_def l Let_def spawned_def split: option.splits prod.splits if_splits)
  then show "tp_backoff_idx (tn_proc t') = tp_backoff_idx (tn_proc t)"
    "ok \<or> tp_autostart_on_exit (tn_proc t) \<Longrightarrow> tp_autostart_on_exit (tn_proc t')" by simp_all
qed

lemma on_exit_looping:
  assumes "looping n t" "tunnel_on_exit env code t s = (t', s')"
  shows "looping (Suc n) t'" "tp_state (tn_proc t') = TS_BACKOFF" "tp_pid (tn_proc t') = - 1" "tp_stop_deadline_ms (tn_proc t') = 0"
    "tp_next_start_ms (tn_proc t') = fst (os_now_ms env (snd (os_now_us env s))) + GS_BACKOFF_MS ! min n 6"
proof -
  obtain us s1 where u: "os_now_us env s = (us, s1)" by (metis prod.collapse)
  obtain ms s2 where m: "os_now_ms env s1 = (ms, s2)" by (metis prod.collapse)
  have e: "t' = t\<lparr>tn_proc := (tn_proc t)\<lparr>tp_exited_us := us, tp_exit_code := code, tp_pid := - 1, tp_stop_deadline_ms := 0,
      tp_next_start_ms := ms + GS_BACKOFF_MS ! min n 6, tp_backoff_idx := int (min (Suc n) 6), tp_state := TS_BACKOFF\<rparr>\<rparr>"
    using assms by (cases "n < 6") (auto simp: tunnel_on_exit_def u m Let_def looping_def GS_BACKOFF_LEN_def)
  then show "looping (Suc n) t'" "tp_state (tn_proc t') = TS_BACKOFF" "tp_pid (tn_proc t') = - 1" "tp_stop_deadline_ms (tn_proc t') = 0"
    "tp_next_start_ms (tn_proc t') = fst (os_now_ms env (snd (os_now_us env s))) + GS_BACKOFF_MS ! min n 6"
    using assms(1) by (simp_all add: looping_def u m)
qed

lemma tick_looping:
  assumes "looping n t" "tick_tunnel env key t_ms t_us t s = (t', s')"
  shows "looping n t'"
proof -
  obtain t1 s1 where k: "tick_kill env t_ms t s = (t1, s1)" by (metis prod.collapse)
  obtain t2 s2 where r: "tick_respawn env key t_ms t1 s1 = (t2, s2)" by (metis prod.collapse)
  have q: "tick_query env t_us t2 s2 = (t', s')" using assms(2) k r by (simp add: tick_tunnel_def Let_def)
  have a: "looping n t1" using assms(1) k by (auto simp: tick_kill_def looping_def Let_def split: if_splits)
  obtain ok u x where sp: "tunnel_spawn env key t1 s1 = (ok, u, x)" by (metis prod_cases3)
  have b: "looping n t2" using a r sp spawn_looping [OF sp] by (auto simp: tick_respawn_def looping_def split: if_splits)
  have "tn_proc t' = (tn_proc t2)\<lparr>tp_init_query_us := tp_init_query_us (tn_proc t')\<rparr>" using tick_query_down [OF q] by simp
  then have "tp_autostart_on_exit (tn_proc t') = tp_autostart_on_exit (tn_proc t2)" "tp_backoff_idx (tn_proc t') = tp_backoff_idx (tn_proc t2)"
    by (metis tun_proc.simps tun_proc.surjective)+
  then show ?thesis using b by (simp add: looping_def)
qed

lemma crash_looping:
  assumes "crash_loop env key n t"
  shows "looping n t"
  using assms
proof induction
  case (fresh t s t' s')
  then show ?case using spawn_looping [OF fresh] by (simp add: looping_def fresh_start_def)
next
  case (exit n t code s t' s')
  then show ?case using on_exit_looping(1) by blast
next
  case (tick n t t_ms t_us s t' s')
  then show ?case using tick_looping by blast
qed

lemma backoff_table: "GS_BACKOFF_MS ! min n 6 = of_nat (min (500 * 2 ^ n) 30000)"
proof (cases "n < 6")
  case True
  then consider "n = 0" | "n = 1" | "n = 2" | "n = 3" | "n = 4" | "n = 5" by linarith
  then show ?thesis by cases (simp_all add: GS_BACKOFF_MS_def)
next
  case False
  then have "(2::nat) ^ 6 \<le> 2 ^ n" by (intro power_increasing) simp_all
  then have "min (500 * 2 ^ n) 30000 = (30000::nat)" by simp
  then show ?thesis using False by (simp add: GS_BACKOFF_MS_def)
qed



end
