(* ===== verification/LinkLoop.thy ===== *)
theory LinkLoop
  imports Selector Scorer McsCommit CsaReceiver Recovery ControlApi
begin

text \<open>
  The main loop of \<open>vehicle/link_controller.c\<close>: what one datagram on each socket does (\<open>rx_ant\<close>, the
  sidecar, the transmitter statistics, the recovery listener), what each timer does (the deferred
  drop, the probe producer, the watchdog, the radio poll, the channel switch), and one pass of the
  loop composed of them.

  The outside is the record \<open>'w loopenv\<close>.  \<open>lp_clock\<close> is \<open>now_us()\<close> as a reading of the world, so time
  passes in outside calls; \<open>lp_poll\<close> is what happens while the loop waits; \<open>lp_sample\<close> is what writing
  the status line returned.  Left out: what only feeds
  log lines (the failure latch \<open>mcs_sf_*\<close>, parse and truncation counters, the heartbeat, the desync
  probe) and the copies kept for \<open>/status\<close>.
\<close>

section \<open>State\<close>

record 'w loopenv =
  lp_sys :: "'w sysenv"
  lp_clock :: "'w \<Rightarrow> u64"
  lp_poll :: "'w \<Rightarrow> 'w"
  lp_subscribe :: "u8 list \<Rightarrow> 'w \<Rightarrow> 'w"
  lp_feed_open :: "string \<Rightarrow> int \<Rightarrow> 'w \<Rightarrow> bool \<times> 'w"
  lp_feed_send :: "string \<Rightarrow> 'w \<Rightarrow> 'w"
  lp_sample :: "'w \<Rightarrow> int option"

text \<open>The sidecar's side: transport trailer, frame window, FEC block last written, wedge watchdog.\<close>

record fec_side =
  fs_tr_present :: bool
  fs_fill_pct :: int
  fs_in_pressure :: bool
  fs_drops :: u32
  fs_pressure_drops :: u32
  fs_pressure_delta :: u32
  fs_packets_sent :: u32
  fs_ring :: headroom_ring
  fs_fps :: fps_est
  fs_kn :: "int \<times> int"
  fs_skipped :: u32
  fs_skip_since_us :: u64
  fs_recover_us :: u64
  fs_stats_seq :: int
  fs_stats_us :: u64
  fs_stats_stale :: bool

record probe_producer =
  pp_feed_open :: bool
  pp_feed_seq :: u32
  pp_next_feed_us :: u64
  pp_tuned_mcs :: int
  pp_sent :: "radio_body option"
  pp_retry_us :: u64
  pp_retune_fails :: u32
  pp_gate_mcs :: int

record 'w link =
  lk_wx :: wcmd_ctx
  lk_io :: "'w io"
  lk_replies :: "u8 list list"
  lk_body :: radio_body
  lk_body_valid :: bool
  lk_radio :: radio_state
  lk_ctrl :: controller
  lk_vw :: venc_written
  lk_pending :: pending_mcs_down
  lk_sel :: selector
  lk_scorer :: scorer
  lk_probe :: probe_state
  lk_emit_mcs :: int
  lk_rx_us :: u64
  lk_csa_cfg :: csa_cfg
  lk_csa :: csa_state
  lk_recov :: recov
  lk_fs :: fec_side
  lk_pp :: probe_producer
  lk_next_subscribe_us :: u64
  lk_next_radio_us :: u64
  lk_next_watchdog_us :: u64
  lk_next_heartbeat_us :: u64
  lk_next_log_us :: u64
  lk_console_seq :: u16
  lk_start_us :: u64

definition lk_cfg :: "'w link \<Rightarrow> lc_config" where
  "lk_cfg L = wx_cfg (lk_wx L)"

definition lk_now :: "'w loopenv \<Rightarrow> 'w link \<Rightarrow> u64" where
  "lk_now env L = lp_clock env (io_world (lk_io L))"

definition log_rel_s :: "'w loopenv \<Rightarrow> 'w link \<Rightarrow> rat" where
  "log_rel_s env L = fl64 (fl64 (of_nat (unat (lk_now env L - lk_start_us L))) / 1000000)"

definition upd_world :: "('w \<Rightarrow> 'w) \<Rightarrow> 'w link \<Rightarrow> 'w link" where
  "upd_world f L = L\<lparr>lk_io := (lk_io L)\<lparr>io_world := f (io_world (lk_io L))\<rparr>\<rparr>"

section \<open>Steps the handlers share\<close>

text \<open>\<open>radio_apply_observation\<close> on the fields of a radio body.\<close>

definition lk_observe :: "radio_body \<Rightarrow> u64 \<Rightarrow> 'w link \<Rightarrow> 'w link" where
  "lk_observe b now L =
     (let (r, c) = radio_apply_observation (lk_radio L) (lk_ctrl L) (lk_cfg L) (uint (rb_mcs_index b))
            (uint (rb_bandwidth b)) (uint (rb_short_gi b)) (uint (rb_stbc b)) (uint (rb_ldpc b))
            (uint (rb_vht_mode b)) (uint (rb_vht_nss b)) now
      in L\<lparr>lk_radio := r, lk_ctrl := c\<rparr>)"

definition lk_commit :: "'w loopenv \<Rightarrow> int \<Rightarrow> u64 \<Rightarrow> 'w link \<Rightarrow> commit_result \<times> 'w link" where
  "lk_commit env mcs now L =
     (let ((res, p, c, v), io) = commit_mcs_change (lp_sys env) (lk_cfg L) (lk_pending L) (lk_body L) mcs
            (lk_radio L) (lk_ctrl L) (lk_vw L) now (lk_io L)
      in (res, L\<lparr>lk_pending := p, lk_ctrl := c, lk_vw := v, lk_io := io\<rparr>))"

definition lk_assert :: "'w loopenv \<Rightarrow> u64 \<Rightarrow> 'w link \<Rightarrow> 'w link" where
  "lk_assert env now L =
     (let ((c, v), io) = bitrate_assert (lp_sys env) (lk_radio L) (lk_ctrl L) (lk_cfg L) (lk_vw L) now (lk_io L)
      in L\<lparr>lk_ctrl := c, lk_vw := v, lk_io := io\<rparr>)"

definition lk_get_radio :: "'w loopenv \<Rightarrow> 'w link \<Rightarrow> radio_body option \<times> 'w link" where
  "lk_get_radio env L = (let (r, io) = wfb_get_radio (lp_sys env) (lk_cfg L) (lk_io L) in (r, L\<lparr>lk_io := io\<rparr>))"

definition set_mcs :: "int \<Rightarrow> radio_body \<Rightarrow> radio_body" where
  "set_mcs mcs b = b\<lparr>rb_mcs_index := word_of_int mcs\<rparr>"

text \<open>A deferred drop already targets \<open>mcs\<close>.\<close>

definition covered :: "pending_mcs_down \<Rightarrow> int \<Rightarrow> bool" where
  "covered p mcs = (pd_active p \<and> pd_target_mcs p = mcs)"

definition text_of :: "u8 list \<Rightarrow> string" where
  "text_of bs = map (\<lambda>b. char_of (unat b)) (takeWhile (\<lambda>b. b \<noteq> 0) bs)"

section \<open>Command frames on the \<open>rx_ant\<close> socket\<close>

text \<open>An operator's radio write, taken over by the cache, a pending drop and the selector.\<close>

definition write_through :: "'w loopenv \<Rightarrow> radio_body \<Rightarrow> 'w link \<Rightarrow> 'w link" where
  "write_through env wb L =
     (let p = lk_pending L;
          p' = (if pd_active p then p\<lparr>pd_radio := wb\<lparr>rb_mcs_index := rb_mcs_index (pd_radio p)\<rparr>\<rparr> else p);
          L1 = L\<lparr>lk_body := wb, lk_body_valid := True, lk_pending := p'\<rparr>;
          m = cfg_mcs (lk_cfg L); cur = sel_current_mcs (lk_sel L); wm = uint (rb_mcs_index wb);
          L2 = (if mcs_on m \<and> cur \<ge> 0 \<and> \<not> covered p' cur \<and> wm \<noteq> cur
                then let s = selector_commit m wm (lk_now env L1) (lk_sel L1)
                     in L1\<lparr>lk_sel := s, lk_emit_mcs := sel_current_mcs s\<rparr>
                else L1)
      in lk_observe wb (lk_now env L2) L2)"

definition rx_wcmd :: "'w loopenv \<Rightarrow> u32 \<Rightarrow> wcmd_req \<Rightarrow> 'w link \<Rightarrow> 'w link" where
  "rx_wcmd env peer r L =
     (let (resp, x, io) = wcmd_dispatch (lp_sys env) (log_rel_s env L) (lk_now env L) peer r (lk_wx L) (lk_io L);
          L1 = L\<lparr>lk_wx := x, lk_io := io, lk_replies := lk_replies L @ [wcmd_resp_bytes resp]\<rparr>
      in case ws_radio_written (wx_st x) of
           None \<Rightarrow> L1
         | Some wb \<Rightarrow> write_through env wb (L1\<lparr>lk_wx := x\<lparr>wx_st := (wx_st x)\<lparr>ws_radio_written := None\<rparr>\<rparr>\<rparr>))"

section \<open>Probe records and reports on the \<open>rx_ant\<close> socket\<close>

definition type_is :: "string \<Rightarrow> string \<Rightarrow> bool" where
  "type_is ty text = has_sub text (quoted ''type'' @ CHR '':'' # quoted ty)"

definition per_milli_of :: "int \<Rightarrow> int \<Rightarrow> int" where
  "per_milli_of lost acc =
     (if acc > 0 then to_i32 (c_trunc (of_int (lost * 1000 + acc div 2) / of_int acc)) else - 1)"

definition rx_probe :: "u64 \<Rightarrow> string \<Rightarrow> probe_state \<Rightarrow> probe_state" where
  "rx_probe now text ps =
     (let mcs = json_int_or (- 1) text ''mcs''; acc = json_int_or (- 1) text ''accounted'';
          lost = json_int_or 0 text ''lost''; ts = json_int_or (- 1) text ''ts_ms''
      in if 0 \<le> mcs \<and> mcs < PROBE_MCS_MAX
         then let old = ps_rung ps ! nat mcs in
           ps\<lparr>ps_rung := (ps_rung ps)[nat mcs := \<lparr> pr_accounted = acc, pr_lost = lost,
                 pr_per_milli = per_milli_of lost acc, pr_last_us = now,
                 pr_ts_ms = (if ts \<ge> 0 then word_of_int ts else 0), pr_records = pr_records old + 1,
                 pr_valid = True \<rparr>],
              ps_last_any_us := now, ps_total_records := ps_total_records ps + 1\<rparr>
         else ps\<lparr>ps_parse_errors := ps_parse_errors ps + 1\<rparr>)"

text \<open>The packet counters of a report: \<open>uniq\<close> or else \<open>data\<close>, lost, recovered, diversity, adapters.\<close>

definition rx_packets :: "string \<Rightarrow> (int \<times> int \<times> int \<times> int \<times> int) option" where
  "rx_packets text =
     (case strstr text (quoted ''pkt'' @ [CHR '':'']) of
        None \<Rightarrow> None
      | Some blk \<Rightarrow>
          (let u = json_int_in_or (- 1) blk ''uniq'';
               uniq = (if u < 0 then json_int_in_or (- 1) blk ''data'' else u);
               ad = json_int_in_or (- 1) blk ''adapters''
           in if uniq < 0 then None
              else Some (uniq, json_int_in_or 0 blk ''lost'', json_int_in_or 0 blk ''fec_recovered'',
                         json_int_in_or 0 blk ''diversity'', if ad \<ge> 0 then to_i32 ad else - 1)))"

text \<open>No decision: if wfb\_tx is believed to be elsewhere than the selector, commit the selector's rung.\<close>

definition rx_realign :: "'w loopenv \<Rightarrow> 'w link \<Rightarrow> 'w link" where
  "rx_realign env L =
     (let want = sel_current_mcs (lk_sel L) in
      if want \<ge> 0 \<and> lk_body_valid L \<and> \<not> cfg_dry_run (lk_cfg L)
         \<and> want \<noteq> uint (rb_mcs_index (lk_body L)) \<and> \<not> covered (lk_pending L) want
      then (case lk_commit env want (lk_now env L) L of
              (CommitSent, L1) \<Rightarrow>
                (let b = set_mcs want (lk_body L1);
                     L2 = L1\<lparr>lk_body := b, lk_sel := (lk_sel L1)\<lparr>sel_current_mcs := want\<rparr>, lk_emit_mcs := want\<rparr>
                 in lk_observe b (lk_now env L2) L2)
            | (_, L1) \<Rightarrow> L1)
      else L)"

text \<open>
  A decision: \<open>snap\<close> is the selector before the report, restored when the radio cache cannot be read or
  the radio write fails.
\<close>

definition rx_decided :: "'w loopenv \<Rightarrow> selector \<Rightarrow> int \<Rightarrow> 'w link \<Rightarrow> 'w link" where
  "rx_decided env snap new_mcs L =
     (if cfg_dry_run (lk_cfg L) then L\<lparr>lk_emit_mcs := new_mcs\<rparr>
      else let (synced, L1) =
             (if lk_body_valid L then (True, L)
              else case lk_get_radio env L of
                (Some b, L1) \<Rightarrow> (True, L1\<lparr>lk_body := b, lk_body_valid := True\<rparr>)
              | (None, L1) \<Rightarrow> (False, L1))
      in if \<not> synced then L1\<lparr>lk_sel := snap\<rparr>
         else (case lk_commit env new_mcs (lk_now env L1) L1 of
                 (CommitFailed, L2) \<Rightarrow> L2\<lparr>lk_sel := snap\<rparr>
               | (CommitDeferred, L2) \<Rightarrow> L2
               | (CommitSent, L2) \<Rightarrow>
                   (let r = set_mcs new_mcs (lk_body L2);
                        (fresh, L3) = lk_get_radio env L2;
                        b = (case fresh of Some f \<Rightarrow> f | None \<Rightarrow> r);
                        L4 = L3\<lparr>lk_body := b, lk_emit_mcs := new_mcs\<rparr>
                    in lk_observe b (lk_now env L4) L4)))"

definition rx_report :: "'w loopenv \<Rightarrow> string \<Rightarrow> 'w link \<Rightarrow> 'w link" where
  "rx_report env text L =
     (case rx_packets text of
        None \<Rightarrow> L
      | Some (uniq, lost, recov, divers, adapters) \<Rightarrow>
          (let rx_now = lk_now env L; m = cfg_mcs (lk_cfg L) in
           case scorer_update (lk_scorer L) m text uniq lost recov divers adapters rx_now of
             None \<Rightarrow> L
           | Some (sc, score) \<Rightarrow>
               (let (s, d) = selector_update m score (lk_probe L) (fs_in_pressure (lk_fs L)) rx_now (lk_sel L);
                    L1 = L\<lparr>lk_scorer := sc, lk_rx_us := rx_now, lk_sel := s\<rparr>
                in if d = SD_NONE then rx_realign env L1
                   else rx_decided env (lk_sel L) (sel_current_mcs s) L1)))"

text \<open>One datagram of the \<open>rx_ant\<close> socket; \<open>now\<close> is the time the loop's pass began.\<close>

definition rx_ant_datagram :: "'w loopenv \<Rightarrow> u64 \<Rightarrow> u32 \<Rightarrow> u8 list \<Rightarrow> 'w link \<Rightarrow> 'w link" where
  "rx_ant_datagram env now peer bs L =
     (if 2048 \<le> length bs then L
      else case wcmd_req_parse bs of
        Some r \<Rightarrow> rx_wcmd env peer r L
      | None \<Rightarrow>
          (let text = text_of bs; now_ms = uint (now div 1000);
               (consumed, L1) =
                 (if csa_on (cfg_csa (lk_cfg L))
                  then let (taken, c) = csa_feed (lk_csa_cfg L) text now_ms (lk_csa L)
                       in if taken then (True, L\<lparr>lk_csa := c\<rparr>)
                          else (False, L\<lparr>lk_csa := snd (csa_link_alive c)\<rparr>)
                  else (False, L))
           in if consumed then L1
              else if type_is ''probe'' text then L1\<lparr>lk_probe := rx_probe (lk_now env L1) text (lk_probe L1)\<rparr>
              else if type_is ''rx_ant'' text \<and> has_sub text (quoted ''ver'' @ '':1'')
              then rx_report env text L1
              else L1))"

section \<open>The other sockets\<close>

text \<open>The transport trailer: the pressure-drop counter's increase, clamped to 0 on the first sample and when
  it went back; the boolean says that this frame must not reach the FEC controller.\<close>

definition note_transport :: "fec_cfg \<Rightarrow> sidecar_transport \<Rightarrow> fec_side \<Rightarrow> bool \<times> fec_side" where
  "note_transport f t fs =
     (let d = (if fs_tr_present fs \<and> st_pressure_drops t \<ge> fs_pressure_drops fs
               then st_pressure_drops t - fs_pressure_drops fs else 0)
      in (fec_skip_on_backpressure f \<and> (st_fill_pct t \<ge> fec_backpressure_fill_pct f \<or> d > 0),
          fs\<lparr>fs_tr_present := True, fs_fill_pct := st_fill_pct t, fs_in_pressure := (st_in_pressure t \<noteq> 0),
             fs_drops := st_transport_drops t, fs_pressure_drops := st_pressure_drops t,
             fs_pressure_delta := d, fs_packets_sent := st_packets_sent t\<rparr>))"

definition upd_fs :: "(fec_side \<Rightarrow> fec_side) \<Rightarrow> 'w link \<Rightarrow> 'w link" where
  "upd_fs f L = L\<lparr>lk_fs := f (lk_fs L)\<rparr>"

text \<open>The wedge watchdog: after an unbroken run of skips the safe bitrate is written again.\<close>

definition wedge_watchdog :: "'w loopenv \<Rightarrow> 'w link \<Rightarrow> 'w link" where
  "wedge_watchdog env L =
     (let f = cfg_fec (lk_cfg L); bnow = lk_now env L in
      if fec_skip_on_backpressure f \<and> \<not> cfg_dry_run (lk_cfg L) \<and> fec_on f \<and> fec_safe_startup_enabled f
         \<and> fec_backpressure_recover_s f > 0
      then let L1 = upd_fs (\<lambda>fs. if fs_skip_since_us fs = 0 then fs\<lparr>fs_skip_since_us := bnow\<rparr> else fs) L;
               fs = lk_fs L1;
               due = (fs_recover_us fs = 0 \<or> s_of (bnow - fs_recover_us fs) \<ge> fec_backpressure_recover_s f)
           in if s_of (bnow - fs_skip_since_us fs) \<ge> fec_backpressure_recover_s f \<and> due
              then let (ok, io) = venc_apply (lp_sys env) (lk_cfg L) (fec_safe_startup_bitrate_kbps f)
                                    (fec_safe_startup_payload f) (lk_io L1)
                   in upd_fs (\<lambda>fs. fs\<lparr>fs_recover_us := bnow\<rparr>) (L1\<lparr>lk_io := io\<rparr>)
              else L1
      else L)"

text \<open>A frame size that reaches the controller.\<close>

definition sidecar_adapt :: "'w loopenv \<Rightarrow> u32 \<Rightarrow> 'w link \<Rightarrow> 'w link" where
  "sidecar_adapt env frame_size L0 =
     (let L = upd_fs (\<lambda>fs. fs\<lparr>fs_skip_since_us := 0, fs_recover_us := 0\<rparr>) L0;
          now = lk_now env L; fs = lk_fs L;
          ((c, emit), ring) = controller_update (lk_ctrl L) (lk_cfg L) frame_size (fs_ring fs) now
             (fps_get (fs_fps fs)) (vw_kbps (lk_vw L));
          L1 = upd_fs (\<lambda>fs. fs\<lparr>fs_ring := ring\<rparr>) (L\<lparr>lk_ctrl := c\<rparr>)
      in case emit of
           None \<Rightarrow> L1
         | Some p \<Rightarrow>
             (let L2 = (if cfg_dry_run (lk_cfg L1) then L1
                        else let (ok, io) = wfb_send_set_fec (lp_sys env) (lk_cfg L1) (fp_k p) (fp_n p) (lk_io L1);
                                 L2 = L1\<lparr>lk_io := io\<rparr>
                             in if ok then upd_fs (\<lambda>fs. fs\<lparr>fs_kn := (fp_k p, fp_n p)\<rparr>) L2 else L2)
              in lk_assert env now L2))"

text \<open>One datagram of the sidecar, of which the buffer holds 128 bytes.\<close>

definition sidecar_datagram :: "'w loopenv \<Rightarrow> u8 list \<Rightarrow> 'w link \<Rightarrow> 'w link" where
  "sidecar_datagram env bs L =
     (case sidecar_parse (take 128 bs) of
        None \<Rightarrow> L
      | Some f \<Rightarrow>
          (let fs1 = (lk_fs L)\<lparr>fs_fps := fps_feed (fs_fps (lk_fs L)) (sf_frame_ready_us f)\<rparr>;
               (skip, fs2) = (case sf_transport f of
                   None \<Rightarrow> (False, fs1) | Some t \<Rightarrow> note_transport (cfg_fec (lk_cfg L)) t fs1);
               L1 = L\<lparr>lk_fs := fs2\<rparr>
           in case sf_frame_size f of
                None \<Rightarrow> L1
              | Some sz \<Rightarrow>
                  (if sz = 0 then L1
                   else if skip then wedge_watchdog env (upd_fs (\<lambda>fs. fs\<lparr>fs_skipped := fs_skipped fs + 1\<rparr>) L1)
                   else sidecar_adapt env (word_of_nat sz) L1)))"

definition stats_datagram :: "'w loopenv \<Rightarrow> u8 list \<Rightarrow> 'w link \<Rightarrow> 'w link" where
  "stats_datagram env bs L =
     (let (ok, (r, c, kn, v, sq), io) = wfb_stats_handle_datagram (lp_sys env) (lk_cfg L) (text_of (take 2047 bs))
            (lk_now env L) (lk_radio L, lk_ctrl L, fs_kn (lk_fs L), lk_vw L, fs_stats_seq (lk_fs L)) (lk_io L);
          L1 = upd_fs (\<lambda>fs. fs\<lparr>fs_kn := kn, fs_stats_seq := sq\<rparr>)
                 (L\<lparr>lk_radio := r, lk_ctrl := c, lk_vw := v, lk_io := io\<rparr>)
      in if ok then upd_fs (\<lambda>fs. fs\<lparr>fs_stats_us := lk_now env L1, fs_stats_stale := False\<rparr>) L1 else L1)"

definition STATS_STALE_US :: u64 where
  "STATS_STALE_US = 3000000"

definition stats_stale_tick :: "'w loopenv \<Rightarrow> 'w link \<Rightarrow> 'w link" where
  "stats_stale_tick env L =
     (let f = cfg_fec (lk_cfg L); fs = lk_fs L in
      if fec_on f \<and> fec_wfb_stats_port f \<noteq> 0 \<and> fs_stats_us fs \<noteq> 0
         \<and> \<not> fs_stats_stale fs \<and> lk_now env L - fs_stats_us fs > STATS_STALE_US
      then upd_fs (\<lambda>fs. fs\<lparr>fs_stats_stale := True\<rparr>) L else L)"

definition recovery_datagram :: "'w loopenv \<Rightarrow> u8 list \<Rightarrow> 'w link \<Rightarrow> 'w link" where
  "recovery_datagram env bs L =
     (let (reply, rv, io) = recovery_feed (lp_sys env) (lk_cfg L) (take 512 bs) (lk_now env L) (lk_recov L) (lk_io L)
      in L\<lparr>lk_recov := rv, lk_io := io,
           lk_replies := lk_replies L @ (case reply of None \<Rightarrow> [] | Some r \<Rightarrow> [wcmd_resp_bytes r])\<rparr>)"

definition api_request :: "'w loopenv \<Rightarrow> string \<Rightarrow> 'w link \<Rightarrow> 'w link" where
  "api_request env buf L =
     (let (reply, a) = api_handle_request (lp_sys env) (log_rel_s env L) (lk_now env L) buf
            \<lparr> as_ctx = lk_wx L, as_seq = lk_console_seq L, as_io = lk_io L \<rparr>
      in L\<lparr>lk_wx := as_ctx a, lk_console_seq := as_seq a, lk_io := as_io a\<rparr>)"

section \<open>The timers\<close>

text \<open>The deferred radio write of an ordered drop.\<close>

definition pending_tick :: "'w loopenv \<Rightarrow> u64 \<Rightarrow> 'w link \<Rightarrow> 'w link" where
  "pending_tick env now L =
     (let p = lk_pending L in
      if pd_active p \<and> now \<ge> pd_deadline_us p
      then let (ok, io) = wfb_set_radio (lp_sys env) (lk_cfg L) (pd_radio p) (lk_io L); L1 = L\<lparr>lk_io := io\<rparr>
           in if ok
              then (lk_observe (pd_radio p) now
                      (L1\<lparr>lk_body := pd_radio p, lk_emit_mcs := pd_target_mcs p\<rparr>))\<lparr>lk_pending := pending_mcs_clear p\<rparr>
              else L1\<lparr>lk_pending := p\<lparr>pd_deadline_us := now + 100000\<rparr>\<rparr>
      else L)"

definition upd_pp :: "(probe_producer \<Rightarrow> probe_producer) \<Rightarrow> 'w link \<Rightarrow> 'w link" where
  "upd_pp f L = L\<lparr>lk_pp := f (lk_pp L)\<rparr>"

definition probe_on :: "'w link \<Rightarrow> bool" where
  "probe_on L = (mcs_on (cfg_mcs (lk_cfg L)) \<and> \<not> cfg_dry_run (lk_cfg L))"

definition probe_gate_tick :: "u64 \<Rightarrow> 'w link \<Rightarrow> 'w link" where
  "probe_gate_tick now L =
     (if sel_current_mcs (lk_sel L) \<noteq> pp_gate_mcs (lk_pp L)
      then upd_pp (\<lambda>p. p\<lparr>pp_gate_mcs := sel_current_mcs (lk_sel L)\<rparr>) (L\<lparr>lk_probe := (lk_probe L)\<lparr>ps_gate_us := now\<rparr>\<rparr>)
      else L)"

definition canonical_body :: radio_body where
  "canonical_body = \<lparr> rb_stbc = 1, rb_ldpc = 1, rb_short_gi = 0, rb_bandwidth = 20, rb_mcs_index = 0,
     rb_vht_mode = 0, rb_vht_nss = 1 \<rparr>"

definition probe_want :: "'w link \<Rightarrow> radio_body" where
  "probe_want L =
     set_mcs (let d = sel_current_mcs (lk_sel L) + 2 in if d > 7 then 7 else d)
       (if lk_body_valid L then lk_body L else canonical_body)"

definition probe_retune_tick :: "'w loopenv \<Rightarrow> u64 \<Rightarrow> 'w link \<Rightarrow> 'w link" where
  "probe_retune_tick env now L =
     (let c = lk_cfg L; want = probe_want L in
      if probe_on L \<and> cfg_probe_port c \<noteq> 0 \<and> sel_current_mcs (lk_sel L) \<ge> 0 \<and> now \<ge> pp_retry_us (lk_pp L)
         \<and> pp_sent (lk_pp L) \<noteq> Some want
      then let (ok, io) = wfb_set_radio_at (lp_sys env) (cfg_probe_host c) (cfg_probe_port c) want (lk_io L)
           in upd_pp (\<lambda>p. if ok then p\<lparr>pp_sent := Some want, pp_tuned_mcs := uint (rb_mcs_index want)\<rparr>
                          else p\<lparr>pp_retune_fails := pp_retune_fails p + 1, pp_retry_us := now + 1000000\<rparr>)
                (L\<lparr>lk_io := io\<rparr>)
      else L)"

text \<open>A probe packet: \<open>PRB\<close>, the sequence number in ten digits, padding.\<close>

definition feed_packet :: "u32 \<Rightarrow> int \<Rightarrow> string" where
  "feed_packet sq bytes =
     (let ds = show_int (uint sq); hdr = ''PRB'' @ replicate (10 - length ds) (CHR ''0'') @ ds
      in hdr @ replicate (nat (clamp 64 1472 bytes) - length hdr) (CHR ''x''))"

definition probe_feed_tick :: "'w loopenv \<Rightarrow> u64 \<Rightarrow> 'w link \<Rightarrow> 'w link" where
  "probe_feed_tick env now L =
     (let c = lk_cfg L; m = cfg_mcs c in
      if probe_on L \<and> cfg_probe_feed_port c \<noteq> 0 \<and> mcs_probe_feed_pps m > 0 \<and> now \<ge> pp_next_feed_us (lk_pp L)
      then let L1 = (if pp_feed_open (lk_pp L) \<or> \<not> inet_pton4 (cfg_probe_feed_host c) then L
                     else let (ok, w) = lp_feed_open env (cfg_probe_feed_host c) (cfg_probe_feed_port c) (io_world (lk_io L))
                          in upd_pp (\<lambda>p. p\<lparr>pp_feed_open := ok\<rparr>) (upd_world (\<lambda>_. w) L));
               L2 = (if pp_feed_open (lk_pp L1)
                     then upd_pp (\<lambda>p. p\<lparr>pp_feed_seq := pp_feed_seq p + 1\<rparr>)
                            (upd_world (lp_feed_send env (feed_packet (pp_feed_seq (lk_pp L1)) (mcs_probe_feed_bytes m))) L1)
                     else L1);
               iv = 1000000 div word_of_int (mcs_probe_feed_pps m)
           in upd_pp (\<lambda>p. p\<lparr>pp_next_feed_us :=
                  (if pp_next_feed_us p = 0 \<or> pp_next_feed_us p + iv < now then now + iv
                   else pp_next_feed_us p + iv)\<rparr>) L2
      else L)"

definition subscribe_tick :: "'w loopenv \<Rightarrow> u64 \<Rightarrow> 'w link \<Rightarrow> 'w link" where
  "subscribe_tick env now L =
     (let f = cfg_fec (lk_cfg L) in
      if fec_on f \<and> now \<ge> lk_next_subscribe_us L
      then (upd_world (lp_subscribe env sidecar_subscribe_bytes) L)\<lparr>lk_next_subscribe_us := now + us_of_d (fec_subscribe_s f)\<rparr>
      else L)"

definition heartbeat_tick :: "u64 \<Rightarrow> 'w link \<Rightarrow> 'w link" where
  "heartbeat_tick now L = (if now \<ge> lk_next_heartbeat_us L then L\<lparr>lk_next_heartbeat_us := now + 5000000\<rparr> else L)"

text \<open>The watchdog's decision: re-clamp a rung a live \<open>/set\<close> left outside the range, else the failsafe.\<close>

definition watchdog_decide :: "mcs_cfg \<Rightarrow> u64 \<Rightarrow> selector \<Rightarrow> selector \<times> decision" where
  "watchdog_decide m now s =
     (let cur = sel_current_mcs s in
      if cur \<ge> 0 \<and> (cur < mcs_min m \<or> cur > mcs_max m)
      then (selector_commit m cur now s, if cur > mcs_max m then SD_DOWN else SD_UP)
      else selector_tick_no_data m now s)"

definition watchdog_emit :: "'w loopenv \<Rightarrow> u64 \<Rightarrow> 'w link \<Rightarrow> 'w link" where
  "watchdog_emit env now L =
     (let mcs = sel_current_mcs (lk_sel L);
          L1 = (if \<not> lk_body_valid L \<and> \<not> cfg_dry_run (lk_cfg L)
                then (case lk_get_radio env L of
                        (Some b, L1) \<Rightarrow> L1\<lparr>lk_body := b, lk_body_valid := True\<rparr> | (None, L1) \<Rightarrow> L1)
                else L)
      in if lk_body_valid L1 \<and> \<not> cfg_dry_run (lk_cfg L1)
         then (case lk_commit env mcs now L1 of
                 (CommitSent, L2) \<Rightarrow>
                   (let b = set_mcs mcs (lk_body L2) in lk_observe b now (L2\<lparr>lk_body := b, lk_emit_mcs := mcs\<rparr>))
               | (_, L2) \<Rightarrow> L2)
         else L1\<lparr>lk_emit_mcs := mcs\<rparr>)"

definition watchdog_tick :: "'w loopenv \<Rightarrow> u64 \<Rightarrow> 'w link \<Rightarrow> 'w link" where
  "watchdog_tick env now L =
     (let m = cfg_mcs (lk_cfg L) in
      if mcs_on m \<and> now \<ge> lk_next_watchdog_us L
      then let (s, d) = watchdog_decide m now (lk_sel L);
               L1 = L\<lparr>lk_sel := s\<rparr>;
               L2 = (if d = SD_NONE then L1 else watchdog_emit env now L1);
               period = fl32 (mcs_failsafe_timeout_s m / 4)
           in L2\<lparr>lk_next_watchdog_us := now + us_of (if period < fl32 (5/100) then fl32 (5/100) else period)\<rparr>
      else L)"

definition radio_poll_tick :: "'w loopenv \<Rightarrow> u64 \<Rightarrow> 'w link \<Rightarrow> 'w link" where
  "radio_poll_tick env now L =
     (let f = cfg_fec (lk_cfg L) in
      if fec_on f \<and> (fec_wfb_stats_port f = 0 \<or> fs_stats_stale (lk_fs L)) \<and> now \<ge> lk_next_radio_us L
      then let (r, L1) = lk_get_radio env L;
               L2 = (case r of Some b \<Rightarrow> lk_observe b now L1 | None \<Rightarrow> L1)
           in (lk_assert env now L2)\<lparr>lk_next_radio_us := now + us_of_d (fec_radio_poll_s f)\<rparr>
      else L)"

text \<open>The channel switch; the result is its next deadline in microseconds, 0 for none.\<close>

definition csa_step :: "'w loopenv \<Rightarrow> u64 \<Rightarrow> 'w link \<Rightarrow> u64 \<times> 'w link" where
  "csa_step env now L =
     (if csa_on (cfg_csa (lk_cfg L))
      then let ((d, c), io) = csa_tick (lp_sys env) (lk_csa_cfg L) (uint (now div 1000)) (lk_csa L) (lk_io L)
           in (if d > 0 then word_of_int d * 1000 else 0, L\<lparr>lk_csa := c, lk_io := io\<rparr>)
      else (0, L))"

section \<open>One pass of the loop\<close>

definition sooner :: "bool \<Rightarrow> u64 \<Rightarrow> u64 \<Rightarrow> u64" where
  "sooner on t deadline = (if on \<and> t < deadline then t else deadline)"

definition poll_timeout_ms :: "u64 \<Rightarrow> u64 \<Rightarrow> 'w link \<Rightarrow> int" where
  "poll_timeout_ms now csa_next L =
     (let c = lk_cfg L; f = cfg_fec c;
          d1 = sooner (mcs_on (cfg_mcs c) \<and> lk_next_watchdog_us L > 0) (lk_next_watchdog_us L) (lk_next_heartbeat_us L);
          d2 = sooner (fec_on f \<and> lk_next_subscribe_us L > 0) (lk_next_subscribe_us L) d1;
          d3 = sooner (fec_on f \<and> fec_wfb_stats_port f = 0 \<and> lk_next_radio_us L > 0) (lk_next_radio_us L) d2;
          d4 = sooner (pd_active (lk_pending L)) (pd_deadline_us (lk_pending L)) d3;
          d5 = sooner (csa_next > 0) csa_next d4;
          d6 = sooner (probe_on L \<and> cfg_probe_feed_port c \<noteq> 0 \<and> pp_next_feed_us (lk_pp L) > 0) (pp_next_feed_us (lk_pp L)) d5
      in if d6 > now
         then let ahead = (d6 - now) div 1000 in if ahead < 100 then uint ahead + 1 else 100
         else 0)"

definition link_ticks :: "'w loopenv \<Rightarrow> 'w link \<Rightarrow> u64 \<times> int \<times> 'w link" where
  "link_ticks env L =
     (let now = lk_now env L;
          L1 = radio_poll_tick env now (watchdog_tick env now (heartbeat_tick now (subscribe_tick env now
                 (probe_feed_tick env now (probe_retune_tick env now (probe_gate_tick now (pending_tick env now L)))))));
          (csa_next, L2) = csa_step env now L1;
          now' = (if csa_on (cfg_csa (lk_cfg L2)) then lk_now env L2 else now)
      in (now', poll_timeout_ms now' csa_next L2, L2))"

text \<open>What arrived while the loop waited.\<close>

record loop_input =
  li_api :: "string list"
  li_stats :: "u8 list list"
  li_recovery :: "u8 list list"
  li_rx :: "(u32 \<times> u8 list) list"
  li_sidecar :: "u8 list option"

definition log_sample_tick :: "'w loopenv \<Rightarrow> 'w link \<Rightarrow> 'w link" where
  "log_sample_tick env L =
     (let now2 = lk_now env L; x = lk_wx L in
      if cfg_api_port (lk_cfg L) > 0 \<and> lg_active (wx_logger x) \<and> now2 \<ge> lk_next_log_us L
      then L\<lparr>lk_wx := x\<lparr>wx_logger := logger_tick (lp_sample env (io_world (lk_io L))) (wx_logger x)\<rparr>,
             lk_next_log_us := now2 + 1000000\<rparr>
      else L)"

text \<open>Each socket is drained of at most 32 datagrams a pass; the sidecar of one.\<close>

definition link_pass :: "'w loopenv \<Rightarrow> loop_input \<Rightarrow> 'w link \<Rightarrow> 'w link" where
  "link_pass env i L =
     (let (now, timeout, L1) = link_ticks env L;
          L2 = upd_world (lp_poll env) L1;
          L3 = log_sample_tick env (if cfg_api_port (lk_cfg L2) > 0 then fold (api_request env) (li_api i) L2 else L2);
          L4 = stats_stale_tick env (fold (stats_datagram env) (take 32 (li_stats i)) L3);
          L5 = fold (recovery_datagram env) (take 32 (li_recovery i)) L4;
          L6 = fold (\<lambda>(peer, bs). rx_ant_datagram env now peer bs) (take 32 (li_rx i)) L5
      in case li_sidecar i of None \<Rightarrow> L6 | Some bs \<Rightarrow> sidecar_datagram env bs L6)"

section \<open>Start-up\<close>

text \<open>The channel switch receiver's configuration; \<open>None\<close> where \<open>main\<close> refuses to start.\<close>

definition csa_bring_up :: "lc_config \<Rightarrow> csa_cfg option" where
  "csa_bring_up c =
     (let k = cfg_csa c;
          none = \<lparr> ca_iface = [], ca_allow_chan = [], ca_allow_bw = [], ca_cooldown_ms = 0, ca_no_revert = False \<rparr>
      in if \<not> csa_on k then Some none
         else if \<not> mcs_on (cfg_mcs c) then None
         else case (if csa_allow_chan k = [] then Some [] else csa_parse_chan_list (csa_allow_chan k) CSA_MAX_ALLOW,
                    if csa_allow_bw k = [] then Some [] else csa_parse_bw_list (csa_allow_bw k) CSA_MAX_ALLOW) of
           (Some chans, Some bws) \<Rightarrow>
             Some \<lparr> ca_iface = csa_sub_iface k, ca_allow_chan = chans, ca_allow_bw = bws,
                    ca_cooldown_ms = csa_sub_cooldown_ms k, ca_no_revert = csa_sub_no_revert k \<rparr>
         | _ \<Rightarrow> None)"

definition zero_body :: radio_body where
  "zero_body = \<lparr> rb_stbc = 0, rb_ldpc = 0, rb_short_gi = 0, rb_bandwidth = 0, rb_mcs_index = 0,
     rb_vht_mode = 0, rb_vht_nss = 0 \<rparr>"

definition fec_side_init :: fec_side where
  "fec_side_init = \<lparr> fs_tr_present = False, fs_fill_pct = 0, fs_in_pressure = False, fs_drops = 0,
     fs_pressure_drops = 0, fs_pressure_delta = 0, fs_packets_sent = 0, fs_ring = ring_init, fs_fps = fps_init,
     fs_kn = (- 1, - 1), fs_skipped = 0, fs_skip_since_us = 0, fs_recover_us = 0, fs_stats_seq = - 1,
     fs_stats_us = 0, fs_stats_stale = False \<rparr>"

definition probe_producer_init :: probe_producer where
  "probe_producer_init = \<lparr> pp_feed_open = False, pp_feed_seq = 0, pp_next_feed_us = 0, pp_tuned_mcs = - 1,
     pp_sent = None, pp_retry_us = 0, pp_retune_fails = 0, pp_gate_mcs = - 2 \<rparr>"

text \<open>The command proxy listens on the \<open>rx_ant\<close> socket, so it is off without the MCS subsystem.\<close>

definition cmd_needs_rx :: "lc_config \<Rightarrow> lc_config" where
  "cmd_needs_rx c =
     (if mcs_on (cfg_mcs c) then c else c\<lparr>cfg_cmd := (cfg_cmd c)\<lparr>cmd_on := False\<rparr>\<rparr>)"

definition link_init :: "lc_config \<Rightarrow> csa_cfg \<Rightarrow> logger \<Rightarrow> u64 \<Rightarrow> u64 \<Rightarrow> 'w io \<Rightarrow> 'w link" where
  "link_init c kc lg start now io = \<lparr>
     lk_wx = \<lparr> wx_cfg = cmd_needs_rx c, wx_st = wcmd_state_init,
               wx_sync = \<lparr> ls_valid = False, ls_seq = 0, ls_gs_unix_s = 0, ls_recv_uptime_s = 0, ls_count = 0 \<rparr>,
               wx_logger = lg \<rparr>,
     lk_io = io, lk_replies = [], lk_body = zero_body, lk_body_valid = False, lk_radio = radio_init,
     lk_ctrl = controller_init, lk_vw = \<lparr> vw_kbps = - 1, vw_payload = - 1 \<rparr>,
     lk_pending = \<lparr> pd_active = False, pd_deadline_us = 0, pd_target_mcs = - 1, pd_radio = zero_body \<rparr>,
     lk_sel = selector_init\<lparr>sel_last_datagram_us := now\<rparr>, lk_scorer = scorer_reset, lk_probe = probe_state_init,
     lk_emit_mcs = - 1, lk_rx_us = 0, lk_csa_cfg = kc, lk_csa = csa_init, lk_recov = recov_init,
     lk_fs = fec_side_init, lk_pp = probe_producer_init, lk_next_subscribe_us = 0, lk_next_radio_us = 0,
     lk_next_watchdog_us = 0, lk_next_heartbeat_us = now + 5000000, lk_next_log_us = now + 1000000,
     lk_console_seq = 0, lk_start_us = start \<rparr>"

text \<open>From the open sockets to the first pass; \<open>lg\<close> is the logger after its session was opened.\<close>

definition link_boot :: "'w loopenv \<Rightarrow> lc_config \<Rightarrow> logger \<Rightarrow> u64 \<Rightarrow> 'w io \<Rightarrow> 'w link option" where
  "link_boot env c lg start io =
     (case csa_bring_up c of
        None \<Rightarrow> None
      | Some kc \<Rightarrow>
          (let L0 = link_init c kc lg start 0 io;
               L1 = (if mcs_on (cfg_mcs c)
                     then (case lk_get_radio env L0 of
                             (Some b, L1) \<Rightarrow> L1\<lparr>lk_body := b, lk_body_valid := True\<rparr> | (None, L1) \<Rightarrow> L1)
                     else L0);
               L2 = L1\<lparr>lk_sel := (lk_sel L1)\<lparr>sel_last_datagram_us := lk_now env L1\<rparr>\<rparr>;
               L3 = (if lk_body_valid L2 then lk_observe (lk_body L2) (lk_now env L2) L2 else L2);
               f = cfg_fec c;
               L4 = (if fec_on f \<and> fec_safe_startup_enabled f \<and> \<not> cfg_dry_run c
                     then let (ok, io) = venc_apply (lp_sys env) (lk_cfg L3) (fec_safe_startup_bitrate_kbps f)
                                           (fec_safe_startup_payload f) (lk_io L3) in L3\<lparr>lk_io := io\<rparr>
                     else L3);
               now = lk_now env L4;
               wd = now + us_of (fl32 (mcs_failsafe_timeout_s (cfg_mcs c) / 4))
           in Some (L4\<lparr>lk_next_log_us := now + 1000000, lk_next_heartbeat_us := now + 5000000,
                       lk_next_watchdog_us := (if wd = 0 then now + 50000 else wd)\<rparr>)))"

inductive link_reach :: "'w loopenv \<Rightarrow> lc_config \<Rightarrow> 'w link \<Rightarrow> bool" for env c where
  boot: "link_boot env c lg start io = Some L \<Longrightarrow> link_reach env c L"
| pass: "link_reach env c L \<Longrightarrow> link_reach env c (link_pass env i L)"

end
