(* ===== verification/LinkSafety.thy ===== *)
theory LinkSafety
  imports LinkLoop
begin

text \<open>
  Facts about the main loop of LinkLoop: what each handler and timer leaves alone (\<open>link_frame\<close>), the
  invariant \<open>link_inv\<close> that start-up establishes and every pass keeps, and the properties of whole
  reports, drops, sidecar frames and waits.
\<close>

section \<open>Frames\<close>

text \<open>The collection \<open>link_frame\<close> says what each step leaves alone.\<close>

named_theorems link_frame

lemma upd_frame [link_frame]:
  "lk_wx (upd_fs f L) = lk_wx L" "lk_sel (upd_fs f L) = lk_sel L" "lk_pending (upd_fs f L) = lk_pending L"
  "lk_fs (upd_fs f L) = f (lk_fs L)" "lk_ctrl (upd_fs f L) = lk_ctrl L" "lk_io (upd_fs f L) = lk_io L" "lk_vw (upd_fs f L) = lk_vw L"
  "lk_wx (upd_pp g L) = lk_wx L" "lk_sel (upd_pp g L) = lk_sel L" "lk_pending (upd_pp g L) = lk_pending L" "lk_fs (upd_pp g L) = lk_fs L"
  "lk_wx (upd_world h L) = lk_wx L" "lk_sel (upd_world h L) = lk_sel L" "lk_pending (upd_world h L) = lk_pending L" "lk_fs (upd_world h L) = lk_fs L"
  by (simp_all add: upd_fs_def upd_pp_def upd_world_def)

lemma observe_frame [link_frame]:
  "lk_wx (lk_observe b now L) = lk_wx L" "lk_sel (lk_observe b now L) = lk_sel L" "lk_pending (lk_observe b now L) = lk_pending L"
  "lk_fs (lk_observe b now L) = lk_fs L" "lk_io (lk_observe b now L) = lk_io L" "lk_body (lk_observe b now L) = lk_body L"
  "lk_body_valid (lk_observe b now L) = lk_body_valid L" "lk_vw (lk_observe b now L) = lk_vw L"
  "lk_emit_mcs (lk_observe b now L) = lk_emit_mcs L"
  by (simp_all add: lk_observe_def split: prod.split)

lemma assert_frame [link_frame]:
  "lk_wx (lk_assert env now L) = lk_wx L" "lk_sel (lk_assert env now L) = lk_sel L" "lk_pending (lk_assert env now L) = lk_pending L"
  "lk_fs (lk_assert env now L) = lk_fs L"
  by (simp_all add: lk_assert_def split: prod.split)

lemma get_radio_frame [link_frame]:
  "lk_wx (snd (lk_get_radio env L)) = lk_wx L" "lk_sel (snd (lk_get_radio env L)) = lk_sel L"
  "lk_pending (snd (lk_get_radio env L)) = lk_pending L" "lk_fs (snd (lk_get_radio env L)) = lk_fs L"
  "lk_body (snd (lk_get_radio env L)) = lk_body L" "lk_body_valid (snd (lk_get_radio env L)) = lk_body_valid L"
  by (simp_all add: lk_get_radio_def split: prod.split)

text \<open>What a commit does to the pending drop.\<close>

lemma lk_commit_effect:
  assumes "lk_commit env mcs now L = (res, L')"
  shows "lk_wx L' = lk_wx L" "lk_sel L' = lk_sel L" "lk_fs L' = lk_fs L" "lk_body L' = lk_body L" "lk_body_valid L' = lk_body_valid L"
    "pd_active (lk_pending L') \<longleftrightarrow> res = CommitDeferred"
    "res = CommitDeferred \<Longrightarrow> pd_target_mcs (lk_pending L') = mcs \<and> pd_radio (lk_pending L') = set_mcs mcs (lk_body L)"
  using assms
  by (auto simp: lk_commit_def commit_mcs_change_def set_mcs_def pending_mcs_clear_def Let_def split: prod.splits if_splits)

section \<open>The invariant\<close>

text \<open>\<open>base\<close> is the configuration the program started with.\<close>

definition rung_ok :: "int \<Rightarrow> bool" where
  "rung_ok r = (- 1 \<le> r \<and> r \<le> 11)"

definition pending_ok :: "pending_mcs_down \<Rightarrow> bool" where
  "pending_ok p = (pd_active p \<longrightarrow> 0 \<le> pd_target_mcs p \<and> pd_target_mcs p \<le> 11
                     \<and> rb_mcs_index (pd_radio p) = word_of_int (pd_target_mcs p))"

definition link_inv :: "lc_config \<Rightarrow> 'w link \<Rightarrow> bool" where
  "link_inv base L =
     (sound_config base (lk_cfg L) \<and> rung_ok (sel_current_mcs (lk_sel L)) \<and> pending_ok (lk_pending L)
      \<and> ring_wf (fs_ring (lk_fs L)))"

lemma mcs_rows:
  "row ''mcs.mcs_min'' SUB_MCS (TF_INT (in_mcs mcs_min) (on_mcs mcs_min_update)) 0 11 True \<in> set TUNABLES"
  "row ''mcs.mcs_max'' SUB_MCS (TF_INT (in_mcs mcs_max) (on_mcs mcs_max_update)) 0 11 True \<in> set TUNABLES"
  unfolding TUNABLES_def MCS_TUNABLES_def set_append
  by (simp_all only: list.set insert_iff Un_iff simp_thms)

lemma mcs_bounds:
  assumes "sound_config base c"
  shows "0 \<le> mcs_min (cfg_mcs c)" "mcs_min (cfg_mcs c) \<le> 11" "0 \<le> mcs_max (cfg_mcs c)" "mcs_max (cfg_mcs c) \<le> 11"
proof -
  have "row_in_range t c" if "t \<in> set TUNABLES" for t
    using assms that by (simp add: sound_config_def config_in_range_def list_all_iff)
  from this [OF mcs_rows(1)] this [OF mcs_rows(2)]
  show "0 \<le> mcs_min (cfg_mcs c)" "mcs_min (cfg_mcs c) \<le> 11" "0 \<le> mcs_max (cfg_mcs c)" "mcs_max (cfg_mcs c) \<le> 11"
    by (simp_all add: row_in_range_def row_def in_mcs_def)
qed

lemma clamp_rung: "sound_config base c \<Longrightarrow> 0 \<le> clamp (mcs_min (cfg_mcs c)) (mcs_max (cfg_mcs c)) v
    \<and> clamp (mcs_min (cfg_mcs c)) (mcs_max (cfg_mcs c)) v \<le> 11"
  using mcs_bounds [of base c] by (auto simp: clamp_def Let_def)

lemma update_rung:
  assumes "sound_config base c" "rung_ok (sel_current_mcs s)" "selector_update (cfg_mcs c) sc p q now s = (s', d)"
  shows "rung_ok (sel_current_mcs s') \<and> (d \<noteq> SD_NONE \<longrightarrow> 0 \<le> sel_current_mcs s')"
  using assms clamp_rung [OF assms(1)]
  by (auto simp: selector_update_def selector_law_def apply_decision_def rung_ok_def Let_def
      split: if_splits decision.splits intro: order_trans [of "- 1" 0])

lemma watchdog_rung:
  assumes "sound_config base c" "rung_ok (sel_current_mcs s)" "watchdog_decide (cfg_mcs c) now s = (s', d)"
  shows "rung_ok (sel_current_mcs s') \<and> (d \<noteq> SD_NONE \<longrightarrow> 0 \<le> sel_current_mcs s')"
  using assms clamp_rung [OF assms(1)]
  by (auto simp: watchdog_decide_def selector_tick_no_data_def rung_ok_def sel_frame Let_def
      split: if_splits intro: order_trans [of "- 1" 0])


section \<open>Every step keeps it\<close>

lemma commit_inv:
  assumes "link_inv base L" "lk_commit env mcs now L = (res, L')" "0 \<le> mcs" "mcs \<le> 11"
  shows "link_inv base L'"
  using assms lk_commit_effect [OF assms(2)]
  by (cases res) (simp_all add: link_inv_def lk_cfg_def pending_ok_def set_mcs_def)

lemma rung_pos: "rung_ok r \<Longrightarrow> 0 \<le> r \<Longrightarrow> 0 \<le> r \<and> r \<le> 11"
  by (simp add: rung_ok_def)

lemma realign_inv:
  assumes "link_inv base L"
  shows "link_inv base (rx_realign env L)"
proof (cases "0 \<le> sel_current_mcs (lk_sel L)")
  case True
  let ?want = "sel_current_mcs (lk_sel L)"
  obtain res L1 where c: "lk_commit env ?want (lk_now env L) L = (res, L1)" by (metis prod.collapse)
  have i1: "link_inv base L1"
    using commit_inv [OF assms c] True assms by (simp add: link_inv_def rung_ok_def)
  have "link_inv base (lk_observe b t (L1\<lparr>lk_body := b', lk_sel := (lk_sel L1)\<lparr>sel_current_mcs := ?want\<rparr>, lk_emit_mcs := e\<rparr>))" for b t b' e
    using i1 assms by (simp add: link_inv_def lk_cfg_def link_frame)
  then show ?thesis using i1 assms c by (simp add: rx_realign_def Let_def split: commit_result.split)
qed (simp add: rx_realign_def assms)

lemma decided_inv:
  fixes L :: "'w link"
  assumes "link_inv base L" "rung_ok (sel_current_mcs snap)" "0 \<le> mcs" "mcs \<le> 11"
  shows "link_inv base (rx_decided env snap mcs L)"
proof -
  have put: "link_inv base (X\<lparr>lk_sel := snap\<rparr>)" "link_inv base (X\<lparr>lk_body := b, lk_body_valid := v\<rparr>)" "link_inv base (X\<lparr>lk_emit_mcs := e\<rparr>)"
    "link_inv base (lk_observe b t (X\<lparr>lk_body := b', lk_emit_mcs := e\<rparr>))" "link_inv base (snd (lk_get_radio env X))"
    if "link_inv base X" for X :: "'w link" and b t b' e v
    using that assms(2) by (simp_all add: link_inv_def lk_cfg_def link_frame)
  have commit: "link_inv base (case lk_commit env mcs t X of
                 (CommitFailed, L2) \<Rightarrow> L2\<lparr>lk_sel := snap\<rparr>
               | (CommitDeferred, L2) \<Rightarrow> L2
               | (CommitSent, L2) \<Rightarrow>
                   (let r = set_mcs mcs (lk_body L2);
                        (fresh, L3) = lk_get_radio env L2;
                        b = (case fresh of Some f \<Rightarrow> f | None \<Rightarrow> r);
                        L4 = L3\<lparr>lk_body := b, lk_emit_mcs := mcs\<rparr>
                    in lk_observe b (lk_now env L4) L4))"
    if X: "link_inv base X" for X :: "'w link" and t
  proof -
    obtain res L2 where c: "lk_commit env mcs t X = (res, L2)" by (metis prod.collapse)
    have "link_inv base L2" using commit_inv [OF X c assms(3,4)] .
    moreover obtain fresh L3 where "lk_get_radio env L2 = (fresh, L3)" by (metis prod.collapse)
    ultimately show ?thesis using c put(1,4) put(5) [of L2] by (cases res) (simp_all add: Let_def)
  qed
  obtain fresh L1 where g: "lk_get_radio env L = (fresh, L1)" by (metis prod.collapse)
  then have "link_inv base L1" using put(5) [OF assms(1)] by simp
  then show ?thesis using assms(1) g commit put(1-3)
    by (cases fresh) (auto simp: rx_decided_def Let_def)
qed

lemma report_inv:
  assumes "link_inv base L"
  shows "link_inv base (rx_report env text L)"
proof (cases "rx_packets text")
  case (Some p)
  obtain u l r dv a where p: "p = (u, l, r, dv, a)" by (metis prod_cases5)
  show ?thesis
  proof (cases "scorer_update (lk_scorer L) (cfg_mcs (lk_cfg L)) text u l r dv a (lk_now env L)")
    case None
    then show ?thesis using assms Some p by (simp add: rx_report_def Let_def)
  next
    case s: (Some q)
    obtain sc score where q: "q = (sc, score)" by (metis prod.collapse)
    obtain s' d where u: "selector_update (cfg_mcs (lk_cfg L)) score (lk_probe L) (fs_in_pressure (lk_fs L)) (lk_now env L) (lk_sel L) = (s', d)"
      by (metis prod.collapse)
    note rung = update_rung [OF _ _ u, of base]
    let ?L1 = "L\<lparr>lk_scorer := sc, lk_rx_us := lk_now env L, lk_sel := s'\<rparr>"
    have "link_inv base ?L1" "rung_ok (sel_current_mcs (lk_sel L))" using assms rung by (simp_all add: link_inv_def lk_cfg_def)
    moreover have "0 \<le> sel_current_mcs s' \<and> sel_current_mcs s' \<le> 11" if "d \<noteq> SD_NONE"
      using rung assms that by (simp add: link_inv_def rung_ok_def)
    ultimately have "link_inv base (if d = SD_NONE then rx_realign env ?L1 else rx_decided env (lk_sel L) (sel_current_mcs s') ?L1)"
      by (simp add: realign_inv decided_inv)
    then show ?thesis by (simp add: rx_report_def Some p s q u Let_def)
  qed
qed (simp add: rx_report_def assms)

lemma write_through_inv:
  assumes "link_inv base L"
  shows "link_inv base (write_through env wb L)"
proof -
  have p: "pending_ok (lk_pending L)" using assms by (simp add: link_inv_def)
  have "0 \<le> v \<and> v \<le> 11 \<Longrightarrow> rung_ok v" for v by (simp add: rung_ok_def)
  then have "rung_ok (sel_current_mcs (selector_commit (cfg_mcs (lk_cfg L)) v t s))" for v t s
    using clamp_rung [of base "lk_cfg L" v] assms by (simp add: link_inv_def)
  then show ?thesis using assms p
    by (simp add: write_through_def Let_def link_inv_def lk_cfg_def link_frame pending_ok_def)
qed

lemma dispatch_inv:
  assumes "link_inv base L" "wcmd_dispatch senv up now peer r (lk_wx L) io = (resp, x, io')"
  shows "link_inv base (L\<lparr>lk_wx := x, lk_io := io', lk_replies := rs\<rparr>)"
  using control_step_sound [of base "\<lparr> as_ctx = lk_wx L, as_seq = 0, as_io = io \<rparr>" senv "Frame peer r up now"] assms
  by (simp add: link_inv_def lk_cfg_def)

lemma wcmd_inv:
  assumes "link_inv base L"
  shows "link_inv base (rx_wcmd env peer r L)"
proof -
  obtain resp x io where d: "wcmd_dispatch (lp_sys env) (log_rel_s env L) (lk_now env L) peer r (lk_wx L) (lk_io L) = (resp, x, io)"
    by (metis prod_cases3)
  have "link_inv base (L\<lparr>lk_wx := x, lk_io := io, lk_replies := rs\<rparr>)" for rs by (rule dispatch_inv [OF assms d])
  moreover from this have "link_inv base (write_through env wb (L\<lparr>lk_io := io, lk_replies := rs, lk_wx := x\<lparr>wx_st := st\<rparr>\<rparr>))" for wb st rs
    by (intro write_through_inv) (simp add: link_inv_def lk_cfg_def)
  ultimately show ?thesis by (simp add: rx_wcmd_def d Let_def split: option.split)
qed

lemma rx_ant_inv:
  assumes "link_inv base L"
  shows "link_inv base (rx_ant_datagram env now peer bs L)"
proof -
  have "link_inv base (L\<lparr>lk_csa := c\<rparr>)" "link_inv base (L\<lparr>lk_probe := q\<rparr>)" "link_inv base (L\<lparr>lk_csa := c, lk_probe := q\<rparr>)" for c q
    using assms by (simp_all add: link_inv_def lk_cfg_def)
  then show ?thesis using assms
    by (auto simp: rx_ant_datagram_def Let_def wcmd_inv report_inv split: option.split prod.split)
qed


lemma wedge_inv: "link_inv base L \<Longrightarrow> link_inv base (wedge_watchdog env L)"
  by (simp add: wedge_watchdog_def Let_def link_inv_def lk_cfg_def link_frame split: prod.split)

lemma controller_update_ring:
  "controller_update c cfg z r now fps kbps = ((c', e), r') \<Longrightarrow> ring_wf r \<Longrightarrow> ring_wf r'"
  by (auto simp: controller_update_def Let_def intro: ring_expire_wf ring_wf_push split: prod.splits)

lemma adapt_inv:
  fixes L :: "'w link"
  assumes "link_inv base L"
  shows "link_inv base (sidecar_adapt env z L)"
proof -
  let ?L = "upd_fs (\<lambda>fs. fs\<lparr>fs_skip_since_us := 0, fs_recover_us := 0\<rparr>) L"
  obtain c e r where u: "controller_update (lk_ctrl ?L) (lk_cfg ?L) z (fs_ring (lk_fs ?L)) (lk_now env ?L)
      (fps_get (fs_fps (lk_fs ?L))) (vw_kbps (lk_vw ?L)) = ((c, e), r)" by (metis prod.collapse)
  have "ring_wf r" using controller_update_ring [OF u] assms by (simp add: link_inv_def link_frame)
  with assms have "link_inv base (upd_fs (\<lambda>fs. fs\<lparr>fs_ring := r\<rparr>) (?L\<lparr>lk_ctrl := c\<rparr>))"
    by (simp add: link_inv_def lk_cfg_def link_frame)
  moreover have "link_inv base (lk_assert env t X)" "link_inv base (X\<lparr>lk_io := io\<rparr>)" "link_inv base (upd_fs (\<lambda>fs. fs\<lparr>fs_kn := kn\<rparr>) X)"
    if "link_inv base X" for X :: "'w link" and t io kn
    using that by (simp_all add: link_inv_def lk_cfg_def link_frame)
  ultimately show ?thesis unfolding sidecar_adapt_def Let_def u prod.case
    by (cases e) (auto split: prod.split)
qed

lemma sidecar_inv:
  fixes L :: "'w link"
  assumes "link_inv base L"
  shows "link_inv base (sidecar_datagram env bs L)"
proof (cases "sidecar_parse (take 128 bs)")
  case (Some f)
  let ?fs1 = "(lk_fs L)\<lparr>fs_fps := fps_feed (fs_fps (lk_fs L)) (sf_frame_ready_us f)\<rparr>"
  obtain skip fs2 where n: "(case sf_transport f of None \<Rightarrow> (False, ?fs1)
      | Some t \<Rightarrow> note_transport (cfg_fec (lk_cfg L)) t ?fs1) = (skip, fs2)" by (metis prod.collapse)
  then have "fs_ring fs2 = fs_ring (lk_fs L)" by (auto simp: note_transport_def Let_def split: option.splits)
  then have i1: "link_inv base (L\<lparr>lk_fs := fs2\<rparr>)" using assms by (simp add: link_inv_def lk_cfg_def)
  then have "link_inv base (upd_fs (\<lambda>fs. fs\<lparr>fs_skipped := fs_skipped fs + 1\<rparr>) (L\<lparr>lk_fs := fs2\<rparr>))"
    by (simp add: link_inv_def lk_cfg_def link_frame)
  with i1 show ?thesis unfolding sidecar_datagram_def Some option.case Let_def n prod.case
    by (cases "sf_frame_size f") (simp_all add: wedge_inv adapt_inv)
qed (simp add: sidecar_datagram_def assms)

lemma stats_inv:
  assumes "link_inv base L"
  shows "link_inv base (stats_datagram env bs L)" "link_inv base (stats_stale_tick env L)"
  using assms
  by (simp_all add: stats_datagram_def stats_stale_tick_def Let_def link_inv_def lk_cfg_def link_frame split: prod.split)

lemma pending_inv:
  assumes "link_inv base L"
  shows "link_inv base (pending_tick env now L)"
  using assms by (simp add: pending_tick_def Let_def link_inv_def lk_cfg_def link_frame pending_ok_def pending_mcs_clear_def split: prod.split)

lemma probe_inv:
  assumes "link_inv base L"
  shows "link_inv base (probe_gate_tick now L)" "link_inv base (probe_retune_tick env now L)"
  using assms by (auto simp: probe_gate_tick_def probe_retune_tick_def Let_def link_inv_def lk_cfg_def link_frame split: prod.split)

lemma small_inv:
  assumes "link_inv base L"
  shows "link_inv base (recovery_datagram env bs L)" "link_inv base (subscribe_tick env now L)" "link_inv base (heartbeat_tick now L)"
    "link_inv base (log_sample_tick env L)" "link_inv base (upd_world f L)"
  using assms
  by (simp_all add: recovery_datagram_def subscribe_tick_def heartbeat_tick_def log_sample_tick_def Let_def link_inv_def lk_cfg_def
      link_frame split: prod.split)

lemma feed_inv:
  fixes L :: "'w link"
  assumes "link_inv base L"
  shows "link_inv base (probe_feed_tick env now L)"
proof -
  have "link_inv base (upd_pp g X)" "link_inv base (upd_world h X)" if "link_inv base X" for X :: "'w link" and g h
    using that by (simp_all add: link_inv_def lk_cfg_def link_frame)
  then show ?thesis using assms by (simp add: probe_feed_tick_def Let_def split: prod.split)
qed

lemma api_inv:
  assumes "link_inv base L"
  shows "link_inv base (api_request env buf L)"
  using control_step_sound [of base "\<lparr> as_ctx = lk_wx L, as_seq = lk_console_seq L, as_io = lk_io L \<rparr>" "lp_sys env"
      "Http buf (log_rel_s env L) (lk_now env L)"] assms
  by (auto simp: api_request_def link_inv_def lk_cfg_def Let_def split: prod.split)

lemma csa_step_inv: "link_inv base L \<Longrightarrow> link_inv base (snd (csa_step env now L))"
  by (simp add: csa_step_def link_inv_def lk_cfg_def Let_def split: prod.split)

lemma poll_inv:
  assumes "link_inv base L"
  shows "link_inv base (radio_poll_tick env now L)"
proof -
  obtain r L1 where g: "lk_get_radio env L = (r, L1)" by (metis prod.collapse)
  then have "lk_wx L1 = lk_wx L" "lk_sel L1 = lk_sel L" "lk_pending L1 = lk_pending L" "lk_fs L1 = lk_fs L"
    using get_radio_frame [of env L] by simp_all
  then show ?thesis using assms g
    by (simp add: radio_poll_tick_def Let_def link_inv_def lk_cfg_def link_frame split: option.split)
qed

lemma watchdog_emit_inv:
  fixes L :: "'w link"
  assumes "link_inv base L" "0 \<le> sel_current_mcs (lk_sel L)"
  shows "link_inv base (watchdog_emit env now L)"
proof -
  obtain r L0 where g: "lk_get_radio env L = (r, L0)" by (metis prod.collapse)
  then have i0: "link_inv base L0" "link_inv base (L0\<lparr>lk_body := b, lk_body_valid := v\<rparr>)" for b v
    using get_radio_frame [of env L] assms(1) by (simp_all add: link_inv_def lk_cfg_def)
  have k: "link_inv base (case lk_commit env (sel_current_mcs (lk_sel L)) now X of
                 (CommitSent, L2) \<Rightarrow>
                   (let b = set_mcs (sel_current_mcs (lk_sel L)) (lk_body L2)
                    in lk_observe b now (L2\<lparr>lk_body := b, lk_emit_mcs := sel_current_mcs (lk_sel L)\<rparr>))
               | (_, L2) \<Rightarrow> L2)" if X: "link_inv base X" for X :: "'w link"
  proof -
    obtain res L2 where c: "lk_commit env (sel_current_mcs (lk_sel L)) now X = (res, L2)" by (metis prod.collapse)
    have "link_inv base L2" using commit_inv [OF X c] assms by (simp add: link_inv_def rung_ok_def)
    then show ?thesis using c by (cases res) (simp_all add: Let_def link_inv_def lk_cfg_def link_frame)
  qed
  have e: "link_inv base (X\<lparr>lk_emit_mcs := v\<rparr>)" if "link_inv base X" for X :: "'w link" and v
    using that by (simp add: link_inv_def lk_cfg_def)
  show ?thesis using k e i0 assms(1) g by (auto simp: watchdog_emit_def Let_def split: option.split)
qed

lemma watchdog_inv:
  fixes L :: "'w link"
  assumes "link_inv base L"
  shows "link_inv base (watchdog_tick env now L)"
proof -
  obtain s d where w: "watchdog_decide (cfg_mcs (lk_cfg L)) now (lk_sel L) = (s, d)" by (metis prod.collapse)
  note rung = watchdog_rung [OF _ _ w, of base]
  have i1: "link_inv base (L\<lparr>lk_sel := s\<rparr>)" using assms rung by (simp add: link_inv_def lk_cfg_def)
  have "link_inv base (watchdog_emit env now (L\<lparr>lk_sel := s\<rparr>))" if "d \<noteq> SD_NONE"
    using watchdog_emit_inv [OF i1] rung assms that by (simp add: link_inv_def)
  moreover have "link_inv base (X\<lparr>lk_next_watchdog_us := t\<rparr>)" if "link_inv base X" for X :: "'w link" and t
    using that by (simp add: link_inv_def lk_cfg_def)
  ultimately show ?thesis using assms i1 by (simp add: watchdog_tick_def w Let_def)
qed

lemma ticks_inv:
  assumes "link_inv base L" "link_ticks env L = (now, t, L')"
  shows "link_inv base L'"
proof -
  have "link_inv base (snd (csa_step env t (radio_poll_tick env t (watchdog_tick env t (heartbeat_tick t (subscribe_tick env t
                 (probe_feed_tick env t (probe_retune_tick env t (probe_gate_tick t (pending_tick env t L))))))))))" for t
    by (intro csa_step_inv poll_inv watchdog_inv pending_inv probe_inv small_inv feed_inv assms(1))
  then show ?thesis using assms(2) by (auto simp: link_ticks_def Let_def split: prod.splits) (metis snd_conv)+
qed

lemma fold_inv: "(\<And>x L. link_inv base L \<Longrightarrow> link_inv base (f x L)) \<Longrightarrow> link_inv base L \<Longrightarrow> link_inv base (fold f xs L)"
  by (induction xs arbitrary: L) auto

lemma pass_inv:
  assumes "link_inv base L"
  shows "link_inv base (link_pass env i L)"
proof -
  obtain now t L1 where k: "link_ticks env L = (now, t, L1)" by (metis prod_cases3)
  have "link_inv base (upd_world (lp_poll env) L1)" by (rule small_inv [OF ticks_inv [OF assms k]])
  then have "link_inv base (fold (\<lambda>(peer, bs). rx_ant_datagram env now peer bs) (take 32 (li_rx i))
      (fold (recovery_datagram env) (take 32 (li_recovery i)) (stats_stale_tick env (fold (stats_datagram env) (take 32 (li_stats i))
        (log_sample_tick env (if cfg_api_port (lk_cfg (upd_world (lp_poll env) L1)) > 0
           then fold (api_request env) (li_api i) (upd_world (lp_poll env) L1) else upd_world (lp_poll env) L1))))))"
    by (auto intro!: fold_inv rx_ant_inv small_inv stats_inv api_inv)
  then show ?thesis unfolding link_pass_def k Let_def prod.case
    by (cases "li_sidecar i") (simp_all only: option.case sidecar_inv)
qed

section \<open>Reachable states\<close>

lemma cmd_row: "row ''cmd.enabled'' SUB_COMMON (TF_BOOL (in_cmd cmd_on) (on_cmd cmd_on_update)) 0 0 False \<in> set TUNABLES"
  unfolding TUNABLES_def CMD_TUNABLES_def set_append by (simp_all only: list.set insert_iff Un_iff simp_thms)

lemma needs_rx_sound:
  assumes "config_in_range c"
  shows "sound_config c (cmd_needs_rx c)"
proof -
  let ?t = "row ''cmd.enabled'' SUB_COMMON (TF_BOOL (in_cmd cmd_on) (on_cmd cmd_on_update)) 0 0 False"
  have eq: "cfg_cmd_update (cmd_on_update (\<lambda>_. False)) c = c\<lparr>cfg_cmd := (cfg_cmd c)\<lparr>cmd_on := False\<rparr>\<rparr>"
    by (rule lc_config.equality) simp_all
  have "row_value ?t ''0'' = Some (VB False)" by code_simp
  from put_in_range [OF cmd_row this assms] put_fixed [OF cmd_row, of "VB False" c]
  have "sound_config c (c\<lparr>cfg_cmd := (cfg_cmd c)\<lparr>cmd_on := False\<rparr>\<rparr>)"
    by (simp add: sound_config_def row_def on_cmd_def eq)
  then show ?thesis using assms by (simp add: cmd_needs_rx_def sound_config_def)
qed

lemma boot_inv:
  fixes L :: "'w link"
  assumes "link_boot env c lg start io = Some L" "config_in_range c"
  shows "link_inv c L"
proof -
  obtain kc where k: "csa_bring_up c = Some kc" using assms(1) by (auto simp: link_boot_def split: option.splits)
  let ?L0 = "link_init c kc lg start 0 io"
  have i0: "link_inv c ?L0"
    using needs_rx_sound [OF assms(2)] ring_wf_init
    by (simp add: link_inv_def link_init_def lk_cfg_def rung_ok_def selector_init_def pending_ok_def fec_side_init_def)
  have p: "link_inv c (snd (lk_get_radio env X))" "link_inv c (X\<lparr>lk_body := b, lk_body_valid := v\<rparr>)" "link_inv c (X\<lparr>lk_io := io\<rparr>)"
      "link_inv c (X\<lparr>lk_sel := (lk_sel X)\<lparr>sel_last_datagram_us := t\<rparr>\<rparr>)" "link_inv c (lk_observe b t X)"
      "link_inv c (X\<lparr>lk_next_log_us := t, lk_next_heartbeat_us := u, lk_next_watchdog_us := w\<rparr>)"
    if "link_inv c X" for X :: "'w link" and b v t u w io
    using that by (simp_all add: link_inv_def lk_cfg_def link_frame)
  obtain r L1 where g: "lk_get_radio env ?L0 = (r, L1)" by (metis prod.collapse)
  with p(1) [OF i0] have i1: "link_inv c L1" by simp
  define L2 where "L2 = (if mcs_on (cfg_mcs c) then (case (r, L1) of (Some b, L1) \<Rightarrow> L1\<lparr>lk_body := b, lk_body_valid := True\<rparr>
      | (None, L1) \<Rightarrow> L1) else ?L0)"
  have i2: "link_inv c L2" using i0 i1 p(2) by (simp add: L2_def split: option.split)
  define L3 where "L3 = L2\<lparr>lk_sel := (lk_sel L2)\<lparr>sel_last_datagram_us := lk_now env L2\<rparr>\<rparr>"
  define L4 where "L4 = (if lk_body_valid L3 then lk_observe (lk_body L3) (lk_now env L3) L3 else L3)"
  have i4: "link_inv c L4" using p(4,5) i2 by (simp add: L3_def L4_def)
  define L5 where "L5 = (if fec_on (cfg_fec c) \<and> fec_safe_startup_enabled (cfg_fec c) \<and> \<not> cfg_dry_run c
      then let (ok, io) = venc_apply (lp_sys env) (lk_cfg L4) (fec_safe_startup_bitrate_kbps (cfg_fec c))
             (fec_safe_startup_payload (cfg_fec c)) (lk_io L4) in L4\<lparr>lk_io := io\<rparr> else L4)"
  have "link_inv c L5" using p(3) i4 by (simp add: L5_def split: prod.split)
  moreover have "\<exists>t u w. L = L5\<lparr>lk_next_log_us := t, lk_next_heartbeat_us := u, lk_next_watchdog_us := w\<rparr>"
    using assms(1) unfolding link_boot_def k option.case Let_def g L2_def [symmetric] L3_def [symmetric] L4_def [symmetric] L5_def [unfolded Let_def, symmetric]
    by blast
  ultimately show ?thesis using p(6) by blast
qed

lemma reach_link_inv: "link_reach env c L \<Longrightarrow> config_in_range c \<Longrightarrow> link_inv c L"
  by (induction rule: link_reach.induct) (auto intro: boot_inv pass_inv)

section \<open>Properties\<close>

text \<open>C2: the whole loop keeps its state sound.  From any start with a configuration inside its table,
  after any number of passes with any datagrams, HTTP requests and answers from outside: the
  configuration is inside its table and unchanged outside it, the selector's rung is the initial -1
  or a rung of the table, a deferred drop carries exactly its target rung in the radio parameters it
  will write, and the frame window is well formed.\<close>

theorem loop_state_sound:
  assumes "link_reach env c L" "config_in_range c"
  shows "config_in_range (lk_cfg L) \<and> fixed_part (lk_cfg L) = fixed_part c
       \<and> - 1 \<le> sel_current_mcs (lk_sel L) \<and> sel_current_mcs (lk_sel L) \<le> 11
       \<and> (pd_active (lk_pending L) \<longrightarrow> 0 \<le> pd_target_mcs (lk_pending L) \<and> pd_target_mcs (lk_pending L) \<le> 11
            \<and> uint (rb_mcs_index (pd_radio (lk_pending L))) = pd_target_mcs (lk_pending L))
       \<and> ring_wf (fs_ring (lk_fs L))"
proof -
  have "uint (word_of_int t :: u8) = t" if "0 \<le> t" "t \<le> 11" for t
    using that by (simp add: uint_word_of_int)
  then show ?thesis using reach_link_inv [OF assms]
    by (auto simp: link_inv_def sound_config_def rung_ok_def pending_ok_def)
qed



text \<open>C7: backpressure keeps the FEC controller still.  A sidecar frame that arrives while the transport is
  filled beyond the limit or has dropped more packets leaves the controller, its frame window and
  the block last written alone.  The only thing it may send is one write of the safe bitrate and payload, and
  that only when the skips have lasted \<open>backpressure_recover_s\<close> and the previous such write, if any, is as long
  ago.\<close>

theorem backpressure_holds_fec:
  assumes "sidecar_parse (take 128 bs) = Some f" "sf_transport f = Some t" "sf_frame_size f = Some sz" "sz \<noteq> 0"
    and "fec_skip_on_backpressure (cfg_fec (lk_cfg L))"
    and "fec_backpressure_fill_pct (cfg_fec (lk_cfg L)) \<le> st_fill_pct t
         \<or> fs_tr_present (lk_fs L) \<and> fs_pressure_drops (lk_fs L) < st_pressure_drops t"
  shows "let L' = sidecar_datagram env bs L; c = lk_cfg L; fc = cfg_fec c; now = lk_now env L in
         lk_ctrl L' = lk_ctrl L \<and> fs_ring (lk_fs L') = fs_ring (lk_fs L) \<and> fs_kn (lk_fs L') = fs_kn (lk_fs L)
         \<and> lk_vw L' = lk_vw L \<and> fs_skipped (lk_fs L') = fs_skipped (lk_fs L) + 1
         \<and> (io_trace (lk_io L') \<noteq> io_trace (lk_io L) \<longrightarrow>
              (\<exists>path. venc_path (fec_safe_startup_bitrate_kbps fc) (fec_safe_startup_payload fc) = Some path
                 \<and> emits (lk_io L) (lk_io L') (\<lambda>e. e = EvHttp (fec_venc_host fc) (fec_venc_port fc) path))
              \<and> fs_skip_since_us (lk_fs L) \<noteq> 0
              \<and> fec_backpressure_recover_s fc \<le> s_of (now - fs_skip_since_us (lk_fs L))
              \<and> (fs_recover_us (lk_fs L) = 0 \<or> fec_backpressure_recover_s fc \<le> s_of (now - fs_recover_us (lk_fs L))))"
proof -
  let ?fs1 = "(lk_fs L)\<lparr>fs_fps := fps_feed (fs_fps (lk_fs L)) (sf_frame_ready_us f)\<rparr>"
  let ?f = "cfg_fec (lk_cfg L)"
  have delta: "0 < x - p" if "p < x" for x p :: u32 using that by (auto simp: word_gt_0)
  obtain fs2 where n: "note_transport ?f t ?fs1 = (True, fs2)"
    and fs2: "fs_ring fs2 = fs_ring (lk_fs L)" "fs_kn fs2 = fs_kn (lk_fs L)" "fs_skipped fs2 = fs_skipped (lk_fs L)"
      "fs_skip_since_us fs2 = fs_skip_since_us (lk_fs L)" "fs_recover_us fs2 = fs_recover_us (lk_fs L)"
    using assms(5,6) by (auto simp: note_transport_def Let_def delta order_less_imp_le)
  define L1 where "L1 = upd_fs (\<lambda>fs. fs\<lparr>fs_skipped := fs_skipped fs + 1\<rparr>) (L\<lparr>lk_fs := fs2\<rparr>)"
  have d: "sidecar_datagram env bs L = wedge_watchdog env L1"
    unfolding sidecar_datagram_def assms(1-3) option.case Let_def n prod.case using assms(4) by (simp add: L1_def)
  have f1: "lk_cfg L1 = lk_cfg L" "lk_io L1 = lk_io L" "lk_ctrl L1 = lk_ctrl L" "lk_vw L1 = lk_vw L" "lk_now env L1 = lk_now env L"
    "fs_ring (lk_fs L1) = fs_ring (lk_fs L)" "fs_kn (lk_fs L1) = fs_kn (lk_fs L)" "fs_skipped (lk_fs L1) = fs_skipped (lk_fs L) + 1"
    "fs_skip_since_us (lk_fs L1) = fs_skip_since_us (lk_fs L)" "fs_recover_us (lk_fs L1) = fs_recover_us (lk_fs L)"
    by (simp_all add: L1_def lk_cfg_def lk_now_def link_frame fs2)
  obtain ok io where v: "venc_apply (lp_sys env) (lk_cfg L) (fec_safe_startup_bitrate_kbps ?f) (fec_safe_startup_payload ?f) (lk_io L) = (ok, io)"
    by (metis prod.collapse)
  have z: "s_of 0 = 0" by code_simp
  have w: "\<exists>path. venc_path (fec_safe_startup_bitrate_kbps ?f) (fec_safe_startup_payload ?f) = Some path
      \<and> emits (lk_io L) io (\<lambda>e. e = EvHttp (fec_venc_host ?f) (fec_venc_port ?f) path)" if "io_trace io \<noteq> io_trace (lk_io L)"
    using that v emits_mono [OF venc_apply_emits [OF v]]
    by (cases "venc_path (fec_safe_startup_bitrate_kbps ?f) (fec_safe_startup_payload ?f)") (auto simp: venc_apply_def)
  show ?thesis
    unfolding d wedge_watchdog_def Let_def f1
    using w v z f1 assms(5) by (auto simp: link_frame)
qed



section \<open>A concrete loop\<close>

text \<open>The clock stands at ten seconds; everything outside answers at once.\<close>

definition demo_loop :: "u8 list loopenv" where
  "demo_loop = \<lparr> lp_sys = demo_env, lp_clock = (\<lambda>_. 10000000), lp_poll = (\<lambda>w. w), lp_subscribe = (\<lambda>_ w. w),
     lp_feed_open = (\<lambda>_ _ w. (True, w)), lp_feed_send = (\<lambda>_ w. w), lp_sample = (\<lambda>_. None) \<rparr>"

definition no_csa :: csa_cfg where
  "no_csa = \<lparr> ca_iface = [], ca_allow_chan = [], ca_allow_bw = [], ca_cooldown_ms = 0, ca_no_revert = False \<rparr>"

definition demo_link :: "u8 list link" where
  "demo_link = (link_init config_defaults no_csa logger_init 0 0 demo_io)
     \<lparr>lk_body := demo_body, lk_body_valid := True, lk_sel := sel_at 3 1000000\<rparr>"

definition weak_report :: string where
  "weak_report = CHR ''{'' # quoted ''type'' @ CHR '':'' # quoted ''rx_ant'' @ CHR '','' # quoted ''ver'' @ '':1,'' @
     quoted ''id'' @ CHR '':'' # quoted ''a0'' @ CHR '','' # quoted ''rssi'' @ '':{'' @ quoted ''avg'' @ '':-90},'' @
     quoted ''pkt'' @ '':{'' @ quoted ''uniq'' @ '':100}}''"

lemma weak_packets: "rx_packets weak_report = Some (100, 0, 0, 0, - 1)"
  by code_simp

lemma weak_scan: "as_saw_any (ant_loop AGG_BEST_AVG weak_report ant_scan_init)" "as_best (ant_loop AGG_BEST_AVG weak_report ant_scan_init) = - 90"
  by code_simp+

lemma demo_link_fields [simp]:
  "lk_cfg demo_link = config_defaults" "lk_now demo_loop demo_link = 10000000" "lk_body demo_link = demo_body"
  "lk_body_valid demo_link" "lk_sel demo_link = sel_at 3 1000000" "lk_scorer demo_link = scorer_reset"
  "\<not> fs_in_pressure (lk_fs demo_link)" "lk_io demo_link = demo_io"
  by (simp_all add: demo_link_def link_init_def lk_cfg_def lk_now_def demo_loop_def cmd_needs_rx_def fec_side_init_def)

lemma weak_decision:
  obtains sc score s where
    "scorer_update (lk_scorer demo_link) (cfg_mcs (lk_cfg demo_link)) weak_report 100 0 0 0 (- 1) (lk_now demo_loop demo_link) = Some (sc, score)"
    "selector_update (cfg_mcs (lk_cfg demo_link)) score (lk_probe demo_link) (fs_in_pressure (lk_fs demo_link))
       (lk_now demo_loop demo_link) (lk_sel demo_link) = (s, SD_DOWN)"
    "sel_current_mcs s = 2"
proof -
  obtain sc score where u: "scorer_update scorer_reset mcs_defaults weak_report 100 0 0 0 (- 1) 10000000 = Some (sc, score)"
    and r: "so_smoothed_rssi score = - 90"
    using weak_scan by (auto simp: scorer_update_def scorer_reset_def slope_step_def loss_step_def Let_def)
  have "fl32 (2/10) \<le> 9" "fl32 (1/5) \<le> 9" by code_simp+
  then have "can_demote mcs_defaults 10000000 (sel_at 3 1000000)"
    by (simp add: can_demote_def change_age_def sel_at_def s_of_million mcs_defaults_def)
  then have c: "can_demote mcs_defaults 10000000 (selector_guards mcs_defaults score (selector_arrival p 10000000 (sel_at 3 1000000)))" for p
    by (simp add: can_demote_def change_age_def)
  have f: "floor_hit mcs_defaults score" by (simp add: floor_hit_def r)
  let ?s = "selector_guards mcs_defaults score (selector_arrival False 10000000 (sel_at 3 1000000))"
  have cur: "sel_current_mcs ?s = 3" by (simp add: sel_at_def)
  have law: "selector_update mcs_defaults score q False 10000000 (sel_at 3 1000000) = apply_decision mcs_defaults 10000000 ?s SD_DOWN" for q
    using c f cur unfolding selector_update_def selector_law_def by (simp add: Let_def)
  then obtain s where s: "selector_update mcs_defaults score (lk_probe demo_link) False 10000000 (sel_at 3 1000000) = (s, SD_DOWN)"
    by (simp add: apply_decision_def)
  have "sel_current_mcs s = 2"
  proof -
    have "mcs_min mcs_defaults = 0" "mcs_max mcs_defaults = 5" by (simp_all add: mcs_defaults_def)
    then show ?thesis using s cur unfolding law by (auto simp: apply_decision_def clamp_def)
  qed
  with that u s show thesis by simp
qed

theorem loop_state_sound_witness:
  "\<exists>L. link_boot demo_loop config_defaults logger_init 0 demo_io = Some L
     \<and> sel_current_mcs (lk_sel (link_pass demo_loop \<lparr> li_api = [], li_stats = [], li_recovery = [],
          li_rx = [(0, [1])], li_sidecar = None \<rparr> L)) \<le> 11"
proof -
  let ?i = "\<lparr> li_api = [], li_stats = [], li_recovery = [], li_rx = [(0, [1])], li_sidecar = None \<rparr>"
  have "csa_bring_up config_defaults \<noteq> None" by (simp add: csa_bring_up_def config_defaults_def csa_sub_defaults_def)
  then obtain L where b: "link_boot demo_loop config_defaults logger_init 0 demo_io = Some L"
    by (auto simp: link_boot_def Let_def)
  from loop_state_sound [OF link_reach.pass [OF link_reach.boot [OF b], of ?i] defaults_in_range] b show ?thesis by blast
qed




definition full_frame :: "u8 list" where
  "full_frame = [0x52, 0x54, 0x50, 0x53, 1, 2, 0, 6] @ replicate 44 0 @ [0, 0, 4, 0] @ replicate 8 0 @ [95, 1, 0, 0] @ replicate 12 0"

lemma full_frame_parse:
  "\<exists>f t. sidecar_parse (take 128 full_frame) = Some f \<and> sf_transport f = Some t \<and> sf_frame_size f = Some 1024 \<and> st_fill_pct t = 95"
proof -
  have f: "take 128 full_frame = full_frame" by (simp add: full_frame_def)
  have "\<exists>f. sidecar_parse (take 128 full_frame) = Some f \<and> map_option st_fill_pct (sf_transport f) = Some 95 \<and> sf_frame_size f = Some 1024"
    unfolding f by (simp add: full_frame_def sidecar_parse_def be_at_def field_at_def byte_at_def nth_append Let_def)
  then show ?thesis by auto
qed

theorem backpressure_holds_fec_witness:
  "lk_ctrl (sidecar_datagram demo_loop full_frame demo_link) = lk_ctrl demo_link"
proof -
  obtain f t where p: "sidecar_parse (take 128 full_frame) = Some f" "sf_transport f = Some t" "sf_frame_size f = Some 1024"
    "st_fill_pct t = 95" using full_frame_parse by blast
  have "fec_skip_on_backpressure (cfg_fec config_defaults)" "fec_backpressure_fill_pct (cfg_fec config_defaults) \<le> 95"
    by (simp_all add: config_defaults_def fec_defaults_def)
  with backpressure_holds_fec [OF p(1-3), of demo_link demo_loop] p(4) show ?thesis by (simp add: Let_def)
qed

end
