(* ===== verification/EndToEnd.thy ===== *)
theory EndToEnd
  imports GroundHop LinkSafety
begin

text \<open>
  From the ground's \<open>send\<close> to the vehicle's handler: what further copies of an accepted command do to
  the vehicle, and how the vehicle's scrapers read the channel switch frame the ground formats.
\<close>

section \<open>Copies of a command\<close>

lemma duplicate_radio:
  assumes "wcmd_dup (key_ix r) (rq_seq r) t (wx_st x)" "wcmd_passes (wx_cfg x) peer (uint (rq_key r))"
    and d: "wcmd_dispatch env up t peer r x s = (rs, x', s')"
  shows "ws_radio_written (wx_st x') = ws_radio_written (wx_st x)"
proof -
  have f: "ws_radio_written (wx_st (wcmd_x1 r t x)) = ws_radio_written (wx_st x)"
    by (simp add: wcmd_x1_def wcmd_arrived_def)
  show ?thesis
  proof (cases rule: wcmd_dispatch_cases [of "uint (rq_key r)" r env up t peer x s, OF refl])
    case (1 st count)
    with assms(2) show ?thesis by (auto simp: wcmd_passes_def)
  next
    case 2
    then show ?thesis using d assms(1) f by (auto simp: wcmd_log_sync_def Let_def)
  next
    case 3
    then show ?thesis using d assms(1) f by (auto simp: wcmd_log_control_def Let_def split: prod.splits)
  next
    case 4
    then show ?thesis using d f by (auto simp: wcmd_coalesce_def Let_def)
  next
    case 5
    then show ?thesis using assms(1) by simp
  qed
qed

text \<open>Everything of the vehicle but the proxy's counters and the replies.\<close>

definition same_vehicle :: "'w link \<Rightarrow> 'w link \<Rightarrow> bool" where
  "same_vehicle L L' =
     (lk_io L' = lk_io L \<and> lk_cfg L' = lk_cfg L \<and> lk_sel L' = lk_sel L \<and> lk_body L' = lk_body L
      \<and> lk_pending L' = lk_pending L \<and> lk_radio L' = lk_radio L \<and> lk_ctrl L' = lk_ctrl L \<and> lk_vw L' = lk_vw L
      \<and> lk_fs L' = lk_fs L \<and> lk_csa L' = lk_csa L \<and> lk_recov L' = lk_recov L
      \<and> wx_sync (lk_wx L') = wx_sync (lk_wx L) \<and> wx_logger (lk_wx L') = wx_logger (lk_wx L))"

text \<open>A state in which every further copy of \<open>r\<close> is a duplicate.\<close>

definition settled :: "'w loopenv \<Rightarrow> u32 \<Rightarrow> wcmd_req \<Rightarrow> 'w link \<Rightarrow> bool" where
  "settled env peer r L =
     (wcmd_passes (lk_cfg L) peer (uint (rq_key r)) \<and> ws_radio_written (wx_st (lk_wx L)) = None
      \<and> (\<forall>w. wcmd_dup (key_ix r) (rq_seq r) (lp_clock env w) (wx_st (lk_wx L))))"

lemma settled_copy:
  assumes "settled env peer r L"
  shows "settled env peer r (rx_wcmd env peer r L) \<and> same_vehicle L (rx_wcmd env peer r L)
       \<and> (\<exists>resp. rs_status resp = WCMD_STATUS_OK \<and> lk_replies (rx_wcmd env peer r L) = lk_replies L @ [wcmd_resp_bytes resp])"
proof -
  obtain resp x io where d: "wcmd_dispatch (lp_sys env) (log_rel_s env L) (lk_now env L) peer r (lk_wx L) (lk_io L) = (resp, x, io)"
    by (metis prod_cases3)
  have dup: "wcmd_dup (key_ix r) (rq_seq r) (lk_now env L) (wx_st (lk_wx L))" and p: "wcmd_passes (wx_cfg (lk_wx L)) peer (uint (rq_key r))"
    using assms by (simp_all add: settled_def lk_now_def lk_cfg_def)
  note s = duplicate_step [OF dup p d] duplicate_radio [OF dup p d]
  have "rx_wcmd env peer r L = L\<lparr>lk_wx := x, lk_io := io, lk_replies := lk_replies L @ [wcmd_resp_bytes resp]\<rparr>"
    using s(2) assms by (simp add: rx_wcmd_def d Let_def settled_def)
  then show ?thesis using s assms
    by (auto simp: settled_def same_vehicle_def lk_cfg_def same_ctx_def wcmd_dup_def)
qed

lemma same_vehicle_trans: "same_vehicle L M \<Longrightarrow> same_vehicle M N \<Longrightarrow> same_vehicle L N"
  by (simp add: same_vehicle_def)

lemma settled_copies:
  assumes "settled env peer r L"
  shows "same_vehicle L ((rx_wcmd env peer r ^^ k) L) \<and> settled env peer r ((rx_wcmd env peer r ^^ k) L)
       \<and> length (lk_replies ((rx_wcmd env peer r ^^ k) L)) = length (lk_replies L) + k"
proof (induction k)
  case (Suc k)
  then show ?case using settled_copy [of env peer r "(rx_wcmd env peer r ^^ k) L"] same_vehicle_trans by force
qed (simp add: assms same_vehicle_def)

lemma write_through_wx [simp]:
  "lk_wx (write_through env wb L) = lk_wx L" "lk_io (write_through env wb L) = lk_io L" "lk_replies (write_through env wb L) = lk_replies L"
  by (simp_all add: write_through_def Let_def lk_observe_def split: prod.split)

lemma accepted_settled:
  assumes "wcmd_dispatch (lp_sys env) (log_rel_s env L) (lk_now env L) peer r (lk_wx L) (lk_io L) = (resp, x, io)"
    and "rs_status resp = WCMD_STATUS_OK" "\<not> wcmd_dup (key_ix r) (rq_seq r) (lk_now env L) (wx_st (lk_wx L))"
    and "lk_now env L \<noteq> 0" "length (ws_last_seq_us (wx_st (lk_wx L))) = 21" "length (ws_last_seq (wx_st (lk_wx L))) = 21"
    and "\<forall>w. lp_clock env w - lk_now env L < WCMD_BURST_DEDUP_US"
  shows "settled env peer r (rx_wcmd env peer r L)"
proof -
  have a: "stamped r (lk_now env L) (wx_st (lk_wx L)) (wx_st x)" "wcmd_passes (wx_cfg (lk_wx L)) peer (uint (rq_key r))"
    "switches_only (wx_cfg (lk_wx L)) (wx_cfg x)"
    using accepted_stamps [OF assms(1-3)] by simp_all
  have "uint (rq_key r) \<le> 20" using a(2) by (simp add: wcmd_passes_def wcmd_admitted_def WCMD_NUM_KEYS_def)
  then have "nat (uint (rq_key r)) < 21" by linarith
  then have "key_ix r < 21" by (simp only: key_ix_def nat_uint_eq)
  then have n: "ws_last_seq_us (wx_st x) ! key_ix r = lk_now env L" "ws_last_seq (wx_st x) ! key_ix r = rq_seq r"
    using a(1) assms(5,6) unfolding stamped_def by (metis nth_list_update_eq)+
  have "wcmd_dup (key_ix r) (rq_seq r) (lp_clock env w) (wx_st x)" for w
    using assms(4,7) unfolding wcmd_dup_def n by blast
  moreover have "wcmd_passes (wx_cfg x) peer (uint (rq_key r))" using switches_only_passes [OF a(3)] a(2) by simp
  ultimately show ?thesis
    by (simp add: settled_def rx_wcmd_def assms(1) Let_def lk_cfg_def wcmd_dup_def split: option.split)
qed

section \<open>The frame of a channel switch\<close>

text \<open>How \<open>find_key\<close> walks over printed fields.\<close>

lemma fk_other: "c \<noteq> k \<Longrightarrow> find_key_from p (c # s) (k # ks) = find_key_from (Some c) s (k # ks)"
  by (subst find_key_from.simps) simp

lemma fk_partial: "take (length ks) s \<noteq> ks \<Longrightarrow> find_key_from p (k # s) (k # ks) = find_key_from (Some k) s (k # ks)"
  by (subst find_key_from.simps) simp

lemma fk_block: "d \<noteq> [] \<Longrightarrow> k \<notin> set d \<Longrightarrow> find_key_from p (d @ s) (k # ks) = find_key_from (Some (last d)) s (k # ks)"
proof (induction d arbitrary: p)
  case (Cons c d)
  then show ?case by (cases "d = []") (auto simp: fk_other)
qed simp

lemma get_int_printed:
  assumes "find_key buf k = Some (show_int v @ CHR '','' # r)" "LLONG_MIN \<le> v" "v \<le> LLONG_MAX"
  shows "get_int buf k = Some v"
proof -
  have "\<not> c_isdigit CHR '',''" by code_simp
  then show ?thesis using assms
    by (simp add: get_int_def dropWhile_show_int strtoll_def strto_show_int)
qed

lemma get_str_printed:
  assumes "find_key buf k = Some (CHR 0x22 # w @ CHR 0x22 # r)" "CHR 0x22 \<notin> set w" "length w < n"
  shows "get_str buf k n = Some w"
proof -
  have "takeWhile (\<lambda>c. c \<noteq> CHR 0x22) (w @ CHR 0x22 # r) = w"
    using assms(2) by (induction w) auto
  then show ?thesis using assms by (simp add: get_str_def)
qed

lemma fk_number:
  assumes "\<not> c_isdigit k" "k \<noteq> CHR ''-''"
  shows "find_key_from p (show_int v @ s) (k # ks) = find_key_from (Some (last (show_int v))) s (k # ks)"
proof (rule fk_block)
  show "k \<notin> set (show_int v)"
    using assms show_nat_digits by (auto simp: show_int_def)
qed simp

lemma commit_fields:
  fixes sess seq :: u32 and C D R P :: int
  assumes "ht_valid tht" "ht_valid pht"
  defines "b \<equiv> csa_commit_text sess seq C tht D R P pht"
  shows "\<exists>r. find_key b ''type'' = Some (CHR 0x22 # ''csa_commit'' @ CHR 0x22 # r)"
    "\<exists>r. find_key b ''sess'' = Some (show_int (uint sess) @ CHR '','' # r)"
    "\<exists>r. find_key b ''dt_to_switch_ms'' = Some (show_int D @ CHR '','' # r)"
    "\<exists>r. find_key b ''t_revert_ms'' = Some (show_int R @ CHR '','' # r)"
    "\<exists>r. find_key b ''target_chan'' = Some (show_int C @ CHR '','' # r)"
    "\<exists>r. find_key b ''prev_chan'' = Some (show_int P @ CHR '','' # r)"
    "\<exists>r. find_key b ''target_ht'' = Some (CHR 0x22 # tht @ CHR 0x22 # r)"
    "\<exists>r. find_key b ''prev_ht'' = Some (CHR 0x22 # pht @ CHR 0x22 # r)"
proof -
  have h: "find_key_from p (tht @ s) (k # ks) = find_key_from (Some (last tht)) s (k # ks)"
    "find_key_from p (pht @ s) (k # ks) = find_key_from (Some (last pht)) s (k # ks)" if "k \<in> set ''tsdp''" for p s k ks
    using assms(1,2) that by (auto simp: ht_valid_def intro!: fk_block)
  have n: "find_key_from p (show_int v @ s) (k # ks) = find_key_from (Some (last (show_int v))) s (k # ks)"
    if "k \<in> set ''tsdp''" for p v s k ks
    using that by (intro fk_number) (auto simp: c_isdigit_def)
  note walk = find_key_def b_def csa_commit_text_def quoted_def fk_other fk_partial h n
  show "\<exists>r. find_key b ''type'' = Some (CHR 0x22 # ''csa_commit'' @ CHR 0x22 # r)"
    by (simp add: walk, subst find_key_from.simps, simp)
  show "\<exists>r. find_key b ''sess'' = Some (show_int (uint sess) @ CHR '','' # r)"
    by (simp add: walk, subst find_key_from.simps, simp)
  show "\<exists>r. find_key b ''dt_to_switch_ms'' = Some (show_int D @ CHR '','' # r)"
    by (simp add: walk, subst find_key_from.simps, simp)
  show "\<exists>r. find_key b ''t_revert_ms'' = Some (show_int R @ CHR '','' # r)"
    by (simp add: walk, subst find_key_from.simps, simp)
  show "\<exists>r. find_key b ''target_chan'' = Some (show_int C @ CHR '','' # r)"
    by (simp add: walk, subst find_key_from.simps, simp)
  show "\<exists>r. find_key b ''prev_chan'' = Some (show_int P @ CHR '','' # r)"
    by (simp add: walk, subst find_key_from.simps, simp)
  show "\<exists>r. find_key b ''target_ht'' = Some (CHR 0x22 # tht @ CHR 0x22 # r)"
    by (simp add: walk, subst find_key_from.simps, simp)
  show "\<exists>r. find_key b ''prev_ht'' = Some (CHR 0x22 # pht @ CHR 0x22 # r)"
    by (simp add: walk, subst find_key_from.simps, simp)
qed

text \<open>The vehicle reads from the ground's frame what the ground wrote.\<close>

definition i32 :: "int \<Rightarrow> bool" where
  "i32 v = (- (2 ^ 31) \<le> v \<and> v < 2 ^ 31)"

lemma commit_read:
  fixes sess seq :: u32 and C D R P :: int
  assumes "ht_valid tht" "ht_valid pht" "i32 C" "i32 D" "i32 R" "i32 P"
  defines "b \<equiv> csa_commit_text sess seq C tht D R P pht"
  shows "get_str b ''type'' 32 = Some ''csa_commit''" "get_int b ''sess'' = Some (uint sess)"
    "get_int b ''dt_to_switch_ms'' = Some D" "get_int b ''t_revert_ms'' = Some R" "get_int b ''target_chan'' = Some C"
    "get_int b ''prev_chan'' = Some P" "ht_or b ''target_ht'' = tht" "ht_or b ''prev_ht'' = pht"
proof -
  note f = commit_fields [OF assms(1,2), of sess seq C D R P, folded b_def]
  have r: "LLONG_MIN \<le> v \<and> v \<le> LLONG_MAX" if "i32 v" for v
    using that by (auto simp: i32_def LLONG_MIN_def LLONG_MAX_def)
  have s: "LLONG_MIN \<le> uint sess \<and> uint sess \<le> LLONG_MAX"
  proof -
    have "uint sess < 4294967296" using uint_lt2p [of sess] by simp
    moreover have "0 \<le> uint sess" by simp
    ultimately show ?thesis unfolding LLONG_MIN_def LLONG_MAX_def by linarith
  qed
  show "get_str b ''type'' 32 = Some ''csa_commit''" using f(1) by (auto intro: get_str_printed)
  show "get_int b ''sess'' = Some (uint sess)" using f(2) s by (auto intro: get_int_printed)
  show "get_int b ''dt_to_switch_ms'' = Some D" using f(3) r assms(4) by (auto intro: get_int_printed)
  show "get_int b ''t_revert_ms'' = Some R" using f(4) r assms(5) by (auto intro: get_int_printed)
  show "get_int b ''target_chan'' = Some C" using f(5) r assms(3) by (auto intro: get_int_printed)
  show "get_int b ''prev_chan'' = Some P" using f(6) r assms(6) by (auto intro: get_int_printed)
  have ht: "CHR 0x22 \<notin> set h" "length h < CSA_HT_LEN" if "ht_valid h" for h
    using that by (auto simp: ht_valid_def CSA_HT_LEN_def)
  show "ht_or b ''target_ht'' = tht" using f(7) ht [OF assms(1)] by (auto simp: ht_or_def dest!: get_str_printed)
  show "ht_or b ''prev_ht'' = pht" using f(8) ht [OF assms(2)] by (auto simp: ht_or_def dest!: get_str_printed)
qed

lemma commit_armed:
  assumes "ht_valid tht" "ht_valid pht" "i32 C" "i32 D" "i32 R" "i32 P" "1 \<le> C" "C \<le> 200"
    and "chan_ok cfg C" "bw_ok cfg tht" "cs_st v = CSA_ST_IDLE" "\<not> in_cooldown cfg t v"
  shows "csa_feed cfg (csa_commit_text sess sq C tht D R P pht) t v
       = (True, v\<lparr>cs_st := CSA_ST_ARMED, cs_sess := uint sess, cs_t_switch_ms := t + D, cs_t_revert_ms := R,
                  cs_target_chan := C, cs_prev_chan := P, cs_target_ht := tht, cs_prev_ht := pht\<rparr>)"
proof -
  note rd = commit_read [OF assms(1-6), of sess sq]
  have c: "to_i32 C = C" "to_i32 P = P" using assms(3,6) by (simp_all add: to_i32_id i32_def)
  have "on_commit cfg (csa_commit_text sess sq C tht D R P pht) t v = csa_arm (uint sess) (t + D) R C P tht pht v"
    using assms(7-12) by (simp add: on_commit_def rd int_or_def c Let_def)
  then show ?thesis by (simp add: csa_feed_def rd csa_arm_def c)
qed

section \<open>The frame as a datagram\<close>

lemma unat_of_char: "unat (of_char c :: u8) = of_char c"
proof -
  have "unat (of_char c :: u8) = unat (of_nat (of_char c) :: u8)" by (simp only: of_nat_of_char)
  also have "\<dots> = of_char c" by (subst unat_of_nat) simp
  finally show ?thesis .
qed

lemma text_of_bytes:
  assumes "CHR 0x00 \<notin> set s"
  shows "text_of (to_bytes s) = s"
proof -
  have z: "(of_char c :: u8) \<noteq> 0" if "c \<in> set s" for c
  proof
    assume "(of_char c :: u8) = 0"
    then have "(of_char c :: nat) = 0" using unat_of_char [of c] by simp
    then have "c = char_of (0 :: nat)" by (metis char_of_char)
    also have "\<dots> = CHR 0x00" by code_simp
    finally have "c = CHR 0x00" .
    then show False using that assms by simp
  qed
  then have t: "takeWhile (\<lambda>b. b \<noteq> 0) (to_bytes s) = to_bytes s"
    by (auto simp: to_bytes_def takeWhile_eq_all_conv)
  show ?thesis unfolding text_of_def t by (simp add: to_bytes_def o_def unat_of_char map_idI)
qed

lemma commit_text_chars:
  assumes "ht_valid tht" "ht_valid pht"
  shows "CHR 0x00 \<notin> set (csa_commit_text sess sq C tht D R P pht)"
proof -
  have "\<not> c_isdigit CHR 0x00" by code_simp
  then have "CHR 0x00 \<notin> set (show_int v)" for v
    using show_nat_digits [of "nat v"] show_nat_digits [of "nat (- v)"] by (auto simp: show_int_def)
  then show ?thesis using assms by (auto simp: csa_commit_text_def quoted_def ht_valid_def)
qed

lemma commit_text_no_command:
  "wcmd_req_parse (to_bytes (csa_commit_text sess sq C tht D R P pht)) = None"
proof -
  obtain r where "csa_commit_text sess sq C tht D R P pht = CHR ''{'' # CHR 0x22 # CHR ''t'' # CHR ''y'' # r"
    by (simp add: csa_commit_text_def quoted_def)
  then show ?thesis
    by (simp add: wcmd_req_parse_def to_bytes_def be_at_def field_at_def proto_consts)
qed

lemma i32_to_i32: "i32 (to_i32 v)"
  using sint_ge [of "word_of_int v :: 32 word"] sint_lt [of "word_of_int v :: 32 word"]
  by (simp add: i32_def to_i32_def)

lemma i32_or_int: "i32 d \<Longrightarrow> i32 (or_int d qs key)"
  by (auto simp: or_int_def qs_get_int_def i32_to_i32 split: option.split if_splits)

text \<open>What arming a hop leaves in the ground's state.\<close>

lemma csa_armed_ground:
  assumes "gs_api_csa env c qs s = (200, s1)" "h = gs_csa_st s1"
  shows "1 \<le> gc_target_chan h" "gc_target_chan h \<le> 200" "ht_valid (gc_target_ht h)" "i32 (gc_prev_chan h)"
    "500 \<le> gs_csa_revert_ms h" "gs_csa_revert_ms h \<le> 30000" "gc_phase h = CSA_BURST"
proof -
  let ?chan = "or_int (- 1) qs ''chan''"
  have free: "gc_phase (gs_csa_st s) = CSA_IDLE" "gn_phase (gs_scan_st s) \<noteq> SCAN_RUNNING"
    using assms(1) by (auto simp: gs_api_csa_def split: if_splits)
  have chan: "1 \<le> ?chan" "?chan \<le> 200" "qs_get_int qs ''chan'' \<noteq> None"
    using assms(1) free unfolding gs_api_csa_def by (auto simp: Let_def not_less split: if_splits)
  obtain istr htstr where q: "qs_find qs ''iface'' = Some istr" "qs_find qs ''ht'' = Some htstr"
    using assms(1) free chan unfolding gs_api_csa_def by (auto simp: Let_def split: option.splits)
  have ne: "\<not> (istr = [] \<or> htstr = [] \<or> 8 \<le> length htstr)"
    using assms(1) free chan q unfolding gs_api_csa_def by (auto simp: Let_def)
  obtain ifs where i: "gs_ifaces_arg c istr = Inr ifs"
    using assms(1) free chan q ne unfolding gs_api_csa_def gs_ifaces_arg_def by (auto simp: Let_def split: option.splits if_splits)
  have ht: "ht_valid (ht_arg htstr)" and port: "gs_tx_port c (gc_cmd_uplink c) \<noteq> None"
    using assms(1) free chan q ne i unfolding gs_api_csa_def by (auto simp: Let_def split: if_splits)
  obtain t s0 where t: "gs_now_us env s = (t, s0)" by (metis prod.collapse)
  define rev where "rev = or_int 3000 qs ''t_revert_ms''"
  define T where "T = t + word_of_int (clamp 100 5000 (or_int 500 qs ''lead_ms'')) * 1000"
  have h: "gc_phase h = CSA_BURST" "gc_target_chan h = ?chan" "gc_target_ht h = ht_arg htstr"
    "gc_prev_chan h = or_int ?chan qs ''prev_chan''" "gc_t_switch_us h = T" "gc_t_revert_us h = T + word_of_int (clamp 500 30000 rev) * 1000"
    using assms(1) free chan q ne i ht port t unfolding assms(2) gs_api_csa_def rev_def T_def by (auto simp: Let_def)
  have "gs_csa_revert_ms h = clamp 500 30000 rev"
  proof -
    define r where "r = clamp 500 30000 rev"
    have r: "500 \<le> r" "r \<le> 30000" by (auto simp: r_def clamp_def Let_def)
    have "uint (word_of_int r * 1000 :: u64) = r * 1000"
      using r by (simp add: uint_word_ariths uint_word_of_int)
    then have "uint ((word_of_int r * 1000 :: u64) div 1000) = r" by (simp add: uint_div)
    then show ?thesis using r unfolding r_def [symmetric] by (simp add: gs_csa_revert_ms_def h(5,6) r_def [symmetric] to_i32_id)
  qed
  moreover have "i32 (or_int ?chan qs ''prev_chan'')"
    by (intro i32_or_int) (simp add: i32_def)
  ultimately show "1 \<le> gc_target_chan h" "gc_target_chan h \<le> 200" "ht_valid (gc_target_ht h)" "i32 (gc_prev_chan h)"
    "500 \<le> gs_csa_revert_ms h" "gs_csa_revert_ms h \<le> 30000" "gc_phase h = CSA_BURST"
    using h chan ht by (auto simp: clamp_def Let_def)
qed

end
