(* ===== verification/GroundStats.thy ===== *)
theory GroundStats
  imports GroundTunnel CFloat
begin

text \<open>
  The statistics sockets of the ground supervisor (\<open>ground/gs_supervisor.c\<close>): the scrapers of its JSON text, the
  forwarding of raw reports, the per-tunnel counters, and the boundary-probe producer, which counts per received MCS over
  a window and emits one \<open>probe\<close> record per MCS.

  \<open>sn_recv\<close> is one \<open>recv\<close> on a tunnel's statistics socket, \<open>sn_realtime_ms\<close> the wall clock; datagrams the
  supervisor sends are kept with their destination in \<open>so_sent\<close>.
\<close>

section \<open>Scraping JSON\<close>

text \<open>A datagram may hold NUL characters: \<open>strstr\<close> and \<open>strcmp\<close> stop there, the scrapers below do not.\<close>

definition c_str :: "string \<Rightarrow> string" where
  "c_str s = takeWhile (\<lambda>c. c \<noteq> CHR 0x00) s"

text \<open>
  The four scrapers walk the text for a quoted key with at least \<open>m\<close> characters left after it, skip blanks and colons,
  and look at the value: \<open>None\<close> goes on with the next position, \<open>Some\<close> returns, failing or with a value.
\<close>

fun json_scan :: "nat \<Rightarrow> string \<Rightarrow> (string \<Rightarrow> 'a option option) \<Rightarrow> string \<Rightarrow> 'a option" where
  "json_scan m key f [] = None"
| "json_scan m key f (c # cs) =
     (if length key + m < length (c # cs) \<and> c = CHR 0x22 \<and> take (length key) cs = key \<and> cs ! length key = CHR 0x22
      then (case f (dropWhile (\<lambda>c. c = CHR 0x20 \<or> c = CHR '':'') (drop (length key + 1) cs)) of
              None \<Rightarrow> json_scan m key f cs
            | Some r \<Rightarrow> r)
      else json_scan m key f cs)"

definition u32_value :: "string \<Rightarrow> u32 option option" where
  "u32_value r =
     (let ds = takeWhile c_isdigit r in
      if r = [] then None
      else if hd r = CHR ''-'' then Some None
      else if ds = [] then None
      else if digits_val ds > 0xFFFFFFFF then Some None
      else Some (Some (word_of_nat (digits_val ds))))"

text \<open>Truncated to 32 bits, the 64-bit accumulator of the code and the unbounded one agree.\<close>

definition i32_value :: "string \<Rightarrow> int option option" where
  "i32_value r =
     (let neg = (r \<noteq> [] \<and> hd r = CHR ''-''); ds = takeWhile c_isdigit (if neg then tl r else r) in
      if ds = [] then None
      else Some (Some (to_i32 (if neg then - int (digits_val ds) else int (digits_val ds)))))"

definition str_value :: "nat \<Rightarrow> string \<Rightarrow> string option option" where
  "str_value n r =
     (if r = [] \<or> hd r \<noteq> CHR 0x22 then None
      else Some (Some (c_str (take (n - 1) (takeWhile (\<lambda>c. c \<noteq> CHR 0x22) (tl r))))))"

text \<open>Brackets of the opening kind only; those inside strings count too.\<close>

fun balanced :: "char \<Rightarrow> char \<Rightarrow> int \<Rightarrow> string \<Rightarrow> string option" where
  "balanced o' c d [] = None"
| "balanced o' c d (x # xs) =
     (let d' = (if x = o' then d + 1 else if x = c then d - 1 else d)
      in if d' = 0 then Some [x] else map_option ((#) x) (balanced o' c d' xs))"

definition block_value :: "string \<Rightarrow> string option option" where
  "block_value r =
     (if r = [] then None
      else if hd r = CHR ''{'' then Some (balanced (CHR ''{'') (CHR ''}'') 0 r)
      else if hd r = CHR ''['' then Some (balanced (CHR ''['') (CHR '']'') 0 r)
      else Some None)"

definition json_pick_u32 :: "string \<Rightarrow> string \<Rightarrow> u32 option" where
  "json_pick_u32 js key = json_scan 2 key u32_value js"

definition json_pick_i32 :: "string \<Rightarrow> string \<Rightarrow> int option" where
  "json_pick_i32 js key = json_scan 2 key i32_value js"

definition json_pick_str :: "string \<Rightarrow> string \<Rightarrow> nat \<Rightarrow> string option" where
  "json_pick_str js key n = (if n = 0 then None else json_scan 2 key (str_value n) js)"

definition json_slice_object :: "string \<Rightarrow> string \<Rightarrow> string option" where
  "json_slice_object js key = json_scan 3 key block_value js"

text \<open>\<open>if (json_pick_...(..., &v) == 0) field = v\<close>\<close>

definition keep_or :: "'a \<Rightarrow> 'a option \<Rightarrow> 'a" where
  "keep_or old v = (case v of None \<Rightarrow> old | Some x \<Rightarrow> x)"

section \<open>Outside\<close>

datatype recv_result = RecvAgain | RecvIntr | RecvError | RecvData string

record 'w st_env =
  sn_gs :: "'w gs_env"
  sn_recv :: "'w \<Rightarrow> recv_result \<times> 'w"
  sn_realtime_ms :: "'w \<Rightarrow> u64"

record 'w stats_io =
  so_gs :: "'w gs"
  so_sent :: "((string \<times> int) \<times> string) list"

definition so_now_us :: "'w st_env \<Rightarrow> 'w stats_io \<Rightarrow> u64 \<times> 'w stats_io" where
  "so_now_us env io = (let (t, g) = gs_now_us (sn_gs env) (so_gs io) in (t, io\<lparr>so_gs := g\<rparr>))"

definition so_send :: "(string \<times> int) option \<Rightarrow> string \<Rightarrow> 'w stats_io \<Rightarrow> 'w stats_io" where
  "so_send dst msg io = (case dst of None \<Rightarrow> io | Some a \<Rightarrow> io\<lparr>so_sent := so_sent io @ [(a, msg)]\<rparr>)"

section \<open>The probe producer\<close>

text \<open>\<open>%.<d>f\<close> of a non-negative double: the exact value, rounded to even.\<close>

definition show_fixed :: "nat \<Rightarrow> rat \<Rightarrow> string" where
  "show_fixed d x =
     (let v = nat (rne (x * 10 ^ d)); frac = show_nat (v mod 10 ^ d)
      in show_nat (v div 10 ^ d) @ CHR ''.'' # replicate (d - length frac) (CHR ''0'') @ frac)"

definition jfield :: "string \<times> string \<Rightarrow> string" where
  "jfield kv = CHR '','' # quoted (fst kv) @ CHR '':'' # snd kv"

definition probe_text :: "u64 \<Rightarrow> int \<Rightarrow> nat \<Rightarrow> u32 \<Rightarrow> u32 \<Rightarrow> int \<Rightarrow> rat \<Rightarrow> string" where
  "probe_text ts port m u l rssi win_s =
     CHR ''{'' # quoted ''type'' @ CHR '':'' # quoted ''probe''
     @ concat (map jfield [
         (''ts_ms'', show_nat (unat ts)), (''radio_port'', show_int port), (''mcs'', show_nat m),
         (''per'', show_fixed 4 (fl64 (of_nat (unat l) / of_nat (unat (u + l))))), (''recv'', show_nat (unat u)),
         (''lost'', show_nat (unat l)), (''accounted'', show_nat (unat (u + l))),
         (''rssi'', if rssi = INT_MIN then ''null'' else show_int rssi), (''window_s'', show_fixed 3 win_s)])
     @ [CHR ''}'', CHR 0x0A]"

definition probe_buckets_reset :: "u64 \<Rightarrow> probe_acc \<Rightarrow> probe_acc" where
  "probe_buckets_reset now a = a\<lparr>pa_buckets := replicate 16 (0, 0, INT_MIN), pa_start_us := now\<rparr>"

text \<open>The records of one flush, in MCS order: none for a rung whose 32-bit total is 0.\<close>

definition window_s :: "u64 \<Rightarrow> probe_acc \<Rightarrow> rat" where
  "window_s now a = fl64 (fl64 (of_nat (unat (now - pa_start_us a))) / 1000000)"

definition flush_records :: "u64 \<Rightarrow> int \<Rightarrow> rat \<Rightarrow> probe_acc \<Rightarrow> string list" where
  "flush_records ts port win_s a =
     concat (map (\<lambda>m. let (u, l, r) = pa_buckets a ! m in if u + l = 0 then [] else [probe_text ts port m u l r win_s]) [0..<16])"

definition send_records :: "(string \<times> int) option \<Rightarrow> string list \<Rightarrow> 'w stats_io \<Rightarrow> 'w stats_io" where
  "send_records dst rs io = fold (\<lambda>r io. if 0 < length r \<and> length r < 256 then so_send dst r io else io) rs io"

definition probe_window_flush :: "'w st_env \<Rightarrow> u64 \<Rightarrow> tunnel \<Rightarrow> 'w stats_io \<Rightarrow> tunnel \<times> 'w stats_io" where
  "probe_window_flush env now t io =
     (let a = tn_acc t; rs = flush_records (sn_realtime_ms env (gs_world (so_gs io))) (tn_radio_port t) (window_s now a) a
      in (t\<lparr>tn_acc := probe_buckets_reset now (a\<lparr>pa_emits := pa_emits a + of_nat (length rs)\<rparr>)\<rparr>,
          send_records (tl_fwd (tn_listen t)) rs io))"

definition probe_window_us :: "tunnel \<Rightarrow> u64" where
  "probe_window_us t = word_of_int (tn_probe_window_ms t) * 1000"

text \<open>The first report opens the window; one that comes after four windows finds it stale.\<close>

definition probe_open :: "u64 \<Rightarrow> tunnel \<Rightarrow> probe_acc \<Rightarrow> probe_acc" where
  "probe_open now t a =
     (let a1 = (if pa_start_us a = 0 then probe_buckets_reset now a else a)
      in if now - pa_start_us a1 > 4 * probe_window_us t
         then (probe_buckets_reset now a1)\<lparr>pa_drops := pa_drops a1 + 1\<rparr> else a1)"

definition probe_count :: "u32 \<Rightarrow> u32 \<Rightarrow> int \<Rightarrow> int \<Rightarrow> probe_acc \<Rightarrow> probe_acc" where
  "probe_count uniq lost mcs rssi a =
     (if 0 \<le> mcs \<and> mcs < 16
      then let (u, l, r) = pa_buckets a ! nat mcs
           in a\<lparr>pa_buckets := (pa_buckets a)[nat mcs := (u + uniq, l + lost,
                if rssi \<noteq> INT_MIN \<and> (r = INT_MIN \<or> rssi > r) then rssi else r)]\<rparr>
      else a)"

definition probe_accumulate :: "'w st_env \<Rightarrow> u32 \<Rightarrow> u32 \<Rightarrow> int \<Rightarrow> int \<Rightarrow> u64 \<Rightarrow> tunnel \<Rightarrow> 'w stats_io \<Rightarrow> tunnel \<times> 'w stats_io" where
  "probe_accumulate env uniq lost mcs rssi now t io =
     (let a = probe_count uniq lost mcs rssi (probe_open now t (tn_acc t)); t1 = t\<lparr>tn_acc := a\<rparr>
      in if now - pa_start_us a \<ge> probe_window_us t then probe_window_flush env now t1 io else (t1, io))"

section \<open>Antennas\<close>

text \<open>The objects of the \<open>ant\<close> array: from the last brace that opened at depth 0 to the one that closes it.\<close>

fun ant_objects :: "int \<Rightarrow> string \<Rightarrow> string \<Rightarrow> string list" where
  "ant_objects d acc [] = []"
| "ant_objects d acc (c # cs) =
     (let acc' = (if c = CHR ''{'' \<and> d = 0 then [c] else c # acc) in
      if c = CHR ''{'' then ant_objects (d + 1) acc' cs
      else if c = CHR ''}'' then (if d - 1 = 0 then [rev acc'] else []) @ ant_objects (d - 1) acc' cs
      else ant_objects d acc' cs)"

record ant_sum =
  an_count :: int
  an_ids :: "string list"
  an_best_rssi :: int
  an_mcs :: int
  an_hist :: "u32 list"

definition ant_init :: ant_sum where
  "ant_init = \<lparr> an_count = 0, an_ids = [], an_best_rssi = INT_MIN, an_mcs = - 1, an_hist = replicate 16 0 \<rparr>"

definition ant_rssi :: "string \<Rightarrow> ant_sum \<Rightarrow> ant_sum" where
  "ant_rssi obj a =
     (case json_slice_object obj ''rssi'' of
        None \<Rightarrow> a
      | Some blk \<Rightarrow>
          (case json_pick_i32 blk ''avg'' of
             None \<Rightarrow> a
           | Some avg \<Rightarrow> if avg > an_best_rssi a then a\<lparr>an_best_rssi := avg\<rparr> else a))"

definition ant_mcs :: "string \<Rightarrow> ant_sum \<Rightarrow> ant_sum" where
  "ant_mcs obj a =
     (case json_pick_i32 obj ''mcs'' of
        None \<Rightarrow> a
      | Some am \<Rightarrow>
          (let a1 = a\<lparr>an_mcs := am\<rparr> in
           if 0 \<le> am \<and> am < 16
           then (case json_pick_i32 obj ''pkts'' of
                   None \<Rightarrow> a1
                 | Some ap \<Rightarrow>
                     if ap > 0 then a1\<lparr>an_hist := (an_hist a1)[nat am := an_hist a1 ! nat am + word_of_int ap]\<rparr> else a1)
           else a1))"

definition ant_id :: "string \<Rightarrow> ant_sum \<Rightarrow> ant_sum" where
  "ant_id obj a =
     (case json_pick_str obj ''id'' 24 of
        None \<Rightarrow> a
      | Some i \<Rightarrow> if i \<notin> set (an_ids a) \<and> length (an_ids a) < 16 then a\<lparr>an_ids := an_ids a @ [i]\<rparr> else a)"

definition ant_object :: "string \<Rightarrow> ant_sum \<Rightarrow> ant_sum" where
  "ant_object obj a = (let a1 = ant_mcs obj (ant_rssi obj a) in ant_id obj (a1\<lparr>an_count := an_count a1 + 1\<rparr>))"

definition ant_walk :: "string \<Rightarrow> ant_sum" where
  "ant_walk js =
     (case json_slice_object js ''ant'' of
        None \<Rightarrow> ant_init
      | Some ant \<Rightarrow> if length ant \<ge> 2 then fold ant_object (ant_objects 0 [] ant) ant_init else ant_init)"

section \<open>One datagram\<close>

definition set_stats :: "(tun_stats \<Rightarrow> tun_stats) \<Rightarrow> tunnel \<Rightarrow> tunnel" where
  "set_stats f t = t\<lparr>tn_stats := f (tn_stats t)\<rparr>"

text \<open>A fresh packet during a dwell, past its first 200 ms, tells the scanner it found the vehicle; the clock is only
  read when it matters.\<close>

definition note_uniq :: "'w st_env \<Rightarrow> u32 \<Rightarrow> tunnel \<Rightarrow> 'w stats_io \<Rightarrow> 'w stats_io" where
  "note_uniq env u t io =
     (if u > 0 \<and> gn_phase (gs_scan_st (so_gs io)) = SCAN_RUNNING \<and> gt_role t = ''rx''
      then let (now, io1) = so_now_us env io in io1\<lparr>so_gs := scan_sample u (gt_role t) now (so_gs io1)\<rparr>
      else io)"

definition pkt_counters :: "string \<Rightarrow> tunnel \<Rightarrow> tunnel" where
  "pkt_counters blk t =
     (set_stats (\<lambda>s. s\<lparr>ts_lost := keep_or (ts_lost s) (json_pick_u32 blk ''lost''),
        ts_fec := keep_or (ts_fec s) (json_pick_u32 blk ''fec_recovered''),
        ts_outgoing := keep_or (ts_outgoing s) (json_pick_u32 blk ''outgoing''),
        ts_dec_err := keep_or (ts_dec_err s) (json_pick_u32 blk ''dec_err''),
        ts_bytes := keep_or (ts_bytes s) (json_pick_u32 blk ''outgoing_bytes''),
        ts_uniq := keep_or (ts_uniq s) (json_pick_u32 blk ''uniq'')\<rparr>) t)
     \<lparr>gt_pkt_all := keep_or (gt_pkt_all t) (json_pick_u32 blk ''all'')\<rparr>"

text \<open>The histogram goes to the slot of the current second, which is cleared when the second is new.\<close>

definition fold_window :: "u64 \<Rightarrow> u32 list \<Rightarrow> tun_stats \<Rightarrow> tun_stats" where
  "fold_window now hist s =
     (let sec = now div 1000000; k = unat (sec mod 10);
          row = (if ts_mcs_win_sec s ! k \<noteq> sec then replicate 16 0 else ts_mcs_win s ! k)
      in s\<lparr>ts_mcs_win := (ts_mcs_win s)[k := map2 (+) row hist], ts_mcs_win_sec := (ts_mcs_win_sec s)[k := sec]\<rparr>)"

definition rx_ant_stats :: "'w st_env \<Rightarrow> string \<Rightarrow> tunnel \<Rightarrow> 'w stats_io \<Rightarrow> tunnel \<times> 'w stats_io" where
  "rx_ant_stats env js t io =
     (let blk = json_slice_object js ''pkt'';
          uniq = (case blk of None \<Rightarrow> None | Some b \<Rightarrow> json_pick_u32 b ''uniq'');
          lost = (case blk of None \<Rightarrow> None | Some b \<Rightarrow> json_pick_u32 b ''lost'');
          t1 = (case blk of None \<Rightarrow> t | Some b \<Rightarrow> pkt_counters b t);
          io1 = (case uniq of None \<Rightarrow> io | Some u \<Rightarrow> note_uniq env u t io);
          a = ant_walk js;
          (now, io2) = so_now_us env io1;
          t2 = set_stats (\<lambda>s. fold_window now (an_hist a)
                 (s\<lparr>ts_ant_count := (if an_ids a \<noteq> [] then int (length (an_ids a)) else an_count a),
                    ts_rssi_best := (if an_best_rssi a \<noteq> INT_MIN then an_best_rssi a else ts_rssi_best s)\<rparr>)) t1
      in if tn_probe t
         then let (now2, io3) = so_now_us env io2
              in probe_accumulate env (keep_or 0 uniq) (keep_or 0 lost) (an_mcs a) (an_best_rssi a) now2 t2 io3
         else (t2, io2))"

definition tx_keys :: "string list" where
  "tx_keys = [''pkts_in'', ''pkts_out'', ''bytes_in'', ''bytes_out'', ''pkts_drop'', ''pkts_trunc'', ''fec_timeouts'']"

definition tx_counters :: "string \<Rightarrow> tunnel \<Rightarrow> tunnel" where
  "tx_counters b t =
     (let r = tn_radio t; k = json_pick_i32 b ''fec_k''; n = json_pick_i32 b ''fec_n''
      in (set_stats (\<lambda>s. s\<lparr>ts_tx := map2 (\<lambda>old key. keep_or old (json_pick_u32 b key)) (ts_tx s) tx_keys\<rparr>) t)
         \<lparr>tn_radio := r\<lparr>tr_fec_k := keep_or (tr_fec_k r) k, tr_fec_n := keep_or (tr_fec_n r) n,
            tr_fec_have := (tr_fec_have r \<or> k \<noteq> None \<or> n \<noteq> None)\<rparr>\<rparr>)"

definition radio_from_stats :: "string \<Rightarrow> u64 \<Rightarrow> tun_radio \<Rightarrow> tun_radio" where
  "radio_from_stats b now r =
     r\<lparr>tr_mcs := keep_or (tr_mcs r) (json_pick_i32 b ''mcs''), tr_bandwidth := keep_or (tr_bandwidth r) (json_pick_i32 b ''bw''),
       tr_short_gi := keep_or (tr_short_gi r) (json_pick_i32 b ''short_gi''), tr_stbc := keep_or (tr_stbc r) (json_pick_i32 b ''stbc''),
       tr_ldpc := keep_or (tr_ldpc r) (json_pick_i32 b ''ldpc''), tr_vht_mode := keep_or (tr_vht_mode r) (json_pick_i32 b ''vht_mode''),
       tr_vht_nss := keep_or (tr_vht_nss r) (json_pick_i32 b ''vht_nss''), tr_radio_have := True, tr_radio_us := now\<rparr>"

definition tx_stats_stats :: "'w st_env \<Rightarrow> string \<Rightarrow> tunnel \<Rightarrow> 'w stats_io \<Rightarrow> tunnel \<times> 'w stats_io" where
  "tx_stats_stats env js t io =
     (let t1 = (case json_slice_object js ''tx'' of None \<Rightarrow> t | Some b \<Rightarrow> tx_counters b t)
      in case json_slice_object js ''radio'' of
           None \<Rightarrow> (t1, io)
         | Some b \<Rightarrow> (let (now, io1) = so_now_us env io in (t1\<lparr>tn_radio := radio_from_stats b now (tn_radio t1)\<rparr>, io1)))"

definition js_type :: "string \<Rightarrow> string \<Rightarrow> bool" where
  "js_type ty js = has_sub (c_str js) (quoted ''type'' @ CHR '':'' # quoted ty)"

text \<open>The raw copies leave first; a probe tunnel sends none.\<close>

definition forward_raw :: "string \<Rightarrow> tunnel \<Rightarrow> 'w stats_io \<Rightarrow> 'w stats_io" where
  "forward_raw js t io =
     (if tn_probe t then io else so_send (tl_tap (tn_listen t)) js (so_send (tl_fwd (tn_listen t)) js io))"

definition count_msg :: "u64 \<Rightarrow> tun_stats \<Rightarrow> tun_stats" where
  "count_msg now s = s\<lparr>ts_first_us := (if ts_msgs s = 0 then now else ts_first_us s), ts_last_us := now, ts_msgs := ts_msgs s + 1\<rparr>"

definition stats_one :: "'w st_env \<Rightarrow> string \<Rightarrow> tunnel \<Rightarrow> 'w stats_io \<Rightarrow> tunnel \<times> 'w stats_io" where
  "stats_one env js t io =
     (let io1 = forward_raw js t io;
          t1 = set_stats (\<lambda>s. s\<lparr>ts_interval_ms := keep_or (ts_interval_ms s) (json_pick_u32 js ''interval_ms'')\<rparr>) t
      in if \<not> js_type ''rx_ant'' js \<and> \<not> js_type ''tx_stats'' js then (t1, io1)
         else let (t2, io2) = (if js_type ''rx_ant'' js then rx_ant_stats env js t1 io1 else (t1, io1));
                  (t3, io3) = (if js_type ''tx_stats'' js then tx_stats_stats env js t2 io2 else (t2, io2));
                  (now, io4) = so_now_us env io3
              in (set_stats (count_msg now) t3, io4))"

text \<open>\<open>stats_drain\<close>: datagrams of at most 4095 characters until the socket is empty; empty ones are skipped.\<close>

partial_function (option) stats_drain :: "'w st_env \<Rightarrow> tunnel \<Rightarrow> 'w stats_io \<Rightarrow> (tunnel \<times> 'w stats_io) option" where
  "stats_drain env t io =
     (let (r, w) = sn_recv env (gs_world (so_gs io)); io1 = io\<lparr>so_gs := (so_gs io)\<lparr>gs_world := w\<rparr>\<rparr> in
      case r of
        RecvAgain \<Rightarrow> Some (t, io1)
      | RecvError \<Rightarrow> Some (t, io1)
      | RecvIntr \<Rightarrow> stats_drain env t io1
      | RecvData js \<Rightarrow>
          (if js = [] then stats_drain env t io1
           else let (t2, io2) = stats_one env (take 4095 js) t io1 in stats_drain env t2 io2))"

declare stats_drain.simps [code]

end
