(* ===== verification/ProbeSafety.thy ===== *)
theory ProbeSafety
  imports ProbeDelivery GroundSafety LinkSafety
begin

text \<open>
  What the ground's probe tunnels promise the vehicle (\<open>ground/gs_supervisor_stats.c\<close> to
  \<open>vehicle/link_controller.c\<close>): a flushed window is read back exactly, packets are conserved over any number of reports,
  and nothing but probe records leaves a probe tunnel.
\<close>

section \<open>One flush\<close>

definition bucket_ok :: "u32 \<times> u32 \<times> int \<Rightarrow> bool" where
  "bucket_ok x = (unat (fst x) + unat (fst (snd x)) < 2 ^ 31 \<and> i32 (snd (snd x)))"

definition acc_ok :: "probe_acc \<Rightarrow> bool" where
  "acc_ok a = (length (pa_buckets a) = 16 \<and> list_all bucket_ok (pa_buckets a))"

definition rung_text :: "u64 \<Rightarrow> int \<Rightarrow> u64 \<Rightarrow> probe_acc \<Rightarrow> nat \<Rightarrow> string" where
  "rung_text ts port now a m =
     probe_text ts port m (fst (pa_buckets a ! m)) (fst (snd (pa_buckets a ! m))) (snd (snd (pa_buckets a ! m))) (window_s now a)"

definition rung_used :: "probe_acc \<Rightarrow> nat \<Rightarrow> bool" where
  "rung_used a m = (fst (pa_buckets a ! m) + fst (snd (pa_buckets a ! m)) \<noteq> 0)"

lemma flush_records_eq:
  "flush_records ts port (window_s now a) a = map (rung_text ts port now a) (filter (rung_used a) [0..<16])"
proof -
  have "concat (map (\<lambda>m. let (u, l, r) = pa_buckets a ! m in if u + l = 0 then [] else [probe_text ts port m u l r (window_s now a)]) ms)
      = map (rung_text ts port now a) (filter (rung_used a) ms)" for ms
    by (induction ms) (auto simp: rung_text_def rung_used_def case_prod_beta Let_def)
  then show ?thesis by (simp add: flush_records_def)
qed

lemma send_records_all:
  assumes "\<forall>r \<in> set rs. 0 < length r \<and> length r < 256"
  shows "send_records (Some dst) rs io = io\<lparr>so_sent := so_sent io @ map (Pair dst) rs\<rparr>"
  using assms
proof (induction rs arbitrary: io)
  case (Cons r rs)
  then show ?case by (simp add: send_records_def so_send_def)
qed (simp add: send_records_def)

lemma acc_ok_nth: "acc_ok a \<Longrightarrow> m < 16 \<Longrightarrow> bucket_ok (pa_buckets a ! m)"
  by (simp add: acc_ok_def list_all_length)

lemma flush_sent:
  assumes "acc_ok (tn_acc t)" "i32 (tn_radio_port t)" "tl_fwd (tn_listen t) = Some dst"
  shows "so_sent (snd (probe_window_flush env now t io)) = so_sent io @ map (\<lambda>m. (dst,
     rung_text (sn_realtime_ms env (gs_world (so_gs io))) (tn_radio_port t) now (tn_acc t) m)) (filter (rung_used (tn_acc t)) [0..<16])"
proof -
  have "0 < length (rung_text ts (tn_radio_port t) now (tn_acc t) m) \<and> length (rung_text ts (tn_radio_port t) now (tn_acc t) m) < 256"
    if "m < 16" for ts m
    using acc_ok_nth [OF assms(1) that] probe_text_length [OF that assms(2), of _ ts _ _ now "tn_acc t"]
    by (simp add: rung_text_def bucket_ok_def) (simp add: probe_text_def)
  then show ?thesis
    by (simp add: probe_window_flush_def Let_def flush_records_eq assms(3)) (subst send_records_all; simp add: o_def)
qed

lemma uint_sum: "unat (u :: u32) + unat l < 2 ^ 31 \<Longrightarrow> uint (u + l) = uint u + uint l"
proof -
  assume a: "unat u + unat l < 2 ^ 31"
  then have "unat (u + l) = unat u + unat l" by (simp add: unat_word_ariths)
  then have "int (unat (u + l)) = int (unat u) + int (unat l)" by simp
  then show ?thesis by simp
qed

lemma per_milli_exact:
  assumes "0 \<le> lost" "lost \<le> acc" "0 < acc" "acc < 2 ^ 31"
  shows "per_milli_of lost acc = (1000 * lost + acc div 2) div acc"
proof -
  let ?n = "lost * 1000 + acc div 2"
  have "c_trunc (of_int ?n / of_int acc) = ?n div acc"
  proof -
    have "\<lfloor>(of_int ?n :: rat) / of_int acc\<rfloor> = ?n div acc" by (rule floor_divide_of_int_eq)
    moreover have "0 \<le> (of_int ?n :: rat) / of_int acc" 
    proof (rule divide_nonneg_pos)
      have "0 \<le> ?n" using assms by simp
      then show "0 \<le> (of_int ?n :: rat)" by (simp only: of_int_0_le_iff)
      show "0 < (of_int acc :: rat)" using assms(3) by simp
    qed
    ultimately show ?thesis by (simp only: c_trunc_def if_True)
  qed
  moreover have "?n div acc \<le> 1001"
  proof -
    have "?n < 1001 * acc + acc" using assms by linarith
    moreover have "?n div acc * acc \<le> ?n" using assms(3) by (simp add: minus_mod_eq_div_mult [symmetric])
    ultimately have "?n div acc * acc < 1002 * acc" by linarith
    then have "?n div acc < 1002" using assms(3) by (simp add: mult_less_cancel_right)
    then show ?thesis by simp
  qed
  moreover have "0 \<le> ?n div acc" using assms by (simp add: pos_imp_zdiv_nonneg_iff)
  ultimately show ?thesis using assms(3) by (simp add: per_milli_of_def to_i32_id mult.commute)
qed


section \<open>Conservation\<close>

text \<open>One report: the packets received and lost since the last one, the MCS and RSSI, and its time.\<close>

type_synonym probe_report = "u32 \<times> u32 \<times> int \<times> int \<times> u64"

fun probe_run :: "'w st_env \<Rightarrow> probe_report list \<Rightarrow> tunnel \<Rightarrow> 'w stats_io \<Rightarrow> tunnel \<times> 'w stats_io" where
  "probe_run env [] t io = (t, io)"
| "probe_run env ((u, l, mcs, rssi, now) # rs) t io =
     (let (t1, io1) = probe_accumulate env u l mcs rssi now t io in probe_run env rs t1 io1)"

text \<open>Received packets for \<open>False\<close>, lost ones for \<open>True\<close>: in a bucket, in what the vehicle reads from the datagrams, in a
  window that a report finds stale, in the reports.\<close>

definition in_bucket :: "bool \<Rightarrow> nat \<Rightarrow> tunnel \<Rightarrow> nat" where
  "in_bucket b m t = (let x = pa_buckets (tn_acc t) ! m in if b then unat (fst (snd x)) else unat (fst x))"

definition heard_in :: "bool \<Rightarrow> nat \<Rightarrow> string \<Rightarrow> nat" where
  "heard_in b m x = (if json_int_or (- 1) x ''mcs'' = int m then nat (json_int_or 0 x (if b then ''lost'' else ''recv'')) else 0)"

definition heard :: "bool \<Rightarrow> nat \<Rightarrow> ((string \<times> int) \<times> string) list \<Rightarrow> nat" where
  "heard b m sent = (\<Sum>x \<leftarrow> sent. heard_in b m (snd x))"

definition stale :: "u64 \<Rightarrow> tunnel \<Rightarrow> bool" where
  "stale now t = (pa_start_us (tn_acc t) \<noteq> 0 \<and> now - pa_start_us (tn_acc t) > 4 * probe_window_us t)"

fun given_up :: "'w st_env \<Rightarrow> bool \<Rightarrow> nat \<Rightarrow> probe_report list \<Rightarrow> tunnel \<Rightarrow> 'w stats_io \<Rightarrow> nat" where
  "given_up env b m [] t io = 0"
| "given_up env b m ((u, l, mcs, rssi, now) # rs) t io =
     (if stale now t then in_bucket b m t else 0)
     + (let (t1, io1) = probe_accumulate env u l mcs rssi now t io in given_up env b m rs t1 io1)"

definition reported :: "bool \<Rightarrow> nat \<Rightarrow> probe_report list \<Rightarrow> nat" where
  "reported b m rs = (\<Sum>(u, l, mcs, rssi, now) \<leftarrow> rs. if mcs = int m then unat (if b then l else u) else 0)"

definition probe_wf :: "tunnel \<Rightarrow> bool" where
  "probe_wf t = (acc_ok (tn_acc t) \<and> (pa_start_us (tn_acc t) = 0 \<longrightarrow> (\<forall>m < 16. fst (pa_buckets (tn_acc t) ! m) = 0 \<and> fst (snd (pa_buckets (tn_acc t) ! m)) = 0)))"

lemma heard_text:
  assumes "acc_ok a" "m < 16" "k < 16"
  shows "heard_in b m (rung_text ts port now a k)
    = (if k = m then (if b then unat (fst (snd (pa_buckets a ! k))) else unat (fst (pa_buckets a ! k))) else 0)"
proof -
  obtain u l r where x: "pa_buckets a ! k = (u, l, r)" by (metis prod_cases3)
  have bd: "unat u < 2 ^ 31" "unat l < 2 ^ 31" using acc_ok_nth [OF assms(1,3)] by (simp_all add: bucket_ok_def x)
  then have "int (unat u) < int (2 ^ 31)" "int (unat l) < int (2 ^ 31)" by (simp_all only: of_nat_less_iff)
  then have "min (uint u) LONG_MAX = uint u" "min (uint l) LONG_MAX = uint l" "min (int k) LONG_MAX = int k"
    using assms(3) by (simp_all add: LONG_MAX_def)
  moreover have "rung_text ts port now a k = probe_text ts port k u l r (window_s now a)" by (simp add: rung_text_def x)
  note rd = probe_read_all [OF this]
  ultimately have j: "json_int_or d (rung_text ts port now a k) ''mcs'' = int k"
    "json_int_or d (rung_text ts port now a k) ''recv'' = uint u" "json_int_or d (rung_text ts port now a k) ''lost'' = uint l" for d
    using rd by (simp_all add: json_int_or_def)
  show ?thesis
  proof (cases "k = m")
    case True
    show ?thesis unfolding heard_in_def True [symmetric] by (cases b) (simp_all add: j x)
  next
    case False
    then show ?thesis by (simp add: heard_in_def j)
  qed
qed

lemma sum_list_one:
  assumes "distinct xs" "\<forall>x \<in> set xs. x \<noteq> y \<longrightarrow> f x = (0 :: nat)"
  shows "sum_list (map f xs) = (if y \<in> set xs then f y else 0)"
  using assms by (induction xs) auto

lemma flush_heard:
  assumes "acc_ok (tn_acc t)" "i32 (tn_radio_port t)" "tl_fwd (tn_listen t) = Some dst" "m < 16"
  shows "heard b m (so_sent (snd (probe_window_flush env now t io))) = heard b m (so_sent io) + in_bucket b m t"
proof -
  let ?a = "tn_acc t" and ?ks = "filter (rung_used (tn_acc t)) [0..<16]"
  let ?f = "\<lambda>k. heard_in b m (rung_text (sn_realtime_ms env (gs_world (so_gs io))) (tn_radio_port t) now ?a k)"
  have f: "?f k = (if k = m then in_bucket b m t else 0)" if "k < 16" for k
    using heard_text [OF assms(1,4) that] by (simp add: in_bucket_def Let_def)
  have "sum_list (map ?f ?ks) = (if m \<in> set ?ks then ?f m else 0)"
    by (rule sum_list_one) (auto simp: f)
  also have "\<dots> = in_bucket b m t"
  proof (cases "rung_used ?a m")
    case True
    then show ?thesis using assms(4) f by simp
  next
    case False
    have bd: "unat (fst (pa_buckets ?a ! m)) + unat (fst (snd (pa_buckets ?a ! m))) < 2 ^ 31"
      using acc_ok_nth [OF assms(1,4)] by (simp add: bucket_ok_def)
    then have "unat (fst (pa_buckets ?a ! m) + fst (snd (pa_buckets ?a ! m))) = unat (fst (pa_buckets ?a ! m)) + unat (fst (snd (pa_buckets ?a ! m)))"
      by (simp add: unat_word_ariths)
    then have "unat (fst (pa_buckets ?a ! m)) = 0" "unat (fst (snd (pa_buckets ?a ! m))) = 0" using False by (simp_all add: rung_used_def)
    then show ?thesis using False by (simp add: in_bucket_def Let_def)
  qed
  finally show ?thesis by (simp add: heard_def flush_sent [OF assms(1-3)] o_def)
qed

lemma flush_forwards: "tn_probe_window_ms (fst (probe_window_flush env now t io)) = tn_probe_window_ms t"
  "tn_radio_port (fst (probe_window_flush env now t io)) = tn_radio_port t"
  "tn_listen (fst (probe_window_flush env now t io)) = tn_listen t"
  by (simp_all add: probe_window_flush_def Let_def)

lemma accumulate_forwards:
  assumes "probe_accumulate env u l mcs rssi now t io = (t1, io1)"
  shows "tn_probe_window_ms t1 = tn_probe_window_ms t" "tn_radio_port t1 = tn_radio_port t" "tn_listen t1 = tn_listen t"
proof -
  have t1: "t1 = fst (probe_accumulate env u l mcs rssi now t io)" using assms by simp
  show "tn_probe_window_ms t1 = tn_probe_window_ms t" "tn_radio_port t1 = tn_radio_port t" "tn_listen t1 = tn_listen t"
    by (simp_all add: t1 probe_accumulate_def Let_def flush_forwards)
qed

text \<open>Room for \<open>n\<close> more packets in every bucket.\<close>

definition room :: "nat \<Rightarrow> probe_acc \<Rightarrow> bool" where
  "room n a = (length (pa_buckets a) = 16 \<and> (\<forall>m < 16. i32 (snd (snd (pa_buckets a ! m)))
     \<and> unat (fst (pa_buckets a ! m)) + unat (fst (snd (pa_buckets a ! m))) + n < 2 ^ 31))"

definition bucket :: "bool \<Rightarrow> nat \<Rightarrow> probe_acc \<Rightarrow> nat" where
  "bucket b m a = (let x = pa_buckets a ! m in if b then unat (fst (snd x)) else unat (fst x))"

lemma in_bucket_eq: "in_bucket b m t = bucket b m (tn_acc t)"
  by (simp add: in_bucket_def bucket_def)

lemma room_ok: "room n a \<Longrightarrow> acc_ok a"
  by (fastforce simp: room_def acc_ok_def bucket_ok_def list_all_length)

lemma room_less: "room n a \<Longrightarrow> k \<le> n \<Longrightarrow> room k a"
  unfolding room_def by (meson add_le_mono le_less_trans order_refl)

lemma reset_bucket: "m < 16 \<Longrightarrow> bucket b m (probe_buckets_reset now a) = 0"
  by (simp add: bucket_def probe_buckets_reset_def Let_def)

lemma reset_room: "n < 2 ^ 31 \<Longrightarrow> room n (probe_buckets_reset now a)"
  by (simp add: room_def probe_buckets_reset_def INT_MIN_def i32_def)

lemma room_bound: "room n a \<Longrightarrow> n < 2 ^ 31"
  unfolding room_def by (metis add_lessD1 add.commute zero_less_numeral)

lemma open_room: "room n a \<Longrightarrow> room n (probe_open now t a)"
  by (auto simp: probe_open_def Let_def reset_room room_bound) (auto simp: room_def probe_buckets_reset_def INT_MIN_def i32_def)

lemma open_bucket:
  assumes "pa_start_us (tn_acc t) = 0 \<Longrightarrow> in_bucket b m t = 0" "m < 16"
  shows "bucket b m (probe_open now t (tn_acc t)) + (if stale now t then in_bucket b m t else 0) = in_bucket b m t"
proof (cases "pa_start_us (tn_acc t) = 0")
  case True
  then show ?thesis using assms
    by (simp add: probe_open_def Let_def reset_bucket stale_def) (simp add: probe_buckets_reset_def)
next
  case False
  have "bucket b m (probe_buckets_reset now (tn_acc t)\<lparr>pa_drops := pa_drops (tn_acc t) + 1\<rparr>) = bucket b m (probe_buckets_reset now (tn_acc t))"
    by (simp add: bucket_def)
  then show ?thesis using False assms(2)
    by (simp add: probe_open_def Let_def stale_def in_bucket_eq reset_bucket)
qed

lemma open_start: "now \<noteq> 0 \<Longrightarrow> pa_start_us (probe_open now t a) \<noteq> 0"
  by (simp add: probe_open_def Let_def probe_buckets_reset_def)

lemma count_start: "pa_start_us (probe_count u l mcs rssi a) = pa_start_us a"
  by (simp add: probe_count_def case_prod_beta)

lemma unat_add_small: "unat (x :: u32) + unat y < 2 ^ 31 \<Longrightarrow> unat (x + y) = unat x + unat y"
  by (simp add: unat_word_ariths)

lemma count_room:
  assumes "room (unat u + unat l + n) a" "i32 rssi"
  shows "room n (probe_count u l mcs rssi a)"
proof (cases "0 \<le> mcs \<and> mcs < 16")
  case True
  obtain u0 l0 r0 where x: "pa_buckets a ! nat mcs = (u0, l0, r0)" by (metis prod_cases3)
  have "nat mcs < 16" using True by (simp add: nat_less_iff)
  then have bd: "unat u0 + unat l0 + (unat u + unat l + n) < 2 ^ 31" "i32 r0" "length (pa_buckets a) = 16"
    using assms(1) x unfolding room_def by force+
  then have s: "unat (u0 + u) = unat u0 + unat u" "unat (l0 + l) = unat l0 + unat l" by (simp_all add: unat_add_small)
  have r: "room n a" using room_less [OF assms(1)] by simp
  show ?thesis unfolding room_def
  proof (intro conjI allI impI)
    fix k :: nat assume k: "k < 16"
    have e: "pa_buckets (probe_count u l mcs rssi a) ! k = (if k = nat mcs
        then (u0 + u, l0 + l, if rssi \<noteq> INT_MIN \<and> (r0 = INT_MIN \<or> rssi > r0) then rssi else r0) else pa_buckets a ! k)"
      using True k bd(3) by (auto simp: probe_count_def x)
    show "i32 (snd (snd (pa_buckets (probe_count u l mcs rssi a) ! k)))"
      using r k bd(2) assms(2) by (simp add: e room_def)
    show "unat (fst (pa_buckets (probe_count u l mcs rssi a) ! k)) + unat (fst (snd (pa_buckets (probe_count u l mcs rssi a) ! k))) + n < 2 ^ 31"
      using r k bd(1) s by (simp add: e room_def)
  next
    show "length (pa_buckets (probe_count u l mcs rssi a)) = 16" using True bd(3) by (simp add: probe_count_def x)
  qed
next
  case False
  then have "probe_count u l mcs rssi a = a" unfolding probe_count_def by (rule if_not_P)
  then show ?thesis using room_less [OF assms(1)] by simp
qed

lemma count_bucket:
  assumes "room (unat u + unat l + n) a" "m < 16"
  shows "bucket b m (probe_count u l mcs rssi a) = bucket b m a + (if mcs = int m then unat (if b then l else u) else 0)"
proof (cases "mcs = int m")
  case True
  obtain u0 l0 r0 where x: "pa_buckets a ! m = (u0, l0, r0)" by (metis prod_cases3)
  then have bd: "unat u0 + unat l0 + (unat u + unat l + n) < 2 ^ 31" "length (pa_buckets a) = 16"
    using assms unfolding room_def by force+
  then have s: "unat (u0 + u) = unat u0 + unat u" "unat (l0 + l) = unat l0 + unat l" by (simp_all add: unat_add_small)
  show ?thesis using True assms(2) bd(2) by (cases b) (simp_all add: probe_count_def bucket_def x s Let_def)
next
  case False
  then have "m \<noteq> nat mcs \<or> mcs < 0" by (cases "mcs < 0") auto
  then show ?thesis using False by (auto simp: probe_count_def bucket_def case_prod_beta Let_def)
qed

definition load :: "probe_report list \<Rightarrow> nat" where
  "load rs = (\<Sum>(u, l, mcs, rssi, now) \<leftarrow> rs. unat u + unat l)"

definition fresh_ok :: "tunnel \<Rightarrow> bool" where
  "fresh_ok t = (pa_start_us (tn_acc t) = 0 \<longrightarrow> (\<forall>b. \<forall>m < 16. in_bucket b m t = 0))"

lemma accumulate_step:
  assumes "room (unat u + unat l + n) (tn_acc t)" "fresh_ok t" "i32 rssi" "now \<noteq> 0" "i32 (tn_radio_port t)"
    "tl_fwd (tn_listen t) = Some dst" "probe_accumulate env u l mcs rssi now t io = (t1, io1)"
  shows "room n (tn_acc t1)" "fresh_ok t1"
    and "m < 16 \<Longrightarrow> heard b m (so_sent io1) + in_bucket b m t1 + (if stale now t then in_bucket b m t else 0)
      = heard b m (so_sent io) + in_bucket b m t + (if mcs = int m then unat (if b then l else u) else 0)"
proof -
  define a where "a = probe_count u l mcs rssi (probe_open now t (tn_acc t))"
  define t0 where "t0 = t\<lparr>tn_acc := a\<rparr>"
  have ro: "room (unat u + unat l + n) (probe_open now t (tn_acc t))" by (rule open_room [OF assms(1)])
  have r: "room n a" unfolding a_def by (rule count_room [OF ro assms(3)])
  have st: "pa_start_us a \<noteq> 0" by (simp add: a_def count_start open_start [OF assms(4)])
  have c: "m < 16 \<Longrightarrow> in_bucket b m t0 + (if stale now t then in_bucket b m t else 0)
      = in_bucket b m t + (if mcs = int m then unat (if b then l else u) else 0)"
    using open_bucket [of t b m now] count_bucket [OF ro, of m b mcs rssi] assms(2)
    by (simp add: in_bucket_eq t0_def a_def fresh_ok_def)
  have e: "(t1, io1) = (if now - pa_start_us a \<ge> probe_window_us t then probe_window_flush env now t0 io else (t0, io))"
    using assms(7) unfolding probe_accumulate_def Let_def a_def [symmetric] t0_def [symmetric] by (rule sym)
  let ?goal = "heard b m (so_sent io1) + in_bucket b m t1 + (if stale now t then in_bucket b m t else 0)
      = heard b m (so_sent io) + in_bucket b m t + (if mcs = int m then unat (if b then l else u) else 0)"
  have all: "room n (tn_acc t1) \<and> fresh_ok t1 \<and> (m < 16 \<longrightarrow> ?goal)"
  proof (cases "now - pa_start_us a \<ge> probe_window_us t")
    case True
    then have t1: "t1 = fst (probe_window_flush env now t0 io)" and io1: "io1 = snd (probe_window_flush env now t0 io)"
      using e by (simp_all add: prod_eq_iff)
    have acc: "tn_acc t1 = probe_buckets_reset now (a\<lparr>pa_emits := pa_emits (tn_acc t1)\<rparr>)"
      by (simp add: t1 probe_window_flush_def Let_def t0_def probe_buckets_reset_def)
    have "room n (tn_acc t1)" by (subst acc) (rule reset_room [OF room_bound [OF r]])
    moreover have z: "in_bucket b m t1 = 0" if "m < 16" for b m
      by (simp add: in_bucket_eq) (subst acc, rule reset_bucket [OF that])
    moreover have "fresh_ok t1" by (simp add: fresh_ok_def z)
    moreover have "heard b m (so_sent io1) = heard b m (so_sent io) + in_bucket b m t0" if "m < 16"
      unfolding io1 by (rule flush_heard [OF _ _ _ that]) (simp_all add: t0_def room_ok [OF r] assms(5,6))
    ultimately show ?thesis
      using c by simp
  next
    case False
    then have "t1 = t0" "io1 = io" using e by simp_all
    then show ?thesis
      using c r st by (simp add: t0_def fresh_ok_def)
  qed
  show "room n (tn_acc t1)" "fresh_ok t1" using all by simp_all
  show "m < 16 \<Longrightarrow> ?goal" using all by simp
qed

text \<open>C13: no packet of the probe is lost or counted twice.  Over any reports whose total fits 31 bits, for every rung and
  for received and lost packets alike: what the vehicle reads from all the records sent, what the open window holds and
  what stale windows gave up add up to what was there before plus what the reports counted.
\<close>

theorem probe_conserved:
  assumes "room (load rs) (tn_acc t)" "fresh_ok t" "\<forall>(u, l, mcs, rssi, now) \<in> set rs. i32 rssi \<and> now \<noteq> 0"
    "i32 (tn_radio_port t)" "tl_fwd (tn_listen t) = Some dst" "m < 16" "probe_run env rs t io = (t', io')"
  shows "heard b m (so_sent io') + in_bucket b m t' + given_up env b m rs t io
    = heard b m (so_sent io) + in_bucket b m t + reported b m rs"
  using assms(1-5,7)
proof (induction rs arbitrary: t io)
  case Nil
  then show ?case by (simp add: reported_def)
next
  case (Cons x rs)
  obtain u l mcs rssi now where x: "x = (u, l, mcs, rssi, now)" by (metis prod_cases5)
  obtain t1 io1 where s: "probe_accumulate env u l mcs rssi now t io = (t1, io1)" by (metis prod.collapse)
  have rm: "room (unat u + unat l + load rs) (tn_acc t)" using Cons.prems(1) by (simp add: load_def x)
  have rn: "i32 rssi" "now \<noteq> 0" using Cons.prems(3) by (simp_all add: x)
  note st = accumulate_step [OF rm Cons.prems(2) rn Cons.prems(4,5) s]
  have "heard b m (so_sent io') + in_bucket b m t' + given_up env b m rs t1 io1
      = heard b m (so_sent io1) + in_bucket b m t1 + reported b m rs"
    using Cons.prems(3-6) by (intro Cons.IH [OF st(1,2)]) (simp_all add: accumulate_forwards [OF s] x s)
  moreover have "reported b m (x # rs) = (if mcs = int m then unat (if b then l else u) else 0) + reported b m rs"
    by (simp add: reported_def x)
  ultimately show ?case using st(3) [OF assms(6), of b] by (simp add: x s)
qed

section \<open>Nothing else leaves a probe tunnel\<close>

text \<open>The vehicle takes the datagram for a probe record: it changes at most the probe's rungs and the link-alive note.\<close>

definition only_probe :: "'v loopenv \<Rightarrow> u64 \<Rightarrow> u32 \<Rightarrow> 'v link \<Rightarrow> string \<Rightarrow> bool" where
  "only_probe venv vnow peer L msg = (let L' = rx_ant_datagram venv vnow peer (to_bytes msg) L in L' = L\<lparr>lk_csa := lk_csa L', lk_probe := lk_probe L'\<rparr>)"

definition probe_form :: "string \<Rightarrow> bool" where
  "probe_form x = (\<exists>ts port m u l r w. x = probe_text ts port m u l r w)"

lemma rung_form: "probe_form (rung_text ts port now a k)"
  unfolding rung_text_def probe_form_def by (intro exI) (rule refl)

definition adds_probes :: "tunnel \<Rightarrow> 'w stats_io \<Rightarrow> 'w stats_io \<Rightarrow> bool" where
  "adds_probes t io io' = (\<exists>new. so_sent io' = so_sent io @ new \<and> (\<forall>d \<in> set new. tl_fwd (tn_listen t) = Some (fst d)
     \<and> probe_form (snd d) \<and> length (snd d) < 256))"

lemma adds_refl: "so_sent io' = so_sent io \<Longrightarrow> adds_probes t io io'"
  by (simp add: adds_probes_def)

lemma adds_trans: "adds_probes t io io1 \<Longrightarrow> tn_listen t1 = tn_listen t \<Longrightarrow> adds_probes t1 io1 io2 \<Longrightarrow> adds_probes t io io2"
  unfolding adds_probes_def by (metis (no_types, lifting) append_assoc Un_iff set_append)

lemma adds_same: "adds_probes t io io1 \<Longrightarrow> so_sent io2 = so_sent io1 \<Longrightarrow> adds_probes t io io2"
  by (simp add: adds_probes_def)

lemma send_records_adds:
  assumes "\<forall>r \<in> set rs. probe_form r"
  shows "adds_probes t io (send_records (tl_fwd (tn_listen t)) rs io)"
  using assms
proof (induction rs arbitrary: io)
  case Nil
  then show ?case by (simp add: send_records_def adds_refl)
next
  case (Cons r rs)
  let ?io1 = "if 0 < length r \<and> length r < 256 then so_send (tl_fwd (tn_listen t)) r io else io"
  have f: "probe_form r" using Cons.prems by simp
  have "adds_probes t io (so_send (tl_fwd (tn_listen t)) r io)" if l: "length r < 256"
  proof (cases "tl_fwd (tn_listen t)")
    case None
    then show ?thesis by (simp add: so_send_def adds_refl)
  next
    case (Some dst)
    show ?thesis unfolding adds_probes_def
      by (rule exI [of _ "[(dst, r)]"]) (use f l Some in \<open>simp add: so_send_def\<close>)
  qed
  then have "adds_probes t io ?io1" by (simp add: adds_refl)
  moreover have "adds_probes t ?io1 (send_records (tl_fwd (tn_listen t)) rs ?io1)" by (rule Cons.IH) (use Cons.prems in simp)
  ultimately have "adds_probes t io (send_records (tl_fwd (tn_listen t)) rs ?io1)" by (rule adds_trans [OF _ refl])
  moreover have "send_records (tl_fwd (tn_listen t)) (r # rs) io = send_records (tl_fwd (tn_listen t)) rs ?io1"
    by (simp only: send_records_def fold_Cons o_apply)
  ultimately show ?case by (simp only:)
qed

lemma flush_adds: "adds_probes t io (snd (probe_window_flush env now t io))"
  unfolding probe_window_flush_def Let_def snd_conv flush_records_eq by (intro send_records_adds) (simp add: rung_form)

lemma now_us_sent: "so_sent (snd (so_now_us env io)) = so_sent io"
  by (simp add: so_now_us_def case_prod_beta Let_def)

lemma accumulate_adds: "adds_probes t io (snd (probe_accumulate env u l mcs rssi now t io))"
proof -
  have "adds_probes t io (snd (probe_window_flush env now (t\<lparr>tn_acc := a\<rparr>) io))" for a
    using flush_adds [of "t\<lparr>tn_acc := a\<rparr>" io env now] by (simp add: adds_probes_def)
  then show ?thesis by (simp add: probe_accumulate_def Let_def adds_refl)
qed

lemma note_uniq_sent: "so_sent (note_uniq env u t io) = so_sent io"
proof -
  obtain now io1 where n: "so_now_us env io = (now, io1)" by (metis prod.collapse)
  then have "so_sent io1 = so_sent io" using now_us_sent [of env io] by simp
  then show ?thesis by (simp add: note_uniq_def n)
qed

lemma rx_ant_adds:
  assumes "tn_probe t" "rx_ant_stats env js t io = (t', io')"
  shows "adds_probes t io io'"
proof -
  define blk where "blk = json_slice_object js ''pkt''"
  define io1 where "io1 = (case (case blk of None \<Rightarrow> None | Some b \<Rightarrow> json_pick_u32 b ''uniq'') of None \<Rightarrow> io | Some u \<Rightarrow> note_uniq env u t io)"
  have s1: "so_sent io1 = so_sent io" by (simp add: io1_def note_uniq_sent split: option.split)
  have e: "\<exists>now2 io3 t2 u l mcs rssi. (t', io') = probe_accumulate env u l mcs rssi now2 t2 io3
      \<and> so_sent io3 = so_sent io \<and> tn_listen t2 = tn_listen t"
    by (intro exI conjI, rule sym, rule assms(2) [unfolded rx_ant_stats_def Let_def blk_def [symmetric] io1_def [symmetric] case_prod_beta if_P [OF assms(1)]])
      (simp_all add: now_us_sent s1 set_stats_def pkt_counters_def split: option.split)
  then obtain now2 io3 t2 u l mcs rssi where r: "(t', io') = probe_accumulate env u l mcs rssi now2 t2 io3"
      "so_sent io3 = so_sent io" "tn_listen t2 = tn_listen t" by metis
  have "adds_probes t2 io3 io'" using accumulate_adds [of t2 io3 env u l mcs rssi now2] by (simp add: r(1) [symmetric])
  then show ?thesis using r(2,3) by (simp add: adds_probes_def)
qed

lemma rx_ant_keeps:
  assumes "rx_ant_stats env js t io = (t', io')"
  shows "tn_listen t' = tn_listen t" "tn_probe t' = tn_probe t"
proof -
  have f: "tn_listen (fst (probe_accumulate env u l mcs rssi now t io)) = tn_listen t"
    "tn_probe (fst (probe_accumulate env u l mcs rssi now t io)) = tn_probe t" for u l mcs rssi now t io
    by (simp_all add: probe_accumulate_def probe_window_flush_def Let_def)
  have t': "t' = fst (rx_ant_stats env js t io)" using assms by simp
  show "tn_listen t' = tn_listen t" "tn_probe t' = tn_probe t"
    unfolding t' rx_ant_stats_def Let_def case_prod_beta
    by (simp_all add: f set_stats_def pkt_counters_def split: option.split)
qed

lemma tx_stats_keeps:
  assumes "tx_stats_stats env js t io = (t', io')"
  shows "tn_listen t' = tn_listen t" "tn_probe t' = tn_probe t" "so_sent io' = so_sent io"
proof -
  have e: "t' = fst (tx_stats_stats env js t io)" "io' = snd (tx_stats_stats env js t io)" using assms by simp_all
  show "tn_listen t' = tn_listen t" "tn_probe t' = tn_probe t" "so_sent io' = so_sent io"
    unfolding e tx_stats_stats_def Let_def case_prod_beta
    by (simp_all add: now_us_sent tx_counters_def set_stats_def Let_def split: option.split)
qed

lemma stats_one_adds:
  assumes "tn_probe t" "stats_one env js t io = (t', io')"
  shows "adds_probes t io io'" "tn_listen t' = tn_listen t" "tn_probe t'"
proof -
  define t1 where "t1 = set_stats (\<lambda>s. s\<lparr>ts_interval_ms := keep_or (ts_interval_ms s) (json_pick_u32 js ''interval_ms'')\<rparr>) t"
  have k1: "tn_listen t1 = tn_listen t" "tn_probe t1" by (simp_all add: t1_def set_stats_def assms(1))
  have raw: "forward_raw js t io = io" by (simp add: forward_raw_def assms(1))
  obtain t2 io2 where s2: "(if js_type ''rx_ant'' js then rx_ant_stats env js t1 io else (t1, io)) = (t2, io2)" by (metis prod.collapse)
  have k2: "adds_probes t1 io io2" "tn_listen t2 = tn_listen t1" "tn_probe t2"
    using s2 k1(2) rx_ant_adds [OF k1(2), of env js io t2 io2] rx_ant_keeps [of env js t1 io t2 io2]
    by (auto simp: adds_refl split: if_splits)
  obtain t3 io3 where s3: "(if js_type ''tx_stats'' js then tx_stats_stats env js t2 io2 else (t2, io2)) = (t3, io3)" by (metis prod.collapse)
  have k3: "so_sent io3 = so_sent io2" "tn_listen t3 = tn_listen t2" "tn_probe t3"
    using s3 k2(3) tx_stats_keeps [of env js t2 io2 t3 io3] by (auto split: if_splits)
  obtain now io4 where s4: "so_now_us env io3 = (now, io4)" by (metis prod.collapse)
  have k4: "so_sent io4 = so_sent io3" using now_us_sent [of env io3] by (simp add: s4)
  have e: "(t', io') = (if \<not> js_type ''rx_ant'' js \<and> \<not> js_type ''tx_stats'' js then (t1, io) else (set_stats (count_msg now) t3, io4))"
    using assms(2) unfolding stats_one_def Let_def raw t1_def [symmetric] s2 s3 case_prod_conv s4 by (rule sym)
  have "adds_probes t io io4" using k1(1) k2(1) k3(1) k4 by (simp add: adds_probes_def)
  moreover have "tn_listen (set_stats (count_msg now) t3) = tn_listen t" "tn_probe (set_stats (count_msg now) t3)"
    using k1 k2 k3 by (simp_all add: set_stats_def)
  moreover have "adds_probes t io io" by (rule adds_refl) simp
  ultimately show "adds_probes t io io'" "tn_listen t' = tn_listen t" "tn_probe t'"
    using e k1 by (simp_all split: if_splits)
qed

lemma stats_drain_adds:
  assumes "stats_drain env t io = Some (t', io')" "tn_probe t"
  shows "adds_probes t io io' \<and> tn_listen t' = tn_listen t"
  using assms
proof (induction env t io "(t', io')" arbitrary: t' io' rule: stats_drain.raw_induct [rotated, consumes 1, case_names 1])
  case (1 sd env t io)
  obtain r w where r: "sn_recv env (gs_world (so_gs io)) = (r, w)" by (metis prod.collapse)
  let ?io1 = "io\<lparr>so_gs := (so_gs io)\<lparr>gs_world := w\<rparr>\<rparr>"
  have io: "adds_probes t io io2 = adds_probes t ?io1 io2" for io2 by (simp add: adds_probes_def)
  show ?case
  proof (cases r)
    case (RecvData js)
    show ?thesis
    proof (cases "js = []")
      case True
      then show ?thesis using 1 r RecvData by (simp add: Let_def io)
    next
      case False
      obtain t2 io2 where s: "stats_one env (take 4095 js) t ?io1 = (t2, io2)" by (metis prod.collapse)
      note k = stats_one_adds [OF 1(3) s]
      have "sd env t2 io2 = Some (t', io')" using 1(2) r RecvData False s by (simp add: Let_def)
      from 1(1) [OF this k(3)] show ?thesis using adds_trans [OF k(1,2)] k(2) io by simp
    qed
  qed (use 1 r in \<open>auto simp: Let_def io intro!: adds_refl\<close>)
qed

text \<open>C15: probe packets never steer the link as traffic.  Whatever a probe tunnel's statistics socket receives, everything it
  sends goes to its forward address, and the vehicle takes each datagram for a probe record: its scorer, selector, radio
  and encoder state are untouched.
\<close>

theorem probe_never_raw:
  assumes "stats_drain env t io = Some (t', io')" "tn_probe t"
  shows "\<exists>new. so_sent io' = so_sent io @ new
    \<and> (\<forall>d \<in> set new. tl_fwd (tn_listen t) = Some (fst d) \<and> only_probe venv vnow peer L (snd d))"
proof -
  have "only_probe venv vnow peer L x" if p: "probe_form x" and len: "length x < 256" for x
  proof -
    obtain ts port m u l r w where x: "x = probe_text ts port m u l r w" using p unfolding probe_form_def by blast
    show ?thesis using probe_rx_any [OF x len, of venv vnow peer L] by (simp add: only_probe_def Let_def)
  qed
  then show ?thesis using stats_drain_adds [OF assms] unfolding adds_probes_def by blast
qed

section \<open>Witnesses\<close>

definition demo_dst :: "string \<times> int" where
  "demo_dst = (''10.0.0.1'', 5602)"

definition demo_st :: "recv_result list st_env" where
  "demo_st = \<lparr> sn_gs = \<lparr> ge_clock = (\<lambda>w. (7000000, w)), ge_time = (\<lambda>w. 0), ge_socket = (\<lambda>w. (0, w)),
       ge_sendto = (\<lambda>p b w. ((True, 0), w)), ge_iw = (\<lambda>i c b w. (0, w)), ge_drain = (\<lambda>i w. w) \<rparr>,
     sn_recv = (\<lambda>w. case w of [] \<Rightarrow> (RecvAgain, []) | r # w' \<Rightarrow> (r, w')), sn_realtime_ms = (\<lambda>w. 1700000000000) \<rparr>"

definition demo_probe :: tunnel where
  "demo_probe = demo_tunnel\<lparr>tn_probe := True, tn_listen := (tn_listen demo_tunnel)\<lparr>tl_fwd := Some demo_dst\<rparr>,
     tn_acc := \<lparr> pa_start_us = 6000000, pa_buckets = (replicate 16 (0, 0, INT_MIN))[3 := (90, 10, - 60)], pa_emits = 0, pa_drops = 0 \<rparr>\<rparr>"

definition demo_js :: string where
  "demo_js = ''{\"type\":\"rx_ant\"}''"

definition demo_so :: "recv_result list stats_io" where
  "demo_so = \<lparr> so_gs = gs_init [RecvIntr, RecvData demo_js], so_sent = [] \<rparr>"

lemma demo_probe_fields [simp]:
  "tn_probe demo_probe" "tl_fwd (tn_listen demo_probe) = Some demo_dst" "tn_radio_port demo_probe = 0" "so_sent demo_so = []"
  "pa_buckets (tn_acc demo_probe) = (replicate 16 (0, 0, INT_MIN))[3 := (90, 10, - 60)]" "pa_start_us (tn_acc demo_probe) = 6000000"
  by (simp_all add: demo_probe_def demo_so_def demo_tunnel_def)

lemma demo_room: "room 1000 (tn_acc demo_probe)"
proof -
  have "\<forall>m < 16. (replicate 16 (0, 0, INT_MIN))[3 := (90, 10, - 60)] ! m = (if m = 3 then (90 :: u32, 10 :: u32, - 60) else (0, 0, INT_MIN))"
    by simp
  then show ?thesis by (simp add: room_def INT_MIN_def i32_def)
qed

text \<open>The clock of the example leaves its world alone.\<close>

lemma demo_now: "so_now_us demo_st io = (7000000, io)"
  by (simp add: so_now_us_def gs_now_us_def demo_st_def)

lemma demo_sends: "so_gs (send_records dst rs io) = so_gs io"
proof (induction rs arbitrary: io)
  case (Cons r rs)
  then show ?case by (simp add: send_records_def so_send_def split: option.split)
qed (simp add: send_records_def)

lemma demo_accumulate: "so_gs (snd (probe_accumulate env u l mcs rssi now t io)) = so_gs io"
  by (simp add: probe_accumulate_def probe_window_flush_def Let_def demo_sends)

lemma demo_world: "gs_world (so_gs (snd (stats_one demo_st js t io))) = gs_world (so_gs io)"
proof -
  have n: "gs_world (so_gs (note_uniq demo_st u t io)) = gs_world (so_gs io)" for u t and io :: "recv_result list stats_io"
    by (simp add: note_uniq_def demo_now scan_sample_def Let_def)
  have r: "gs_world (so_gs (snd (rx_ant_stats demo_st js t io))) = gs_world (so_gs io)" for t and io :: "recv_result list stats_io"
    by (simp add: rx_ant_stats_def demo_now Let_def demo_accumulate n split: option.split)
  have x: "gs_world (so_gs (snd (tx_stats_stats demo_st js t io))) = gs_world (so_gs io)" for t and io :: "recv_result list stats_io"
    by (simp add: tx_stats_stats_def demo_now Let_def split: option.split)
  have f: "so_gs (forward_raw js t io) = so_gs io"
    by (simp add: forward_raw_def so_send_def split: option.split)
  show ?thesis by (simp add: stats_one_def Let_def case_prod_beta demo_now r x f)
qed


theorem probe_conserved_witness:
  "heard True 3 (so_sent (snd (probe_run demo_st [(5, 2, 3, - 50, 6500000), (1, 1, 3, - 50, 7000000)] demo_probe demo_so)))
     + in_bucket True 3 (fst (probe_run demo_st [(5, 2, 3, - 50, 6500000), (1, 1, 3, - 50, 7000000)] demo_probe demo_so))
     + given_up demo_st True 3 [(5, 2, 3, - 50, 6500000), (1, 1, 3, - 50, 7000000)] demo_probe demo_so = 13"
proof -
  let ?rs = "[(5, 2, 3, - 50, 6500000), (1, 1, 3, - 50, 7000000)] :: probe_report list"
  obtain t' io' where r: "probe_run demo_st ?rs demo_probe demo_so = (t', io')" by (metis prod.collapse)
  have "load ?rs = 9" by (simp add: load_def)
  then have "room (load ?rs) (tn_acc demo_probe)" using room_less [OF demo_room] by simp
  moreover have "fresh_ok demo_probe" by (simp add: fresh_ok_def)
  moreover have "\<forall>(u, l, mcs, rssi, now) \<in> set ?rs. i32 rssi \<and> now \<noteq> 0" by (simp add: i32_def)
  moreover have "i32 (tn_radio_port demo_probe)" by (simp add: i32_def)
  ultimately have "heard True 3 (so_sent io') + in_bucket True 3 t' + given_up demo_st True 3 ?rs demo_probe demo_so
      = heard True 3 (so_sent demo_so) + in_bucket True 3 demo_probe + reported True 3 ?rs"
    by (intro probe_conserved [OF _ _ _ _ demo_probe_fields(2) _ r]) simp_all
  then show ?thesis unfolding r fst_conv snd_conv by (simp add: heard_def in_bucket_def reported_def)
qed

theorem probe_never_raw_witness:
  "\<exists>t' io' new. stats_drain demo_st demo_probe demo_so = Some (t', io') \<and> so_sent io' = new
     \<and> (\<forall>d \<in> set new. fst d = demo_dst \<and> only_probe demo_loop 0 0 demo_link (snd d))"
proof -
  let ?queue = "\<lparr> so_gs = gs_init [RecvData demo_js], so_sent = [] \<rparr> :: recv_result list stats_io"
  let ?io = "\<lparr> so_gs = gs_init [], so_sent = [] \<rparr> :: recv_result list stats_io"
  obtain t2 io2 where s: "stats_one demo_st (take 4095 demo_js) demo_probe ?io = (t2, io2)" by (metis prod.collapse)
  then have w: "gs_world (so_gs io2) = []" using demo_world [of "take 4095 demo_js" demo_probe ?io] by (simp add: gs_init_def)
  have e: "demo_js \<noteq> []" by (simp add: demo_js_def)
  have st: "sn_recv demo_st [] = (RecvAgain, [])" "sn_recv demo_st (x # xs) = (x, xs)" for x xs by (simp_all add: demo_st_def)
  obtain t' io' where d2: "stats_drain demo_st t2 io2 = Some (t', io')"
    by (simp add: stats_drain.simps [of _ t2 io2] w st)
  have "stats_drain demo_st demo_probe ?queue = stats_drain demo_st t2 io2"
    by (subst stats_drain.simps) (use s e in \<open>simp add: st gs_init_def\<close>)
  moreover have "stats_drain demo_st demo_probe demo_so = stats_drain demo_st demo_probe ?queue"
    by (subst stats_drain.simps [of demo_st demo_probe demo_so]) (simp add: demo_so_def st gs_init_def)
  ultimately have d: "stats_drain demo_st demo_probe demo_so = Some (t', io')" using d2 by simp
  from probe_never_raw [OF d demo_probe_fields(1), of demo_loop 0 0 demo_link]
  show ?thesis using d by auto
qed

end
