(* ===== verification/GroundJson.thy ===== *)
theory GroundJson
  imports CString GroundStats
begin

text \<open>
  The JSON tokenizer of \<open>shared/wfb_json.h\<close>: a flat array of tokens in preorder with parent links, and the helpers that
  walk it.  A token spans \<open>start\<close> to \<open>end\<close> of the text; \<open>None\<close> is the index -1.  The array of at most \<open>cap\<close> tokens is
  the list of those allocated.  \<open>long\<close> is 64 bits on the ground.
\<close>

section \<open>The tokenizer\<close>

datatype jtok_type = JT_NONE | JT_OBJ | JT_ARR | JT_STR | JT_PRIM

record jtok =
  jt_type :: jtok_type
  jt_start :: int
  jt_end :: int
  jt_size :: nat
  jt_parent :: "nat option"

definition JSON_MAX_TOKS :: nat where
  "JSON_MAX_TOKS = 512"

record jparser =
  jp_pos :: nat
  jp_toks :: "jtok list"
  jp_super :: "nat option"

definition j_blank :: "char \<Rightarrow> bool" where
  "j_blank c = (c \<in> {CHR '' '', CHR 0x09, CHR 0x0A, CHR 0x0D})"

definition upd_tok :: "nat \<Rightarrow> (jtok \<Rightarrow> jtok) \<Rightarrow> jtok list \<Rightarrow> jtok list" where
  "upd_tok i f ts = ts[i := f (ts ! i)]"

definition j_stop :: "char \<Rightarrow> bool" where
  "j_stop c = (c \<in> {CHR '','', CHR ''}'', CHR '']''} \<or> j_blank c)"

definition bump :: "jtok \<Rightarrow> jtok" where
  "bump t = t\<lparr>jt_size := jt_size t + 1\<rparr>"

text \<open>A token is appended under the open container, whose size it raises.\<close>

definition wfb_json_add :: "nat \<Rightarrow> jtok_type \<Rightarrow> int \<Rightarrow> int \<Rightarrow> jparser \<Rightarrow> jparser option" where
  "wfb_json_add cap ty s e p =
     (if length (jp_toks p) \<ge> cap then None
      else (let ts = jp_toks p @ [\<lparr> jt_type = ty, jt_start = s, jt_end = e, jt_size = 0, jt_parent = jp_super p \<rparr>]
            in Some (p\<lparr>jp_toks := (case jp_super p of None \<Rightarrow> ts | Some k \<Rightarrow> upd_tok k bump ts)\<rparr>)))"

definition wfb_json_parse_prim :: "string \<Rightarrow> nat \<Rightarrow> jparser \<Rightarrow> jparser option" where
  "wfb_json_parse_prim js cap p =
     (let w = takeWhile (\<lambda>c. \<not> j_stop c) (drop (jp_pos p) js);
          e = jp_pos p + length w
      in case wfb_json_add cap JT_PRIM (int (jp_pos p)) (int e) p of None \<Rightarrow> None | Some q \<Rightarrow> Some (q\<lparr>jp_pos := e - 1\<rparr>))"

text \<open>The position of the closing quote; an escape takes the next character with it.\<close>

fun close_quote :: "nat \<Rightarrow> string \<Rightarrow> nat option" where
  "close_quote i [] = None"
| "close_quote i [c] = (if c = CHR 0x22 then Some i else None)"
| "close_quote i (c # d # cs) =
     (if c = CHR 0x22 then Some i
      else if c = CHR 0x5C then close_quote (i + 2) cs
      else close_quote (i + 1) (d # cs))"

definition wfb_json_parse_str :: "string \<Rightarrow> nat \<Rightarrow> jparser \<Rightarrow> jparser option" where
  "wfb_json_parse_str js cap p =
     (let start = jp_pos p + 1 in
      case close_quote start (drop start js) of
        None \<Rightarrow> None
      | Some e \<Rightarrow> (case wfb_json_add cap JT_STR (int start) (int e) p of None \<Rightarrow> None | Some q \<Rightarrow> Some (q\<lparr>jp_pos := e\<rparr>)))"

definition open_tok :: "nat \<Rightarrow> jtok_type \<Rightarrow> jparser \<Rightarrow> jparser option" where
  "open_tok cap ty p =
     (case wfb_json_add cap ty (int (jp_pos p)) (- 1) p of
        None \<Rightarrow> None
      | Some q \<Rightarrow> Some (q\<lparr>jp_super := Some (length (jp_toks p))\<rparr>))"

text \<open>
  The first open container from \<open>k\<close> upwards.  Parents precede their children, so as many steps as there are tokens are
  enough; for the parser's own token lists the loop does not turn at all (\<open>open_above_here\<close>).
\<close>

fun open_above :: "nat \<Rightarrow> jtok list \<Rightarrow> nat option \<Rightarrow> nat option" where
  "open_above n ts None = None"
| "open_above 0 ts (Some k) = Some k"
| "open_above (Suc n) ts (Some k) = (if jt_end (ts ! k) \<noteq> - 1 then open_above n ts (jt_parent (ts ! k)) else Some k)"

definition close_tok :: "jtok_type \<Rightarrow> jparser \<Rightarrow> jparser option" where
  "close_tok expect p =
     (case jp_super p of
        None \<Rightarrow> None
      | Some s \<Rightarrow>
          (if jt_type (jp_toks p ! s) \<noteq> expect then None
           else let ts = upd_tok s (\<lambda>t. t\<lparr>jt_end := int (jp_pos p) + 1\<rparr>) (jp_toks p)
                in Some (p\<lparr>jp_toks := ts, jp_super := open_above (length ts) ts (jt_parent (ts ! s))\<rparr>)))"

definition json_step :: "string \<Rightarrow> nat \<Rightarrow> jparser \<Rightarrow> jparser option" where
  "json_step js cap p =
     (let c = js ! jp_pos p in
      if c = CHR ''{'' then open_tok cap JT_OBJ p
      else if c = CHR ''['' then open_tok cap JT_ARR p
      else if c = CHR ''}'' then close_tok JT_OBJ p
      else if c = CHR '']'' then close_tok JT_ARR p
      else if c = CHR 0x22 then wfb_json_parse_str js cap p
      else if j_blank c \<or> c = CHR '':'' \<or> c = CHR '','' then Some p
      else wfb_json_parse_prim js cap p)"

lemma add_pos: "wfb_json_add cap ty s e p = Some q \<Longrightarrow> jp_pos q = jp_pos p"
  by (auto simp: wfb_json_add_def Let_def split: if_splits)

lemma close_quote_ge: "close_quote i cs = Some e \<Longrightarrow> i \<le> e \<and> e < i + length cs"
  by (induction i cs rule: close_quote.induct) (auto split: if_splits)

lemma prim_length:
  assumes "i < length js" "\<not> j_stop (js ! i)"
  shows "0 < length (takeWhile (\<lambda>c. \<not> j_stop c) (drop i js))"
  using assms by (simp add: Cons_nth_drop_Suc [symmetric])

lemma step_pos:
  assumes "jp_pos p < length js" "json_step js cap p = Some q"
  shows "jp_pos p \<le> jp_pos q"
proof (cases "js ! jp_pos p \<in> {CHR ''{'', CHR ''['', CHR ''}'', CHR '']'', CHR 0x22, CHR '':'', CHR '',''} \<or> j_blank (js ! jp_pos p)")
  case True
  with assms(2) show ?thesis
    by (auto simp: json_step_def Let_def open_tok_def close_tok_def wfb_json_parse_str_def
        dest!: add_pos close_quote_ge split: if_splits option.splits)
next
  case False
  then have "0 < length (takeWhile (\<lambda>c. \<not> j_stop c) (drop (jp_pos p) js))"
    by (intro prim_length [OF assms(1)]) (simp add: j_stop_def)
  then obtain n where "length (takeWhile (\<lambda>c. \<not> j_stop c) (drop (jp_pos p) js)) = Suc n" by (metis gr0_conv_Suc)
  with False assms(2) show ?thesis
    by (auto simp: json_step_def wfb_json_parse_prim_def Let_def dest!: add_pos split: option.splits)
qed

function json_loop :: "string \<Rightarrow> nat \<Rightarrow> jparser \<Rightarrow> jparser option" where
  "json_loop js cap p =
     (if jp_pos p < length js
      then (case json_step js cap p of None \<Rightarrow> None | Some q \<Rightarrow> json_loop js cap (q\<lparr>jp_pos := jp_pos q + 1\<rparr>))
      else Some p)"
  by pat_completeness auto
termination
proof (relation "measure (\<lambda>(js, cap, p). length js - jp_pos p)")
  fix js cap p q
  assume "jp_pos p < length js" "json_step js cap p = Some q"
  from this step_pos [OF this] show "((js, cap, q\<lparr>jp_pos := jp_pos q + 1\<rparr>), js, cap, p) \<in> measure (\<lambda>(js, cap, p). length js - jp_pos p)"
    by simp
qed simp

declare json_loop.simps [simp del]

definition json_parse :: "string \<Rightarrow> nat \<Rightarrow> jtok list option" where
  "json_parse js cap =
     (case json_loop js cap \<lparr> jp_pos = 0, jp_toks = [], jp_super = None \<rparr> of
        None \<Rightarrow> None
      | Some p \<Rightarrow> if jp_super p = None then Some (jp_toks p) else None)"

section \<open>Walking the tokens\<close>

definition jeq :: "string \<Rightarrow> jtok \<Rightarrow> string \<Rightarrow> bool" where
  "jeq js t s =
     (jt_type t = JT_STR \<and> jt_end t - jt_start t = int (length s) \<and> take (length s) (drop (nat (jt_start t)) js) = s)"

definition jkids :: "jtok \<Rightarrow> nat" where
  "jkids t = (case jt_type t of JT_OBJ \<Rightarrow> 2 * (jt_size t div 2) | JT_ARR \<Rightarrow> jt_size t | _ \<Rightarrow> 0)"

text \<open>\<open>jskip\<close> and its loop over the children of a container.\<close>

function jskip :: "jtok list \<Rightarrow> nat \<Rightarrow> nat"
  and jskips :: "jtok list \<Rightarrow> nat \<Rightarrow> nat \<Rightarrow> nat" where
  "jskip ts i = (if i \<ge> length ts then length ts else jskips ts (jkids (ts ! i)) (i + 1))"
| "jskips ts 0 j = j"
| "jskips ts (Suc k) j = jskips ts k (jskip ts j)"
  by pat_completeness auto

termination
proof (relation "measures [\<lambda>x. case x of Inl (ts, i) \<Rightarrow> length ts - i | Inr (ts, k, j) \<Rightarrow> length ts - j,
    \<lambda>x. case x of Inl _ \<Rightarrow> 0 | Inr (ts, k, j) \<Rightarrow> Suc k]")
  have forward: "jskip_jskips_dom (Inl (ts, i)) \<Longrightarrow> length ts - jskip ts i \<le> length ts - i"
    "jskip_jskips_dom (Inr (ts, k, j)) \<Longrightarrow> length ts - jskips ts k j \<le> length ts - j" for ts i k j
    by (induction rule: jskip_jskips.pinduct) (auto simp: jskip.psimps jskips.psimps)
  fix ts :: "jtok list" and k j
  assume "jskip_jskips_dom (Inl (ts, j))"
  from forward(1) [OF this]
  show "(Inr (ts, k, jskip ts j), Inr (ts, Suc k, j)) \<in> measures [\<lambda>x. case x of Inl (ts, i) \<Rightarrow> length ts - i | Inr (ts, k, j) \<Rightarrow> length ts - j,
    \<lambda>x. case x of Inl _ \<Rightarrow> 0 | Inr (ts, k, j) \<Rightarrow> Suc k]" by auto
qed auto

declare jskip.simps [simp del]

text \<open>The value under a key of an object: \<open>jfind\<close> compares the keys in order.\<close>

fun jfind_pairs :: "string \<Rightarrow> jtok list \<Rightarrow> string \<Rightarrow> nat \<Rightarrow> nat \<Rightarrow> nat option" where
  "jfind_pairs js ts key 0 i = None"
| "jfind_pairs js ts key (Suc k) i =
     (if jeq js (ts ! i) key then Some (i + 1) else jfind_pairs js ts key k (jskip ts (jskip ts i)))"

definition jfind :: "string \<Rightarrow> jtok list \<Rightarrow> nat \<Rightarrow> string \<Rightarrow> nat option" where
  "jfind js ts obj key =
     (if obj \<ge> length ts \<or> jt_type (ts ! obj) \<noteq> JT_OBJ then None
      else jfind_pairs js ts key (jt_size (ts ! obj) div 2) (obj + 1))"

definition jspan :: "string \<Rightarrow> jtok \<Rightarrow> nat \<Rightarrow> string" where
  "jspan js t n = take n (drop (nat (jt_start t)) js)"

text \<open>A string token copied to a buffer of \<open>n\<close> characters: cut to fit, ended by the first NUL.\<close>

definition jstr :: "string \<Rightarrow> jtok \<Rightarrow> nat \<Rightarrow> string option" where
  "jstr js t n =
     (if jt_type t \<noteq> JT_STR then None
      else let l = jt_end t - jt_start t; l' = (if l < 0 \<or> l \<ge> int n then int n - 1 else l)
           in Some (c_str (jspan js t (nat l'))))"

definition jint :: "string \<Rightarrow> jtok \<Rightarrow> int option" where
  "jint js t =
     (let l = jt_end t - jt_start t in
      if jt_type t \<noteq> JT_PRIM \<or> l \<le> 0 \<or> l \<ge> 32 then None
      else let s = c_str (jspan js t (nat l)) in
           case strtoll s of None \<Rightarrow> (if s = [] then Some 0 else None) | Some (v, rest) \<Rightarrow> if rest = [] then Some v else None)"

definition jbool :: "string \<Rightarrow> jtok \<Rightarrow> bool option" where
  "jbool js t =
     (let l = jt_end t - jt_start t in
      if jt_type t \<noteq> JT_PRIM then None
      else if l = 4 \<and> jspan js t 4 = ''true'' then Some True
      else if l = 5 \<and> jspan js t 5 = ''false'' then Some False
      else None)"

end
