(* ===== verification/JsonTokens.thy ===== *)
theory JsonTokens
  imports GroundJson
begin

text \<open>
  The token list of an accepted text is in preorder, and every index the walking helpers of \<open>shared/wfb_json.h\<close> form is
  inside it, also for objects with an odd number of members, which the tokenizer accepts.
\<close>

section \<open>Preorder\<close>

text \<open>The flat list is a sequence of \<open>r\<close> trees in preorder: a container is followed by as many trees as its size says.\<close>

inductive forest :: "nat \<Rightarrow> jtok list \<Rightarrow> bool" where
  forest_nil: "forest 0 []"
| forest_leaf: "forest r ts \<Longrightarrow> jt_type t = JT_STR \<or> jt_type t = JT_PRIM \<Longrightarrow> jt_size t = 0 \<Longrightarrow> forest (Suc r) (t # ts)"
| forest_node: "forest (jt_size t) xs \<Longrightarrow> forest r ts \<Longrightarrow> jt_type t = JT_OBJ \<or> jt_type t = JT_ARR \<Longrightarrow> forest (Suc r) (t # xs @ ts)"

inductive_cases forest_ConsE: "forest r (t # ts)"
inductive_cases forest_SucE: "forest (Suc r) ts"

text \<open>\<open>open_forest b par r ks ts\<close>: the containers at the indices \<open>ks\<close>, outermost first, are still open and form the last
  branch of the forest \<open>ts\<close>, which starts at index \<open>b\<close> under \<open>par\<close>.\<close>

inductive open_forest :: "nat \<Rightarrow> nat option \<Rightarrow> nat \<Rightarrow> nat list \<Rightarrow> jtok list \<Rightarrow> bool" where
  open_nil: "forest r ts \<Longrightarrow> open_forest b par r [] ts"
| open_cons: "forest r xs \<Longrightarrow> jt_type t = JT_OBJ \<or> jt_type t = JT_ARR \<Longrightarrow> jt_end t = - 1 \<Longrightarrow> jt_parent t = par
    \<Longrightarrow> open_forest (b + length xs + 1) (Some (b + length xs)) (jt_size t) ks ys
    \<Longrightarrow> open_forest b par (Suc r) ((b + length xs) # ks) (xs @ t # ys)"

lemma forest_append: "forest r xs \<Longrightarrow> forest s ys \<Longrightarrow> forest (r + s) (xs @ ys)"
  by (induction rule: forest.induct) (auto intro: forest.intros)

lemma upd_tok_here: "upd_tok (length xs) f (xs @ t # ys) = xs @ f t # ys"
  by (simp add: upd_tok_def)

lemma upd_tok_there: "upd_tok (Suc (length xs + i)) f (xs @ t # ys) = xs @ t # upd_tok i f ys"
  by (simp add: upd_tok_def nth_append list_update_append)

lemma length_upd_tok [simp]: "length (upd_tok i f ts) = length ts"
  by (simp add: upd_tok_def)

lemma open_ge: "open_forest b par r ks ts \<Longrightarrow> k \<in> set ks \<Longrightarrow> b \<le> k \<and> k < b + length ts"
  by (induction rule: open_forest.induct) auto

lemma bump_fields [simp]: "jt_type (bump t) = jt_type t" "jt_end (bump t) = jt_end t" "jt_parent (bump t) = jt_parent t"
  "jt_size (bump t) = jt_size t + 1" "jt_start (bump t) = jt_start t"
  by (simp_all add: bump_def)

lemma open_add:
  assumes "open_forest b par r ks ts" "ks \<noteq> []" "forest 1 [t]"
  shows "open_forest b par r ks (upd_tok (last ks - b) bump (ts @ [t]))"
  using assms
proof (induction rule: open_forest.induct)
  case (open_cons r xs o' par b ks ys)
  show ?case
  proof (cases "ks = []")
    case True
    then have "forest (jt_size o') ys" using open_cons.hyps by (auto elim: open_forest.cases)
    then have "forest (jt_size (bump o')) (ys @ [t])" using forest_append [OF _ open_cons.prems(2)] by fastforce
    then have "open_forest (b + length xs + 1) (Some (b + length xs)) (jt_size (bump o')) ks (ys @ [t])"
      using True by (simp add: open_nil)
    then show ?thesis using open_cons.hyps True
      by (simp add: upd_tok_here) (rule open_forest.open_cons; simp)
  next
    case False
    have "b + length xs + 1 \<le> last ks" using open_ge [OF open_cons.hyps(5), of "last ks"] False by simp
    then obtain i where i: "last ks = b + length xs + 1 + i" using le_Suc_ex by blast
    have "open_forest (b + length xs + 1) (Some (b + length xs)) (jt_size o') ks (upd_tok i bump (ys @ [t]))"
      using open_cons.IH [OF False open_cons.prems(2)] i by simp
    then show ?thesis using open_cons.hyps False i
      by (simp add: upd_tok_there) (rule open_forest.open_cons; simp)
  qed
qed simp

lemma open_push:
  assumes "open_forest b par r ks ts" "forest 1 [t]" "jt_type t = JT_OBJ \<or> jt_type t = JT_ARR" "jt_end t = - 1" "jt_size t = 0"
    "jt_parent t = (if ks = [] then par else Some (last ks))"
  shows "if ks = [] then open_forest b par (Suc r) [b + length ts] (ts @ [t])
    else open_forest b par r (ks @ [b + length ts]) (upd_tok (last ks - b) bump (ts @ [t]))"
  using assms
proof (induction rule: open_forest.induct)
  case (open_nil r ts b par)
  have "open_forest (b + length ts + 1) (Some (b + length ts)) (jt_size t) [] []"
    using open_nil.prems by (simp add: open_forest.open_nil forest_nil)
  then show ?case using open_nil open_forest.open_cons [of r ts t par b "[]" "[]"] by simp
next
  case (open_cons r xs o' par b ks ys)
  show ?case
  proof (cases "ks = []")
    case True
    then have "open_forest (b + length xs + 1) (Some (b + length xs)) (Suc (jt_size o')) [b + length xs + 1 + length ys] (ys @ [t])"
      using open_cons by simp
    then show ?thesis using open_cons.hyps True
      by (simp add: upd_tok_here) (rule open_forest.open_cons; simp add: add.assoc)
  next
    case False
    have "b + length xs + 1 \<le> last ks" using open_ge [OF open_cons.hyps(5), of "last ks"] False by simp
    then obtain i where i: "last ks = b + length xs + 1 + i" using le_Suc_ex by blast
    have "open_forest (b + length xs + 1) (Some (b + length xs)) (jt_size o') (ks @ [b + length xs + 1 + length ys]) (upd_tok i bump (ys @ [t]))"
      using open_cons False i by simp
    then show ?thesis using open_cons.hyps False i
      by (simp add: upd_tok_there) (rule open_forest.open_cons; simp add: add.assoc)
  qed
qed

lemma open_pop:
  assumes "open_forest b par r ks ts" "ks = ks' @ [k]"
  shows "open_forest b par r ks' (upd_tok (k - b) (\<lambda>t. t\<lparr>jt_end := e\<rparr>) ts)"
    and "jt_parent (ts ! (k - b)) = (if ks' = [] then par else Some (last ks'))" and "k < b + length ts" "b \<le> k"
proof -
  have "open_forest b par r ks' (upd_tok (k - b) (\<lambda>t. t\<lparr>jt_end := e\<rparr>) ts)
    \<and> jt_parent (ts ! (k - b)) = (if ks' = [] then par else Some (last ks'))"
    using assms
  proof (induction arbitrary: ks' rule: open_forest.induct)
    case (open_cons r xs o' par b ks ys)
    show ?case
    proof (cases "ks = []")
      case True
      then have "forest (jt_size o') ys" using open_cons.hyps by (auto elim: open_forest.cases)
      then have "forest (Suc 0) (o'\<lparr>jt_end := e\<rparr> # ys @ [])" using open_cons.hyps by (intro forest_node forest_nil) simp_all
      then have "forest (Suc r) (xs @ o'\<lparr>jt_end := e\<rparr> # ys)" using forest_append [OF open_cons.hyps(1)] by fastforce
      moreover have "k - b = length xs" "ks' = []" using open_cons.prems True by auto
      ultimately show ?thesis using open_cons.hyps by (simp add: upd_tok_here open_nil)
    next
      case False
      then obtain ks2 where ks: "ks = ks2 @ [k]" "ks' = (b + length xs) # ks2" using open_cons.prems by (cases ks') auto
      have "b + length xs + 1 \<le> k" using open_ge [OF open_cons.hyps(5), of k] ks by simp
      then obtain i where i: "k = b + length xs + 1 + i" using le_Suc_ex by blast
      have "open_forest (b + length xs + 1) (Some (b + length xs)) (jt_size o') ks2 (upd_tok i (\<lambda>t. t\<lparr>jt_end := e\<rparr>) ys)
        \<and> jt_parent (ys ! i) = (if ks2 = [] then Some (b + length xs) else Some (last ks2))"
        using open_cons.IH [OF ks(1)] i by simp
      moreover from this have "open_forest b par (Suc r) ((b + length xs) # ks2) (xs @ o' # upd_tok i (\<lambda>t. t\<lparr>jt_end := e\<rparr>) ys)"
        by (intro open_forest.open_cons open_cons.hyps(1-4)) simp
      ultimately show ?thesis using i ks by (simp add: upd_tok_there nth_append)
    qed
  qed simp
  then show "open_forest b par r ks' (upd_tok (k - b) (\<lambda>t. t\<lparr>jt_end := e\<rparr>) ts)"
    "jt_parent (ts ! (k - b)) = (if ks' = [] then par else Some (last ks'))" by simp_all
  show "k < b + length ts" "b \<le> k" using open_ge [OF assms(1), of k] assms(2) by simp_all
qed

lemma open_end: "open_forest b par r ks ts \<Longrightarrow> k \<in> set ks \<Longrightarrow> jt_end (ts ! (k - b)) = - 1"
proof (induction rule: open_forest.induct)
  case (open_cons r xs o' par b ks ys)
  show ?case
  proof (cases "k = b + length xs")
    case False
    then have "b + length xs + 1 \<le> k" using open_ge [OF open_cons.hyps(5), of k] open_cons.prems by simp
    then obtain i where i: "k = b + length xs + 1 + i" using le_Suc_ex by blast
    have "k \<in> set ks" using False open_cons.prems by simp
    from open_cons.IH [OF this] show ?thesis by (simp add: i nth_append)
  qed (simp add: open_cons.hyps)
qed simp

definition par_of :: "nat list \<Rightarrow> nat option" where
  "par_of ks = (if ks = [] then None else Some (last ks))"

definition jp_ok :: "nat \<Rightarrow> jparser \<Rightarrow> nat list \<Rightarrow> bool" where
  "jp_ok cap p ks = (length (jp_toks p) \<le> cap \<and> jp_super p = par_of ks \<and> (\<exists>r. open_forest 0 None r ks (jp_toks p)))"

lemma open_above_here: "jt_end (ts ! k) = - 1 \<Longrightarrow> open_above n ts (Some k) = Some k"
  by (cases n) simp_all

lemma forest_one: "jt_type t \<noteq> JT_NONE \<Longrightarrow> jt_size t = 0 \<Longrightarrow> forest 1 [t]"
  using forest_leaf [OF forest_nil, of t] forest_node [of t "[]", OF _ forest_nil] forest_nil by (cases "jt_type t") auto

lemma add_ok:
  assumes "jp_ok cap p ks" "wfb_json_add cap ty s e p = Some q" "ty \<noteq> JT_NONE"
  shows "jp_ok cap q ks"
proof -
  obtain r where o: "open_forest 0 None r ks (jp_toks p)" "jp_super p = par_of ks" using assms(1) by (auto simp: jp_ok_def)
  define t where "t = \<lparr>jt_type = ty, jt_start = s, jt_end = e, jt_size = 0, jt_parent = jp_super p\<rparr>"
  have f: "forest 1 [t]" by (rule forest_one) (simp_all add: t_def assms(3))
  have q: "q = p\<lparr>jp_toks := (case jp_super p of None \<Rightarrow> jp_toks p @ [t] | Some k \<Rightarrow> upd_tok k bump (jp_toks p @ [t]))\<rparr>"
      "length (jp_toks p) < cap"
    using assms(2) unfolding wfb_json_add_def Let_def t_def [symmetric] by (auto split: if_splits)
  show ?thesis
  proof (cases "ks = []")
    case True
    then have "forest r (jp_toks p)" using o(1) by (auto elim: open_forest.cases)
    then have "forest (r + 1) (jp_toks p @ [t])" by (rule forest_append [OF _ f])
    then show ?thesis using True q o(2) by (auto simp: jp_ok_def par_of_def intro!: exI open_nil)
  next
    case False
    from open_add [OF o(1) False f] show ?thesis using False q o(2) by (auto simp: jp_ok_def par_of_def)
  qed
qed

lemma open_ok:
  assumes "jp_ok cap p ks" "open_tok cap ty p = Some q" "ty = JT_OBJ \<or> ty = JT_ARR"
  shows "\<exists>ks'. jp_ok cap q ks'"
proof -
  obtain r where o: "open_forest 0 None r ks (jp_toks p)" "jp_super p = par_of ks" using assms(1) by (auto simp: jp_ok_def)
  define t where "t = \<lparr>jt_type = ty, jt_start = int (jp_pos p), jt_end = - 1, jt_size = 0, jt_parent = jp_super p\<rparr>"
  have f: "forest 1 [t]" using assms(3) by (intro forest_one) (auto simp: t_def)
  have q: "jp_toks q = (case jp_super p of None \<Rightarrow> jp_toks p @ [t] | Some k \<Rightarrow> upd_tok k bump (jp_toks p @ [t]))"
      "jp_super q = Some (length (jp_toks p))" "length (jp_toks p) < cap"
    using assms(2) unfolding open_tok_def wfb_json_add_def Let_def t_def [symmetric] by (auto split: if_splits)
  have "if ks = [] then open_forest 0 None (Suc r) [0 + length (jp_toks p)] (jp_toks p @ [t])
    else open_forest 0 None r (ks @ [0 + length (jp_toks p)]) (upd_tok (last ks - 0) bump (jp_toks p @ [t]))"
    using assms(3) o(2) by (intro open_push [OF o(1) f]) (auto simp: t_def par_of_def)
  then have "jp_ok cap q (ks @ [length (jp_toks p)])"
    using q o(2) by (auto simp: jp_ok_def par_of_def split: if_splits)
  then show ?thesis by blast
qed

lemma close_ok:
  assumes "jp_ok cap p ks" "close_tok ty p = Some q"
  shows "\<exists>ks'. jp_ok cap q ks'"
proof -
  obtain r where o: "open_forest 0 None r ks (jp_toks p)" "jp_super p = par_of ks" "length (jp_toks p) \<le> cap"
    using assms(1) by (auto simp: jp_ok_def)
  have "ks \<noteq> []" using assms(2) o(2) by (auto simp: close_tok_def par_of_def)
  then obtain ks' k where ks: "ks = ks' @ [k]" by (metis append_butlast_last_id)
  define ts where "ts = upd_tok k (\<lambda>t. t\<lparr>jt_end := int (jp_pos p) + 1\<rparr>) (jp_toks p)"
  note pop = open_pop [OF o(1) ks]
  have f: "open_forest 0 None r ks' ts" using pop(1) [of "int (jp_pos p) + 1"] by (simp add: ts_def)
  have par: "jt_parent (ts ! k) = par_of ks'" using pop(2,3) by (simp add: ts_def upd_tok_def par_of_def)
  have "open_above (length ts) ts (par_of ks') = par_of ks'"
  proof (cases "ks' = []")
    case False
    from open_end [OF f last_in_set [OF False]] show ?thesis by (simp add: par_of_def False open_above_here)
  qed (simp add: par_of_def)
  then have "q = p\<lparr>jp_toks := ts, jp_super := par_of ks'\<rparr>"
    using assms(2) o(2) par by (simp add: close_tok_def par_of_def ks ts_def split: if_splits)
  then have "jp_ok cap q ks'" using f o(3) by (auto simp: jp_ok_def ts_def)
  then show ?thesis by blast
qed

lemma jp_ok_pos: "jp_ok cap (p\<lparr>jp_pos := i\<rparr>) ks = jp_ok cap p ks"
  by (simp add: jp_ok_def)

lemma if_some: "(if c then a else b) = Some q \<Longrightarrow> (a = Some q \<Longrightarrow> P) \<Longrightarrow> (b = Some q \<Longrightarrow> P) \<Longrightarrow> P"
  by (cases c) simp_all

lemma json_step_ok:
  assumes "jp_ok cap p ks" "json_step js cap p = Some q"
  shows "\<exists>ks'. jp_ok cap q ks'"
  using assms(2) unfolding json_step_def Let_def
proof (elim if_some)
  assume "wfb_json_parse_str js cap p = Some q"
  then show ?thesis using add_ok [OF assms(1)]
    by (auto simp: wfb_json_parse_str_def Let_def jp_ok_pos intro!: exI [of _ ks] split: option.splits)
next
  assume "wfb_json_parse_prim js cap p = Some q"
  then show ?thesis using add_ok [OF assms(1)]
    by (auto simp: wfb_json_parse_prim_def Let_def jp_ok_pos intro!: exI [of _ ks] split: option.splits)
next
  assume "open_tok cap JT_OBJ p = Some q"
  then show ?thesis by (rule open_ok [OF assms(1)]) simp
next
  assume "open_tok cap JT_ARR p = Some q"
  then show ?thesis by (rule open_ok [OF assms(1)]) simp
next
  assume "close_tok JT_OBJ p = Some q"
  then show ?thesis by (rule close_ok [OF assms(1)])
next
  assume "close_tok JT_ARR p = Some q"
  then show ?thesis by (rule close_ok [OF assms(1)])
next
  assume "Some p = Some q"
  then show ?thesis using assms(1) by auto
qed

lemma loop_ok: "json_loop js cap p = Some q \<Longrightarrow> jp_ok cap p ks \<Longrightarrow> \<exists>ks'. jp_ok cap q ks'"
proof (induction js cap p arbitrary: ks rule: json_loop.induct)
  case (1 js cap p)
  show ?case
  proof (cases "jp_pos p < length js")
    case True
    then obtain p1 where s: "json_step js cap p = Some p1" and l: "json_loop js cap (p1\<lparr>jp_pos := jp_pos p1 + 1\<rparr>) = Some q"
      using "1.prems"(1) by (auto simp: json_loop.simps [of js cap p] split: option.splits)
    obtain ks1 where "jp_ok cap p1 ks1" using json_step_ok [OF "1.prems"(2) s] by blast
    then show ?thesis using "1.IH" [OF True s l] by (simp add: jp_ok_pos)
  next
    case False
    then show ?thesis using 1 by (auto simp: json_loop.simps [of js cap p])
  qed
qed

lemma parse_forest:
  assumes "json_parse js cap = Some ts"
  shows "length ts \<le> cap \<and> (\<exists>r. forest r ts)"
proof -
  obtain p where p: "json_loop js cap \<lparr> jp_pos = 0, jp_toks = [], jp_super = None \<rparr> = Some p" "jp_super p = None" "jp_toks p = ts"
    using assms by (auto simp: json_parse_def split: option.splits if_splits)
  have "jp_ok cap \<lparr> jp_pos = 0, jp_toks = [], jp_super = None \<rparr> []"
    by (auto simp: jp_ok_def par_of_def intro!: exI [of _ 0] open_nil forest_nil)
  then obtain ks where ok: "jp_ok cap p ks" using loop_ok [OF p(1)] by blast
  then have "ks = []" using p(2) by (auto simp: jp_ok_def par_of_def split: if_splits)
  then show ?thesis using ok p(3) by (auto simp: jp_ok_def elim: open_forest.cases)
qed

section \<open>Walking stays inside\<close>

lemma forest_tail:
  assumes "forest (Suc r) (t # ts)"
  shows "\<exists>s. forest (s + r) ts \<and> jkids t \<le> s"
  using assms
proof (rule forest_ConsE)
  fix r' assume "Suc r = Suc r'" "forest r' ts" "jt_type t = JT_STR \<or> jt_type t = JT_PRIM"
  then show ?thesis by (intro exI [of _ 0]) (auto simp: jkids_def)
next
  fix xs r' ys
  assume *: "Suc r = Suc r'" "ts = xs @ ys" "forest (jt_size t) xs" "forest r' ys" "jt_type t = JT_OBJ \<or> jt_type t = JT_ARR"
  then have "forest (jt_size t + r) ts" by (simp add: forest_append)
  then show ?thesis using * by (intro exI [of _ "jt_size t"]) (auto simp: jkids_def)
qed

lemma skip_forest:
  "forest (Suc r) (drop i ts) \<Longrightarrow> jskip ts i \<le> length ts \<and> (\<exists>s. forest (s + r) (drop (jskip ts i) ts))"
  "forest (k + r) (drop j ts) \<Longrightarrow> j \<le> length ts \<Longrightarrow> jskips ts k j \<le> length ts \<and> (\<exists>s. forest (s + r) (drop (jskips ts k j) ts))"
proof (induction ts i and ts k j arbitrary: r and r rule: jskip_jskips.induct [case_names skip none kids])
  case (skip ts i)
  have "drop i ts \<noteq> []" using skip.prems by (auto elim: forest.cases)
  then have i: "i < length ts" by simp
  then have d: "drop i ts = ts ! i # drop (Suc i) ts" by (simp add: Cons_nth_drop_Suc)
  obtain s where s: "forest (s + r) (drop (Suc i) ts)" "jkids (ts ! i) \<le> s" using forest_tail [OF skip.prems [unfolded d]] by blast
  then have "forest (jkids (ts ! i) + (s - jkids (ts ! i) + r)) (drop (i + 1) ts)" by simp
  from skip.IH [OF _ this] i obtain s' where "jskips ts (jkids (ts ! i)) (i + 1) \<le> length ts"
    "forest (s' + (s - jkids (ts ! i) + r)) (drop (jskips ts (jkids (ts ! i)) (i + 1)) ts)" by auto
  then show ?case using i by (simp add: jskip.simps [of ts i] add.assoc [symmetric]) blast
next
  case (none ts j)
  then show ?case by (intro conjI exI [of _ 0]) simp_all
next
  case (kids ts k j)
  then have "forest (Suc (k + r)) (drop j ts)" by simp
  from kids.IH(1) [OF this] obtain s where s: "jskip ts j \<le> length ts" "forest (s + (k + r)) (drop (jskip ts j) ts)" by blast
  then have "forest (k + (s + r)) (drop (jskip ts j) ts)" by (simp add: ac_simps)
  from kids.IH(2) [OF this s(1)] show ?case by (simp add: add.assoc [symmetric]) blast
qed

lemma forest_drop: "forest r ts \<Longrightarrow> i < length ts \<Longrightarrow> \<exists>r'. forest (Suc r') (drop i ts)"
proof (induction i)
  case 0
  then have "r \<noteq> 0" by (auto elim: forest.cases)
  then show ?case using 0 by (metis drop0 not0_implies_Suc)
next
  case (Suc i)
  then obtain r' where r': "forest (Suc r') (drop i ts)" by auto
  have d: "drop i ts = ts ! i # drop (Suc i) ts" using Suc.prems by (simp add: Cons_nth_drop_Suc)
  obtain s where s: "forest (s + r') (drop (Suc i) ts)" using forest_tail [OF r' [unfolded d]] by blast
  then have "s + r' \<noteq> 0" using Suc.prems by (cases "s + r'") (auto elim: forest.cases)
  then show ?case using s by (metis not0_implies_Suc)
qed

lemma kid_inside:
  assumes "forest r ts" "i < length ts" "m < jkids (ts ! i)"
  shows "jskips ts m (i + 1) < length ts"
proof -
  obtain r' where r': "forest (Suc r') (drop i ts)" using forest_drop [OF assms(1,2)] by blast
  have d: "drop i ts = ts ! i # drop (Suc i) ts" using assms(2) by (simp add: Cons_nth_drop_Suc)
  obtain s where s: "forest (s + r') (drop (Suc i) ts)" "jkids (ts ! i) \<le> s" using forest_tail [OF r' [unfolded d]] by blast
  then have "forest (m + (Suc (s - Suc m) + r')) (drop (i + 1) ts)" using assms(3) by simp
  from skip_forest(2) [OF this] assms(2) obtain s' where
    "forest (s' + (Suc (s - Suc m) + r')) (drop (jskips ts m (i + 1)) ts)" by auto
  then have "drop (jskips ts m (i + 1)) ts \<noteq> []" by (auto elim: forest.cases)
  then show ?thesis by simp
qed

lemma jskips_add: "jskips ts (m + k) j = jskips ts k (jskips ts m j)"
  by (induction m arbitrary: j) simp_all

lemma jfind_pairs_at:
  "jfind_pairs js ts key k i = Some v \<Longrightarrow> \<exists>m < k. v = jskips ts (2 * m) i + 1 \<and> jeq js (ts ! (v - 1)) key"
proof (induction k arbitrary: i)
  case (Suc k)
  show ?case
  proof (cases "jeq js (ts ! i) key")
    case True
    then show ?thesis using Suc.prems by (intro exI [of _ 0]) auto
  next
    case False
    then have "jfind_pairs js ts key k (jskip ts (jskip ts i)) = Some v" using Suc.prems by simp
    from Suc.IH [OF this] obtain m where "m < k" "v = jskips ts (2 * m) (jskip ts (jskip ts i)) + 1" "jeq js (ts ! (v - 1)) key"
      by blast
    then show ?thesis by (intro exI [of _ "Suc m"]) simp
  qed
qed simp

lemma find_inside:
  assumes "forest r ts" "jfind js ts obj key = Some v"
  shows "v < length ts" "0 < v" "jeq js (ts ! (v - 1)) key"
proof -
  have o: "obj < length ts" "jt_type (ts ! obj) = JT_OBJ" using assms(2) by (auto simp: jfind_def split: if_splits)
  have "jfind_pairs js ts key (jt_size (ts ! obj) div 2) (obj + 1) = Some v" using assms(2) by (simp add: jfind_def split: if_splits)
  from jfind_pairs_at [OF this] obtain m where m: "m < jt_size (ts ! obj) div 2" "v = jskips ts (2 * m) (obj + 1) + 1" "jeq js (ts ! (v - 1)) key"
    by blast
  have k: "2 * m + 1 < jkids (ts ! obj)" using m(1) o(2) by (simp add: jkids_def)
  have key: "jskips ts (2 * m) (obj + 1) < length ts" using kid_inside [OF assms(1) o(1)] k by simp
  have "jkids (ts ! jskips ts (2 * m) (obj + 1)) = 0" using m(2,3) by (simp add: jkids_def jeq_def)
  then have "jskips ts (2 * m + Suc 0) (obj + 1) = v" using key m(2) by (simp only: jskips_add jskips.simps) (simp add: jskip.simps)
  then show "v < length ts" using kid_inside [OF assms(1) o(1) k] by simp
  show "0 < v" "jeq js (ts ! (v - 1)) key" using m by simp_all
qed

section \<open>Spans\<close>

definition span_ok :: "string \<Rightarrow> jtok \<Rightarrow> bool" where
  "span_ok js t = (0 \<le> jt_start t \<and> jt_start t \<le> int (length js)
     \<and> (jt_type t = JT_STR \<or> jt_type t = JT_PRIM \<longrightarrow> jt_start t \<le> jt_end t \<and> jt_end t \<le> int (length js)))"

lemma span_upd: "list_all (span_ok js) ts \<Longrightarrow> (\<And>t. span_ok js t \<Longrightarrow> span_ok js (f t)) \<Longrightarrow> i < length ts \<Longrightarrow> list_all (span_ok js) (upd_tok i f ts)"
  by (auto simp: upd_tok_def list_all_iff dest!: set_update_subset_insert [THEN subsetD])

lemma super_inside:
  assumes "jp_ok cap p ks" "jp_super p = Some k"
  shows "k < length (jp_toks p)"
proof -
  obtain r where o: "open_forest 0 None r ks (jp_toks p)" "par_of ks = Some k" using assms by (auto simp: jp_ok_def)
  then have "k \<in> set ks" by (auto simp: par_of_def split: if_splits)
  from open_ge [OF o(1) this] show ?thesis by simp
qed

lemma add_spans:
  assumes "list_all (span_ok js) (jp_toks p)" "jp_ok cap p ks" "wfb_json_add cap ty s e p = Some q"
    "0 \<le> s" "s \<le> int (length js)" "ty = JT_STR \<or> ty = JT_PRIM \<Longrightarrow> s \<le> e \<and> e \<le> int (length js)"
  shows "list_all (span_ok js) (jp_toks q)"
proof -
  define t where "t = \<lparr>jt_type = ty, jt_start = s, jt_end = e, jt_size = 0, jt_parent = jp_super p\<rparr>"
  have "span_ok js t" using assms(4-6) by (simp add: span_ok_def t_def)
  then have l: "list_all (span_ok js) (jp_toks p @ [t])" using assms(1) by simp
  have b: "span_ok js t \<Longrightarrow> span_ok js (bump t)" for t by (simp add: span_ok_def)
  have q: "jp_toks q = (case jp_super p of None \<Rightarrow> jp_toks p @ [t] | Some k \<Rightarrow> upd_tok k bump (jp_toks p @ [t]))"
    using assms(3) unfolding wfb_json_add_def Let_def t_def [symmetric] by (auto split: if_splits)
  have "k < length (jp_toks p @ [t])" if "jp_super p = Some k" for k
    using super_inside [OF assms(2) that] by simp
  then show ?thesis using l q span_upd [OF l b] by (simp split: option.split)
qed

lemma close_quote_bound: "close_quote i (drop i js) = Some e \<Longrightarrow> int i \<le> int e \<and> int e \<le> int (length js)"
  using close_quote_ge [of i "drop i js" e] by (cases "i \<le> length js") auto

lemma step_spans:
  assumes "list_all (span_ok js) (jp_toks p)" "jp_ok cap p ks" "jp_pos p < length js" "json_step js cap p = Some q"
  shows "list_all (span_ok js) (jp_toks q)"
proof -
  have pos: "0 \<le> int (jp_pos p)" "int (jp_pos p) \<le> int (length js)" using assms(3) by simp_all
  have op: "list_all (span_ok js) (jp_toks q)" if ot: "open_tok cap ty p = Some q" "ty = JT_OBJ \<or> ty = JT_ARR" for ty
  proof -
    obtain r where r: "wfb_json_add cap ty (int (jp_pos p)) (- 1) p = Some r" "jp_toks q = jp_toks r"
    proof (cases "wfb_json_add cap ty (int (jp_pos p)) (- 1) p")
      case None
      then show thesis using ot(1) by (simp add: open_tok_def)
    next
      case (Some r)
      then have "q = r\<lparr>jp_super := Some (length (jp_toks p))\<rparr>" using ot(1) by (simp add: open_tok_def)
      then show thesis using Some by (intro that) simp_all
    qed
    show ?thesis unfolding r(2) by (rule add_spans [OF assms(1,2) r(1) pos]) (use ot(2) in auto)
  qed
  have cl: "list_all (span_ok js) (jp_toks q)" if ct: "close_tok ty p = Some q" "ty = JT_OBJ \<or> ty = JT_ARR" for ty
  proof -
    obtain s where s: "jp_super p = Some s" using ct(1) by (auto simp: close_tok_def split: option.splits)
    then have ty: "jt_type (jp_toks p ! s) = ty"
      and q: "jp_toks q = upd_tok s (\<lambda>t. t\<lparr>jt_end := int (jp_pos p) + 1\<rparr>) (jp_toks p)"
      using ct(1) by (auto simp: close_tok_def Let_def split: if_splits)
    have "s < length (jp_toks p)" by (rule super_inside [OF assms(2) s])
    then have "span_ok js (jp_toks p ! s)" using assms(1) by (simp add: list_all_length)
    then have "span_ok js ((jp_toks p ! s)\<lparr>jt_end := int (jp_pos p) + 1\<rparr>)" using ty ct(2) by (auto simp: span_ok_def)
    then show ?thesis using assms(1) unfolding q upd_tok_def
      by (auto simp: list_all_iff dest!: set_update_subset_insert [THEN subsetD])
  qed
  show ?thesis using assms(4) unfolding json_step_def Let_def
  proof (elim if_some)
    assume "wfb_json_parse_str js cap p = Some q"
    then obtain e r where e: "close_quote (jp_pos p + 1) (drop (jp_pos p + 1) js) = Some e"
      "wfb_json_add cap JT_STR (int (jp_pos p + 1)) (int e) p = Some r" "jp_toks q = jp_toks r"
      by (auto simp: wfb_json_parse_str_def Let_def split: option.splits)
    show ?thesis unfolding e(3)
      by (rule add_spans [OF assms(1,2) e(2)]) (use close_quote_bound [OF e(1)] assms(3) in auto)
  next
    assume "wfb_json_parse_prim js cap p = Some q"
    then obtain n r where n: "n = length (takeWhile (\<lambda>c. \<not> j_stop c) (drop (jp_pos p) js))"
      "wfb_json_add cap JT_PRIM (int (jp_pos p)) (int (jp_pos p + n)) p = Some r" "jp_toks q = jp_toks r"
      by (auto simp: wfb_json_parse_prim_def Let_def split: option.splits)
    have "n \<le> length (drop (jp_pos p) js)" unfolding n(1) by (rule length_takeWhile_le)
    then show ?thesis unfolding n(3) by (intro add_spans [OF assms(1,2) n(2)]) (use assms(3) in auto)
  qed (use assms(1) op cl in auto)
qed

lemma loop_spans:
  "json_loop js cap p = Some q \<Longrightarrow> jp_ok cap p ks \<Longrightarrow> list_all (span_ok js) (jp_toks p) \<Longrightarrow> list_all (span_ok js) (jp_toks q)"
proof (induction js cap p arbitrary: ks rule: json_loop.induct)
  case (1 js cap p)
  show ?case
  proof (cases "jp_pos p < length js")
    case True
    then obtain p1 where s: "json_step js cap p = Some p1" and l: "json_loop js cap (p1\<lparr>jp_pos := jp_pos p1 + 1\<rparr>) = Some q"
      using "1.prems"(1) by (auto simp: json_loop.simps [of js cap p] split: option.splits)
    obtain ks1 where "jp_ok cap p1 ks1" using json_step_ok [OF "1.prems"(2) s] by blast
    then show ?thesis using "1.IH" [OF True s l] step_spans [OF "1.prems"(3,2) True s] by (simp add: jp_ok_pos)
  next
    case False
    then show ?thesis using 1 by (auto simp: json_loop.simps [of js cap p])
  qed
qed

lemma parse_spans:
  assumes "json_parse js cap = Some ts"
  shows "list_all (span_ok js) ts"
proof -
  obtain p where p: "json_loop js cap \<lparr> jp_pos = 0, jp_toks = [], jp_super = None \<rparr> = Some p" "jp_toks p = ts"
    using assms by (auto simp: json_parse_def split: option.splits if_splits)
  have "jp_ok cap \<lparr> jp_pos = 0, jp_toks = [], jp_super = None \<rparr> []"
    by (auto simp: jp_ok_def par_of_def intro!: exI [of _ 0] open_nil forest_nil)
  from loop_spans [OF p(1) this] show ?thesis using p(2) by simp
qed

text \<open>C18: the JSON reader stays inside its text and its token array.  Whatever text the tokenizer accepts, it used at most the
  tokens it has; skipping a token ends inside or right behind the array; every child it visits and every value it finds
  under a key is a token, the latter right behind a string token that equals the key; and what is read of a string or a
  primitive lies in the text.\<close>

theorem token_walk_safe:
  assumes "json_parse js cap = Some ts"
  shows "length ts \<le> cap
    \<and> (\<forall>i < length ts. jskip ts i \<le> length ts \<and> (\<forall>m < jkids (ts ! i). jskips ts m (i + 1) < length ts)
         \<and> (jt_type (ts ! i) \<in> {JT_STR, JT_PRIM} \<longrightarrow> 0 \<le> jt_start (ts ! i) \<and> jt_start (ts ! i) \<le> jt_end (ts ! i)
              \<and> jt_end (ts ! i) \<le> int (length js)))
    \<and> (\<forall>obj key v. jfind js ts obj key = Some v \<longrightarrow> 0 < v \<and> v < length ts \<and> jeq js (ts ! (v - 1)) key)"
proof -
  obtain r where r: "length ts \<le> cap" "forest r ts" using parse_forest [OF assms] by blast
  have "jskip ts i \<le> length ts" if "i < length ts" for i
    using forest_drop [OF r(2) that] skip_forest(1) by blast
  moreover have "span_ok js (ts ! i)" if "i < length ts" for i using parse_spans [OF assms] that by (simp add: list_all_length)
  ultimately show ?thesis using r kid_inside [OF r(2)] find_inside [OF r(2)] by (auto simp: span_ok_def)
qed

definition demo_text :: string where
  "demo_text = ''{\"a\":[1,\"b\"], \"c\":true}''"

lemma demo_text_parse:
  "json_parse demo_text 8 = Some [
     \<lparr> jt_type = JT_OBJ, jt_start = 0, jt_end = 23, jt_size = 4, jt_parent = None \<rparr>,
     \<lparr> jt_type = JT_STR, jt_start = 2, jt_end = 3, jt_size = 0, jt_parent = Some 0 \<rparr>,
     \<lparr> jt_type = JT_ARR, jt_start = 5, jt_end = 12, jt_size = 2, jt_parent = Some 0 \<rparr>,
     \<lparr> jt_type = JT_PRIM, jt_start = 6, jt_end = 7, jt_size = 0, jt_parent = Some 2 \<rparr>,
     \<lparr> jt_type = JT_STR, jt_start = 9, jt_end = 10, jt_size = 0, jt_parent = Some 2 \<rparr>,
     \<lparr> jt_type = JT_STR, jt_start = 15, jt_end = 16, jt_size = 0, jt_parent = Some 0 \<rparr>,
     \<lparr> jt_type = JT_PRIM, jt_start = 18, jt_end = 22, jt_size = 0, jt_parent = Some 0 \<rparr>]"
  by (simp add: json_parse_def json_loop.simps json_step_def demo_text_def open_tok_def close_tok_def wfb_json_add_def
      wfb_json_parse_str_def wfb_json_parse_prim_def upd_tok_def bump_def j_blank_def j_stop_def Let_def)

theorem token_walk_safe_witness:
  "\<exists>ts. json_parse demo_text 8 = Some ts \<and> length ts = 7 \<and> jskip ts 2 \<le> 7 \<and> jskips ts 1 3 < 7"
proof -
  obtain ts where ts: "json_parse demo_text 8 = Some ts" "length ts = 7" "jkids (ts ! 2) = 2"
    using demo_text_parse by (simp add: jkids_def)
  have "2 < length ts" "1 < jkids (ts ! 2)" using ts(2,3) by simp_all
  then have "jskip ts 2 \<le> length ts \<and> jskips ts 1 (2 + 1) < length ts" using token_walk_safe [OF ts(1)] by blast
  then show ?thesis using ts(1,2) by (intro exI [of _ ts]) simp
qed

end
