(* ===== verification/JsonRead.thy ===== *)
theory JsonRead
  imports JsonTokens
begin

text \<open>
  What the reader of \<open>shared/wfb_json.h\<close> makes of a text that spells a document: the tokens stand for the document, and
  looking up a key finds its first value.
\<close>

section \<open>Documents\<close>

text \<open>A JSON document as a tree; strings are kept as they are written, escapes included.\<close>

datatype jval = JStr string | JPrim string | JArr "jval list" | JObj "(string \<times> jval) list"

fun str_body :: "string \<Rightarrow> bool" where
  "str_body [] = True"
| "str_body [c] = (c \<noteq> CHR 0x22 \<and> c \<noteq> CHR 0x5C)"
| "str_body (c # d # cs) = (if c = CHR 0x5C then str_body cs else c \<noteq> CHR 0x22 \<and> str_body (d # cs))"

definition prim_body :: "string \<Rightarrow> bool" where
  "prim_body s = (s \<noteq> [] \<and> (\<forall>c \<in> set s. \<not> j_stop c) \<and> hd s \<notin> {CHR ''{'', CHR ''['', CHR 0x22, CHR '':''})"

definition j_skip :: "char \<Rightarrow> bool" where
  "j_skip c = (j_blank c \<or> c = CHR '':'' \<or> c = CHR '','')"

definition is_prim :: "jval \<Rightarrow> bool" where
  "is_prim v = (case v of JPrim _ \<Rightarrow> True | _ \<Rightarrow> False)"

definition members :: "(string \<times> jval) list \<Rightarrow> jval list" where
  "members kvs = concat (map (\<lambda>(k, v). [JStr k, v]) kvs)"

text \<open>The texts that spell a document: any blanks, colons and commas between the parts; a primitive ends at a blank, a
  comma or a closing bracket.\<close>

inductive spells :: "jval \<Rightarrow> string \<Rightarrow> bool" and items :: "jval list \<Rightarrow> string \<Rightarrow> bool" where
  spells_str: "str_body s \<Longrightarrow> spells (JStr s) (quoted s)"
| spells_prim: "prim_body s \<Longrightarrow> spells (JPrim s) s"
| spells_arr: "items vs x \<Longrightarrow> spells (JArr vs) (CHR ''['' # x @ [CHR '']''])"
| spells_obj: "items (members kvs) x \<Longrightarrow> spells (JObj kvs) (CHR ''{'' # x @ [CHR ''}''])"
| items_nil: "list_all j_skip sep \<Longrightarrow> items [] sep"
| items_cons: "list_all j_skip sep \<Longrightarrow> spells v x \<Longrightarrow> items vs y \<Longrightarrow> (is_prim v \<Longrightarrow> y = [] \<or> j_stop (hd y)) \<Longrightarrow> items (v # vs) (sep @ x @ y)"

primrec tok_count :: "jval \<Rightarrow> nat" where
  "tok_count (JStr s) = 1"
| "tok_count (JPrim s) = 1"
| "tok_count (JArr vs) = 1 + sum_list (map tok_count vs)"
| "tok_count (JObj kvs) = 1 + sum_list (map (\<lambda>(k, n). 1 + n) (map (map_prod id tok_count) kvs))"

lemma members_count: "sum_list (map tok_count (members kvs)) = sum_list (map (\<lambda>(k, n). 1 + n) (map (map_prod id tok_count) kvs))"
  by (induction kvs) (auto simp: members_def)

text \<open>The token at index \<open>i\<close> stands for a document: its span is the string, its children are found by index or key.\<close>

inductive stands :: "string \<Rightarrow> jtok list \<Rightarrow> nat \<Rightarrow> jval \<Rightarrow> bool" for js ts where
  stands_str: "i < length ts \<Longrightarrow> jt_type (ts ! i) = JT_STR \<Longrightarrow> jt_end (ts ! i) = jt_start (ts ! i) + int (length s)
    \<Longrightarrow> jspan js (ts ! i) (length s) = s \<Longrightarrow> stands js ts i (JStr s)"
| stands_prim: "i < length ts \<Longrightarrow> jt_type (ts ! i) = JT_PRIM \<Longrightarrow> jt_end (ts ! i) = jt_start (ts ! i) + int (length s)
    \<Longrightarrow> jspan js (ts ! i) (length s) = s \<Longrightarrow> stands js ts i (JPrim s)"
| stands_arr: "i < length ts \<Longrightarrow> jt_type (ts ! i) = JT_ARR \<Longrightarrow> jt_size (ts ! i) = length vs
    \<Longrightarrow> (\<And>m. m < length vs \<Longrightarrow> stands js ts (jskips ts m (i + 1)) (vs ! m)) \<Longrightarrow> stands js ts i (JArr vs)"
| stands_obj: "i < length ts \<Longrightarrow> jt_type (ts ! i) = JT_OBJ
    \<Longrightarrow> (\<And>key. map_of kvs key = None \<Longrightarrow> jfind js ts i key = None)
    \<Longrightarrow> (\<And>key v. map_of kvs key = Some v \<Longrightarrow> \<exists>j. jfind js ts i key = Some j \<and> stands js ts j v)
    \<Longrightarrow> stands js ts i (JObj kvs)"

section \<open>One document under the reader\<close>

definition attach :: "nat option \<Rightarrow> nat \<Rightarrow> jtok list \<Rightarrow> jtok list" where
  "attach par n ts = (case par of None \<Rightarrow> ts | Some k \<Rightarrow> upd_tok k (\<lambda>t. t\<lparr>jt_size := jt_size t + n\<rparr>) ts)"

text \<open>Reading \<open>l\<close> characters at \<open>p\<close> appends \<open>new\<close>, of which \<open>n\<close> are children of the open container.\<close>

definition reads :: "string \<Rightarrow> nat \<Rightarrow> jparser \<Rightarrow> nat \<Rightarrow> nat \<Rightarrow> jtok list \<Rightarrow> bool" where
  "reads js cap p l n new = (json_loop js cap p
     = json_loop js cap (p\<lparr>jp_toks := attach (jp_super p) n (jp_toks p @ new), jp_pos := jp_pos p + l\<rparr>))"

definition has_block :: "nat \<Rightarrow> jtok list \<Rightarrow> jtok list \<Rightarrow> bool" where
  "has_block k new ts = (take (length new) (drop k ts) = new)"

definition tok_settled :: "string \<Rightarrow> nat \<Rightarrow> jtok list \<Rightarrow> jval \<Rightarrow> bool" where
  "tok_settled js k new v = (\<forall>ts. has_block k new ts \<longrightarrow> stands js ts k v \<and> jskip ts k = k + length new)"

definition settled_all :: "string \<Rightarrow> nat \<Rightarrow> jtok list \<Rightarrow> jval list \<Rightarrow> bool" where
  "settled_all js k new vs = (\<forall>ts. has_block k new ts
     \<longrightarrow> (\<forall>m < length vs. stands js ts (jskips ts m k) (vs ! m)) \<and> jskips ts (length vs) k = k + length new)"

definition super_open :: "jparser \<Rightarrow> bool" where
  "super_open p = (case jp_super p of None \<Rightarrow> True | Some k \<Rightarrow> k < length (jp_toks p) \<and> jt_end (jp_toks p ! k) = - 1)"

lemma loop_step:
  "jp_pos p < length js \<Longrightarrow> json_step js cap p = Some q \<Longrightarrow> json_loop js cap p = json_loop js cap (q\<lparr>jp_pos := jp_pos q + 1\<rparr>)"
  by (subst json_loop.simps) simp

lemma drop_char: "drop i js = c # cs \<Longrightarrow> i < length js \<and> js ! i = c \<and> drop (i + 1) js = cs"
  by (metis (no_types, lifting) Cons_nth_drop_Suc Suc_eq_plus1 drop_all linorder_not_less list.distinct(1) list.inject)

lemma skip_stop: "j_skip c \<Longrightarrow> c \<notin> {CHR ''{'', CHR ''['', CHR ''}'', CHR '']'', CHR 0x22}"
  by (auto simp: j_skip_def j_blank_def)

lemma skips_read:
  "list_all j_skip sep \<Longrightarrow> drop (jp_pos p) js = sep @ rest \<Longrightarrow> json_loop js cap p = json_loop js cap (p\<lparr>jp_pos := jp_pos p + length sep\<rparr>)"
proof (induction sep arbitrary: p)
  case (Cons c sep)
  note d = drop_char [OF Cons.prems(2) [unfolded append_Cons]]
  have "json_step js cap p = Some p" using Cons.prems(1) skip_stop [of c] d by (simp add: json_step_def Let_def j_skip_def)
  from loop_step [OF _ this] d have "json_loop js cap p = json_loop js cap (p\<lparr>jp_pos := jp_pos p + 1\<rparr>)" by simp
  also have "\<dots> = json_loop js cap (p\<lparr>jp_pos := jp_pos p + 1\<rparr>\<lparr>jp_pos := jp_pos (p\<lparr>jp_pos := jp_pos p + 1\<rparr>) + length sep\<rparr>)"
    using Cons.prems(1) d by (intro Cons.IH) simp_all
  finally show ?case by simp
qed simp

lemma body_close: "str_body s \<Longrightarrow> close_quote i (s @ CHR 0x22 # r) = Some (i + length s)"
proof (induction s arbitrary: i rule: str_body.induct)
  case 1
  then show ?case by (cases r) simp_all
next
  case (2 c)
  then show ?case by (cases r) simp_all
next
  case (3 c d cs)
  then show ?case by (auto split: if_splits)
qed

lemma add_attach:
  "length (jp_toks p) < cap \<Longrightarrow> wfb_json_add cap ty s e p = Some (p\<lparr>jp_toks := attach (jp_super p) 1
     (jp_toks p @ [\<lparr> jt_type = ty, jt_start = s, jt_end = e, jt_size = 0, jt_parent = jp_super p \<rparr>])\<rparr>)"
  by (simp add: wfb_json_add_def attach_def upd_tok_def bump_def Let_def split: option.split)

lemma block_nth:
  assumes "has_block k new ts" "i < length new"
  shows "k + i < length ts \<and> ts ! (k + i) = new ! i"
proof -
  have "length new = min (length new) (length ts - k)" using arg_cong [OF assms(1) [unfolded has_block_def], of length] by simp
  then have l: "k + length new \<le> length ts" using assms(2) by (simp add: min_def split: if_splits)
  have "new ! i = take (length new) (drop k ts) ! i" using assms(1) by (simp add: has_block_def)
  then show ?thesis using l assms(2) by simp
qed

lemma leaf_settled:
  assumes "ty = JT_STR \<and> v = JStr s \<or> ty = JT_PRIM \<and> v = JPrim s" "take (length s) (drop i js) = s"
  shows "tok_settled js k [\<lparr> jt_type = ty, jt_start = int i, jt_end = int i + int (length s), jt_size = 0, jt_parent = par \<rparr>] v"
  unfolding tok_settled_def
proof (intro allI impI)
  fix ts
  assume b: "has_block k [\<lparr> jt_type = ty, jt_start = int i, jt_end = int i + int (length s), jt_size = 0, jt_parent = par \<rparr>] ts"
  note n = block_nth [OF b, of 0, simplified]
  show "stands js ts k v \<and> jskip ts k = k + length [\<lparr> jt_type = ty, jt_start = int i, jt_end = int i + int (length s), jt_size = 0, jt_parent = par \<rparr>]"
    using assms n by (auto simp: jskip.simps [of ts k] jkids_def jspan_def intro!: stands_str stands_prim)
qed

lemma block_append:
  assumes "has_block k (a @ b) ts"
  shows "has_block k a ts \<and> has_block (k + length a) b ts"
proof -
  define xs where "xs = drop k ts"
  have x: "take (length a + length b) xs = a @ b" using assms by (simp add: has_block_def xs_def)
  have "take (length a) (take (length a + length b) xs) = a" unfolding x by simp
  moreover have "drop (length a) (take (length a + length b) xs) = b" unfolding x by simp
  ultimately show ?thesis by (simp add: has_block_def xs_def drop_take add.commute)
qed

lemma attach_front: "(\<And>k. par = Some k \<Longrightarrow> k < length ts) \<Longrightarrow> attach par n (ts @ xs) = attach par n ts @ xs"
  by (simp add: attach_def upd_tok_def nth_append list_update_append split: option.split)

lemma length_attach [simp]: "length (attach par n ts) = length ts"
  by (simp add: attach_def split: option.split)

lemma attach_here: "attach (Some (length xs)) n (xs @ t # ys) = xs @ t\<lparr>jt_size := jt_size t + n\<rparr> # ys"
  by (simp add: attach_def upd_tok_here)

lemma attach_attach: "(\<And>k. par = Some k \<Longrightarrow> k < length ts) \<Longrightarrow> attach par n (attach par m ts) = attach par (m + n) ts"
  by (simp add: attach_def upd_tok_def add.assoc split: option.split)

lemma attach_0 [simp]: "attach par 0 ts = ts"
  by (simp add: attach_def upd_tok_def split: option.split)

lemma upd_tok_keeps:
  assumes "\<And>t. P (f t) = P t"
  shows "P (upd_tok m f ts ! k) = P (ts ! k)"
proof (cases "m = k \<and> k < length ts")
  case True
  then show ?thesis by (simp add: upd_tok_def assms)
next
  case False
  then have "upd_tok m f ts ! k = ts ! k" by (cases "k = m") (simp_all add: upd_tok_def list_update_beyond)
  then show ?thesis by simp
qed

lemma attach_keeps: "(\<And>t n. P (t\<lparr>jt_size := n\<rparr>) = P t) \<Longrightarrow> P (attach par n ts ! k) = P (ts ! k)"
  by (simp add: attach_def upd_tok_keeps split: option.split)

lemma attach_end: "jt_end (attach par n ts ! k) = jt_end (ts ! k)" "jt_type (attach par n ts ! k) = jt_type (ts ! k)"
  "jt_parent (attach par n ts ! k) = jt_parent (ts ! k)"
  by (rule attach_keeps, simp)+

lemma super_openD: "super_open p \<Longrightarrow> jp_super p = Some k \<Longrightarrow> k < length (jp_toks p)"
  by (simp add: super_open_def)

lemma settled_all_cons:
  assumes "tok_settled js k a v" "settled_all js (k + length a) b vs"
  shows "settled_all js k (a @ b) (v # vs)"
  unfolding settled_all_def
proof (intro allI impI)
  fix ts assume "has_block k (a @ b) ts"
  then have h: "has_block k a ts" "has_block (k + length a) b ts" using block_append by blast+
  have v: "stands js ts k v" "jskip ts k = k + length a" using assms(1) h(1) by (simp_all add: tok_settled_def)
  have vs: "\<And>m. m < length vs \<Longrightarrow> stands js ts (jskips ts m (k + length a)) (vs ! m)"
    "jskips ts (length vs) (k + length a) = k + length a + length b" using assms(2) h(2) by (simp_all add: settled_all_def)
  have "stands js ts (jskips ts m k) ((v # vs) ! m)" if "m < length (v # vs)" for m
    using that v vs by (cases m) simp_all
  then show "(\<forall>m < length (v # vs). stands js ts (jskips ts m k) ((v # vs) ! m)) \<and> jskips ts (length (v # vs)) k = k + length (a @ b)"
    using v(2) vs(2) by simp
qed

lemma jeq_stands: "stands js ts i (JStr k) \<Longrightarrow> jeq js (ts ! i) key = (k = key)"
  by (erule stands.cases) (auto simp: jeq_def jspan_def)

lemma skip_stands: "stands js ts i (JStr k) \<Longrightarrow> jskip ts i = i + 1"
  by (erule stands.cases) (simp_all add: jskip.simps [of ts] jkids_def)

lemma find_members:
  assumes "\<forall>m < length (members kvs). stands js ts (jskips ts m i) (members kvs ! m)"
  shows "(map_of kvs key = None \<longrightarrow> jfind_pairs js ts key (length kvs) i = None)
    \<and> (\<forall>v. map_of kvs key = Some v \<longrightarrow> (\<exists>j. jfind_pairs js ts key (length kvs) i = Some j \<and> stands js ts j v))"
  using assms
proof (induction kvs arbitrary: i)
  case (Cons kv kvs)
  obtain k v where kv: "kv = (k, v)" by (metis prod.collapse)
  have m: "members (kv # kvs) = JStr k # v # members kvs" by (simp add: members_def kv)
  have s: "stands js ts i (JStr k)" using Cons.prems [rule_format, of 0] by (simp add: m)
  have sv: "stands js ts (i + 1) v" using Cons.prems [rule_format, of 1] skip_stands [OF s] by (simp add: m)
  have "stands js ts (jskips ts n (jskip ts (jskip ts i))) (members kvs ! n)" if "n < length (members kvs)" for n
    using Cons.prems [rule_format, of "Suc (Suc n)"] that by (simp add: m)
  from Cons.IH [of "jskip ts (jskip ts i)"] this show ?case using jeq_stands [OF s, of key] sv by (simp add: kv)
qed simp

lemma members_length: "length (members kvs) = 2 * length kvs"
  by (induction kvs) (auto simp: members_def)

lemma container_settled:
  assumes "settled_all js (k + 1) new vs" "jt_size c = length vs"
    and v: "v = JArr vs \<and> jt_type c = JT_ARR \<or> (\<exists>kvs. v = JObj kvs \<and> vs = members kvs \<and> jt_type c = JT_OBJ)"
  shows "tok_settled js k (c # new) v"
  unfolding tok_settled_def
proof (intro allI impI)
  fix ts assume h: "has_block k (c # new) ts"
  have n: "k < length ts" "ts ! k = c" using block_nth [OF h, of 0] by simp_all
  have "has_block (k + 1) new ts" using block_append [of k "[c]" new ts] h by simp
  then have a: "\<forall>m < length vs. stands js ts (jskips ts m (k + 1)) (vs ! m)" "jskips ts (length vs) (k + 1) = k + 1 + length new"
    using assms(1) by (simp_all add: settled_all_def)
  have kids: "jkids c = length vs" using v assms(2) members_length by (auto simp: jkids_def)
  then have "jskip ts k = k + length (c # new)" using n a(2) by (simp add: jskip.simps [of ts k])
  moreover have "stands js ts k v"
  proof (cases "v = JArr vs")
    case True
    then have "jt_type c = JT_ARR" using v by auto
    then show ?thesis unfolding True using n a(1) assms(2) by (intro stands_arr) simp_all
  next
    case False
    then obtain kvs where o: "v = JObj kvs" "vs = members kvs" "jt_type c = JT_OBJ" using v by blast
    have "jfind js ts k key = jfind_pairs js ts key (length kvs) (k + 1)" for key
      using n o(2,3) assms(2) members_length [of kvs] by (simp add: jfind_def)
    then show ?thesis unfolding o(1) using n o(3) find_members [OF a(1) [unfolded o(2)]] by (intro stands_obj) simp_all
  qed
  ultimately show "stands js ts k v \<and> jskip ts k = k + length (c # new)" by simp
qed

lemma str_read:
  assumes "str_body s" "drop (jp_pos p) js = quoted s @ rest" "length (jp_toks p) < cap"
  defines "t \<equiv> \<lparr> jt_type = JT_STR, jt_start = int (jp_pos p + 1), jt_end = int (jp_pos p + 1) + int (length s), jt_size = 0, jt_parent = jp_super p \<rparr>"
  shows "reads js cap p (length (quoted s)) 1 [t]" "take (length s) (drop (jp_pos p + 1) js) = s"
proof -
  have d: "jp_pos p < length js" "js ! jp_pos p = CHR 0x22" "drop (jp_pos p + 1) js = s @ CHR 0x22 # rest"
    using drop_char [of "jp_pos p" js "CHR 0x22" "s @ CHR 0x22 # rest"] assms(2) by (simp_all add: quoted_def)
  have c: "close_quote (jp_pos p + 1) (drop (jp_pos p + 1) js) = Some (jp_pos p + 1 + length s)"
    unfolding d(3) by (rule body_close [OF assms(1)])
  have "json_step js cap p = Some (p\<lparr>jp_toks := attach (jp_super p) 1 (jp_toks p @ [t]), jp_pos := jp_pos p + 1 + length s\<rparr>)"
    using d(2) c add_attach [OF assms(3)] by (simp add: json_step_def wfb_json_parse_str_def Let_def t_def add.assoc)
  from loop_step [OF d(1) this] show "reads js cap p (length (quoted s)) 1 [t]" by (simp add: reads_def quoted_def)
  show "take (length s) (drop (jp_pos p + 1) js) = s" unfolding d(3) by simp
qed

lemma prim_read:
  assumes "prim_body s" "drop (jp_pos p) js = s @ rest" "rest = [] \<or> j_stop (hd rest)" "length (jp_toks p) < cap"
  defines "t \<equiv> \<lparr> jt_type = JT_PRIM, jt_start = int (jp_pos p), jt_end = int (jp_pos p) + int (length s), jt_size = 0, jt_parent = jp_super p \<rparr>"
  shows "reads js cap p (length s) 1 [t]" "take (length s) (drop (jp_pos p) js) = s"
proof -
  obtain c s' where s: "s = c # s'" using assms(1) by (cases s) (auto simp: prim_body_def)
  have d: "jp_pos p < length js" "js ! jp_pos p = c" using drop_char [of "jp_pos p" js c "s' @ rest"] assms(2) s by simp_all
  have w: "takeWhile (\<lambda>c. \<not> j_stop c) (drop (jp_pos p) js) = s"
    unfolding assms(2) using assms(1,3) by (cases rest) (simp_all add: prim_body_def)
  have c: "c \<notin> {CHR ''{'', CHR ''['', CHR 0x22, CHR '':''}" "\<not> j_stop c" using assms(1) by (auto simp: prim_body_def s)
  then have "json_step js cap p = wfb_json_parse_prim js cap p" unfolding json_step_def d(2) by (simp add: j_stop_def)
  also have "\<dots> = Some (p\<lparr>jp_toks := attach (jp_super p) 1 (jp_toks p @ [t]), jp_pos := jp_pos p + length s - 1\<rparr>)"
    using add_attach [OF assms(4)] by (simp add: wfb_json_parse_prim_def w t_def)
  finally have "json_step js cap p = Some (p\<lparr>jp_toks := attach (jp_super p) 1 (jp_toks p @ [t]), jp_pos := jp_pos p + length s - 1\<rparr>)" .
  from loop_step [OF d(1) this] show "reads js cap p (length s) 1 [t]" by (simp add: reads_def s)
  show "take (length s) (drop (jp_pos p) js) = s" unfolding assms(2) by simp
qed

lemma open_read:
  assumes "drop (jp_pos p) js = c # rest" "ty = JT_OBJ \<and> c = CHR ''{'' \<or> ty = JT_ARR \<and> c = CHR ''[''" "length (jp_toks p) < cap"
  shows "json_loop js cap p = json_loop js cap (p\<lparr>jp_toks := attach (jp_super p) 1 (jp_toks p @
     [\<lparr> jt_type = ty, jt_start = int (jp_pos p), jt_end = - 1, jt_size = 0, jt_parent = jp_super p \<rparr>]),
     jp_super := Some (length (jp_toks p)), jp_pos := jp_pos p + 1\<rparr>)"
proof -
  note d = drop_char [OF assms(1)]
  have "json_step js cap p = open_tok cap ty p" using d assms(2) by (auto simp: json_step_def)
  also have "\<dots> = Some (p\<lparr>jp_toks := attach (jp_super p) 1 (jp_toks p @
     [\<lparr> jt_type = ty, jt_start = int (jp_pos p), jt_end = - 1, jt_size = 0, jt_parent = jp_super p \<rparr>]), jp_super := Some (length (jp_toks p))\<rparr>)"
    by (simp add: open_tok_def add_attach [OF assms(3)])
  finally show ?thesis using loop_step [of p js cap] d by simp
qed

lemma close_read:
  assumes "drop (jp_pos p) js = c # rest" "ty = JT_OBJ \<and> c = CHR ''}'' \<or> ty = JT_ARR \<and> c = CHR '']''"
    and "jp_super p = Some k" "k < length (jp_toks p)" "jt_type (jp_toks p ! k) = ty" "jt_parent (jp_toks p ! k) = par"
    and "\<And>m. par = Some m \<Longrightarrow> m < k \<and> jt_end (jp_toks p ! m) = - 1"
  shows "json_loop js cap p = json_loop js cap (p\<lparr>jp_toks := upd_tok k (\<lambda>t. t\<lparr>jt_end := int (jp_pos p) + 1\<rparr>) (jp_toks p),
     jp_super := par, jp_pos := jp_pos p + 1\<rparr>)"
proof -
  note d = drop_char [OF assms(1)]
  let ?ts = "upd_tok k (\<lambda>t. t\<lparr>jt_end := int (jp_pos p) + 1\<rparr>) (jp_toks p)"
  have "jt_parent (?ts ! k) = par" by (simp add: upd_tok_keeps assms(6))
  moreover have "open_above (length ?ts) ?ts par = par"
  proof (cases par)
    case (Some m)
    then have "?ts ! m = jp_toks p ! m" using assms(7) by (auto simp: upd_tok_def)
    then show ?thesis using assms(7) [OF Some] Some by (simp add: open_above_here)
  qed simp
  ultimately have "close_tok ty p = Some (p\<lparr>jp_toks := ?ts, jp_super := par\<rparr>)"
    using assms(3,5) by (simp add: close_tok_def Let_def)
  moreover have "json_step js cap p = close_tok ty p" using d assms(2) by (auto simp: json_step_def)
  ultimately show ?thesis using loop_step [of p js cap] d by simp
qed

lemma container_read:
  assumes d: "drop (jp_pos p) js = c # x @ c' # rest"
    and ty: "ty = JT_OBJ \<and> c = CHR ''{'' \<and> c' = CHR ''}'' \<or> ty = JT_ARR \<and> c = CHR ''['' \<and> c' = CHR '']''"
    and v: "v = JArr vs \<and> ty = JT_ARR \<or> (\<exists>kvs. v = JObj kvs \<and> vs = members kvs \<and> ty = JT_OBJ)"
    and so: "super_open p" and cap: "length (jp_toks p) < cap"
    and inner: "\<And>p1. drop (jp_pos p1) js = x @ c' # rest \<Longrightarrow> jp_super p1 = Some (length (jp_toks p)) \<Longrightarrow> super_open p1
      \<Longrightarrow> length (jp_toks p1) = length (jp_toks p) + 1
      \<Longrightarrow> \<exists>new. reads js cap p1 (length x) (length vs) new \<and> length new = n \<and> settled_all js (length (jp_toks p) + 1) new vs"
  shows "\<exists>new. reads js cap p (length x + 2) 1 new \<and> length new = 1 + n \<and> tok_settled js (length (jp_toks p)) new v"
proof -
  let ?k = "length (jp_toks p)" and ?par = "jp_super p"
  let ?T = "attach ?par 1 (jp_toks p)"
  define t where "t = \<lparr> jt_type = ty, jt_start = int (jp_pos p), jt_end = - 1, jt_size = 0, jt_parent = ?par \<rparr>"
  define p1 where "p1 = p\<lparr>jp_toks := ?T @ [t], jp_super := Some ?k, jp_pos := jp_pos p + 1\<rparr>"
  have front: "attach ?par m (jp_toks p @ xs) = attach ?par m (jp_toks p) @ xs" for m xs
    by (rule attach_front) (rule super_openD [OF so])
  have "json_loop js cap p = json_loop js cap p1"
    using open_read [OF d _ cap, of ty] ty unfolding p1_def t_def front by blast
  moreover have d1: "drop (jp_pos p1) js = x @ c' # rest" using drop_char [OF d] by (simp add: p1_def)
  moreover have "super_open p1" by (simp add: super_open_def p1_def nth_append t_def)
  ultimately obtain new where l1: "json_loop js cap p = json_loop js cap p1" and r: "reads js cap p1 (length x) (length vs) new"
      and new: "length new = n" "settled_all js (?k + 1) new vs"
    using inner [of p1] by (auto simp: p1_def)
  define t2 where "t2 = t\<lparr>jt_size := length vs\<rparr>"
  define p2 where "p2 = p1\<lparr>jp_toks := ?T @ t2 # new, jp_pos := jp_pos p1 + length x\<rparr>"
  have "attach (Some ?k) (length vs) (?T @ t # new) = ?T @ t2 # new"
    using attach_here [of ?T "length vs" t new] by (simp add: t2_def t_def)
  then have l2: "json_loop js cap p1 = json_loop js cap p2" using r by (simp add: reads_def p2_def p1_def)
  have d2: "drop (jp_pos p2) js = c' # rest"
    using d1 by (simp add: p2_def add.commute [of _ "length x"] drop_drop [symmetric])
  have par: "m < ?k \<and> jt_end (jp_toks p ! m) = - 1" if "?par = Some m" for m
    using so that by (simp add: super_open_def)
  define t3 where "t3 = t2\<lparr>jt_end := int (jp_pos p2) + 1\<rparr>"
  have "json_loop js cap p2 = json_loop js cap (p2\<lparr>jp_toks := upd_tok ?k (\<lambda>t. t\<lparr>jt_end := int (jp_pos p2) + 1\<rparr>) (jp_toks p2),
     jp_super := ?par, jp_pos := jp_pos p2 + 1\<rparr>)"
    using ty by (intro close_read [OF d2, of ty]) (auto simp: p2_def p1_def nth_append t2_def t_def par attach_end)
  also have "upd_tok ?k (\<lambda>t. t\<lparr>jt_end := int (jp_pos p2) + 1\<rparr>) (jp_toks p2) = ?T @ t3 # new"
    using upd_tok_here [of ?T _ t2 new] by (simp add: p2_def t3_def)
  also have "p2\<lparr>jp_toks := ?T @ t3 # new, jp_super := ?par, jp_pos := jp_pos p2 + 1\<rparr>
      = p\<lparr>jp_toks := attach ?par 1 (jp_toks p @ t3 # new), jp_pos := jp_pos p + (length x + 2)\<rparr>"
    unfolding front by (simp add: p2_def p1_def)
  finally have "reads js cap p (length x + 2) 1 (t3 # new)" using l1 l2 by (simp add: reads_def)
  moreover have "tok_settled js ?k (t3 # new) v"
    by (rule container_settled [OF new(2)]) (use v in \<open>auto simp: t3_def t2_def t_def\<close>)
  ultimately show ?thesis using new(1) by (intro exI [of _ "t3 # new"]) simp
qed

lemma spelled_read:
  "spells v x \<Longrightarrow> \<forall>p rest. drop (jp_pos p) js = x @ rest \<longrightarrow> (is_prim v \<longrightarrow> rest = [] \<or> j_stop (hd rest)) \<longrightarrow> super_open p
     \<longrightarrow> length (jp_toks p) + tok_count v \<le> cap
     \<longrightarrow> (\<exists>new. reads js cap p (length x) 1 new \<and> length new = tok_count v \<and> tok_settled js (length (jp_toks p)) new v)"
  "items vs x \<Longrightarrow> \<forall>p rest. drop (jp_pos p) js = x @ rest \<longrightarrow> rest \<noteq> [] \<and> j_stop (hd rest) \<longrightarrow> super_open p \<longrightarrow> jp_super p \<noteq> None
     \<longrightarrow> length (jp_toks p) + sum_list (map tok_count vs) \<le> cap
     \<longrightarrow> (\<exists>new. reads js cap p (length x) (length vs) new \<and> length new = sum_list (map tok_count vs)
           \<and> settled_all js (length (jp_toks p)) new vs)"
proof (induction rule: spells_items.inducts)
  case (spells_str s)
  show ?case
  proof (intro allI impI)
    fix p :: jparser and rest assume a: "drop (jp_pos p) js = quoted s @ rest" "length (jp_toks p) + tok_count (JStr s) \<le> cap"
    have "length (jp_toks p) < cap" using a(2) by simp
    note r = str_read [OF spells_str a(1) this]
    show "\<exists>new. reads js cap p (length (quoted s)) 1 new \<and> length new = tok_count (JStr s) \<and> tok_settled js (length (jp_toks p)) new (JStr s)"
      by (rule exI, rule conjI [OF r(1)], rule conjI [OF _ leaf_settled [OF _ r(2)]]) simp_all
  qed
next
  case (spells_prim s)
  show ?case
  proof (intro allI impI)
    fix p :: jparser and rest assume a: "drop (jp_pos p) js = s @ rest" "is_prim (JPrim s) \<longrightarrow> rest = [] \<or> j_stop (hd rest)"
      "length (jp_toks p) + tok_count (JPrim s) \<le> cap"
    have "length (jp_toks p) < cap" "rest = [] \<or> j_stop (hd rest)" using a(2,3) by (simp_all add: is_prim_def)
    note r = prim_read [OF spells_prim a(1) this(2,1)]
    show "\<exists>new. reads js cap p (length s) 1 new \<and> length new = tok_count (JPrim s) \<and> tok_settled js (length (jp_toks p)) new (JPrim s)"
      by (rule exI, rule conjI [OF r(1)], rule conjI [OF _ leaf_settled [OF _ r(2)]]) simp_all
  qed
next
  case (spells_arr vs x)
  show ?case
  proof (intro allI impI)
    fix p :: jparser and rest assume a: "drop (jp_pos p) js = (CHR ''['' # x @ [CHR '']'']) @ rest" "super_open p" "length (jp_toks p) + tok_count (JArr vs) \<le> cap"
    have "\<exists>new. reads js cap p (length x + 2) 1 new \<and> length new = 1 + sum_list (map tok_count vs) \<and> tok_settled js (length (jp_toks p)) new (JArr vs)"
    proof (rule container_read [where ty = JT_ARR and c = "CHR ''[''" and c' = "CHR '']''" and rest = rest and vs = vs])
      fix p1 :: jparser assume "drop (jp_pos p1) js = x @ CHR '']'' # rest" "jp_super p1 = Some (length (jp_toks p))" "super_open p1"
        "length (jp_toks p1) = length (jp_toks p) + 1"
      then show "\<exists>new. reads js cap p1 (length x) (length vs) new \<and> length new = sum_list (map tok_count vs)
          \<and> settled_all js (length (jp_toks p) + 1) new vs"
        using spells_arr.IH [rule_format, of p1 "CHR '']'' # rest"] a(3) by (simp add: j_stop_def)
    qed (use a in simp_all)
    then show "\<exists>new. reads js cap p (length (CHR ''['' # x @ [CHR '']''])) 1 new \<and> length new = tok_count (JArr vs)
        \<and> tok_settled js (length (jp_toks p)) new (JArr vs)" by simp
  qed
next
  case (spells_obj kvs x)
  show ?case
  proof (intro allI impI)
    fix p :: jparser and rest assume a: "drop (jp_pos p) js = (CHR ''{'' # x @ [CHR ''}'']) @ rest" "super_open p" "length (jp_toks p) + tok_count (JObj kvs) \<le> cap"
    have cnt: "tok_count (JObj kvs) = 1 + sum_list (map tok_count (members kvs))" by (simp add: members_count)
    have "\<exists>new. reads js cap p (length x + 2) 1 new \<and> length new = 1 + sum_list (map tok_count (members kvs)) \<and> tok_settled js (length (jp_toks p)) new (JObj kvs)"
    proof (rule container_read [where ty = JT_OBJ and c = "CHR ''{''" and c' = "CHR ''}''" and rest = rest and vs = "members kvs"])
      fix p1 :: jparser assume "drop (jp_pos p1) js = x @ CHR ''}'' # rest" "jp_super p1 = Some (length (jp_toks p))" "super_open p1"
        "length (jp_toks p1) = length (jp_toks p) + 1"
      then show "\<exists>new. reads js cap p1 (length x) (length (members kvs)) new \<and> length new = sum_list (map tok_count (members kvs))
          \<and> settled_all js (length (jp_toks p) + 1) new (members kvs)"
        using spells_obj.IH [rule_format, of p1 "CHR ''}'' # rest"] a(3) unfolding cnt by (simp add: j_stop_def)
    qed (use a cnt in simp_all)
    then show "\<exists>new. reads js cap p (length (CHR ''{'' # x @ [CHR ''}''])) 1 new \<and> length new = tok_count (JObj kvs)
        \<and> tok_settled js (length (jp_toks p)) new (JObj kvs)" using cnt by simp
  qed
next
  case (items_nil sep)
  show ?case
  proof (intro allI impI)
    fix p :: jparser and rest assume "drop (jp_pos p) js = sep @ rest"
    from skips_read [OF items_nil this]
    show "\<exists>new. reads js cap p (length sep) (length []) new \<and> length new = sum_list (map tok_count []) \<and> settled_all js (length (jp_toks p)) new []"
      by (intro exI [of _ "[]"]) (simp add: reads_def settled_all_def)
  qed
next
  case (items_cons sep v x vs y)
  show ?case
  proof (intro allI impI)
    fix p :: jparser and rest
    assume a: "drop (jp_pos p) js = (sep @ x @ y) @ rest" "rest \<noteq> [] \<and> j_stop (hd rest)" "super_open p" "jp_super p \<noteq> None"
      "length (jp_toks p) + sum_list (map tok_count (v # vs)) \<le> cap"
    define p1 where "p1 = p\<lparr>jp_pos := jp_pos p + length sep\<rparr>"
    have l1: "json_loop js cap p = json_loop js cap p1"
      unfolding p1_def by (rule skips_read [OF items_cons.hyps(1)]) (use a(1) in simp)
    have d1: "drop (jp_pos p1) js = x @ y @ rest"
      using a(1) by (simp add: p1_def add.commute [of _ "length sep"] drop_drop [symmetric])
    obtain k where k: "jp_super p = Some k" "k < length (jp_toks p)" "jt_end (jp_toks p ! k) = - 1"
      using a(3,4) by (auto simp: super_open_def)
    have so1: "super_open p1" using k by (simp add: super_open_def p1_def)
    have st: "is_prim v \<longrightarrow> y @ rest = [] \<or> j_stop (hd (y @ rest))" using items_cons.hyps(4) a(2) by (cases y) auto
    obtain n1 where n1: "reads js cap p1 (length x) 1 n1" "length n1 = tok_count v" "tok_settled js (length (jp_toks p1)) n1 v"
      using items_cons.IH(1) [rule_format, OF d1] st so1 a(5) by (auto simp: p1_def)
    define p2 where "p2 = p1\<lparr>jp_toks := attach (jp_super p1) 1 (jp_toks p1 @ n1), jp_pos := jp_pos p1 + length x\<rparr>"
    have l2: "json_loop js cap p1 = json_loop js cap p2" using n1(1) by (simp add: reads_def p2_def)
    have d2: "drop (jp_pos p2) js = y @ rest"
      using d1 by (simp add: p2_def add.commute [of _ "length x"] drop_drop [symmetric])
    have so2: "super_open p2" "jp_super p2 \<noteq> None" using k by (simp_all add: super_open_def p2_def p1_def attach_end nth_append)
    have len2: "length (jp_toks p2) = length (jp_toks p) + length n1" by (simp add: p2_def p1_def)
    obtain n2 where n2: "reads js cap p2 (length y) (length vs) n2" "length n2 = sum_list (map tok_count vs)"
        "settled_all js (length (jp_toks p2)) n2 vs"
      using items_cons.IH(2) [rule_format, OF d2 a(2) so2] a(5) n1(2) len2 by auto
    have fr: "attach (Some k) m (jp_toks p @ xs) = attach (Some k) m (jp_toks p) @ xs" for m xs
      by (rule attach_front) (simp add: k(2))
    have "attach (Some k) (length vs) (attach (Some k) 1 (jp_toks p @ n1) @ n2) = attach (Some k) (length (v # vs)) (jp_toks p @ n1 @ n2)"
      using attach_attach [of "Some k" "jp_toks p @ n1 @ n2" "length vs" 1] k(2) by (simp add: fr)
    then have "json_loop js cap p2 = json_loop js cap (p\<lparr>jp_toks := attach (jp_super p) (length (v # vs)) (jp_toks p @ n1 @ n2),
        jp_pos := jp_pos p + length (sep @ x @ y)\<rparr>)"
      using n2(1) by (simp add: reads_def p2_def p1_def k(1) add.assoc)
    then have "reads js cap p (length (sep @ x @ y)) (length (v # vs)) (n1 @ n2)" using l1 l2 by (simp add: reads_def)
    moreover have "settled_all js (length (jp_toks p)) (n1 @ n2) (v # vs)"
      using settled_all_cons [OF n1(3)] n2(3) len2 by (simp add: p1_def)
    ultimately show "\<exists>new. reads js cap p (length (sep @ x @ y)) (length (v # vs)) new \<and> length new = sum_list (map tok_count (v # vs))
        \<and> settled_all js (length (jp_toks p)) new (v # vs)"
      using n1(2) n2(2) by (intro exI [of _ "n1 @ n2"]) simp
  qed
qed

section \<open>A whole text\<close>

text \<open>C17: what is written is what is read.  A text that spells a document, with any blanks, colons and commas between and
  around its parts and no more tokens than the reader has room for, is accepted; the first token stands for the
  document: string and primitive tokens span exactly the written characters, the children of an array are found by
  counting, and in an object a key finds the value of its first occurrence, or nothing when it does not occur.\<close>

theorem json_read_back:
  assumes "spells v x" "list_all j_skip pre" "list_all j_skip post" "is_prim v \<Longrightarrow> post = [] \<or> j_stop (hd post)" "tok_count v \<le> cap"
  shows "\<exists>ts. json_parse (pre @ x @ post) cap = Some ts \<and> length ts = tok_count v \<and> stands (pre @ x @ post) ts 0 v"
proof -
  let ?js = "pre @ x @ post"
  define p0 where "p0 = \<lparr> jp_pos = 0, jp_toks = [], jp_super = None \<rparr>"
  define p1 where "p1 = p0\<lparr>jp_pos := jp_pos p0 + length pre\<rparr>"
  have l1: "json_loop ?js cap p0 = json_loop ?js cap p1"
    unfolding p1_def by (rule skips_read [OF assms(2)]) (simp add: p0_def)
  have "drop (jp_pos p1) ?js = x @ post" "super_open p1" "length (jp_toks p1) + tok_count v \<le> cap" "jp_toks p1 = []"
    using assms(5) by (simp_all add: p1_def p0_def super_open_def)
  then obtain new where new: "reads ?js cap p1 (length x) 1 new" "length new = tok_count v" "tok_settled ?js 0 new v"
    using spelled_read(1) [OF assms(1), rule_format, of p1 ?js post cap] assms(4) by auto
  define p2 where "p2 = p1\<lparr>jp_toks := new, jp_pos := length pre + length x\<rparr>"
  have l2: "json_loop ?js cap p1 = json_loop ?js cap p2"
    using new(1) by (simp add: reads_def p2_def p1_def p0_def attach_def)
  have "json_loop ?js cap p2 = json_loop ?js cap (p2\<lparr>jp_pos := jp_pos p2 + length post\<rparr>)"
    by (rule skips_read [OF assms(3), where rest = "[]"]) (simp add: p2_def)
  also have "\<dots> = Some (p2\<lparr>jp_pos := jp_pos p2 + length post\<rparr>)" by (subst json_loop.simps) (simp add: p2_def)
  finally have "json_parse ?js cap = Some new" using l1 l2 by (simp add: json_parse_def p0_def [symmetric]) (simp add: p2_def p1_def p0_def)
  moreover have "stands ?js new 0 v" using new(3) by (simp add: tok_settled_def has_block_def)
  ultimately show ?thesis using new(2) by blast
qed

text \<open>The readers of single values on such tokens.\<close>

lemma stands_string: "stands js ts i (JStr s) \<Longrightarrow> 0 < n \<Longrightarrow> jstr js (ts ! i) n = Some (c_str (take (n - 1) s))"
proof (erule stands.cases)
  fix i' s'
  assume a: "i = i'" "JStr s = JStr s'" "jt_type (ts ! i') = JT_STR" "jt_end (ts ! i') = jt_start (ts ! i') + int (length s')"
    "jspan js (ts ! i') (length s') = s'" "0 < n"
  have "jspan js (ts ! i') (n - 1) = take (n - 1) (jspan js (ts ! i') (length s'))" if "n \<le> length s'"
    using that by (simp add: jspan_def min_def) linarith
  moreover have "nat (int n - 1) = n - 1" using a(6) by simp
  ultimately show "jstr js (ts ! i) n = Some (c_str (take (n - 1) s))" using a by (auto simp: jstr_def Let_def)
qed simp_all

lemma stands_number: "stands js ts i (JPrim (show_int k)) \<Longrightarrow> length (show_int k) < 32 \<Longrightarrow> LLONG_MIN \<le> k \<Longrightarrow> k \<le> LLONG_MAX
    \<Longrightarrow> CHR 0x00 \<notin> set (show_int k) \<Longrightarrow> jint js (ts ! i) = Some k"
proof (erule stands.cases)
  fix i' s'
  assume a: "i = i'" "JPrim (show_int k) = JPrim s'" "jt_type (ts ! i') = JT_PRIM" "jt_end (ts ! i') = jt_start (ts ! i') + int (length s')"
    "jspan js (ts ! i') (length s') = s'" "length (show_int k) < 32" "LLONG_MIN \<le> k" "k \<le> LLONG_MAX" "CHR 0x00 \<notin> set (show_int k)"
  have "c_str (show_int k) = show_int k" using a(9) by (auto simp: c_str_def takeWhile_eq_all_conv)
  moreover have "s' \<noteq> []" using a(2) show_nat_nonempty by (auto simp: show_int_def split: if_splits)
  moreover have "strtoll (show_int k) = Some (k, [])" using strto_show_int [of LLONG_MIN k LLONG_MAX "[]"] a(7,8) by (simp add: strtoll_def)
  ultimately show "jint js (ts ! i) = Some k" using a by (simp add: jint_def Let_def)
qed simp_all

section \<open>An example\<close>

definition demo_doc :: jval where
  "demo_doc = JObj [(''a'', JArr [JPrim ''1'', JStr ''b'']), (''c'', JPrim ''true'')]"

lemma items_consI: "list_all j_skip sep \<Longrightarrow> spells v x \<Longrightarrow> items vs y \<Longrightarrow> (is_prim v \<Longrightarrow> y = [] \<or> j_stop (hd y))
    \<Longrightarrow> z = sep @ x @ y \<Longrightarrow> items (v # vs) z"
  by (simp add: items_cons)

lemma demo_spells: "spells demo_doc demo_text"
proof -
  have arr: "items [JPrim ''1'', JStr ''b''] ''1,\"b\"''"
    by (rule items_consI [of "[]" _ "''1''" _ "'',\"b\"''"], simp, rule spells_prim, simp add: prim_body_def j_stop_def j_blank_def,
        rule items_consI [of "'',''" _ "quoted ''b''" _ "[]"], simp add: j_skip_def, rule spells_str, simp, rule items_nil, simp,
        simp add: is_prim_def, simp add: quoted_def, simp add: j_stop_def, simp)
  have "items (members [(''a'', JArr [JPrim ''1'', JStr ''b'']), (''c'', JPrim ''true'')]) ''\"a\":[1,\"b\"], \"c\":true''"
    by (simp add: members_def,
        rule items_consI [of "[]" _ "quoted ''a''" _ "'':[1,\"b\"], \"c\":true''"], simp, rule spells_str, simp,
        rule items_consI [of "'':''" _ "CHR ''['' # ''1,\"b\"'' @ [CHR '']'']" _ "'', \"c\":true''"], simp add: j_skip_def,
        rule spells_arr [OF arr],
        rule items_consI [of "'', ''" _ "quoted ''c''" _ "'':true''"], simp add: j_skip_def j_blank_def, rule spells_str, simp,
        rule items_consI [of "'':''" _ "''true''" _ "[]"], simp add: j_skip_def, rule spells_prim,
        simp add: prim_body_def j_stop_def j_blank_def, rule items_nil, simp, simp, simp,
        simp add: is_prim_def, simp add: quoted_def, simp add: is_prim_def, simp, simp add: is_prim_def, simp add: quoted_def)
  from spells_obj [OF this] show ?thesis by (simp add: demo_doc_def demo_text_def)
qed

theorem json_read_back_witness:
  "\<exists>ts j. json_parse ('' '' @ demo_text @ []) 7 = Some ts \<and> length ts = 7 \<and> jfind ('' '' @ demo_text @ []) ts 0 ''c'' = Some j
     \<and> jt_type (ts ! j) = JT_PRIM \<and> jfind ('' '' @ demo_text @ []) ts 0 ''b'' = None"
proof -
  let ?js = "'' '' @ demo_text @ []"
  have "list_all j_skip '' ''" "list_all j_skip []" "tok_count demo_doc \<le> 7" "\<not> is_prim demo_doc"
    by (simp_all add: j_skip_def j_blank_def demo_doc_def is_prim_def)
  from json_read_back [OF demo_spells this(1,2) _ this(3)] this(4)
  obtain ts where ts: "json_parse ?js 7 = Some ts" "length ts = tok_count demo_doc" "stands ?js ts 0 demo_doc" by blast
  have o: "jfind ?js ts 0 ''b'' = None" "\<exists>j. jfind ?js ts 0 ''c'' = Some j \<and> stands ?js ts j (JPrim ''true'')"
    using ts(3) unfolding demo_doc_def by (auto elim: stands.cases)
  then obtain j where "jfind ?js ts 0 ''c'' = Some j" "stands ?js ts j (JPrim ''true'')" by blast
  moreover from this(2) have "jt_type (ts ! j) = JT_PRIM" by (auto elim: stands.cases)
  ultimately show ?thesis using ts(1,2) o(1) by (auto simp: demo_doc_def)
qed

end
