(* ===== verification/GroundConfig.thy ===== *)
theory GroundConfig
  imports GroundJson GroundTunnel GroundHop "HOL-Library.Monad_Syntax"
begin

text \<open>
  The ground supervisor's configuration (\<open>ground/gs_supervisor.c\<close>): \<open>cfg_parse_tunnel\<close>, the profile that stands for the
  three usual tunnels, \<open>cfg_load\<close>, and the overlay of \<open>/etc/wfb-link.json\<close>.  A return of -1, after which \<open>main\<close> exits,
  is \<open>None\<close>.  Buffers hold one character less than their size.
\<close>

section \<open>Fields\<close>

definition GS_NAME_MAX :: nat where "GS_NAME_MAX = 32"
definition GS_PATH_MAX :: nat where "GS_PATH_MAX = 256"
definition GS_ARG_MAX :: nat where "GS_ARG_MAX = 128"
definition GS_MAX_TUNNELS :: nat where "GS_MAX_TUNNELS = 8"
definition GS_MAX_IFACES :: nat where "GS_MAX_IFACES = 4"
definition GS_MAX_EXTRA_ARGS :: nat where "GS_MAX_EXTRA_ARGS = 16"
definition GS_MAX_SYSTEM_CMDS :: nat where "GS_MAX_SYSTEM_CMDS = 32"

text \<open>\<open>if ((v = jfind(...)) >= 0) { if (jstr(...) < 0) return -1; field = ...; }\<close> and its relatives: absent leaves the old
  value, present must be of the right type.\<close>

definition opt_field :: "string \<Rightarrow> jtok list \<Rightarrow> nat \<Rightarrow> string \<Rightarrow> (jtok \<Rightarrow> 'a option) \<Rightarrow> 'a \<Rightarrow> 'a option" where
  "opt_field js ts obj key rd old = (case jfind js ts obj key of None \<Rightarrow> Some old | Some v \<Rightarrow> rd (ts ! v))"

definition req_field :: "string \<Rightarrow> jtok list \<Rightarrow> nat \<Rightarrow> string \<Rightarrow> (jtok \<Rightarrow> 'a option) \<Rightarrow> 'a option" where
  "req_field js ts obj key rd = (case jfind js ts obj key of None \<Rightarrow> None | Some v \<Rightarrow> rd (ts ! v))"

text \<open>Where the code ignores the result, a wrong type keeps the old value, but \<open>jstr\<close> has emptied the buffer.\<close>

definition soft_field :: "string \<Rightarrow> jtok list \<Rightarrow> nat \<Rightarrow> string \<Rightarrow> (jtok \<Rightarrow> 'a option) \<Rightarrow> 'a \<Rightarrow> 'a" where
  "soft_field js ts obj key rd old =
     (case jfind js ts obj key of None \<Rightarrow> old | Some v \<Rightarrow> (case rd (ts ! v) of None \<Rightarrow> old | Some x \<Rightarrow> x))"

definition soft_str :: "string \<Rightarrow> jtok list \<Rightarrow> nat \<Rightarrow> string \<Rightarrow> nat \<Rightarrow> string \<Rightarrow> string" where
  "soft_str js ts obj key n old = (case jfind js ts obj key of None \<Rightarrow> old | Some v \<Rightarrow> (case jstr js (ts ! v) n of None \<Rightarrow> [] | Some s \<Rightarrow> s))"

definition jint32 :: "string \<Rightarrow> jtok \<Rightarrow> int option" where
  "jint32 js t = map_option to_i32 (jint js t)"

definition sub_object :: "string \<Rightarrow> jtok list \<Rightarrow> nat \<Rightarrow> string \<Rightarrow> nat option" where
  "sub_object js ts obj key =
     (case jfind js ts obj key of None \<Rightarrow> None | Some i \<Rightarrow> if jt_type (ts ! i) = JT_OBJ then Some i else None)"

fun jstrs :: "string \<Rightarrow> jtok list \<Rightarrow> nat \<Rightarrow> nat \<Rightarrow> nat \<Rightarrow> string list option" where
  "jstrs js ts n 0 i = Some []"
| "jstrs js ts n (Suc k) i = do { s \<leftarrow> jstr js (ts ! i) n; ss \<leftarrow> jstrs js ts n k (jskip ts i); Some (s # ss) }"

fun soft_strs :: "string \<Rightarrow> jtok list \<Rightarrow> nat \<Rightarrow> nat \<Rightarrow> nat \<Rightarrow> string list" where
  "soft_strs js ts n 0 i = []"
| "soft_strs js ts n (Suc k) i = (case jstr js (ts ! i) n of None \<Rightarrow> [] | Some s \<Rightarrow> s) # soft_strs js ts n k (jskip ts i)"

definition check :: "bool \<Rightarrow> unit option" where
  "check b = (if b then Some () else None)"

definition c_atoi :: "string \<Rightarrow> int" where
  "c_atoi s = (case strtoll s of None \<Rightarrow> 0 | Some (v, _) \<Rightarrow> to_i32 v)"

section \<open>One tunnel\<close>

definition tunnel_init_defaults :: tunnel where
  "tunnel_init_defaults = \<lparr> gt_name = [], gt_role = [], gt_ifaces = [], gt_udp_in_port = 0, gt_pkt_all = 0,
     tn_binary = [], tn_link_id = 0, tn_radio_port = 0, tn_udp_out_ip = [], tn_udp_out_port = 0,
     tn_stats_out = [], tn_stats_tap = [], tn_probe = False, tn_probe_window_ms = 0, tn_control_port = 0,
     tn_extra_args = [], tn_keyless = False, tn_autostart = True,
     tn_proc = \<lparr> tp_state = TS_STOPPED, tp_pid = 0, tp_started_us = 0, tp_exited_us = 0, tp_exit_code = 0,
       tp_restart_count = 0, tp_backoff_idx = 0, tp_next_start_ms = 0, tp_autostart_on_exit = False,
       tp_stop_deadline_ms = 0, tp_init_query_us = 0 \<rparr>,
     tn_radio = \<lparr> tr_fec_k = 0, tr_fec_n = 0, tr_fec_timeout_ms = - 1, tr_stbc = - 1, tr_ldpc = - 1, tr_short_gi = - 1,
       tr_bandwidth = 0, tr_mcs = - 1, tr_vht_mode = - 1, tr_vht_nss = - 1, tr_radio_have = False, tr_fec_have = False,
       tr_radio_us = 0 \<rparr>,
     tn_listen = \<lparr> tl_open = False, tl_arg = [], tl_fwd = None, tl_tap = None \<rparr>,
     tn_stats = \<lparr> ts_first_us = 0, ts_last_us = 0, ts_interval_ms = 0, ts_msgs = 0, ts_lost = 0, ts_fec = 0,
       ts_outgoing = 0, ts_dec_err = 0, ts_bytes = 0, ts_uniq = 0, ts_ant_count = 0, ts_rssi_best = INT_MIN,
       ts_mcs_win = replicate 10 (replicate 16 0), ts_mcs_win_sec = replicate 10 0, ts_tx = replicate 7 0 \<rparr>,
     tn_acc = \<lparr> pa_start_us = 0, pa_buckets = replicate 16 (0, 0, 0), pa_emits = 0, pa_drops = 0 \<rparr> \<rparr>"

definition parse_udp_out :: "string \<Rightarrow> (string \<times> int) option" where
  "parse_udp_out s =
     (case strchr s (CHR '':'') of
        None \<Rightarrow> None
      | Some colon \<Rightarrow>
          (let port = c_atoi (tl colon)
           in if port \<le> 0 \<or> port > 65535 then None else Some (takeWhile (\<lambda>c. c \<noteq> CHR '':'') s, port)))"

definition parse_tunnel_rx :: "string \<Rightarrow> jtok list \<Rightarrow> nat \<Rightarrow> tunnel \<Rightarrow> tunnel option" where
  "parse_tunnel_rx js ts i t = do {
     (ip, port) \<leftarrow> opt_field js ts i ''udp_out'' (\<lambda>v. Option.bind (jstr js v GS_ARG_MAX) parse_udp_out) (tn_udp_out_ip t, tn_udp_out_port t);
     so \<leftarrow> opt_field js ts i ''stats_out'' (\<lambda>v. jstr js v GS_ARG_MAX) (tn_stats_out t);
     tap \<leftarrow> opt_field js ts i ''stats_tap'' (\<lambda>v. jstr js v GS_ARG_MAX) (tn_stats_tap t);
     probe \<leftarrow> opt_field js ts i ''probe'' (jbool js) (tn_probe t);
     win \<leftarrow> opt_field js ts i ''probe_window_ms'' (\<lambda>v. do { w \<leftarrow> jint js v; check (100 \<le> w \<and> w \<le> 10000); Some w }) 500;
     Some (t\<lparr>tn_udp_out_ip := ip, tn_udp_out_port := port, tn_stats_out := so, tn_stats_tap := tap, tn_probe := probe,
       tn_probe_window_ms := win\<rparr>) }"

definition parse_tunnel_radio :: "string \<Rightarrow> jtok list \<Rightarrow> nat \<Rightarrow> tun_radio \<Rightarrow> tun_radio option" where
  "parse_tunnel_radio js ts i r = do {
     r1 \<leftarrow> (case sub_object js ts i ''fec'' of
             None \<Rightarrow> Some r
           | Some f \<Rightarrow> do { k \<leftarrow> opt_field js ts f ''k'' (jint32 js) (tr_fec_k r); n \<leftarrow> opt_field js ts f ''n'' (jint32 js) (tr_fec_n r);
               Some (r\<lparr>tr_fec_k := k, tr_fec_n := n\<rparr>) });
     (case sub_object js ts i ''radio'' of
        None \<Rightarrow> Some r1
      | Some o' \<Rightarrow> do {
          bw \<leftarrow> opt_field js ts o' ''bandwidth_mhz'' (jint32 js) (tr_bandwidth r1);
          mcs \<leftarrow> opt_field js ts o' ''mcs_index'' (jint32 js) (tr_mcs r1);
          stbc \<leftarrow> opt_field js ts o' ''stbc'' (jint32 js) (tr_stbc r1);
          ldpc \<leftarrow> opt_field js ts o' ''ldpc'' (jint32 js) (tr_ldpc r1);
          Some (r1\<lparr>tr_bandwidth := bw, tr_mcs := mcs, tr_stbc := stbc, tr_ldpc := ldpc\<rparr>) }) }"

definition parse_tunnel_tx :: "string \<Rightarrow> jtok list \<Rightarrow> nat \<Rightarrow> tunnel \<Rightarrow> tunnel option" where
  "parse_tunnel_tx js ts i t = do {
     up \<leftarrow> req_field js ts i ''udp_in_port'' (jint32 js);
     cp \<leftarrow> opt_field js ts i ''control_port'' (jint32 js) (tn_control_port t);
     r \<leftarrow> parse_tunnel_radio js ts i (tn_radio t);
     Some (t\<lparr>gt_udp_in_port := up, tn_control_port := cp, tn_radio := r\<rparr>) }"

definition parse_ifaces :: "string \<Rightarrow> jtok list \<Rightarrow> nat \<Rightarrow> string list option" where
  "parse_ifaces js ts v =
     (if jt_type (ts ! v) \<noteq> JT_ARR \<or> jt_size (ts ! v) < 1 \<or> jt_size (ts ! v) > GS_MAX_IFACES then None
      else jstrs js ts IFNAMSIZ (jt_size (ts ! v)) (v + 1))"

definition parse_extra_args :: "string \<Rightarrow> jtok list \<Rightarrow> nat \<Rightarrow> string list option" where
  "parse_extra_args js ts i =
     (case jfind js ts i ''extra_args'' of
        None \<Rightarrow> Some []
      | Some v \<Rightarrow>
          (if jt_type (ts ! v) \<noteq> JT_ARR then Some []
           else if jt_size (ts ! v) > GS_MAX_EXTRA_ARGS then None
           else jstrs js ts GS_ARG_MAX (jt_size (ts ! v)) (v + 1)))"

definition cfg_parse_tunnel :: "string \<Rightarrow> jtok list \<Rightarrow> nat \<Rightarrow> tunnel option" where
  "cfg_parse_tunnel js ts i = do {
     let t = tunnel_init_defaults;
     name \<leftarrow> req_field js ts i ''name'' (\<lambda>v. jstr js v GS_NAME_MAX);
     role \<leftarrow> req_field js ts i ''role'' (\<lambda>v. jstr js v 4);
     check (role = ''rx'' \<or> role = ''tx'');
     link \<leftarrow> req_field js ts i ''link_id'' (jint32 js);
     port \<leftarrow> opt_field js ts i ''radio_port'' (jint32 js) 0;
     iv \<leftarrow> jfind js ts i ''interfaces'';
     ifaces \<leftarrow> parse_ifaces js ts iv;
     args \<leftarrow> parse_extra_args js ts i;
     auto \<leftarrow> opt_field js ts i ''autostart'' (jbool js) True;
     keyless \<leftarrow> opt_field js ts i ''keyless'' (jbool js) False;
     bin \<leftarrow> opt_field js ts i ''binary'' (\<lambda>v. jstr js v GS_PATH_MAX) [];
     let t1 = t\<lparr>gt_name := name, gt_role := role, gt_ifaces := ifaces, tn_binary := bin, tn_link_id := link, tn_radio_port := port,
       tn_extra_args := args, tn_keyless := keyless, tn_autostart := auto\<rparr>;
     t2 \<leftarrow> (if role = ''rx'' then parse_tunnel_rx js ts i t1 else parse_tunnel_tx js ts i t1);
     Some (upd_proc (\<lambda>p. p\<lparr>tp_state := TS_STOPPED, tp_pid := - 1\<rparr>) t2) }"

section \<open>The configuration\<close>

record wfb_log_config =
  wl_enabled :: bool
  wl_db :: string
  wl_bind :: string
  wl_listen_port :: int
  wl_max_duration :: int
  wl_source :: string
  wl_channel :: int
  wl_tx_power :: string
  wl_antenna_cfg :: string
  wl_drop_empty :: bool

definition wfb_logger_defaults :: wfb_log_config where
  "wfb_logger_defaults = \<lparr> wl_enabled = False, wl_db = ''wfb.sqlite'', wl_bind = ''127.0.0.1'', wl_listen_port = 6700,
     wl_max_duration = 1200, wl_source = ''live-gs'', wl_channel = 0, wl_tx_power = [], wl_antenna_cfg = [], wl_drop_empty = True \<rparr>"

record config =
  cf_key_file :: string
  cf_http_bind :: string
  cf_http_port :: u16
  cf_up :: "string list"
  cf_down :: "string list"
  cf_tunnels :: "tunnel list"
  cf_cmd_on :: bool
  cf_cmd_uplink :: string
  cf_rate_limit_ms :: int
  cf_recovery_on :: bool
  cf_recovery_tunnel :: string
  cf_telemetry :: wfb_log_config

definition cfg_defaults :: config where
  "cfg_defaults = \<lparr> cf_key_file = [], cf_http_bind = ''0.0.0.0'', cf_http_port = 9080, cf_up = [], cf_down = [],
     cf_tunnels = [], cf_cmd_on = False, cf_cmd_uplink = [], cf_rate_limit_ms = 50, cf_recovery_on = True,
     cf_recovery_tunnel = ''recovery'', cf_telemetry = wfb_logger_defaults \<rparr>"

section \<open>The profile\<close>

definition profile_push_cmd :: "string \<Rightarrow> string list \<Rightarrow> string list option" where
  "profile_push_cmd cmd cmds =
     (if length cmds \<ge> GS_MAX_SYSTEM_CMDS \<or> length cmd \<ge> GS_PATH_MAX then None else Some (cmds @ [cmd]))"

fun push_cmds :: "string list \<Rightarrow> string list \<Rightarrow> string list option" where
  "push_cmds [] cmds = Some cmds"
| "push_cmds (c # cs) cmds = do { cmds1 \<leftarrow> profile_push_cmd c cmds; push_cmds cs cmds1 }"

definition profile_set_binary :: "string \<Rightarrow> string \<Rightarrow> tunnel \<Rightarrow> tunnel" where
  "profile_set_binary dir name t =
     (if dir \<noteq> [] then t\<lparr>tn_binary := take (GS_PATH_MAX - 1) (dir @ CHR ''/'' # name)\<rparr> else t)"

definition iface_up_cmds :: "int \<Rightarrow> string \<Rightarrow> int \<Rightarrow> string \<Rightarrow> string list" where
  "iface_up_cmds channel ht txpower i =
     [''ip link set '' @ i @ '' down'', ''iw dev '' @ i @ '' set monitor otherbss'', ''sleep 0.5'', ''ip link set '' @ i @ '' up'',
      ''sleep 0.5'', ''iw dev '' @ i @ '' set channel '' @ show_int channel @ '' '' @ ht]
     @ (if txpower > 0 then [''sleep 0.5'', ''iw dev '' @ i @ '' set txpower fixed '' @ show_int txpower] else [])"

definition profile_video :: "string \<Rightarrow> string list \<Rightarrow> tunnel" where
  "profile_video dir ifaces = profile_set_binary dir ''wfb_rx'' (tunnel_init_defaults\<lparr>gt_name := ''video'', gt_role := ''rx'',
     gt_ifaces := ifaces, tn_link_id := 207, tn_radio_port := 0, tn_stats_out := ''127.0.0.1:6600'', tn_probe_window_ms := 500,
     tn_extra_args := [''-x'', ''-l'', ''100'']\<rparr>)"

definition profile_probe :: "string \<Rightarrow> string list \<Rightarrow> tunnel" where
  "profile_probe dir ifaces = profile_set_binary dir ''wfb_rx'' (tunnel_init_defaults\<lparr>gt_name := ''probe'', gt_role := ''rx'',
     gt_ifaces := ifaces, tn_link_id := 50, tn_radio_port := 50, tn_udp_out_ip := ''127.0.0.1'', tn_udp_out_port := 5751,
     tn_stats_out := ''127.0.0.1:6600'', tn_probe := True, tn_probe_window_ms := 500, tn_extra_args := [''-x'', ''-l'', ''100'']\<rparr>)"

definition profile_uplink :: "string \<Rightarrow> string \<Rightarrow> tunnel" where
  "profile_uplink dir iface = profile_set_binary dir ''wfb_tx'' (tunnel_init_defaults\<lparr>gt_name := ''uplink'', gt_role := ''tx'',
     gt_ifaces := [iface], tn_link_id := 208, tn_radio_port := 0, gt_udp_in_port := 6600, tn_control_port := 8000,
     tn_radio := (tn_radio tunnel_init_defaults)\<lparr>tr_fec_k := 1, tr_fec_n := 2\<rparr>, tn_extra_args := [''-T'', ''1'']\<rparr>)"

definition valid_ht :: "string \<Rightarrow> bool" where
  "valid_ht ht = (ht = ''HT20'' \<or> ht = ''HT40+'' \<or> ht = ''HT40-'')"

definition cfg_expand_profile :: "string \<Rightarrow> jtok list \<Rightarrow> nat \<Rightarrow> config \<Rightarrow> config option" where
  "cfg_expand_profile js ts i c = do {
     iv \<leftarrow> jfind js ts i ''ifaces'';
     ifaces \<leftarrow> parse_ifaces js ts iv;
     uplink \<leftarrow> opt_field js ts i ''uplink_iface'' (\<lambda>v. do { u \<leftarrow> jstr js v IFNAMSIZ; check (u \<in> set ifaces); Some u }) (last ifaces);
     channel \<leftarrow> req_field js ts i ''channel'' (\<lambda>v. do { n \<leftarrow> jint js v; check (1 \<le> n \<and> n \<le> 200); Some n });
     ht \<leftarrow> opt_field js ts i ''ht'' (\<lambda>v. do { h \<leftarrow> jstr js v 8; check (valid_ht h); Some h }) ''HT20'';
     txpower \<leftarrow> opt_field js ts i ''txpower_mbm'' (\<lambda>v. do { n \<leftarrow> jint js v; check (0 \<le> n \<and> n \<le> 4000); Some n }) 0;
     dir \<leftarrow> opt_field js ts i ''wfb_bin_dir'' (\<lambda>v. jstr js v GS_PATH_MAX) [];
     up \<leftarrow> push_cmds (concat (map (iface_up_cmds channel ht txpower) ifaces)) [];
     up1 \<leftarrow> push_cmds (cf_up c) up;
     down \<leftarrow> push_cmds (map (\<lambda>i. ''ip link set '' @ i @ '' down'') ifaces) (cf_down c);
     Some (c\<lparr>cf_up := up1, cf_down := down,
       cf_tunnels := [profile_video dir ifaces, profile_probe dir ifaces, profile_uplink dir uplink],
       cf_cmd_on := (cf_cmd_uplink c = [] \<or> cf_cmd_on c),
       cf_cmd_uplink := (if cf_cmd_uplink c = [] then ''uplink'' else cf_cmd_uplink c)\<rparr>) }"

section \<open>Loading\<close>

definition load_http :: "string \<Rightarrow> jtok list \<Rightarrow> config \<Rightarrow> config" where
  "load_http js ts c =
     (case sub_object js ts 0 ''http'' of
        None \<Rightarrow> c
      | Some i \<Rightarrow> c\<lparr>cf_http_bind := soft_str js ts i ''bind'' 64 (cf_http_bind c),
          cf_http_port := soft_field js ts i ''port'' (\<lambda>v. map_option word_of_int (jint js v)) (cf_http_port c)\<rparr>)"

definition load_cmds :: "string \<Rightarrow> jtok list \<Rightarrow> nat \<Rightarrow> string \<Rightarrow> string list \<Rightarrow> string list option" where
  "load_cmds js ts i key old =
     (case jfind js ts i key of
        None \<Rightarrow> Some old
      | Some v \<Rightarrow>
          (if jt_type (ts ! v) \<noteq> JT_ARR then Some old
           else if jt_size (ts ! v) > GS_MAX_SYSTEM_CMDS then None
           else Some (soft_strs js ts GS_PATH_MAX (jt_size (ts ! v)) (v + 1))))"

definition load_system :: "string \<Rightarrow> jtok list \<Rightarrow> config \<Rightarrow> config option" where
  "load_system js ts c =
     (case sub_object js ts 0 ''system'' of
        None \<Rightarrow> Some c
      | Some i \<Rightarrow> do { up \<leftarrow> load_cmds js ts i ''up'' (cf_up c); down \<leftarrow> load_cmds js ts i ''down'' (cf_down c);
          Some (c\<lparr>cf_up := up, cf_down := down\<rparr>) })"

definition load_commands :: "string \<Rightarrow> jtok list \<Rightarrow> config \<Rightarrow> config" where
  "load_commands js ts c =
     (let c1 = (case sub_object js ts 0 ''venc_cmd'' of
                  None \<Rightarrow> c
                | Some i \<Rightarrow> c\<lparr>cf_cmd_on := soft_field js ts i ''enabled'' (jbool js) (cf_cmd_on c),
                    cf_cmd_uplink := soft_str js ts i ''uplink_tunnel'' GS_NAME_MAX (cf_cmd_uplink c),
                    cf_rate_limit_ms := soft_field js ts i ''rate_limit_ms'' (jint32 js) (cf_rate_limit_ms c)\<rparr>)
      in case sub_object js ts 0 ''recovery_cmd'' of
           None \<Rightarrow> c1
         | Some i \<Rightarrow> c1\<lparr>cf_recovery_on := soft_field js ts i ''enabled'' (jbool js) (cf_recovery_on c1),
             cf_recovery_tunnel := soft_str js ts i ''tunnel'' GS_NAME_MAX (cf_recovery_tunnel c1)\<rparr>)"

definition load_telemetry :: "string \<Rightarrow> jtok list \<Rightarrow> config \<Rightarrow> config" where
  "load_telemetry js ts c =
     (case sub_object js ts 0 ''telemetry'' of
        None \<Rightarrow> c
      | Some i \<Rightarrow>
          (let l = cf_telemetry c in
           c\<lparr>cf_telemetry := l\<lparr>wl_enabled := soft_field js ts i ''enabled'' (jbool js) (wl_enabled l),
             wl_drop_empty := soft_field js ts i ''drop_empty'' (jbool js) (wl_drop_empty l),
             wl_db := soft_str js ts i ''db'' 512 (wl_db l), wl_bind := soft_str js ts i ''bind'' 64 (wl_bind l),
             wl_listen_port := soft_field js ts i ''listen'' (jint32 js) (wl_listen_port l),
             wl_max_duration := soft_field js ts i ''max_duration'' (jint32 js) (wl_max_duration l),
             wl_source := soft_str js ts i ''source'' 32 (wl_source l),
             wl_channel := soft_field js ts i ''channel'' (jint32 js) (wl_channel l),
             wl_tx_power := soft_str js ts i ''tx_power'' 32 (wl_tx_power l),
             wl_antenna_cfg := soft_str js ts i ''antenna_cfg'' 64 (wl_antenna_cfg l)\<rparr>\<rparr>))"

fun load_tunnels :: "string \<Rightarrow> jtok list \<Rightarrow> nat \<Rightarrow> nat \<Rightarrow> tunnel list option" where
  "load_tunnels js ts 0 i = Some []"
| "load_tunnels js ts (Suc k) i = do { t \<leftarrow> cfg_parse_tunnel js ts i; us \<leftarrow> load_tunnels js ts k (jskip ts i); Some (t # us) }"

definition load_topology :: "string \<Rightarrow> jtok list \<Rightarrow> config \<Rightarrow> config option" where
  "load_topology js ts c =
     (case (jfind js ts 0 ''profile'', jfind js ts 0 ''tunnels'') of
        (Some p, Some v) \<Rightarrow> None
      | (Some p, None) \<Rightarrow> if jt_type (ts ! p) \<noteq> JT_OBJ then None else cfg_expand_profile js ts p c
      | (None, Some v) \<Rightarrow>
          (if jt_type (ts ! v) \<noteq> JT_ARR \<or> jt_size (ts ! v) < 1 \<or> jt_size (ts ! v) > GS_MAX_TUNNELS then None
           else map_option (\<lambda>us. c\<lparr>cf_tunnels := us\<rparr>) (load_tunnels js ts (jt_size (ts ! v)) (v + 1)))
      | (None, None) \<Rightarrow> None)"

text \<open>The last check: a probe tunnel must not send its payload to the video port.  Two tunnels on one port only get a
  warning.\<close>

definition forward_port :: "tunnel \<Rightarrow> int" where
  "forward_port t = (if tn_udp_out_ip t \<noteq> [] then tn_udp_out_port t else 5600)"

definition probe_forward_ok :: "tunnel \<Rightarrow> bool" where
  "probe_forward_ok t = (gt_role t = ''rx'' \<and> tn_probe t \<longrightarrow> tn_udp_out_ip t \<noteq> [] \<and> forward_port t \<noteq> 5600)"

text \<open>\<open>file\<close>: what was read, \<open>None\<close> when it cannot be opened or read as a whole.\<close>

definition read_object :: "string option \<Rightarrow> (string \<times> jtok list) option" where
  "read_object file =
     (case file of
        None \<Rightarrow> None
      | Some js \<Rightarrow>
          (if js = [] \<or> length js > 256 * 1024 then None
           else case json_parse js JSON_MAX_TOKS of
             None \<Rightarrow> None
           | Some ts \<Rightarrow> if ts = [] \<or> jt_type (ts ! 0) \<noteq> JT_OBJ then None else Some (js, ts)))"

definition cfg_load :: "string option \<Rightarrow> config option" where
  "cfg_load file = do {
     (js, ts) \<leftarrow> read_object file;
     let c = cfg_defaults\<lparr>cf_key_file := soft_str js ts 0 ''key_file'' GS_PATH_MAX []\<rparr>;
     c1 \<leftarrow> load_system js ts (load_http js ts c);
     c2 \<leftarrow> load_topology js ts (load_telemetry js ts (load_commands js ts c1));
     check (list_all probe_forward_ok (cf_tunnels c2));
     Some c2 }"

section \<open>The overlay\<close>

text \<open>The tunnel of a name is the first one.\<close>

fun upd_named :: "string \<Rightarrow> (tunnel \<Rightarrow> tunnel) \<Rightarrow> tunnel list \<Rightarrow> tunnel list" where
  "upd_named n f [] = []"
| "upd_named n f (t # us) = (if gt_name t = n then f t # us else t # upd_named n f us)"

definition overlay_key :: "string \<Rightarrow> jtok list \<Rightarrow> config \<Rightarrow> config" where
  "overlay_key js ts c =
     (case sub_object js ts 0 ''key'' of
        None \<Rightarrow> c
      | Some i \<Rightarrow> c\<lparr>cf_key_file := soft_field js ts i ''file'' (\<lambda>v. jstr js v GS_PATH_MAX) (cf_key_file c)\<rparr>)"

definition overlay_link :: "string \<Rightarrow> jtok list \<Rightarrow> nat \<Rightarrow> string \<Rightarrow> tunnel list \<Rightarrow> tunnel list" where
  "overlay_link js ts i n us =
     (case Option.bind (jfind js ts i n) (\<lambda>v. jint32 js (ts ! v)) of
        None \<Rightarrow> us
      | Some l \<Rightarrow> upd_named n (\<lambda>t. t\<lparr>tn_link_id := l\<rparr>) us)"

definition overlay_links :: "string \<Rightarrow> jtok list \<Rightarrow> config \<Rightarrow> config" where
  "overlay_links js ts c =
     (case sub_object js ts 0 ''links'' of
        None \<Rightarrow> c
      | Some i \<Rightarrow> c\<lparr>cf_tunnels := fold (overlay_link js ts i) [''video'', ''uplink'', ''probe''] (cf_tunnels c)\<rparr>)"

text \<open>A number below 0 counts as absent.\<close>

definition overlay_int :: "string \<Rightarrow> jtok list \<Rightarrow> string \<Rightarrow> string \<Rightarrow> int" where
  "overlay_int js ts sec key =
     (case sub_object js ts 0 sec of None \<Rightarrow> - 1 | Some i \<Rightarrow> soft_field js ts i key (jint32 js) (- 1))"

definition set_if :: "int \<Rightarrow> int \<Rightarrow> int" where
  "set_if v old = (if v \<ge> 0 then v else old)"

definition overlay_tx :: "int \<Rightarrow> int \<Rightarrow> int \<Rightarrow> int \<Rightarrow> tunnel \<Rightarrow> tunnel" where
  "overlay_tx k n mcs bw t =
     (if gt_role t \<noteq> ''tx'' then t
      else t\<lparr>tn_radio := (tn_radio t)\<lparr>tr_fec_k := set_if k (tr_fec_k (tn_radio t)), tr_fec_n := set_if n (tr_fec_n (tn_radio t)),
        tr_mcs := set_if mcs (tr_mcs (tn_radio t)), tr_bandwidth := set_if bw (tr_bandwidth (tn_radio t))\<rparr>\<rparr>)"

definition SET_CHANNEL :: string where
  "SET_CHANNEL = ''set channel ''"

definition rewrite_channel :: "string \<Rightarrow> string \<Rightarrow> string" where
  "rewrite_channel ht cmd =
     (case strstr cmd SET_CHANNEL of
        None \<Rightarrow> cmd
      | Some q \<Rightarrow>
          (let p = drop (length SET_CHANNEL) q; chan = takeWhile (\<lambda>c. c \<noteq> CHR '' '') p;
               nb = take (length cmd - length p) cmd @ chan @ '' '' @ ht
           in if chan = [] \<or> length chan \<ge> 8 \<or> length nb \<ge> GS_PATH_MAX then cmd else nb))"

definition overlay_htmode :: "string \<Rightarrow> jtok list \<Rightarrow> config \<Rightarrow> config" where
  "overlay_htmode js ts c =
     (case do { i \<leftarrow> sub_object js ts 0 ''radio''; v \<leftarrow> jfind js ts i ''htmode''; jstr js (ts ! v) 8 } of
        None \<Rightarrow> c
      | Some ht \<Rightarrow> if valid_ht ht then c\<lparr>cf_up := map (rewrite_channel ht) (cf_up c)\<rparr> else c)"

definition cfg_apply_wfb_link_overlay :: "string option \<Rightarrow> config \<Rightarrow> config" where
  "cfg_apply_wfb_link_overlay file c =
     (case read_object file of
        None \<Rightarrow> c
      | Some (js, ts) \<Rightarrow>
          (let c1 = overlay_links js ts (overlay_key js ts c);
               k = overlay_int js ts ''fec'' ''k''; n = overlay_int js ts ''fec'' ''n'';
               mcs = overlay_int js ts ''mcs'' ''boot''; bw = overlay_int js ts ''radio'' ''bw''
           in overlay_htmode js ts (c1\<lparr>cf_tunnels := map (overlay_tx k n mcs bw) (cf_tunnels c1)\<rparr>)))"

section \<open>Start\<close>

definition main_config :: "string option \<Rightarrow> string option \<Rightarrow> int \<Rightarrow> config option" where
  "main_config file link port =
     (case cfg_load file of
        None \<Rightarrow> None
      | Some c \<Rightarrow>
          (let c1 = cfg_apply_wfb_link_overlay link c
           in Some (if port > 0 \<and> port < 65536 then c1\<lparr>cf_http_port := word_of_int port\<rparr> else c1)))"

definition sup_of_config :: "config \<Rightarrow> 'w \<Rightarrow> 'w sup" where
  "sup_of_config c w = \<lparr> su_os = \<lparr> os_world = w, os_req_id = 0, os_trace = [] \<rparr>, su_tunnels = cf_tunnels c,
     su_key_file = cf_key_file c, su_up = cf_up c, su_down = cf_down c, su_system = SYS_DOWN, su_gs = gs_init w \<rparr>"

definition gs_config_of :: "config \<Rightarrow> gs_config" where
  "gs_config_of c = \<lparr> gc_tunnels = map gs_tunnel.truncate (cf_tunnels c), gc_cmd_on = cf_cmd_on c, gc_cmd_uplink = cf_cmd_uplink c,
     gc_rate_limit_ms = cf_rate_limit_ms c, gc_recovery_on = cf_recovery_on c, gc_recovery_tunnel = cf_recovery_tunnel c \<rparr>"

end
