(* ===== verification/ConfigSafety.thy ===== *)
theory ConfigSafety
  imports GroundConfig GroundSafety JsonTokens
begin

text \<open>
  Which configurations the ground supervisor starts with: the invariant of an accepted one, what a profile stands for, and
  what the overlay of \<open>/etc/wfb-link.json\<close> may change.
\<close>

section \<open>What an accepted configuration promises\<close>

definition tunnel_ok :: "tunnel \<Rightarrow> bool" where
  "tunnel_ok t = (gt_role t \<in> {''rx'', ''tx''} \<and> length (gt_name t) < GS_NAME_MAX
     \<and> 1 \<le> length (gt_ifaces t) \<and> length (gt_ifaces t) \<le> GS_MAX_IFACES \<and> (\<forall>i \<in> set (gt_ifaces t). length i < IFNAMSIZ)
     \<and> length (tn_extra_args t) \<le> GS_MAX_EXTRA_ARGS \<and> (\<forall>a \<in> set (tn_extra_args t). length a < GS_ARG_MAX)
     \<and> (gt_role t = ''rx'' \<longrightarrow> 100 \<le> tn_probe_window_ms t \<and> tn_probe_window_ms t \<le> 10000)
     \<and> (tn_udp_out_ip t \<noteq> [] \<longrightarrow> 1 \<le> tn_udp_out_port t \<and> tn_udp_out_port t \<le> 65535)
     \<and> (tn_probe t \<longrightarrow> gt_role t = ''rx'')
     \<and> tp_state (tn_proc t) = TS_STOPPED \<and> tp_pid (tn_proc t) \<le> 0 \<and> \<not> tl_open (tn_listen t))"

definition config_ok :: "config \<Rightarrow> bool" where
  "config_ok c = (1 \<le> length (cf_tunnels c) \<and> length (cf_tunnels c) \<le> GS_MAX_TUNNELS \<and> list_all tunnel_ok (cf_tunnels c)
     \<and> list_all probe_forward_ok (cf_tunnels c)
     \<and> length (cf_up c) \<le> GS_MAX_SYSTEM_CMDS \<and> (\<forall>s \<in> set (cf_up c). length s < GS_PATH_MAX)
     \<and> length (cf_down c) \<le> GS_MAX_SYSTEM_CMDS \<and> (\<forall>s \<in> set (cf_down c). length s < GS_PATH_MAX))"

named_theorems cfg_sizes

lemma sizes [cfg_sizes]: "GS_NAME_MAX = 32" "GS_PATH_MAX = 256" "GS_ARG_MAX = 128" "IFNAMSIZ = 16" "GS_MAX_TUNNELS = 8" "GS_MAX_IFACES = 4"
  "GS_MAX_EXTRA_ARGS = 16" "GS_MAX_SYSTEM_CMDS = 32"
  by (simp_all add: GS_NAME_MAX_def GS_PATH_MAX_def GS_ARG_MAX_def IFNAMSIZ_def GS_MAX_TUNNELS_def GS_MAX_IFACES_def
      GS_MAX_EXTRA_ARGS_def GS_MAX_SYSTEM_CMDS_def)

lemma jstr_length: "jstr js t n = Some s \<Longrightarrow> 0 < n \<Longrightarrow> length s < n"
proof -
  assume a: "jstr js t n = Some s" "0 < n"
  define l where "l = (let l = jt_end t - jt_start t in if l < 0 \<or> l \<ge> int n then int n - 1 else l)"
  have "nat l < n" using a(2) by (auto simp: l_def Let_def)
  have "s = c_str (jspan js t (nat l))" using a(1) by (auto simp: jstr_def l_def Let_def split: if_splits)
  moreover have "length (c_str x) \<le> length x" for x unfolding c_str_def by (rule length_takeWhile_le)
  moreover have "length (jspan js t (nat l)) \<le> nat l" by (simp add: jspan_def)
  ultimately show "length s < n" using \<open>nat l < n\<close> by (metis le_less_trans)
qed

lemma jstrs_length: "jstrs js ts n k i = Some ss \<Longrightarrow> 0 < n \<Longrightarrow> length ss = k \<and> (\<forall>s \<in> set ss. length s < n)"
proof (induction k arbitrary: i ss)
  case (Suc k)
  obtain s rest where "jstr js (ts ! i) n = Some s" "jstrs js ts n k (jskip ts i) = Some rest" "ss = s # rest"
    using Suc.prems(1) by (auto simp: bind_eq_Some_conv)
  then show ?case using Suc.IH [OF _ Suc.prems(2)] jstr_length [OF _ Suc.prems(2)] by auto
qed simp

lemma soft_strs_length: "0 < n \<Longrightarrow> length (soft_strs js ts n k i) = k \<and> (\<forall>s \<in> set (soft_strs js ts n k i). length s < n)"
  by (induction k arbitrary: i) (auto split: option.split dest: jstr_length)

lemma check_some: "check b = Some x \<longleftrightarrow> b"
  by (simp add: check_def)

lemma opt_some: "opt_field js ts i key rd old = Some x \<Longrightarrow> x = old \<or> (\<exists>v. rd v = Some x)"
  by (auto simp: opt_field_def split: option.splits)

lemma req_some: "req_field js ts i key rd = Some x \<Longrightarrow> \<exists>v. rd v = Some x"
  by (auto simp: req_field_def split: option.splits)

lemma ifaces_ok: "parse_ifaces js ts v = Some is \<Longrightarrow> 1 \<le> length is \<and> length is \<le> GS_MAX_IFACES \<and> (\<forall>i \<in> set is. length i < IFNAMSIZ)"
  using jstrs_length by (auto simp: parse_ifaces_def cfg_sizes split: if_splits)

lemma args_ok: "parse_extra_args js ts i = Some as \<Longrightarrow> length as \<le> GS_MAX_EXTRA_ARGS \<and> (\<forall>a \<in> set as. length a < GS_ARG_MAX)"
  using jstrs_length by (auto simp: parse_extra_args_def cfg_sizes split: if_splits option.splits)

lemma udp_ok: "parse_udp_out s = Some (ip, port) \<Longrightarrow> 1 \<le> port \<and> port \<le> 65535"
  by (auto simp: parse_udp_out_def Let_def split: option.splits if_splits)

lemma rx_ok:
  assumes "parse_tunnel_rx js ts i t = Some t'" "tn_udp_out_ip t = []"
  shows "\<exists>ip port so tap pr win. t' = t\<lparr>tn_udp_out_ip := ip, tn_udp_out_port := port, tn_stats_out := so, tn_stats_tap := tap, tn_probe := pr,
       tn_probe_window_ms := win\<rparr> \<and> 100 \<le> win \<and> win \<le> 10000 \<and> (ip \<noteq> [] \<longrightarrow> 1 \<le> port \<and> port \<le> 65535)"
proof -
  obtain ip port so tap pr win where f:
    "opt_field js ts i ''udp_out'' (\<lambda>v. Option.bind (jstr js v GS_ARG_MAX) parse_udp_out) (tn_udp_out_ip t, tn_udp_out_port t) = Some (ip, port)"
    "opt_field js ts i ''probe_window_ms'' (\<lambda>v. do { w \<leftarrow> jint js v; check (100 \<le> w \<and> w \<le> 10000); Some w }) 500 = Some win"
    "t' = t\<lparr>tn_udp_out_ip := ip, tn_udp_out_port := port, tn_stats_out := so, tn_stats_tap := tap, tn_probe := pr, tn_probe_window_ms := win\<rparr>"
    using assms(1) by (auto simp: parse_tunnel_rx_def bind_eq_Some_conv)
  have "100 \<le> win \<and> win \<le> 10000" using opt_some [OF f(2)] by (auto simp: bind_eq_Some_conv check_some)
  moreover have "ip \<noteq> [] \<longrightarrow> 1 \<le> port \<and> port \<le> 65535"
    using opt_some [OF f(1)] assms(2) udp_ok by (auto simp: bind_eq_Some_conv)
  ultimately show ?thesis using f(3) by blast
qed

lemma tx_ok:
  assumes "parse_tunnel_tx js ts i t = Some t'"
  shows "\<exists>up cp r. t' = t\<lparr>gt_udp_in_port := up, tn_control_port := cp, tn_radio := r\<rparr>"
  using assms by (auto simp: parse_tunnel_tx_def bind_eq_Some_conv)

lemma parse_tunnel_ok:
  assumes "cfg_parse_tunnel js ts i = Some t"
  shows "tunnel_ok t"
proof -
  obtain name role link port ifaces args auto' keyless bin t1 t2 where f:
    "req_field js ts i ''name'' (\<lambda>v. jstr js v GS_NAME_MAX) = Some name" "role = ''rx'' \<or> role = ''tx''"
    "\<exists>iv. parse_ifaces js ts iv = Some ifaces" "parse_extra_args js ts i = Some args"
    "t1 = tunnel_init_defaults\<lparr>gt_name := name, gt_role := role, gt_ifaces := ifaces, tn_binary := bin, tn_link_id := link, tn_radio_port := port,
       tn_extra_args := args, tn_keyless := keyless, tn_autostart := auto'\<rparr>"
    "(if role = ''rx'' then parse_tunnel_rx js ts i t1 else parse_tunnel_tx js ts i t1) = Some t2"
    "t = upd_proc (\<lambda>p. p\<lparr>tp_state := TS_STOPPED, tp_pid := - 1\<rparr>) t2"
    using assms unfolding cfg_parse_tunnel_def Let_def bind_eq_Some_conv check_some by blast
  have nm: "length name < GS_NAME_MAX" using req_some [OF f(1)] jstr_length by (auto simp: cfg_sizes)
  have ia: "1 \<le> length ifaces" "length ifaces \<le> GS_MAX_IFACES" "\<forall>i \<in> set ifaces. length i < IFNAMSIZ"
    "length args \<le> GS_MAX_EXTRA_ARGS" "\<forall>a \<in> set args. length a < GS_ARG_MAX" using f(3) ifaces_ok args_ok [OF f(4)] by blast+
  have ip: "tn_udp_out_ip t1 = []" "\<not> tn_probe t1" "\<not> tl_open (tn_listen t1)" by (simp_all add: f(5) tunnel_init_defaults_def)
  show ?thesis
  proof (cases "role = ''rx''")
    case True
    then have "parse_tunnel_rx js ts i t1 = Some t2" using f(6) by simp
    from rx_ok [OF this ip(1)] show ?thesis using nm ia ip True by (auto simp: tunnel_ok_def f(7) upd_proc_def f(5))
  next
    case False
    then have "parse_tunnel_tx js ts i t1 = Some t2" using f(6) by simp
    from tx_ok [OF this] show ?thesis using nm ia ip False f(2) by (auto simp: tunnel_ok_def f(7) upd_proc_def f(5))
  qed
qed

lemma load_tunnels_ok: "load_tunnels js ts k i = Some us \<Longrightarrow> length us = k \<and> list_all tunnel_ok us"
  by (induction k arbitrary: i us) (auto simp: bind_eq_Some_conv parse_tunnel_ok)

lemma push_ok:
  "push_cmds cs cmds = Some r \<Longrightarrow> r = cmds @ cs \<and> (length cmds \<le> GS_MAX_SYSTEM_CMDS \<longrightarrow> length r \<le> GS_MAX_SYSTEM_CMDS)
     \<and> (\<forall>s \<in> set cs. length s < GS_PATH_MAX)"
proof (induction cs arbitrary: cmds)
  case (Cons c cs)
  then have c: "length cmds < GS_MAX_SYSTEM_CMDS" "length c < GS_PATH_MAX" "push_cmds cs (cmds @ [c]) = Some r"
    by (auto simp: bind_eq_Some_conv profile_push_cmd_def split: if_splits)
  show ?case using Cons.IH [OF c(3)] c(1,2) by auto
qed simp

lemma push_sizes:
  assumes "push_cmds cs cmds = Some r" "length cmds \<le> GS_MAX_SYSTEM_CMDS" "\<forall>s \<in> set cmds. length s < GS_PATH_MAX"
  shows "length r \<le> GS_MAX_SYSTEM_CMDS" "\<forall>s \<in> set r. length s < GS_PATH_MAX"
  using push_ok [OF assms(1)] assms(2,3) by auto

lemma push_append: "push_cmds (a @ b) x = Option.bind (push_cmds a x) (push_cmds b)"
proof (induction a arbitrary: x)
  case (Cons c a)
  then show ?case by (cases "profile_push_cmd c x") simp_all
qed simp

lemma profile_shape:
  assumes "cfg_expand_profile js ts i c = Some c'"
  obtains ifaces uplink channel ht txpower dir
  where "1 \<le> length ifaces" "length ifaces \<le> GS_MAX_IFACES" "\<forall>i \<in> set ifaces. length i < IFNAMSIZ" "uplink \<in> set ifaces"
    "1 \<le> channel" "channel \<le> 200" "valid_ht ht" "0 \<le> txpower" "txpower \<le> 4000"
    "push_cmds (concat (map (iface_up_cmds channel ht txpower) ifaces) @ cf_up c) [] = Some (cf_up c')"
    "push_cmds (map (\<lambda>i. ''ip link set '' @ i @ '' down'') ifaces) (cf_down c) = Some (cf_down c')"
    "cf_tunnels c' = [profile_video dir ifaces, profile_probe dir ifaces, profile_uplink dir uplink]"
    "cf_cmd_on c' = (cf_cmd_uplink c = [] \<or> cf_cmd_on c)" "cf_cmd_uplink c' = (if cf_cmd_uplink c = [] then ''uplink'' else cf_cmd_uplink c)"
proof -
  obtain iv ifaces uplink channel ht txpower dir up up1 down where f:
    "parse_ifaces js ts iv = Some ifaces"
    "opt_field js ts i ''uplink_iface'' (\<lambda>v. do { u \<leftarrow> jstr js v IFNAMSIZ; check (u \<in> set ifaces); Some u }) (last ifaces) = Some uplink"
    "req_field js ts i ''channel'' (\<lambda>v. do { n \<leftarrow> jint js v; check (1 \<le> n \<and> n \<le> 200); Some n }) = Some channel"
    "opt_field js ts i ''ht'' (\<lambda>v. do { h \<leftarrow> jstr js v 8; check (valid_ht h); Some h }) ''HT20'' = Some ht"
    "opt_field js ts i ''txpower_mbm'' (\<lambda>v. do { n \<leftarrow> jint js v; check (0 \<le> n \<and> n \<le> 4000); Some n }) 0 = Some txpower"
    "push_cmds (concat (map (iface_up_cmds channel ht txpower) ifaces)) [] = Some up" "push_cmds (cf_up c) up = Some up1"
    "push_cmds (map (\<lambda>i. ''ip link set '' @ i @ '' down'') ifaces) (cf_down c) = Some down"
    "c' = c\<lparr>cf_up := up1, cf_down := down,
       cf_tunnels := [profile_video dir ifaces, profile_probe dir ifaces, profile_uplink dir uplink],
       cf_cmd_on := (cf_cmd_uplink c = [] \<or> cf_cmd_on c),
       cf_cmd_uplink := (if cf_cmd_uplink c = [] then ''uplink'' else cf_cmd_uplink c)\<rparr>"
    using assms unfolding cfg_expand_profile_def bind_eq_Some_conv by blast
  note ia = ifaces_ok [OF f(1)]
  from ia have "last ifaces \<in> set ifaces" by (intro last_in_set) auto
  then have "uplink \<in> set ifaces" using opt_some [OF f(2)] by (auto simp: bind_eq_Some_conv check_some)
  moreover have "1 \<le> channel \<and> channel \<le> 200" using req_some [OF f(3)] by (auto simp: bind_eq_Some_conv check_some)
  moreover have "valid_ht ht" using opt_some [OF f(4)] by (auto simp: bind_eq_Some_conv check_some) (simp add: valid_ht_def)
  moreover have "0 \<le> txpower \<and> txpower \<le> 4000" using opt_some [OF f(5)] by (auto simp: bind_eq_Some_conv check_some)
  moreover note push_append
  ultimately show thesis using ia f(6-9) by (intro that [of ifaces uplink channel ht txpower dir]) simp_all
qed

lemma profile_tunnels_ok:
  assumes "1 \<le> length ifaces" "length ifaces \<le> GS_MAX_IFACES" "\<forall>i \<in> set ifaces. length i < IFNAMSIZ" "uplink \<in> set ifaces"
  shows "list_all tunnel_ok [profile_video dir ifaces, profile_probe dir ifaces, profile_uplink dir uplink]"
    "list_all probe_forward_ok [profile_video dir ifaces, profile_probe dir ifaces, profile_uplink dir uplink]"
proof -
  have a: "1 \<le> length ifaces" "length ifaces \<le> 4" "\<forall>i \<in> set ifaces. length i < 16" "uplink \<in> set ifaces"
    using assms by (simp_all add: cfg_sizes)
  show "list_all tunnel_ok [profile_video dir ifaces, profile_probe dir ifaces, profile_uplink dir uplink]"
    using a by (simp add: tunnel_ok_def profile_video_def profile_probe_def profile_uplink_def profile_set_binary_def
        tunnel_init_defaults_def cfg_sizes)
  show "list_all probe_forward_ok [profile_video dir ifaces, profile_probe dir ifaces, profile_uplink dir uplink]"
    by (simp add: probe_forward_ok_def forward_port_def profile_video_def profile_probe_def profile_uplink_def profile_set_binary_def
        tunnel_init_defaults_def)
qed

definition cmds_ok :: "config \<Rightarrow> bool" where
  "cmds_ok c = (length (cf_up c) \<le> GS_MAX_SYSTEM_CMDS \<and> (\<forall>s \<in> set (cf_up c). length s < GS_PATH_MAX)
     \<and> length (cf_down c) \<le> GS_MAX_SYSTEM_CMDS \<and> (\<forall>s \<in> set (cf_down c). length s < GS_PATH_MAX))"

lemma load_cmds_ok:
  assumes "load_cmds js ts i key old = Some cs" "length old \<le> GS_MAX_SYSTEM_CMDS" "\<forall>s \<in> set old. length s < GS_PATH_MAX"
  shows "length cs \<le> GS_MAX_SYSTEM_CMDS \<and> (\<forall>s \<in> set cs. length s < GS_PATH_MAX)"
  using assms soft_strs_length [of GS_PATH_MAX js ts] by (auto simp: load_cmds_def cfg_sizes split: option.splits if_splits)

lemma load_system_ok: "load_system js ts c = Some c' \<Longrightarrow> cmds_ok c \<Longrightarrow> cmds_ok c'"
  unfolding load_system_def cmds_ok_def
  by (auto simp: bind_eq_Some_conv split: option.splits dest!: load_cmds_ok)

lemma load_keeps:
  "cf_up (load_http js ts c) = cf_up c" "cf_down (load_http js ts c) = cf_down c"
  "cf_up (load_commands js ts c) = cf_up c" "cf_down (load_commands js ts c) = cf_down c"
  "cf_up (load_telemetry js ts c) = cf_up c" "cf_down (load_telemetry js ts c) = cf_down c"
  by (simp_all add: load_http_def load_commands_def load_telemetry_def Let_def split: option.split)

lemma load_topology_ok:
  assumes "load_topology js ts c = Some c'" "cmds_ok c"
  shows "cmds_ok c' \<and> 1 \<le> length (cf_tunnels c') \<and> length (cf_tunnels c') \<le> GS_MAX_TUNNELS \<and> list_all tunnel_ok (cf_tunnels c')"
proof (cases "jfind js ts 0 ''profile''")
  case (Some p)
  then have "cfg_expand_profile js ts p c = Some c'" using assms(1) by (auto simp: load_topology_def split: option.splits if_splits)
  then obtain ifaces uplink channel ht txpower dir where f:
    "1 \<le> length ifaces" "length ifaces \<le> GS_MAX_IFACES" "\<forall>i \<in> set ifaces. length i < IFNAMSIZ" "uplink \<in> set ifaces"
    "1 \<le> channel" "channel \<le> 200" "valid_ht ht" "0 \<le> txpower" "txpower \<le> 4000"
    "push_cmds (concat (map (iface_up_cmds channel ht txpower) ifaces) @ cf_up c) [] = Some (cf_up c')"
    "push_cmds (map (\<lambda>i. ''ip link set '' @ i @ '' down'') ifaces) (cf_down c) = Some (cf_down c')"
    "cf_tunnels c' = [profile_video dir ifaces, profile_probe dir ifaces, profile_uplink dir uplink]"
    "cf_cmd_on c' = (cf_cmd_uplink c = [] \<or> cf_cmd_on c)" "cf_cmd_uplink c' = (if cf_cmd_uplink c = [] then ''uplink'' else cf_cmd_uplink c)"
    by (rule profile_shape)
  have old: "length (cf_down c) \<le> GS_MAX_SYSTEM_CMDS" "\<forall>s \<in> set (cf_down c). length s < GS_PATH_MAX"
    using assms(2) by (simp_all add: cmds_ok_def)
  have none: "length ([] :: string list) \<le> GS_MAX_SYSTEM_CMDS" "\<forall>s \<in> set ([] :: string list). length s < GS_PATH_MAX" by simp_all
  note up = push_sizes [OF f(10) none] and dn = push_sizes [OF f(11) old]
  have "list_all tunnel_ok (cf_tunnels c')" unfolding f(12) by (rule profile_tunnels_ok(1) [OF f(1-4)])
  moreover have "length (cf_tunnels c') = 3" by (simp add: f(12))
  ultimately show ?thesis using up dn by (simp add: cmds_ok_def cfg_sizes)
next
  case None
  then obtain v where t: "jfind js ts 0 ''tunnels'' = Some v" using assms(1) by (auto simp: load_topology_def split: option.splits)
  have v: "1 \<le> jt_size (ts ! v)" "jt_size (ts ! v) \<le> GS_MAX_TUNNELS"
      "map_option (\<lambda>us. c\<lparr>cf_tunnels := us\<rparr>) (load_tunnels js ts (jt_size (ts ! v)) (v + 1)) = Some c'"
    using assms(1) None t by (simp_all add: load_topology_def split: if_splits)
  then obtain us where us: "load_tunnels js ts (jt_size (ts ! v)) (v + 1) = Some us" "c' = c\<lparr>cf_tunnels := us\<rparr>" by blast
  show ?thesis using load_tunnels_ok [OF us(1)] v(1,2) us(2) assms(2) by (simp add: cmds_ok_def)
qed

lemma load_ok:
  assumes "cfg_load file = Some c"
  shows "config_ok c"
proof -
  obtain js ts c1 where f: "load_system js ts (load_http js ts (cfg_defaults\<lparr>cf_key_file := soft_str js ts 0 ''key_file'' GS_PATH_MAX []\<rparr>)) = Some c1"
    "load_topology js ts (load_telemetry js ts (load_commands js ts c1)) = Some c" "list_all probe_forward_ok (cf_tunnels c)"
    using assms unfolding cfg_load_def by (auto simp: bind_eq_Some_conv check_some Let_def)
  have "cmds_ok (load_http js ts (cfg_defaults\<lparr>cf_key_file := soft_str js ts 0 ''key_file'' GS_PATH_MAX []\<rparr>))"
    by (simp add: cmds_ok_def load_keeps cfg_defaults_def)
  from load_system_ok [OF f(1) this] have "cmds_ok (load_telemetry js ts (load_commands js ts c1))" by (simp add: cmds_ok_def load_keeps)
  from load_topology_ok [OF f(2) this] f(3) show ?thesis by (simp add: config_ok_def cmds_ok_def)
qed

section \<open>The overlay\<close>

lemma upd_named_map: "(\<And>t. P (f t) = P t) \<Longrightarrow> map P (upd_named n f us) = map P us"
  by (induction us) auto

text \<open>Everything of a tunnel except its link id, FEC parameters, MCS and bandwidth.\<close>

definition overlay_frame :: "tunnel \<Rightarrow> tunnel" where
  "overlay_frame t = t\<lparr>tn_link_id := 0, tn_radio := (tn_radio t)\<lparr>tr_fec_k := 0, tr_fec_n := 0, tr_mcs := 0, tr_bandwidth := 0\<rparr>\<rparr>"

lemma overlay_tx_frame: "overlay_frame (overlay_tx k n mcs bw t) = overlay_frame t"
  by (simp add: overlay_frame_def overlay_tx_def)

lemma overlay_link_frame: "map overlay_frame (overlay_link js ts i n us) = map overlay_frame us"
  by (simp add: overlay_link_def upd_named_map overlay_frame_def split: option.split)

lemma overlay_links_frame: "map overlay_frame (cf_tunnels (overlay_links js ts c)) = map overlay_frame (cf_tunnels c)"
  by (simp add: overlay_links_def overlay_link_frame split: option.split)

lemma frame_ok: "overlay_frame t = overlay_frame t' \<Longrightarrow> tunnel_ok t = tunnel_ok t' \<and> probe_forward_ok t = probe_forward_ok t'"
proof -
  assume a: "overlay_frame t = overlay_frame t'"
  have f: "tunnel_ok (overlay_frame t) = tunnel_ok t" "probe_forward_ok (overlay_frame t) = probe_forward_ok t" for t
    by (simp_all add: tunnel_ok_def overlay_frame_def probe_forward_ok_def forward_port_def)
  show ?thesis using a f by metis
qed

lemma strstr_take: "strstr s p = Some q \<Longrightarrow> \<exists>a. s = a @ q \<and> take (length p) q = p \<and> q = p @ drop (length p) q"
proof (induction s p rule: strstr.induct)
  case (2 c s pat)
  show ?case
  proof (cases "take (length pat) (c # s) = pat")
    case True
    then have "q = c # s" using 2 by simp
    then show ?thesis using True by (metis append_Nil append_take_drop_id)
  next
    case False
    then obtain a where "s = a @ q" "take (length pat) q = pat" "q = pat @ drop (length pat) q" using 2 by auto
    then show ?thesis by (intro exI [of _ "c # a"]) simp
  qed
qed (auto split: if_splits)

lemma strstr_tail: "strstr (a @ p @ r) p = Some (p @ r) \<Longrightarrow> strstr (a @ p @ r') p = Some (p @ r')"
proof (induction a)
  case Nil
  show ?case by (cases "p @ r'") (auto simp: strstr.simps split: if_splits, metis append_eq_conv_conj)
next
  case (Cons c a)
  let ?w = "\<lambda>r. take (length p) (c # a @ p @ r)"
  have "?w r = ?w r'" by (cases p) (simp_all add: take_Cons')
  moreover have "?w r \<noteq> p"
  proof
    assume "?w r = p"
    then have "Some (c # a @ p @ r) = Some (p @ r)" using Cons.prems by simp
    then have "length (c # a @ p @ r) = length (p @ r)" by simp
    then show False by simp
  qed
  ultimately show ?case using Cons by simp
qed

lemma rewrite_cases:
  assumes "rewrite_channel ht cmd \<noteq> cmd"
  obtains a r chan where "cmd = a @ SET_CHANNEL @ r" "strstr cmd SET_CHANNEL = Some (SET_CHANNEL @ r)"
    "chan = takeWhile (\<lambda>c. c \<noteq> CHR '' '') r" "chan \<noteq> []" "length chan < 8" "length (a @ SET_CHANNEL @ chan @ '' '' @ ht) < GS_PATH_MAX"
    "rewrite_channel ht cmd = a @ SET_CHANNEL @ chan @ '' '' @ ht"
proof -
  obtain q where q: "strstr cmd SET_CHANNEL = Some q" using assms by (auto simp: rewrite_channel_def split: option.splits)
  obtain a where a: "cmd = a @ q" "q = SET_CHANNEL @ drop (length SET_CHANNEL) q" using strstr_take [OF q] by blast
  define r where "r = drop (length SET_CHANNEL) q"
  define chan where "chan = takeWhile (\<lambda>c. c \<noteq> CHR '' '') r"
  have c: "cmd = a @ SET_CHANNEL @ r" "q = SET_CHANNEL @ r" using a by (simp_all add: r_def)
  have pre: "take (length cmd - length r) cmd = a @ SET_CHANNEL" by (simp add: c(1))
  have e: "rewrite_channel ht cmd = (if chan = [] \<or> length chan \<ge> 8 \<or> length (a @ SET_CHANNEL @ chan @ '' '' @ ht) \<ge> GS_PATH_MAX
      then cmd else a @ SET_CHANNEL @ chan @ '' '' @ ht)"
    unfolding rewrite_channel_def q option.case Let_def r_def [symmetric] chan_def [symmetric] pre by (simp only: append_assoc)
  then have n: "\<not> (chan = [] \<or> length chan \<ge> 8 \<or> length (a @ SET_CHANNEL @ chan @ '' '' @ ht) \<ge> GS_PATH_MAX)" using assms by metis
  show thesis
    by (rule that [of a r chan]) (use c q n e in \<open>simp_all add: chan_def\<close>)
qed

lemma rewrite_idem:
  assumes "CHR '' '' \<notin> set ht"
  shows "rewrite_channel ht (rewrite_channel ht cmd) = rewrite_channel ht cmd"
proof (cases "rewrite_channel ht cmd = cmd")
  case False
  then obtain a r chan where f: "cmd = a @ SET_CHANNEL @ r" "strstr cmd SET_CHANNEL = Some (SET_CHANNEL @ r)"
    "chan = takeWhile (\<lambda>c. c \<noteq> CHR '' '') r" "chan \<noteq> []" "length chan < 8" "length (a @ SET_CHANNEL @ chan @ '' '' @ ht) < GS_PATH_MAX"
    "rewrite_channel ht cmd = a @ SET_CHANNEL @ chan @ '' '' @ ht"
    by (rule rewrite_cases)
  have s2: "strstr (a @ SET_CHANNEL @ chan @ '' '' @ ht) SET_CHANNEL = Some (SET_CHANNEL @ chan @ '' '' @ ht)"
    by (rule strstr_tail) (use f(1,2) in simp)
  have "\<forall>x \<in> set chan. x \<noteq> CHR '' ''" unfolding f(3) by (auto dest: set_takeWhileD)
  then have tw: "takeWhile (\<lambda>c. c \<noteq> CHR '' '') (chan @ '' '' @ ht) = chan" by (simp add: takeWhile_tail)
  have d: "drop (length SET_CHANNEL) (SET_CHANNEL @ chan @ '' '' @ ht) = chan @ '' '' @ ht" by simp
  have l: "take (length (a @ SET_CHANNEL @ chan @ '' '' @ ht) - length (chan @ '' '' @ ht)) (a @ SET_CHANNEL @ chan @ '' '' @ ht)
      = a @ SET_CHANNEL" by simp
  show ?thesis unfolding f(7) unfolding rewrite_channel_def s2 option.case d Let_def tw l by (simp add: f(4))
qed simp

lemma rewrite_length:
  assumes "length cmd < GS_PATH_MAX"
  shows "length (rewrite_channel ht cmd) < GS_PATH_MAX"
proof (cases "rewrite_channel ht cmd = cmd")
  case False
  then obtain a r chan where "cmd = a @ SET_CHANNEL @ r" "strstr cmd SET_CHANNEL = Some (SET_CHANNEL @ r)"
    "chan = takeWhile (\<lambda>c. c \<noteq> CHR '' '') r" "chan \<noteq> []" "length chan < 8" "length (a @ SET_CHANNEL @ chan @ '' '' @ ht) < GS_PATH_MAX"
    "rewrite_channel ht cmd = a @ SET_CHANNEL @ chan @ '' '' @ ht"
    by (rule rewrite_cases)
  then show ?thesis by simp
qed (simp add: assms)

text \<open>What a rewritten command keeps: everything up to and including the channel number.\<close>

definition width_only :: "string \<Rightarrow> string \<Rightarrow> string \<Rightarrow> bool" where
  "width_only ht cmd cmd' = (cmd' = cmd \<or> (\<exists>a chan rest. cmd = a @ ''set channel '' @ chan @ rest \<and> chan \<noteq> [] \<and> CHR '' '' \<notin> set chan
     \<and> (rest = [] \<or> hd rest = CHR '' '') \<and> cmd' = a @ ''set channel '' @ chan @ '' '' @ ht))"

lemma rewrite_keeps: "width_only ht cmd (rewrite_channel ht cmd)"
proof (cases "rewrite_channel ht cmd = cmd")
  case False
  then obtain a r chan where f: "cmd = a @ SET_CHANNEL @ r" "strstr cmd SET_CHANNEL = Some (SET_CHANNEL @ r)"
    "chan = takeWhile (\<lambda>c. c \<noteq> CHR '' '') r" "chan \<noteq> []" "length chan < 8" "length (a @ SET_CHANNEL @ chan @ '' '' @ ht) < GS_PATH_MAX"
    "rewrite_channel ht cmd = a @ SET_CHANNEL @ chan @ '' '' @ ht"
    by (rule rewrite_cases)
  define rest where "rest = dropWhile (\<lambda>c. c \<noteq> CHR '' '') r"
  have "r = chan @ rest" by (simp add: f(3) rest_def)
  moreover have "CHR '' '' \<notin> set chan" unfolding f(3) by (auto dest: set_takeWhileD)
  moreover have "rest = [] \<or> hd rest = CHR '' ''" unfolding rest_def using hd_dropWhile [of "\<lambda>c. c \<noteq> CHR '' ''" r] by blast
  ultimately show ?thesis unfolding width_only_def SET_CHANNEL_def [symmetric]
    using f(1,4,7) by (intro disjI2 exI [of _ a] exI [of _ chan] exI [of _ rest]) (simp only: simp_thms)
qed (simp add: width_only_def)

lemma upd_named_commute:
  assumes "\<And>t. gt_name (h t) = gt_name t" "\<And>t. h (f t) = f (h t)"
  shows "upd_named n f (map h us) = map h (upd_named n f us)"
  by (induction us) (simp_all add: assms)

lemma upd_named_twice:
  assumes "\<And>t. gt_name (f t) = gt_name t" "\<And>t. gt_name (g t) = gt_name t" "n \<noteq> m"
  shows "upd_named n f (upd_named m g us) = upd_named m g (upd_named n f us)"
  using assms(3) by (induction us) (simp_all add: assms(1,2))

lemma upd_named_idem: "(\<And>t. gt_name (f t) = gt_name t) \<Longrightarrow> (\<And>t. f (f t) = f t) \<Longrightarrow> upd_named n f (upd_named n f us) = upd_named n f us"
  by (induction us) simp_all

lemma overlay_link_swap: "n \<noteq> m \<Longrightarrow> overlay_link js ts i n (overlay_link js ts i m us) = overlay_link js ts i m (overlay_link js ts i n us)"
  by (simp add: overlay_link_def upd_named_twice split: option.split)

lemma overlay_link_idem: "overlay_link js ts i n (overlay_link js ts i n us) = overlay_link js ts i n us"
  by (simp add: overlay_link_def upd_named_idem split: option.split)

lemma overlay_link_tx: "overlay_link js ts i n (map (overlay_tx a b d e) us) = map (overlay_tx a b d e) (overlay_link js ts i n us)"
  by (simp add: overlay_link_def split: option.split) (intro allI impI upd_named_commute; simp add: overlay_tx_def)

lemma overlay_tx_idem: "overlay_tx a b d e (overlay_tx a b d e t) = overlay_tx a b d e t"
  by (simp add: overlay_tx_def set_if_def)

lemma valid_ht_blank: "valid_ht ht \<Longrightarrow> CHR '' '' \<notin> set ht"
  by (auto simp: valid_ht_def)

text \<open>The overlay as one map per field of the configuration.\<close>

definition overlay_tunnels :: "string \<Rightarrow> jtok list \<Rightarrow> tunnel list \<Rightarrow> tunnel list" where
  "overlay_tunnels js ts us = map (overlay_tx (overlay_int js ts ''fec'' ''k'') (overlay_int js ts ''fec'' ''n'')
       (overlay_int js ts ''mcs'' ''boot'') (overlay_int js ts ''radio'' ''bw''))
     (case sub_object js ts 0 ''links'' of None \<Rightarrow> us | Some i \<Rightarrow> fold (overlay_link js ts i) [''video'', ''uplink'', ''probe''] us)"

definition overlay_up :: "string \<Rightarrow> jtok list \<Rightarrow> string list \<Rightarrow> string list" where
  "overlay_up js ts cmds =
     (case do { i \<leftarrow> sub_object js ts 0 ''radio''; v \<leftarrow> jfind js ts i ''htmode''; jstr js (ts ! v) 8 } of
        None \<Rightarrow> cmds | Some ht \<Rightarrow> if valid_ht ht then map (rewrite_channel ht) cmds else cmds)"

definition overlay_file :: "string \<Rightarrow> jtok list \<Rightarrow> string \<Rightarrow> string" where
  "overlay_file js ts old =
     (case sub_object js ts 0 ''key'' of None \<Rightarrow> old | Some i \<Rightarrow> soft_field js ts i ''file'' (\<lambda>v. jstr js v GS_PATH_MAX) old)"

lemma overlay_fields:
  "cfg_apply_wfb_link_overlay file c = (case read_object file of None \<Rightarrow> c
     | Some (js, ts) \<Rightarrow> c\<lparr>cf_key_file := overlay_file js ts (cf_key_file c), cf_up := overlay_up js ts (cf_up c),
         cf_tunnels := overlay_tunnels js ts (cf_tunnels c)\<rparr>)"
  by (simp add: cfg_apply_wfb_link_overlay_def overlay_file_def overlay_up_def overlay_tunnels_def overlay_key_def overlay_links_def
      overlay_htmode_def Let_def split: option.split)

lemma overlay_file_idem: "overlay_file js ts (overlay_file js ts old) = overlay_file js ts old"
  by (simp add: overlay_file_def soft_field_def split: option.split)

lemma overlay_up_idem: "overlay_up js ts (overlay_up js ts cmds) = overlay_up js ts cmds"
  by (simp add: overlay_up_def rewrite_idem valid_ht_blank split: option.split)

lemma overlay_tunnels_idem: "overlay_tunnels js ts (overlay_tunnels js ts us) = overlay_tunnels js ts us"
proof (cases "sub_object js ts 0 ''links''")
  case None
  then show ?thesis by (simp add: overlay_tunnels_def overlay_tx_idem)
next
  case (Some i)
  let ?v = "overlay_link js ts i ''video''" and ?u = "overlay_link js ts i ''uplink''" and ?p = "overlay_link js ts i ''probe''"
  have "?p (?u (?v (?p (?u (?v us))))) = ?p (?p (?u (?u (?v (?v us)))))"
    by (simp add: overlay_link_swap [of "''video''" "''probe''"] overlay_link_swap [of "''video''" "''uplink''"]
        overlay_link_swap [of "''uplink''" "''probe''"])
  then have "?p (?u (?v (?p (?u (?v us))))) = ?p (?u (?v us))" by (simp only: overlay_link_idem)
  then show ?thesis using Some by (simp add: overlay_tunnels_def overlay_link_tx overlay_tx_idem)
qed

lemma overlay_tunnels_frame: "map overlay_frame (overlay_tunnels js ts us) = map overlay_frame us"
  by (simp add: overlay_tunnels_def o_def overlay_tx_frame overlay_link_frame split: option.split)

lemma frames_ok:
  assumes "map overlay_frame us = map overlay_frame us'"
  shows "list_all tunnel_ok us = list_all tunnel_ok us'" "list_all probe_forward_ok us = list_all probe_forward_ok us'"
proof -
  have l: "length us = length us'" using arg_cong [OF assms, of length] by simp
  have "overlay_frame (us ! i) = overlay_frame (us' ! i)" if "i < length us" for i
    using arg_cong [OF assms, of "\<lambda>x. x ! i"] that l by simp
  then have "tunnel_ok (us ! i) = tunnel_ok (us' ! i) \<and> probe_forward_ok (us ! i) = probe_forward_ok (us' ! i)" if "i < length us" for i
    using that frame_ok by blast
  then show "list_all tunnel_ok us = list_all tunnel_ok us'" "list_all probe_forward_ok us = list_all probe_forward_ok us'"
    using l by (auto simp: list_all_length)
qed

lemma overlay_ok: "config_ok c \<Longrightarrow> config_ok (cfg_apply_wfb_link_overlay file c)"
proof (cases "read_object file")
  case (Some x)
  assume ok: "config_ok c"
  obtain js ts where x: "x = (js, ts)" by (metis prod.collapse)
  note fr = overlay_tunnels_frame [of js ts "cf_tunnels c"]
  have "length (overlay_tunnels js ts (cf_tunnels c)) = length (cf_tunnels c)" using arg_cong [OF fr, of length] by simp
  moreover have "length (overlay_up js ts (cf_up c)) = length (cf_up c)" by (simp add: overlay_up_def split: option.split)
  moreover have "\<forall>s \<in> set (overlay_up js ts (cf_up c)). length s < GS_PATH_MAX"
    using ok by (auto simp: overlay_up_def config_ok_def rewrite_length split: option.split)
  ultimately show ?thesis using ok frames_ok [OF fr] by (simp add: overlay_fields Some x config_ok_def)
qed (simp add: overlay_fields)

text \<open>C16: what an accepted configuration promises.  Whatever the configuration file, the overlay and the port option are, the
  supervisor starts only with one to eight tunnels.  Each is an rx or a tx tunnel with one to four interfaces, its texts
  fit their buffers, it is stopped and has no process and no open listener; a probe tunnel is an rx tunnel, has a window
  between 100 ms and 10 s, and sends its payload to an explicit port other than the video port 5600; there are at most 32
  commands each for bringing the adapters up and down.\<close>

theorem config_sound:
  assumes "main_config file link port = Some c"
  shows "config_ok c
    \<and> (\<forall>t \<in> set (cf_tunnels c). tn_probe t \<longrightarrow> tn_udp_out_ip t \<noteq> [] \<and> 1 \<le> tn_udp_out_port t \<and> tn_udp_out_port t \<le> 65535
      \<and> tn_udp_out_port t \<noteq> 5600)
    \<and> (\<forall>t \<in> set (su_tunnels (sup_of_config c w)). tp_pid (tn_proc t) \<le> 0 \<and> tp_state (tn_proc t) = TS_STOPPED)"
proof -
  obtain c0 where c0: "cfg_load file = Some c0" using assms by (auto simp: main_config_def split: option.splits)
  have "config_ok (cfg_apply_wfb_link_overlay link c0)" by (rule overlay_ok [OF load_ok [OF c0]])
  then have ok: "config_ok c" using assms c0 by (auto simp: main_config_def Let_def config_ok_def split: if_splits)
  moreover have "\<forall>t \<in> set (cf_tunnels c). tn_probe t \<longrightarrow> tn_udp_out_ip t \<noteq> [] \<and> 1 \<le> tn_udp_out_port t \<and> tn_udp_out_port t \<le> 65535
      \<and> tn_udp_out_port t \<noteq> 5600"
    using ok by (auto simp: config_ok_def list_all_iff tunnel_ok_def probe_forward_ok_def forward_port_def)
  moreover have "\<forall>t \<in> set (su_tunnels (sup_of_config c w)). tp_pid (tn_proc t) \<le> 0 \<and> tp_state (tn_proc t) = TS_STOPPED"
    using ok by (auto simp: config_ok_def list_all_iff tunnel_ok_def sup_of_config_def)
  ultimately show ?thesis by blast
qed


lemma profile_default_uplink:
  assumes "case sub_object js ts 0 ''venc_cmd'' of None \<Rightarrow> True | Some i \<Rightarrow> jfind js ts i ''uplink_tunnel'' = None" "cf_cmd_uplink c = []"
  shows "cf_cmd_uplink (load_telemetry js ts (load_commands js ts c)) = []"
  using assms by (simp add: load_telemetry_def load_commands_def soft_str_def Let_def split: option.splits)

lemma load_system_cmds: "load_system js ts c = Some c' \<Longrightarrow> cf_cmd_uplink c' = cf_cmd_uplink c"
  by (auto simp: load_system_def bind_eq_Some_conv split: option.splits)

text \<open>C19: what a profile stands for.  A configuration accepted with a profile has exactly three tunnels: video (link 207) and
  probe (link 50) listening on all its interfaces, and the uplink (link 208) sending on one of them.  Both listeners send
  their statistics to the port the uplink takes its input from, so the vehicle gets them; the probe payload goes to a dead
  port.  The adapters are set to the channel and width before the configured commands run, and taken down after them.
  Unless the file names another uplink tunnel, commands are on and leave through the uplink, even when the file says
  \<open>"enabled": false\<close>.\<close>

theorem profile_topology:
  assumes "cfg_load (Some js) = Some c" "json_parse js JSON_MAX_TOKS = Some ts" "jfind js ts 0 ''profile'' \<noteq> None"
  shows "\<exists>ifaces iface channel ht txpower video probe uplink up down.
      1 \<le> length ifaces \<and> length ifaces \<le> 4 \<and> iface \<in> set ifaces \<and> 1 \<le> channel \<and> channel \<le> 200 \<and> valid_ht ht
      \<and> 0 \<le> txpower \<and> txpower \<le> 4000
      \<and> cf_tunnels c = [video, probe, uplink]
      \<and> map gt_role (cf_tunnels c) = [''rx'', ''rx'', ''tx''] \<and> map tn_link_id (cf_tunnels c) = [207, 50, 208]
      \<and> map gt_ifaces (cf_tunnels c) = [ifaces, ifaces, [iface]]
      \<and> map tn_probe (cf_tunnels c) = [False, True, False] \<and> map forward_port [video, probe] = [5600, 5751]
      \<and> map tn_stats_out [video, probe] = replicate 2 (''127.0.0.1:'' @ show_int (gt_udp_in_port uplink))
      \<and> cf_up c = concat (map (iface_up_cmds channel ht txpower) ifaces) @ up
      \<and> cf_down c = down @ map (\<lambda>i. ''ip link set '' @ i @ '' down'') ifaces
      \<and> ((case sub_object js ts 0 ''venc_cmd'' of None \<Rightarrow> True | Some i \<Rightarrow> jfind js ts i ''uplink_tunnel'' = None)
          \<longrightarrow> cf_cmd_on c \<and> gs_tx_port (gs_config_of c) (cf_cmd_uplink c) = Some (gt_udp_in_port uplink))"
proof -
  let ?c0 = "load_http js ts (cfg_defaults\<lparr>cf_key_file := soft_str js ts 0 ''key_file'' GS_PATH_MAX []\<rparr>)"
  obtain js' ts' c1 where l: "read_object (Some js) = Some (js', ts')"
    "load_system js' ts' (load_http js' ts' (cfg_defaults\<lparr>cf_key_file := soft_str js' ts' 0 ''key_file'' GS_PATH_MAX []\<rparr>)) = Some c1"
    "load_topology js' ts' (load_telemetry js' ts' (load_commands js' ts' c1)) = Some c"
    using assms(1) unfolding cfg_load_def by (auto simp: bind_eq_Some_conv check_some Let_def)
  have js: "js' = js" "ts' = ts" using l(1) assms(2) by (auto simp: read_object_def split: if_splits)
  define c2 where "c2 = load_telemetry js ts (load_commands js ts c1)"
  obtain p where p: "jfind js ts 0 ''profile'' = Some p" using assms(3) by auto
  then have "cfg_expand_profile js ts p c2 = Some c" using l(3) by (auto simp: load_topology_def js c2_def split: option.splits if_splits)
  then obtain ifaces uplink channel ht txpower dir where f:
    "1 \<le> length ifaces" "length ifaces \<le> GS_MAX_IFACES" "\<forall>i \<in> set ifaces. length i < IFNAMSIZ" "uplink \<in> set ifaces"
    "1 \<le> channel" "channel \<le> 200" "valid_ht ht" "0 \<le> txpower" "txpower \<le> 4000"
    "push_cmds (concat (map (iface_up_cmds channel ht txpower) ifaces) @ cf_up c2) [] = Some (cf_up c)"
    "push_cmds (map (\<lambda>i. ''ip link set '' @ i @ '' down'') ifaces) (cf_down c2) = Some (cf_down c)"
    "cf_tunnels c = [profile_video dir ifaces, profile_probe dir ifaces, profile_uplink dir uplink]"
    "cf_cmd_on c = (cf_cmd_uplink c2 = [] \<or> cf_cmd_on c2)" "cf_cmd_uplink c = (if cf_cmd_uplink c2 = [] then ''uplink'' else cf_cmd_uplink c2)"
    by (rule profile_shape)
  have up: "cf_up c = concat (map (iface_up_cmds channel ht txpower) ifaces) @ cf_up c2" using conjunct1 [OF push_ok [OF f(10)]] by (simp only: append_Nil)
  have dn: "cf_down c = cf_down c2 @ map (\<lambda>i. ''ip link set '' @ i @ '' down'') ifaces" by (rule conjunct1 [OF push_ok [OF f(11)]])
  have n: "length ifaces \<le> 4" using f(2) by (simp only: cfg_sizes)
  let ?v = "profile_video dir ifaces" and ?p = "profile_probe dir ifaces" and ?u = "profile_uplink dir uplink"
  note defs = profile_video_def profile_probe_def profile_uplink_def profile_set_binary_def tunnel_init_defaults_def
  have t: "map gt_role (cf_tunnels c) = [''rx'', ''rx'', ''tx'']" "map tn_link_id (cf_tunnels c) = [207, 50, 208]"
    "map gt_ifaces (cf_tunnels c) = [ifaces, ifaces, [uplink]]" "map tn_probe (cf_tunnels c) = [False, True, False]"
    "map forward_port [?v, ?p] = [5600, 5751]"
    by (simp_all add: f(12) defs forward_port_def)
  have s6600: "show_int 6600 = ''6600''" by (simp add: show_int_def show_nat.simps [of 6600] show_nat.simps [of 660] show_nat.simps [of 66]
      show_nat.simps [of 6] digit_char_def char_of_def bit_0)
  have so: "map tn_stats_out [?v, ?p] = replicate 2 (''127.0.0.1:'' @ show_int (gt_udp_in_port ?u))" "gt_udp_in_port ?u = 6600"
    by (simp_all add: defs s6600 numeral_2_eq_2)
  have cmd: "cf_cmd_on c \<and> gs_tx_port (gs_config_of c) (cf_cmd_uplink c) = Some (gt_udp_in_port ?u)"
    if "case sub_object js ts 0 ''venc_cmd'' of None \<Rightarrow> True | Some i \<Rightarrow> jfind js ts i ''uplink_tunnel'' = None"
  proof -
    have "cf_cmd_uplink c1 = []" using load_system_cmds [OF l(2)] by (simp add: load_http_def cfg_defaults_def split: option.splits)
    then have "cf_cmd_uplink c2 = []" unfolding c2_def by (rule profile_default_uplink [OF that])
    then have "cf_cmd_on c" "cf_cmd_uplink c = ''uplink''" using f(13,14) by simp_all
    then show ?thesis
      by (simp add: gs_tx_port_def gs_tx_tunnel_def gs_config_of_def f(12) defs gs_tunnel.truncate_def)
  qed
  show ?thesis
    by (rule exI [of _ ifaces], rule exI [of _ uplink], rule exI [of _ channel], rule exI [of _ ht], rule exI [of _ txpower],
        rule exI [of _ ?v], rule exI [of _ ?p], rule exI [of _ ?u], rule exI [of _ "cf_up c2"], rule exI [of _ "cf_down c2"])
      (intro conjI f(1,4-9,12) n t so(1) up dn impI cmd)
qed

section \<open>An example\<close>

definition demo_config :: string where
  "demo_config = ''{\"profile\":{\"ifaces\":[\"wlan0\"],\"channel\":161},\"venc_cmd\":{\"enabled\":false}}''"

definition demo_config_toks :: "jtok list" where
  "demo_config_toks = [
     \<lparr> jt_type = JT_OBJ, jt_start = 0, jt_end = 75, jt_size = 4, jt_parent = None \<rparr>,
     \<lparr> jt_type = JT_STR, jt_start = 2, jt_end = 9, jt_size = 0, jt_parent = Some 0 \<rparr>,
     \<lparr> jt_type = JT_OBJ, jt_start = 11, jt_end = 45, jt_size = 4, jt_parent = Some 0 \<rparr>,
     \<lparr> jt_type = JT_STR, jt_start = 13, jt_end = 19, jt_size = 0, jt_parent = Some 2 \<rparr>,
     \<lparr> jt_type = JT_ARR, jt_start = 21, jt_end = 30, jt_size = 1, jt_parent = Some 2 \<rparr>,
     \<lparr> jt_type = JT_STR, jt_start = 23, jt_end = 28, jt_size = 0, jt_parent = Some 4 \<rparr>,
     \<lparr> jt_type = JT_STR, jt_start = 32, jt_end = 39, jt_size = 0, jt_parent = Some 2 \<rparr>,
     \<lparr> jt_type = JT_PRIM, jt_start = 41, jt_end = 44, jt_size = 0, jt_parent = Some 2 \<rparr>,
     \<lparr> jt_type = JT_STR, jt_start = 47, jt_end = 55, jt_size = 0, jt_parent = Some 0 \<rparr>,
     \<lparr> jt_type = JT_OBJ, jt_start = 57, jt_end = 74, jt_size = 2, jt_parent = Some 0 \<rparr>,
     \<lparr> jt_type = JT_STR, jt_start = 59, jt_end = 66, jt_size = 0, jt_parent = Some 9 \<rparr>,
     \<lparr> jt_type = JT_PRIM, jt_start = 68, jt_end = 73, jt_size = 0, jt_parent = Some 9 \<rparr>]"

lemma demo_config_parse: "json_parse demo_config JSON_MAX_TOKS = Some demo_config_toks"
  by (simp add: json_parse_def json_loop.simps json_step_def demo_config_def demo_config_toks_def open_tok_def close_tok_def wfb_json_add_def
      wfb_json_parse_str_def wfb_json_parse_prim_def upd_tok_def bump_def j_blank_def j_stop_def Let_def JSON_MAX_TOKS_def)

text \<open>The walking functions on numerals.\<close>

lemma walk_numerals:
  "jskips ts (numeral n) i = jskips ts (pred_numeral n) (jskip ts i)"
  "jfind_pairs js ts key (numeral n) i = (if jeq js (ts ! i) key then Some (i + 1) else jfind_pairs js ts key (pred_numeral n) (jskip ts (jskip ts i)))"
  by (simp_all add: numeral_eq_Suc)

lemma demo_config_finds:
  "jfind demo_config demo_config_toks 0 ''profile'' = Some 2" "jfind demo_config demo_config_toks 2 ''ifaces'' = Some 4"
  by (simp_all add: jfind_def demo_config_toks_def demo_config_def jeq_def jskip.simps jkids_def walk_numerals)

lemma demo_config_loads: "\<exists>c. cfg_load (Some demo_config) = Some c"
proof -
  have r: "read_object (Some demo_config) = Some (demo_config, demo_config_toks)"
    by (simp add: read_object_def demo_config_parse) (simp add: demo_config_def demo_config_toks_def)
  note walk = jfind_def demo_config_toks_def demo_config_def jeq_def jskip.simps jkids_def walk_numerals
  have n: "jfind demo_config demo_config_toks 0 ''system'' = None" "jfind demo_config demo_config_toks 0 ''tunnels'' = None"
    "jfind demo_config demo_config_toks 2 ''uplink_iface'' = None" "jfind demo_config demo_config_toks 2 ''channel'' = Some 7"
    "jfind demo_config demo_config_toks 2 ''ht'' = None" "jfind demo_config demo_config_toks 2 ''txpower_mbm'' = None"
    "jfind demo_config demo_config_toks 2 ''wfb_bin_dir'' = None"
    by (simp_all add: walk)
  have i: "parse_ifaces demo_config demo_config_toks 4 = Some [''wlan0'']"
    by (simp add: parse_ifaces_def demo_config_toks_def demo_config_def jstr_def jspan_def c_str_def cfg_sizes jskip.simps jkids_def)
  have c: "jint demo_config (demo_config_toks ! 7) = Some 161"
    by (simp add: jint_def demo_config_toks_def demo_config_def jspan_def c_str_def strtoll_def strto_def Let_def c_isspace_def c_isdigit_def
        digits_val_def digit_val_def LLONG_MIN_def LLONG_MAX_def)
  have t: "jt_type (demo_config_toks ! 2) = JT_OBJ" by (simp add: demo_config_toks_def)
  have s161: "length (show_int 161) = 3"
    by (simp add: show_int_def show_nat.simps [of 161] show_nat.simps [of 16] show_nat.simps [of "Suc 0"])
  have e: "\<exists>c'. cfg_expand_profile demo_config demo_config_toks 2 c = Some c'" if "cf_up c = []" "cf_down c = []" for c
    by (simp add: cfg_expand_profile_def demo_config_finds i opt_field_def req_field_def n c check_def that iface_up_cmds_def
        profile_push_cmd_def cfg_sizes s161)
  let ?c0 = "load_http demo_config demo_config_toks (cfg_defaults\<lparr>cf_key_file := soft_str demo_config demo_config_toks 0 ''key_file'' GS_PATH_MAX []\<rparr>)"
  let ?c2 = "load_telemetry demo_config demo_config_toks (load_commands demo_config demo_config_toks ?c0)"
  have s: "load_system demo_config demo_config_toks ?c0 = Some ?c0" by (simp add: load_system_def sub_object_def n)
  obtain c' where c': "cfg_expand_profile demo_config demo_config_toks 2 ?c2 = Some c'"
    using e [of ?c2] by (auto simp: load_keeps cfg_defaults_def)
  have "load_topology demo_config demo_config_toks ?c2 = Some c'" by (simp add: load_topology_def demo_config_finds n t c')
  moreover have "list_all probe_forward_ok (cf_tunnels c')"
    using c'
  proof (rule profile_shape)
    fix ifaces uplink channel ht txpower dir
    assume "1 \<le> length ifaces" "length ifaces \<le> GS_MAX_IFACES" "\<forall>i \<in> set ifaces. length i < IFNAMSIZ" "uplink \<in> set ifaces"
      "cf_tunnels c' = [profile_video dir ifaces, profile_probe dir ifaces, profile_uplink dir uplink]"
    then show ?thesis using profile_tunnels_ok(2) by metis
  qed
  ultimately have "cfg_load (Some demo_config) = Some c'" by (simp add: cfg_load_def r s check_def)
  then show ?thesis by blast
qed

theorem config_sound_witness:
  "\<exists>c. main_config (Some demo_config) None 8080 = Some c \<and> config_ok c \<and> cf_http_port c = 8080"
proof -
  obtain c0 where c0: "cfg_load (Some demo_config) = Some c0" using demo_config_loads by blast
  then have m: "main_config (Some demo_config) None 8080 = Some (c0\<lparr>cf_http_port := 8080\<rparr>)"
    by (simp add: main_config_def overlay_fields read_object_def)
  show ?thesis using conjunct1 [OF config_sound [OF m, where w = "()"]] m by (intro exI [of _ "c0\<lparr>cf_http_port := 8080\<rparr>"]) simp
qed


theorem profile_topology_witness:
  "\<exists>c. cfg_load (Some demo_config) = Some c \<and> map tn_link_id (cf_tunnels c) = [207, 50, 208] \<and> cf_cmd_on c
     \<and> gs_tx_port (gs_config_of c) (cf_cmd_uplink c) \<noteq> None"
proof -
  obtain c where c: "cfg_load (Some demo_config) = Some c" using demo_config_loads by blast
  have "sub_object demo_config demo_config_toks 0 ''venc_cmd'' = Some 9" "jfind demo_config demo_config_toks 9 ''uplink_tunnel'' = None"
    by (simp_all add: sub_object_def jfind_def demo_config_toks_def demo_config_def jeq_def jskip.simps jkids_def walk_numerals)
  then show ?thesis
    using profile_topology [OF c demo_config_parse] demo_config_finds(1) c by (intro exI [of _ c]) auto
qed

end
