(* ===== verification/Spec2Isabelle.thy ===== *)
theory Spec2Isabelle
  imports CFloat Prelude CString WireProto LinkConfig Logger SysEnv FecController RadioBudget
    McsCommit Scorer Selector WcmdProxy CsaReceiver Recovery Tunables ControlApi
    Ground GroundHop GroundTunnel GroundChildren GroundSafety GroundStop GroundEnds LinkLoop LinkSafety EndToEnd GroundStats GroundProbe ProbeDelivery
    ProbeSafety GroundJson JsonTokens JsonRead GroundConfig ConfigSafety
begin

text \<open>
  A model of waybeam's adaptive video link: the vehicle's controller, \<open>vehicle/link_controller.c\<close> with
  \<open>vehicle/csa/csa.c\<close>, and the part of the ground supervisor that commands it
  (\<open>ground/gs_supervisor*.c\<close>).

  \<^bold>\<open>The program.\<close>  One thread on the vehicle waits in \<open>poll()\<close>.  Reception reports from the ground arrive on
  the \<open>rx_ant\<close> socket; the scorer smooths them, the selector decides the modulation (MCS), and a
  commit writes it to \<open>wfb_tx\<close>: upwards at once, downwards only after the encoder was told a lower
  bitrate, with the radio write deferred.  Frame sizes arrive from the encoder's sidecar; the FEC
  controller sizes the block \<open>(k, n)\<close> and the bitrate follows the budget the radio and the block leave.
  On the same \<open>rx_ant\<close> socket come WCMD command frames and \<open>csa_commit\<close> frames that schedule a channel
  hop; a separate open socket carries one recovery command; an HTTP API reads and sets tunables.
  The ground supervisor starts and watches one \<open>wfb_rx\<close> or \<open>wfb_tx\<close> process per tunnel, and turns HTTP requests
  into bursts of WCMD frames and into coordinated hops and scans of its own adapters.

  \<^bold>\<open>Theories, in import order.\<close>
  \<^item> \<open>CFloat\<close>: single and double precision rounding on rationals, monotone and exact on small integers;
    \<open>Prelude\<close>: words, lists, C integer conversions, the word types; \<open>CString\<close>: \<open>strstr\<close>, \<open>strtol\<close> and the JSON
    scrapers of both files; \<open>WireProto\<close>: the datagrams of \<open>shared/wcmd_proto.h\<close>, \<open>shared/wfb_control.h\<close>
    and the sidecar, with a locale of codecs.
  \<^item> \<open>LinkConfig\<close>: \<open>Config\<close> and its defaults; \<open>SysEnv\<close>: HTTP, \<open>wfb_tx\<close> round trips and forked commands over a
    record of outside calls, each logged in a trace; \<open>Logger\<close>: SD sessions.
  \<^item> \<open>FecController\<close> (frame window, block size, grace, hysteresis, frame rate), \<open>RadioBudget\<close> (PHY rate, payload
    tiers, airtime guard, \<open>bitrate_assert\<close>), \<open>McsCommit\<close>, \<open>Scorer\<close>, \<open>Selector\<close> (control law, flap guard, failsafe).
  \<^item> \<open>WcmdProxy\<close> (\<open>wcmd_dispatch\<close>), \<open>CsaReceiver\<close>, \<open>Recovery\<close>, \<open>Tunables\<close> and \<open>ControlApi\<close> (the HTTP routes).
  \<^item> \<open>LinkLoop\<close>: the state of \<open>main\<close>, what each socket and each timer does, start-up and one pass of the loop;
    \<open>LinkSafety\<close>: the invariants of the components carried through the loop, and properties of paths that
    cross components.
  \<^item> \<open>Ground\<close> (query strings, commands, recovery requests, log sync), \<open>GroundHop\<close> (hops and scans) and
    \<open>GroundTunnel\<close>: the processes of the tunnels (\<open>tunnel_spawn\<close>, \<open>tunnel_on_exit\<close>, \<open>supervisor_tick\<close>,
    \<open>supervisor_reap\<close>, bringing up, taking down, the system and tunnel routes).  \<open>GroundChildren\<close> and
    \<open>GroundSafety\<close>: who owns which child, over all reachable states; \<open>GroundStop\<close>: what follows a stop;
    \<open>GroundEnds\<close>: the waits end, crash loops are paced.
  \<^item> \<open>GroundStats\<close>: the statistics sockets of the tunnels, the counters read from \<open>wfb_rx\<close> and \<open>wfb_tx\<close>, the boundary
    probe's producer.  \<open>GroundProbe\<close>, \<open>ProbeDelivery\<close>, \<open>ProbeSafety\<close>: its records as the vehicle reads them.
  \<^item> \<open>GroundJson\<close>: the tokenizer of \<open>shared/wfb_json.h\<close>; \<open>JsonTokens\<close>: it stays in bounds; \<open>JsonRead\<close>: it reads back what
    was written.  \<open>GroundConfig\<close>: \<open>cfg_load\<close>, the profile, the overlay and the start-up state; \<open>ConfigSafety\<close>: what an
    accepted configuration promises.
  \<^item> \<open>EndToEnd\<close> and this theory: what the ground sends is what the vehicle does.

  A C struct is a record with the struct's fields, in-out parameters are returned updated, \<open>goto\<close>-free
  error paths are options or result types, \<open>float\<close> and \<open>double\<close> arithmetic rounds after each operation,
  \<open>uint64_t\<close> microseconds are 64-bit words.  Clocks, sockets, the file system and child processes are
  parameters: arbitrary functions of an abstract world, so a theorem holds for whatever they answer.

  \<^bold>\<open>What the lemmas show.\<close>  Per component: an invariant and its preservation (\<open>Selector\<close>, \<open>Scorer\<close>, \<open>Tunables\<close>,
  \<open>FecController\<close>), the effect of each operation on every branch, bounds of what is computed, exact
  conditions of each write.  \<open>LinkSafety.loop_state_sound\<close> joins the invariants over all reachable states of
  the loop.  The theorems of this theory follow a request from the ground's HTTP route through its
  datagram to the vehicle's effect.

  \<^bold>\<open>Bounds.\<close>  No definition needs fuel.  The loops over text and lists recurse on them; the draining loops
  of \<open>main\<close> take at most 32 datagrams, as the code does; the burst loops count down.  The two loops that wait for
  the clock (\<open>wait_ifaces\<close>, \<open>stop_wait\<close>) are partial functions with \<open>None\<close> for not returning; \<open>GroundEnds\<close>
  shows that they return when the clock does not run backwards and a sleep lasts as long as asked.

  \<^bold>\<open>Not modelled.\<close>  The text of status documents, logs and JSON replies; \<open>getopt\<close>; sockets, HTTP framing and the
  event stream; the web page and the \<open>/keys\<close> route; the copies kept only for \<open>/status\<close> and the latches that
  only thin out log lines.  On the ground: the interface cache, the control route, telemetry and the SQLite logger.
  \<open>archive/c-poc\<close> is superseded code, \<open>probes/rtp_timing_probe.c\<close> a measuring tool.
\<close>

section \<open>Across the radio link\<close>

text \<open>C1: a command is delivered once.  When the ground reports a command as sent, one to three copies of
  one datagram left for the uplink.  The vehicle's \<open>rx_ant\<close> handler reads from it the same key, value
  and sequence number and answers it; if it answers OK to the first copy to arrive, then any number
  of further copies within the dedup window change nothing of the vehicle, send nothing, and each is answered.\<close>

theorem command_delivered_once:
  assumes "wcmd_emit genv gc key value g = ((0, sq), g')" "0 \<le> key" "key \<le> 255" "- (2 ^ 31) \<le> value" "value < 2 ^ 31"
    and "\<not> wcmd_dup (nat key) sq (lk_now env L) (wx_st (lk_wx L))" "lk_now env L \<noteq> 0"
    and "length (ws_last_seq_us (wx_st (lk_wx L))) = 21" "length (ws_last_seq (wx_st (lk_wx L))) = 21"
    and "\<forall>w. lp_clock env w - lk_now env L < WCMD_BURST_DEDUP_US"
  shows "\<exists>n port bs req resp. 0 < n \<and> n \<le> 3 \<and> gs_tx_port gc (gc_cmd_uplink gc) = Some port
       \<and> gs_trace g' = gs_trace g @ replicate n (GSent port bs)
       \<and> wcmd_req_parse bs = Some req \<and> uint (rq_key req) = key \<and> rq_value req = value \<and> rq_seq req = sq
       \<and> (let L1 = rx_ant_datagram env now peer bs L; Lk = (rx_ant_datagram env now peer bs ^^ k) L1 in
          lk_replies L1 = lk_replies L @ [wcmd_resp_bytes resp]
          \<and> (rs_status resp = WCMD_STATUS_OK \<longrightarrow>
               same_vehicle L1 Lk \<and> length (lk_replies Lk) = length (lk_replies L1) + k))"
  using assms(1)
proof (cases rule: wcmd_emit_trace)
  case (sent n port)
  let ?req = "gs_req sq key value" let ?bs = "wcmd_req_bytes ?req"
  have req: "rq_value ?req = value" "rq_seq ?req = sq" "uint (rq_key ?req) = key"
    using assms(2,3) by (simp_all add: gs_req_def uint_word_of_int)
  have ix: "key_ix ?req = nat key" using arg_cong [OF req(3), of nat] by (simp add: key_ix_def)
  have p: "wcmd_req_parse ?bs = Some ?req" using wcmd_codec.dec_enc [of ?req "[]"] assms(4,5) req(1) by simp
  have len: "length ?bs < 2048" by (simp add: wcmd_req_bytes_def)
  have rx: "rx_ant_datagram env now peer ?bs = rx_wcmd env peer ?req"
    using len p by (intro ext) (simp add: rx_ant_datagram_def)
  obtain resp x io where d: "wcmd_dispatch (lp_sys env) (log_rel_s env L) (lk_now env L) peer ?req (lk_wx L) (lk_io L) = (resp, x, io)"
    by (metis prod_cases3)
  have r: "lk_replies (rx_wcmd env peer ?req L) = lk_replies L @ [wcmd_resp_bytes resp]"
    by (simp add: rx_wcmd_def d Let_def split: option.split)
  have "settled env peer ?req (rx_wcmd env peer ?req L)" if "rs_status resp = WCMD_STATUS_OK"
    using accepted_settled [OF d that _ assms(7-10)] assms(6) by (simp add: ix req)
  note settled_copies [OF this, of k]
  with sent(1-3,8) p req r show ?thesis
    by (intro exI [of _ n] exI [of _ port] exI [of _ ?bs] exI [of _ ?req] exI [of _ resp])
      (simp add: rx Let_def WCMD_BURST_FRAMES_def)
qed simp

text \<open>C6: a recovery request is delivered once.  When the ground reports it as sent, one to eight copies of
  one datagram left for the recovery tunnel.  A vehicle with the backdoor enabled that is neither
  counting nor resting and receives at least \<open>arm_count\<close> of them, inside the arming window and the
  cooldown, runs its hook exactly once, however many arrive.\<close>

theorem recovery_delivered_once:
  assumes "recovery_emit genv gc g = ((0, sq), g')"
    and "rec_enabled (cfg_recovery c)" "rv_arm_hits rv = 0" "sorted (t # ts)" "0 < t"
    and "rv_need (cfg_recovery c) \<le> 1 + int (length ts)"
    and "\<forall>u \<in> set ts. u - t \<le> rv_window_us (cfg_recovery c) \<and> u - t < rv_cooldown_us (cfg_recovery c)"
    and "\<forall>u \<in> set (t # ts). \<not> rv_resting (cfg_recovery c) u rv"
  shows "\<exists>n port bs req. 0 < n \<and> n \<le> 8 \<and> gs_tx_port gc (gc_recovery_tunnel gc) = Some port
       \<and> gs_trace g' = gs_trace g @ replicate n (GSent port bs) \<and> wcmd_req_parse bs = Some req
       \<and> (let (rv', s') = recovery_burst env c req (t # ts) rv s in
            io_trace s' = io_trace s @ hook_events c \<and> rv_armed rv' = rv_armed rv + 1)"
  using assms(1)
proof (rule recovery_emit_trace)
  fix n port
  let ?req = "gs_req sq WCMD_KEY_RECOVERY_APFPV 0" let ?bs = "wcmd_req_bytes ?req"
  assume n: "gs_tx_port gc (gc_recovery_tunnel gc) = Some port" "0 < n" "n \<le> WCMD_RECOVERY_BURST_FRAMES"
    "gs_trace g' = gs_trace g @ replicate n (GSent port ?bs)"
  have p: "wcmd_req_parse ?bs = Some ?req" using wcmd_codec.dec_enc [of ?req "[]"] by (simp add: gs_req_def)
  have k: "uint (rq_key ?req) = WCMD_KEY_RECOVERY_APFPV" by (simp add: gs_req_def proto_consts)
  obtain rv' s' where b: "recovery_burst env c ?req (t # ts) rv s = (rv', s')" by (metis prod.collapse)
  from recovery_burst_once [OF assms(2) k assms(3,4,6,5,7,8) b] n p b show ?thesis
    by (intro exI [of _ n] exI [of _ port] exI [of _ ?bs] exI [of _ ?req])
      (simp add: WCMD_RECOVERY_BURST_FRAMES_def del: recovery_burst.simps)
qed


section \<open>Witnesses\<close>

lemma demo_emit: "\<exists>g'. wcmd_emit demo_gs_env demo_gs_cfg 15 1 (gs_init 5000000) = ((0, 1), g')"
  using demo_query(4)
  by (simp add: wcmd_emit_def demo_ground_calls demo_burst WCMD_BURST_FRAMES_def demo_gs_cfg_def gs_init_def Let_def)

theorem command_delivered_once_witness:
  "\<exists>g' n bs req. wcmd_emit demo_gs_env demo_gs_cfg 15 1 (gs_init 5000000) = ((0, 1), g')
     \<and> gs_trace g' = replicate n (GSent 5700 bs) \<and> 0 < n \<and> wcmd_req_parse bs = Some req \<and> uint (rq_key req) = 15"
proof -
  obtain g' where e: "wcmd_emit demo_gs_env demo_gs_cfg 15 1 (gs_init 5000000) = ((0, 1), g')" using demo_emit by blast
  have p: "gs_tx_port demo_gs_cfg (gc_cmd_uplink demo_gs_cfg) = Some 5700" "gs_trace (gs_init (5000000 :: u64)) = []"
    using demo_query(4) by (simp_all add: demo_gs_cfg_def gs_init_def)
  have w: "wx_st (lk_wx demo_link) = wcmd_state_init" by (simp add: demo_link_def link_init_def)
  have "\<not> wcmd_dup (nat 15) 1 (lk_now demo_loop demo_link) (wx_st (lk_wx demo_link))"
    using demo_fresh [of 15 1 10000000] by (simp add: w)
  moreover have "\<forall>w. lp_clock demo_loop w - lk_now demo_loop demo_link < WCMD_BURST_DEDUP_US"
    by (simp add: demo_loop_def lk_now_def WCMD_BURST_DEDUP_US_def)
  moreover have "length (ws_last_seq_us (wx_st (lk_wx demo_link))) = 21" "length (ws_last_seq (wx_st (lk_wx demo_link))) = 21"
    by (simp_all add: w wcmd_state_init_def)
  ultimately show ?thesis
    using command_delivered_once [OF e, where L = demo_link and env = demo_loop and now = 0 and peer = 0 and k = 1] e p
    by (simp add: Let_def) blast
qed

theorem recovery_delivered_once_witness:
  "\<exists>sq g' n bs req. recovery_emit demo_gs_env demo_gs_cfg (gs_init 5000000) = ((0, sq), g')
     \<and> gs_trace g' = replicate n (GSent 5702 bs) \<and> wcmd_req_parse bs = Some req
     \<and> io_trace (snd (recovery_burst demo_env demo_recovery req [1000, 2000, 3000, 4000] recov_init demo_io))
        = [EvExec [''sh'', ''-c'', ''/etc/wfb/recovery-apfpv.sh'']]"
proof -
  obtain sq g' where e: "recovery_emit demo_gs_env demo_gs_cfg (gs_init 5000000) = ((0, sq), g')"
    using demo_query(5)
    by (simp add: recovery_emit_def demo_ground_calls demo_burst WCMD_RECOVERY_BURST_FRAMES_def demo_gs_cfg_def gs_init_def Let_def)
  have p: "gs_tx_port demo_gs_cfg (gc_recovery_tunnel demo_gs_cfg) = Some 5702" "gs_trace (gs_init (5000000 :: u64)) = []"
    using demo_query(5) by (simp_all add: demo_gs_cfg_def gs_init_def)
  have c: "rv_arm_hits recov_init = 0" "sorted [1000, 2000, 3000, 4000 :: u64]" "(0 :: u64) < 1000"
    "rv_need (cfg_recovery demo_recovery) \<le> 1 + int (length [2000, 3000, 4000 :: u64])"
    "\<forall>u \<in> set [2000, 3000, 4000]. u - 1000 \<le> rv_window_us (cfg_recovery demo_recovery) \<and> u - 1000 < rv_cooldown_us (cfg_recovery demo_recovery)"
    "\<forall>u \<in> set [1000, 2000, 3000, 4000]. \<not> rv_resting (cfg_recovery demo_recovery) u recov_init"
    by (simp_all add: recov_init_def rv_resting_def)
  obtain n port bs req where r: "0 < n" "gs_tx_port demo_gs_cfg (gc_recovery_tunnel demo_gs_cfg) = Some port"
    "gs_trace g' = gs_trace (gs_init (5000000 :: u64)) @ replicate n (GSent port bs)" "wcmd_req_parse bs = Some req"
    "let (rv', s') = recovery_burst demo_env demo_recovery req [1000, 2000, 3000, 4000] recov_init demo_io in
       io_trace s' = io_trace demo_io @ hook_events demo_recovery \<and> rv_armed rv' = rv_armed recov_init + 1"
    using recovery_delivered_once [OF e demo_recovery_fields(1) c, of demo_env demo_io] by blast
  have "io_trace (snd (recovery_burst demo_env demo_recovery req [1000, 2000, 3000, 4000] recov_init demo_io))
      = io_trace demo_io @ hook_events demo_recovery"
    using r(5) unfolding Let_def by (simp only: case_prod_beta)
  then have "io_trace (snd (recovery_burst demo_env demo_recovery req [1000, 2000, 3000, 4000] recov_init demo_io))
      = [EvExec [''sh'', ''-c'', ''/etc/wfb/recovery-apfpv.sh'']]"
    by (simp only: demo_recovery_fields(5)) (simp only: demo_io_def io.simps append_Nil)
  moreover have "port = 5702" using r(2) p(1) by simp
  moreover have "gs_trace g' = replicate n (GSent port bs)" using r(3) p(2) by simp
  ultimately show ?thesis using e r(4) by blast
qed

definition demo_csa_link :: "u8 list link" where
  "demo_csa_link = demo_link\<lparr>lk_csa_cfg := demo_csa_cfg, lk_wx := (lk_wx demo_link)\<lparr>wx_cfg :=
     config_defaults\<lparr>cfg_csa := csa_sub_defaults\<lparr>csa_on := True\<rparr>\<rparr>\<rparr>\<rparr>"

definition hop_query :: "string option" where
  "hop_query = Some ''chan=149&iface=wlan0&ht=HT20&prev_chan=153''"

lemma hop_args:
  "qs_get_int hop_query ''chan'' = Some 149" "qs_find hop_query ''iface'' = Some ''wlan0''" "qs_find hop_query ''ht'' = Some ''HT20''"
  "gs_ifaces_arg demo_gs_cfg ''wlan0'' = Inr [''wlan0'']" "ht_arg ''HT20'' = ''HT20''" "qs_find hop_query ''prev_ht'' = None"
  "qs_get_int hop_query ''prev_chan'' = Some 153" "qs_get_int hop_query ''lead_ms'' = None" "qs_get_int hop_query ''t_revert_ms'' = None"
  by code_simp+

definition demo_hop :: gs_csa where
  "demo_hop = gs_csa_init\<lparr>gc_sess := 1, gc_t_switch_us := 5500000, gc_t_revert_us := 8500000, gc_next_frame_us := 5000000,
     gc_frames_total := 5, gc_target_chan := 149, gc_target_ht := ''HT20'', gc_prev_chan := 153, gc_prev_ht := ''HT20'',
     gc_ifaces := [''wlan0''], gc_phase := CSA_BURST\<rparr>"

definition demo_hop_ground :: "u64 gs" where
  "demo_hop_ground = (gs_init 5000000)\<lparr>gs_world := 5001000, gs_csa_seq := 0, gs_csa_st := demo_hop\<rparr>"

lemma demo_hop_armed: "gs_api_csa demo_gs_env demo_gs_cfg hop_query (gs_init 5000000) = (200, demo_hop_ground)"
proof -
  have z: "qs_find hop_query ''no_revert'' = None" "ht_valid ''HT20''" by code_simp+
  have p: "gs_tx_port demo_gs_cfg (gc_cmd_uplink demo_gs_cfg) \<noteq> None" using demo_query(4) by (simp add: demo_gs_cfg_def)
  have n: "gs_now_us demo_gs_env (gs_init (5000000 :: u64)) = (5000000, (gs_init 5000000)\<lparr>gs_world := 5001000\<rparr>)"
    by (simp add: gs_now_us_def demo_gs_env_def gs_init_def)
  have i: "gs_csa_st (gs_init (5000000 :: u64)) = gs_csa_init" "gs_scan_st (gs_init (5000000 :: u64)) = gs_scan_init"
    by (simp_all add: gs_init_def)
  have o: "or_int d hop_query ''chan'' = 149" "or_int d hop_query ''lead_ms'' = d" "or_int d hop_query ''t_revert_ms'' = d"
    "or_int d hop_query ''prev_chan'' = 153" "or_int d hop_query ''no_revert'' = d" for d
    using z(1) by (simp_all add: or_int_def hop_args) (simp add: qs_get_int_def)
  show ?thesis
    using p by (simp add: gs_api_csa_def hop_args z o i n clamp_def Let_def)
      (simp add: demo_hop_ground_def demo_hop_def upd_csa_def gs_csa_init_def gs_scan_init_def gs_init_def)
qed

lemma demo_hop_sent: "\<exists>g2. csa_send_commit_frame demo_gs_env demo_gs_cfg demo_hop_ground = (0, g2)"
proof -
  have p: "gs_tx_port demo_gs_cfg (gc_cmd_uplink demo_gs_cfg) = Some 5700" using demo_query(4) by (simp add: demo_gs_cfg_def)
  have n: "gs_now_us demo_gs_env demo_hop_ground = (5001000, demo_hop_ground\<lparr>gs_world := 5002000\<rparr>)"
    by (simp add: gs_now_us_def demo_gs_env_def demo_hop_ground_def)
  have "gs_csa_dt 5001000 demo_hop = 499" "gs_csa_revert_ms demo_hop = 3000"
    by (simp_all add: gs_csa_dt_def gs_csa_revert_ms_def demo_hop_def to_i32_id)
  moreover have "length (csa_commit_text 1 0 149 ''HT20'' 499 3000 153 ''HT20'') < 320" by code_simp
  moreover have "gs_sendto demo_gs_env q bs X = ((True, 0), X\<lparr>gs_world := gs_world X + 1000, gs_trace := gs_trace X @ [GSent q bs]\<rparr>)" for q bs X
    by (simp add: gs_sendto_def demo_gs_env_def Let_def)
  moreover have "gs_csa_st demo_hop_ground = demo_hop" "gs_csa_seq demo_hop_ground = 0" "gs_csa_fd demo_hop_ground = False"
    by (simp_all add: demo_hop_ground_def gs_init_def)
  moreover have "gc_sess demo_hop = 1" "gc_target_chan demo_hop = 149" "gc_target_ht demo_hop = ''HT20''" "gc_prev_chan demo_hop = 153"
    "gc_prev_ht demo_hop = ''HT20''" by (simp_all add: demo_hop_def)
  ultimately show ?thesis by (simp add: csa_send_commit_frame_def p n demo_ground_calls Let_def)
qed


end
